(* ===== verification/Prelude.thy ===== *)
theory Prelude
  imports Main "HOL-Library.Word" "HOL-Library.AList" "HOL-Library.Multiset"
begin

text \<open>
  Shared ground of the development: the machine types of the Go sources, Go strings as byte
  strings, the big-endian integer layouts of \<^verbatim>\<open>encoding/binary\<close>, Go maps as association lists,
  Go errors as values with the sentinels that \<^verbatim>\<open>errors.Is\<close> finds in them, the outcomes a handler
  can have, and the collections the component proofs feed to the simplifier.
\<close>

unbundle bit_operations_syntax

section \<open>Collections\<close>

named_theorems xdr_rt \<open>round trips of decoders on encoder output\<close>
named_theorems xdr_defs \<open>definitions of message encoders and decoders\<close>
named_theorems gomap_simps \<open>lookups in and key sets of updated Go maps\<close>

section \<open>Machine types\<close>

type_synonym byte = "8 word"
type_synonym bytes = "byte list"
type_synonym u32 = "32 word"
type_synonym u64 = "64 word"

section \<open>Go strings\<close>

text \<open>A Go \<^verbatim>\<open>string\<close> is a sequence of bytes; it is a HOL \<^typ>\<open>string\<close> here (a \<^typ>\<open>char\<close> is one
  byte). The two conversions are Go's \<^verbatim>\<open>[]byte(s)\<close> and \<^verbatim>\<open>string(b)\<close>.\<close>

definition bytes_of_string :: "string \<Rightarrow> bytes" where
  "bytes_of_string = map (\<lambda>c. of_nat (of_char c))"

definition string_of_bytes :: "bytes \<Rightarrow> string" where
  "string_of_bytes = map (\<lambda>b. char_of (unat b))"

lemma char_of_unat_of_char [simp]: "char_of (unat (of_nat (of_char c) :: byte)) = c"
  by (simp add: unat_of_nat)

lemma unat_byte_mod [simp]: "unat (b :: byte) mod 256 = unat b"
proof -
  have "unat b < 256" using unsigned_less [of b, where ?'a = nat] by simp
  then show ?thesis by simp
qed

lemma string_of_bytes_of_string [simp]: "string_of_bytes (bytes_of_string s) = s"
  by (simp add: string_of_bytes_def bytes_of_string_def comp_def)

lemma bytes_of_string_of_bytes [simp]: "bytes_of_string (string_of_bytes b) = b"
  by (simp add: string_of_bytes_def bytes_of_string_def comp_def)

lemma length_bytes_of_string [simp]: "length (bytes_of_string s) = length s"
  by (simp add: bytes_of_string_def)

lemma length_string_of_bytes [simp]: "length (string_of_bytes b) = length b"
  by (simp add: string_of_bytes_def)

section \<open>Big-endian integers\<close>

text \<open>\<^verbatim>\<open>binary.BigEndian.PutUint32\<close> / \<^verbatim>\<open>PutUint64\<close> and the readers \<^verbatim>\<open>Uint32\<close> / \<^verbatim>\<open>Uint64\<close>
  of Go's standard library. The readers take the first four (eight) bytes; a shorter slice
  panics in Go, so every caller checks the length first.\<close>

definition put_u32 :: "u32 \<Rightarrow> bytes" where
  "put_u32 v = [ucast (drop_bit 24 v), ucast (drop_bit 16 v), ucast (drop_bit 8 v), ucast v]"

definition get_u32 :: "bytes \<Rightarrow> u32" where
  "get_u32 b = push_bit 24 (ucast (b ! 0)) OR push_bit 16 (ucast (b ! 1)) OR
     push_bit 8 (ucast (b ! 2)) OR ucast (b ! 3)"

definition put_u64 :: "u64 \<Rightarrow> bytes" where
  "put_u64 v = put_u32 (ucast (drop_bit 32 v)) @ put_u32 (ucast v)"

definition get_u64 :: "bytes \<Rightarrow> u64" where
  "get_u64 b = push_bit 32 (ucast (get_u32 b)) OR ucast (get_u32 (drop 4 b))"

lemma length_put_u32 [simp]: "length (put_u32 v) = 4"
  by (simp add: put_u32_def)

lemma length_put_u64 [simp]: "length (put_u64 v) = 8"
  by (simp add: put_u64_def)

lemma get_put_u32 [simp]: "get_u32 (put_u32 v @ r) = v"
proof (rule bit_word_eqI)
  fix n assume "n < LENGTH(32)"
  then show "bit (get_u32 (put_u32 v @ r)) n = bit v n"
    by (cases "n < 8"; cases "n < 16"; cases "n < 24")
      (auto simp: get_u32_def put_u32_def bit_simps)
qed

lemma get_put_u64 [simp]: "get_u64 (put_u64 v @ r) = v"
proof (rule bit_word_eqI)
  fix n assume "n < LENGTH(64)"
  then show "bit (get_u64 (put_u64 v @ r)) n = bit v n"
    by (cases "n < 32") (auto simp: get_u64_def put_u64_def bit_simps)
qed

lemma put_get_u32: "put_u32 (get_u32 (a # b # c # d # r)) = [a, b, c, d]"
proof -
  have "ucast (drop_bit 24 (get_u32 (a # b # c # d # r))) = a"
    by (rule bit_word_eqI) (auto simp: get_u32_def bit_simps dest: bit_imp_le_length)
  moreover have "ucast (drop_bit 16 (get_u32 (a # b # c # d # r))) = b"
    by (rule bit_word_eqI) (auto simp: get_u32_def bit_simps dest: bit_imp_le_length)
  moreover have "ucast (drop_bit 8 (get_u32 (a # b # c # d # r))) = c"
    by (rule bit_word_eqI) (auto simp: get_u32_def bit_simps dest: bit_imp_le_length)
  moreover have "ucast (get_u32 (a # b # c # d # r)) = d"
    by (rule bit_word_eqI) (auto simp: get_u32_def bit_simps dest: bit_imp_le_length)
  ultimately show ?thesis by (simp add: put_u32_def)
qed

lemma put_get_u64:
  "put_u64 (get_u64 (a # b # c # d # e # f # g # h # r)) = [a, b, c, d, e, f, g, h]"
proof -
  let ?x = "get_u64 (a # b # c # d # e # f # g # h # r)"
  have "ucast (drop_bit 32 ?x) = get_u32 (a # b # c # d # e # f # g # h # r)"
    by (rule bit_word_eqI) (auto simp: get_u64_def bit_simps dest: bit_imp_le_length)
  moreover have "ucast ?x = get_u32 (e # f # g # h # r)"
    by (rule bit_word_eqI) (auto simp: get_u64_def bit_simps dest: bit_imp_le_length)
  ultimately show ?thesis by (simp add: put_u64_def put_get_u32)
qed

section \<open>Go maps\<close>

text \<open>A Go map is an association list with distinct keys; \<^const>\<open>map_of\<close> looks a key up,
  \<^const>\<open>AList.update\<close> and \<^const>\<open>AList.delete\<close> are \<^verbatim>\<open>m[k] = v\<close> and \<^verbatim>\<open>delete(m, k)\<close>. The order of the
  list is the order in which one \<^verbatim>\<open>range\<close> loop happens to visit the map: Go leaves it open, and a
  theorem about every list covers every order.\<close>

type_synonym ('k, 'v) gomap = "('k \<times> 'v) list"

abbreviation mget :: "('k, 'v) gomap \<Rightarrow> 'k \<Rightarrow> 'v option" where
  "mget m k \<equiv> map_of m k"

abbreviation mput :: "'k \<Rightarrow> 'v \<Rightarrow> ('k, 'v) gomap \<Rightarrow> ('k, 'v) gomap" where
  "mput k v m \<equiv> AList.update k v m"

abbreviation mdel :: "'k \<Rightarrow> ('k, 'v) gomap \<Rightarrow> ('k, 'v) gomap" where
  "mdel k m \<equiv> AList.delete k m"

definition wf_map :: "('k, 'v) gomap \<Rightarrow> bool" where
  "wf_map m \<longleftrightarrow> distinct (map fst m)"

lemma wf_map_Nil [simp]: "wf_map []"
  by (simp add: wf_map_def)

lemma wf_map_mput [simp]: "wf_map m \<Longrightarrow> wf_map (mput k v m)"
  by (simp add: wf_map_def distinct_update)

lemma wf_map_mdel [simp]: "wf_map m \<Longrightarrow> wf_map (mdel k m)"
  by (simp add: wf_map_def distinct_delete)

lemma wf_map_filter [simp]: "wf_map m \<Longrightarrow> wf_map (filter P m)"
  by (simp add: wf_map_def distinct_map_filter)

lemma mget_mput [gomap_simps, simp]: "mget (mput k v m) j = (if j = k then Some v else mget m j)"
  by (simp add: update_conv')

lemma mget_mdel [gomap_simps, simp]: "mget (mdel k m) j = (if j = k then None else mget m j)"
  by (simp add: delete_conv')

lemma mget_filter_key [gomap_simps]:
  "wf_map m \<Longrightarrow> mget (filter (\<lambda>(k, v). P k v) m) j =
     (case mget m j of None \<Rightarrow> None | Some v \<Rightarrow> if P j v then Some v else None)"
  by (induction m) (auto simp: wf_map_def split: option.splits dest: map_of_SomeD
      intro: rev_image_eqI)

lemma mget_in_set: "wf_map m \<Longrightarrow> (k, v) \<in> set m \<longleftrightarrow> mget m k = Some v"
  by (auto simp: wf_map_def map_of_eq_Some_iff)

lemma mget_None_iff: "mget m k = None \<longleftrightarrow> k \<notin> fst ` set m"
  by (simp add: map_of_eq_None_iff)

section \<open>Go errors\<close>

text \<open>An \<^verbatim>\<open>error\<close> value as the code inspects it: the sentinels that \<^verbatim>\<open>errors.Is\<close> finds along its
  chain of wrapped errors, or the code's own \<^verbatim>\<open>msg.Error\<close>, which is found by a type assertion on
  the outermost value only (a wrapped \<^verbatim>\<open>msg.Error\<close> is therefore a \<^term>\<open>GoErr []\<close>).\<close>

datatype sentinel =
    ErrNotExist | ErrExist | ErrPermission | ErrInvalid | ErrInvalidHandle
  | EISDIR | ENOTDIR | ENOTSUP | EOPNOTSUPP | EOF

datatype go_error = GoErr "sentinel list" | NfsError u32

fun errors_is :: "go_error \<Rightarrow> sentinel \<Rightarrow> bool" where
  "errors_is (GoErr ss) s \<longleftrightarrow> s \<in> set ss"
| "errors_is (NfsError _) _ \<longleftrightarrow> False"

section \<open>How a piece of Go code can end\<close>

text \<open>Beside returning a value, code can return a non-nil \<^verbatim>\<open>error\<close>, panic (an out-of-range index or
  a nil dereference; nothing in the server recovers, so the process dies), or not return at all.\<close>

datatype stop = Err go_error | Panic | Hang

type_synonym 'a go = "stop + 'a"

definition go_bind :: "'a go \<Rightarrow> ('a \<Rightarrow> 'b go) \<Rightarrow> 'b go" where
  "go_bind m f = (case m of Inl e \<Rightarrow> Inl e | Inr x \<Rightarrow> f x)"

lemma go_bind_simps [simp]:
  "go_bind (Inl e) f = Inl e"
  "go_bind (Inr x) f = f x"
  by (simp_all add: go_bind_def)

lemma go_bind_eq_Inr: "go_bind m f = Inr y \<longleftrightarrow> (\<exists>x. m = Inr x \<and> f x = Inr y)"
  by (cases m) auto

lemma go_bind_assoc: "go_bind (go_bind m f) g = go_bind m (\<lambda>x. go_bind (f x) g)"
  by (cases m) auto

section \<open>State machines\<close>

text \<open>The states reachable from \<open>I\<close> by steps of \<open>T\<close>, and the proof rule the components use for
  their invariants.\<close>

inductive reach :: "('s \<Rightarrow> bool) \<Rightarrow> ('s \<Rightarrow> 's \<Rightarrow> bool) \<Rightarrow> 's \<Rightarrow> bool" for I T where
  reach_init: "I s \<Longrightarrow> reach I T s"
| reach_step: "reach I T s \<Longrightarrow> T s s' \<Longrightarrow> reach I T s'"

locale transition_invariant =
  fixes I :: "'s \<Rightarrow> bool" and T :: "'s \<Rightarrow> 's \<Rightarrow> bool" and P :: "'s \<Rightarrow> bool"
  assumes init: "I s \<Longrightarrow> P s"
    and step: "P s \<Longrightarrow> T s s' \<Longrightarrow> P s'"
begin

lemma holds: "reach I T s \<Longrightarrow> P s"
  by (induction rule: reach.induct) (auto intro: init step)

end

end
