(* ===== verification/Msg.thy ===== *)
theory Msg
  imports Prelude
begin

text \<open>
  The protocol's numbers (\<^verbatim>\<open>msg/errors.go\<close>, \<^verbatim>\<open>msg/ops.go\<close>, \<^verbatim>\<open>msg/rpc.go\<close>, \<^verbatim>\<open>msg/structs.go\<close>), decimal
  printing and parsing as \<^verbatim>\<open>fmt.Sprintf("%d")\<close> and \<^verbatim>\<open>strconv.ParseUint\<close> do it, operation names, and
  the mapping \<^verbatim>\<open>Err2Status\<close> from Go errors to NFS status codes.
\<close>

section \<open>Status codes (\<^verbatim>\<open>msg/errors.go\<close>)\<close>

abbreviation (input) NFS4_OK :: u32 where "NFS4_OK \<equiv> 0"
abbreviation (input) NFS4ERR_PERM :: u32 where "NFS4ERR_PERM \<equiv> 1"
abbreviation (input) NFS4ERR_NOENT :: u32 where "NFS4ERR_NOENT \<equiv> 2"
abbreviation (input) NFS4ERR_IO :: u32 where "NFS4ERR_IO \<equiv> 5"
abbreviation (input) NFS4ERR_NXIO :: u32 where "NFS4ERR_NXIO \<equiv> 6"
abbreviation (input) NFS4ERR_ACCESS :: u32 where "NFS4ERR_ACCESS \<equiv> 13"
abbreviation (input) NFS4ERR_EXIST :: u32 where "NFS4ERR_EXIST \<equiv> 17"
abbreviation (input) NFS4ERR_XDEV :: u32 where "NFS4ERR_XDEV \<equiv> 18"
abbreviation (input) NFS4ERR_NOTDIR :: u32 where "NFS4ERR_NOTDIR \<equiv> 20"
abbreviation (input) NFS4ERR_ISDIR :: u32 where "NFS4ERR_ISDIR \<equiv> 21"
abbreviation (input) NFS4ERR_INVAL :: u32 where "NFS4ERR_INVAL \<equiv> 22"
abbreviation (input) NFS4ERR_FBIG :: u32 where "NFS4ERR_FBIG \<equiv> 27"
abbreviation (input) NFS4ERR_NOSPC :: u32 where "NFS4ERR_NOSPC \<equiv> 28"
abbreviation (input) NFS4ERR_ROFS :: u32 where "NFS4ERR_ROFS \<equiv> 30"
abbreviation (input) NFS4ERR_MLINK :: u32 where "NFS4ERR_MLINK \<equiv> 31"
abbreviation (input) NFS4ERR_NAMETOOLONG :: u32 where "NFS4ERR_NAMETOOLONG \<equiv> 63"
abbreviation (input) NFS4ERR_NOTEMPTY :: u32 where "NFS4ERR_NOTEMPTY \<equiv> 66"
abbreviation (input) NFS4ERR_DQUOT :: u32 where "NFS4ERR_DQUOT \<equiv> 69"
abbreviation (input) NFS4ERR_STALE :: u32 where "NFS4ERR_STALE \<equiv> 70"
abbreviation (input) NFS4ERR_BADHANDLE :: u32 where "NFS4ERR_BADHANDLE \<equiv> 10001"
abbreviation (input) NFS4ERR_BAD_COOKIE :: u32 where "NFS4ERR_BAD_COOKIE \<equiv> 10003"
abbreviation (input) NFS4ERR_NOTSUPP :: u32 where "NFS4ERR_NOTSUPP \<equiv> 10004"
abbreviation (input) NFS4ERR_TOOSMALL :: u32 where "NFS4ERR_TOOSMALL \<equiv> 10005"
abbreviation (input) NFS4ERR_SERVERFAULT :: u32 where "NFS4ERR_SERVERFAULT \<equiv> 10006"
abbreviation (input) NFS4ERR_BADTYPE :: u32 where "NFS4ERR_BADTYPE \<equiv> 10007"
abbreviation (input) NFS4ERR_DELAY :: u32 where "NFS4ERR_DELAY \<equiv> 10008"
abbreviation (input) NFS4ERR_SAME :: u32 where "NFS4ERR_SAME \<equiv> 10009"
abbreviation (input) NFS4ERR_DENIED :: u32 where "NFS4ERR_DENIED \<equiv> 10010"
abbreviation (input) NFS4ERR_EXPIRED :: u32 where "NFS4ERR_EXPIRED \<equiv> 10011"
abbreviation (input) NFS4ERR_LOCKED :: u32 where "NFS4ERR_LOCKED \<equiv> 10012"
abbreviation (input) NFS4ERR_GRACE :: u32 where "NFS4ERR_GRACE \<equiv> 10013"
abbreviation (input) NFS4ERR_FHEXPIRED :: u32 where "NFS4ERR_FHEXPIRED \<equiv> 10014"
abbreviation (input) NFS4ERR_SHARE_DENIED :: u32 where "NFS4ERR_SHARE_DENIED \<equiv> 10015"
abbreviation (input) NFS4ERR_WRONGSEC :: u32 where "NFS4ERR_WRONGSEC \<equiv> 10016"
abbreviation (input) NFS4ERR_CLID_INUSE :: u32 where "NFS4ERR_CLID_INUSE \<equiv> 10017"
abbreviation (input) NFS4ERR_RESOURCE :: u32 where "NFS4ERR_RESOURCE \<equiv> 10018"
abbreviation (input) NFS4ERR_MOVED :: u32 where "NFS4ERR_MOVED \<equiv> 10019"
abbreviation (input) NFS4ERR_NOFILEHANDLE :: u32 where "NFS4ERR_NOFILEHANDLE \<equiv> 10020"
abbreviation (input) NFS4ERR_MINOR_VERS_MISMATCH :: u32 where "NFS4ERR_MINOR_VERS_MISMATCH \<equiv> 10021"
abbreviation (input) NFS4ERR_STALE_CLIENTID :: u32 where "NFS4ERR_STALE_CLIENTID \<equiv> 10022"
abbreviation (input) NFS4ERR_STALE_STATEID :: u32 where "NFS4ERR_STALE_STATEID \<equiv> 10023"
abbreviation (input) NFS4ERR_OLD_STATEID :: u32 where "NFS4ERR_OLD_STATEID \<equiv> 10024"
abbreviation (input) NFS4ERR_BAD_STATEID :: u32 where "NFS4ERR_BAD_STATEID \<equiv> 10025"
abbreviation (input) NFS4ERR_BAD_SEQID :: u32 where "NFS4ERR_BAD_SEQID \<equiv> 10026"
abbreviation (input) NFS4ERR_NOT_SAME :: u32 where "NFS4ERR_NOT_SAME \<equiv> 10027"
abbreviation (input) NFS4ERR_LOCK_RANGE :: u32 where "NFS4ERR_LOCK_RANGE \<equiv> 10028"
abbreviation (input) NFS4ERR_SYMLINK :: u32 where "NFS4ERR_SYMLINK \<equiv> 10029"
abbreviation (input) NFS4ERR_RESTOREFH :: u32 where "NFS4ERR_RESTOREFH \<equiv> 10030"
abbreviation (input) NFS4ERR_LEASE_MOVED :: u32 where "NFS4ERR_LEASE_MOVED \<equiv> 10031"
abbreviation (input) NFS4ERR_ATTRNOTSUPP :: u32 where "NFS4ERR_ATTRNOTSUPP \<equiv> 10032"
abbreviation (input) NFS4ERR_NO_GRACE :: u32 where "NFS4ERR_NO_GRACE \<equiv> 10033"
abbreviation (input) NFS4ERR_RECLAIM_BAD :: u32 where "NFS4ERR_RECLAIM_BAD \<equiv> 10034"
abbreviation (input) NFS4ERR_RECLAIM_CONFLICT :: u32 where "NFS4ERR_RECLAIM_CONFLICT \<equiv> 10035"
abbreviation (input) NFS4ERR_BADXDR :: u32 where "NFS4ERR_BADXDR \<equiv> 10036"
abbreviation (input) NFS4ERR_LOCKS_HELD :: u32 where "NFS4ERR_LOCKS_HELD \<equiv> 10037"
abbreviation (input) NFS4ERR_OPENMODE :: u32 where "NFS4ERR_OPENMODE \<equiv> 10038"
abbreviation (input) NFS4ERR_BADOWNER :: u32 where "NFS4ERR_BADOWNER \<equiv> 10039"
abbreviation (input) NFS4ERR_BADCHAR :: u32 where "NFS4ERR_BADCHAR \<equiv> 10040"
abbreviation (input) NFS4ERR_BADNAME :: u32 where "NFS4ERR_BADNAME \<equiv> 10041"
abbreviation (input) NFS4ERR_BAD_RANGE :: u32 where "NFS4ERR_BAD_RANGE \<equiv> 10042"
abbreviation (input) NFS4ERR_LOCK_NOTSUPP :: u32 where "NFS4ERR_LOCK_NOTSUPP \<equiv> 10043"
abbreviation (input) NFS4ERR_OP_ILLEGAL :: u32 where "NFS4ERR_OP_ILLEGAL \<equiv> 10044"
abbreviation (input) NFS4ERR_DEADLOCK :: u32 where "NFS4ERR_DEADLOCK \<equiv> 10045"
abbreviation (input) NFS4ERR_FILE_OPEN :: u32 where "NFS4ERR_FILE_OPEN \<equiv> 10046"
abbreviation (input) NFS4ERR_ADMIN_REVOKED :: u32 where "NFS4ERR_ADMIN_REVOKED \<equiv> 10047"
abbreviation (input) NFS4ERR_CB_PATH_DOWN :: u32 where "NFS4ERR_CB_PATH_DOWN \<equiv> 10048"
abbreviation (input) NFS4ERR_NOXATTR :: u32 where "NFS4ERR_NOXATTR \<equiv> 10095"
abbreviation (input) NFS4ERR_XATTR2BIG :: u32 where "NFS4ERR_XATTR2BIG \<equiv> 10096"
abbreviation (input) NFS4ERR_NOT_ONLY_OP :: u32 where "NFS4ERR_NOT_ONLY_OP \<equiv> 10081"
abbreviation (input) NFS4ERR_DEADSESSION :: u32 where "NFS4ERR_DEADSESSION \<equiv> 10078"
abbreviation (input) NFS4ERR_SEQ_MISORDERED :: u32 where "NFS4ERR_SEQ_MISORDERED \<equiv> 10063"
abbreviation (input) NFS4ERR_OP_NOT_IN_SESSION :: u32 where "NFS4ERR_OP_NOT_IN_SESSION \<equiv> 10071"
abbreviation (input) NFS4ERR_RETRY_UNCACHED_REP :: u32 where "NFS4ERR_RETRY_UNCACHED_REP \<equiv> 10068"
abbreviation (input) NFS4ERR_CLIENTID_BUSY :: u32 where "NFS4ERR_CLIENTID_BUSY \<equiv> 10074"

section \<open>Operations and flags (\<^verbatim>\<open>msg/ops.go\<close>)\<close>

abbreviation (input) PROC4_VOID :: u32 where "PROC4_VOID \<equiv> 0"
abbreviation (input) PROC4_COMPOUND :: u32 where "PROC4_COMPOUND \<equiv> 1"
abbreviation (input) OP4_ACCESS :: u32 where "OP4_ACCESS \<equiv> 3"
abbreviation (input) OP4_CLOSE :: u32 where "OP4_CLOSE \<equiv> 4"
abbreviation (input) OP4_COMMIT :: u32 where "OP4_COMMIT \<equiv> 5"
abbreviation (input) OP4_CREATE :: u32 where "OP4_CREATE \<equiv> 6"
abbreviation (input) OP4_DELEGPURGE :: u32 where "OP4_DELEGPURGE \<equiv> 7"
abbreviation (input) OP4_DELEGRETURN :: u32 where "OP4_DELEGRETURN \<equiv> 8"
abbreviation (input) OP4_GETATTR :: u32 where "OP4_GETATTR \<equiv> 9"
abbreviation (input) OP4_GETFH :: u32 where "OP4_GETFH \<equiv> 10"
abbreviation (input) OP4_LINK :: u32 where "OP4_LINK \<equiv> 11"
abbreviation (input) OP4_LOCK :: u32 where "OP4_LOCK \<equiv> 12"
abbreviation (input) OP4_LOCKT :: u32 where "OP4_LOCKT \<equiv> 13"
abbreviation (input) OP4_LOCKU :: u32 where "OP4_LOCKU \<equiv> 14"
abbreviation (input) OP4_LOOKUP :: u32 where "OP4_LOOKUP \<equiv> 15"
abbreviation (input) OP4_LOOKUPP :: u32 where "OP4_LOOKUPP \<equiv> 16"
abbreviation (input) OP4_NVERIFY :: u32 where "OP4_NVERIFY \<equiv> 17"
abbreviation (input) OP4_OPEN :: u32 where "OP4_OPEN \<equiv> 18"
abbreviation (input) OP4_OPENATTR :: u32 where "OP4_OPENATTR \<equiv> 19"
abbreviation (input) OP4_OPEN_CONFIRM :: u32 where "OP4_OPEN_CONFIRM \<equiv> 20"
abbreviation (input) OP4_OPEN_DOWNGRADE :: u32 where "OP4_OPEN_DOWNGRADE \<equiv> 21"
abbreviation (input) OP4_PUTFH :: u32 where "OP4_PUTFH \<equiv> 22"
abbreviation (input) OP4_PUTPUBFH :: u32 where "OP4_PUTPUBFH \<equiv> 23"
abbreviation (input) OP4_PUTROOTFH :: u32 where "OP4_PUTROOTFH \<equiv> 24"
abbreviation (input) OP4_READ :: u32 where "OP4_READ \<equiv> 25"
abbreviation (input) OP4_READDIR :: u32 where "OP4_READDIR \<equiv> 26"
abbreviation (input) OP4_READLINK :: u32 where "OP4_READLINK \<equiv> 27"
abbreviation (input) OP4_REMOVE :: u32 where "OP4_REMOVE \<equiv> 28"
abbreviation (input) OP4_RENAME :: u32 where "OP4_RENAME \<equiv> 29"
abbreviation (input) OP4_RENEW :: u32 where "OP4_RENEW \<equiv> 30"
abbreviation (input) OP4_RESTOREFH :: u32 where "OP4_RESTOREFH \<equiv> 31"
abbreviation (input) OP4_SAVEFH :: u32 where "OP4_SAVEFH \<equiv> 32"
abbreviation (input) OP4_SECINFO :: u32 where "OP4_SECINFO \<equiv> 33"
abbreviation (input) OP4_SETATTR :: u32 where "OP4_SETATTR \<equiv> 34"
abbreviation (input) OP4_SETCLIENTID :: u32 where "OP4_SETCLIENTID \<equiv> 35"
abbreviation (input) OP4_SETCLIENTID_CONFIRM :: u32 where "OP4_SETCLIENTID_CONFIRM \<equiv> 36"
abbreviation (input) OP4_VERIFY :: u32 where "OP4_VERIFY \<equiv> 37"
abbreviation (input) OP4_WRITE :: u32 where "OP4_WRITE \<equiv> 38"
abbreviation (input) OP4_RELEASE_LOCKOWNER :: u32 where "OP4_RELEASE_LOCKOWNER \<equiv> 39"
abbreviation (input) OP4_BACKCHANNEL_CTL :: u32 where "OP4_BACKCHANNEL_CTL \<equiv> 40"
abbreviation (input) OP4_BIND_CONN_TO_SESSION :: u32 where "OP4_BIND_CONN_TO_SESSION \<equiv> 41"
abbreviation (input) OP4_EXCHANGE_ID :: u32 where "OP4_EXCHANGE_ID \<equiv> 42"
abbreviation (input) OP4_CREATE_SESSION :: u32 where "OP4_CREATE_SESSION \<equiv> 43"
abbreviation (input) OP4_DESTROY_SESSION :: u32 where "OP4_DESTROY_SESSION \<equiv> 44"
abbreviation (input) OP4_FREE_STATEID :: u32 where "OP4_FREE_STATEID \<equiv> 45"
abbreviation (input) OP4_GET_DIR_DELEGATION :: u32 where "OP4_GET_DIR_DELEGATION \<equiv> 46"
abbreviation (input) OP4_GETDEVICEINFO :: u32 where "OP4_GETDEVICEINFO \<equiv> 47"
abbreviation (input) OP4_GETDEVICELIST :: u32 where "OP4_GETDEVICELIST \<equiv> 48"
abbreviation (input) OP4_LAYOUTCOMMIT :: u32 where "OP4_LAYOUTCOMMIT \<equiv> 49"
abbreviation (input) OP4_LAYOUTGET :: u32 where "OP4_LAYOUTGET \<equiv> 50"
abbreviation (input) OP4_LAYOUTRETURN :: u32 where "OP4_LAYOUTRETURN \<equiv> 51"
abbreviation (input) OP4_SECINFO_NO_NAME :: u32 where "OP4_SECINFO_NO_NAME \<equiv> 52"
abbreviation (input) OP4_SEQUENCE :: u32 where "OP4_SEQUENCE \<equiv> 53"
abbreviation (input) OP4_SET_SSV :: u32 where "OP4_SET_SSV \<equiv> 54"
abbreviation (input) OP4_TEST_STATEID :: u32 where "OP4_TEST_STATEID \<equiv> 55"
abbreviation (input) OP4_WANT_DELEGATION :: u32 where "OP4_WANT_DELEGATION \<equiv> 56"
abbreviation (input) OP4_DESTROY_CLIENTID :: u32 where "OP4_DESTROY_CLIENTID \<equiv> 57"
abbreviation (input) OP4_RECLAIM_COMPLETE :: u32 where "OP4_RECLAIM_COMPLETE \<equiv> 58"
abbreviation (input) OP4_ALLOCATE :: u32 where "OP4_ALLOCATE \<equiv> 59"
abbreviation (input) OP4_COPY :: u32 where "OP4_COPY \<equiv> 60"
abbreviation (input) OP4_COPY_NOTIFY :: u32 where "OP4_COPY_NOTIFY \<equiv> 61"
abbreviation (input) OP4_DEALLOCATE :: u32 where "OP4_DEALLOCATE \<equiv> 62"
abbreviation (input) OP4_IO_ADVISE :: u32 where "OP4_IO_ADVISE \<equiv> 63"
abbreviation (input) OP4_LAYOUTERROR :: u32 where "OP4_LAYOUTERROR \<equiv> 64"
abbreviation (input) OP4_LAYOUTSTATS :: u32 where "OP4_LAYOUTSTATS \<equiv> 65"
abbreviation (input) OP4_OFFLOAD_CANCEL :: u32 where "OP4_OFFLOAD_CANCEL \<equiv> 66"
abbreviation (input) OP4_OFFLOAD_STATUS :: u32 where "OP4_OFFLOAD_STATUS \<equiv> 67"
abbreviation (input) OP4_READ_PLUS :: u32 where "OP4_READ_PLUS \<equiv> 68"
abbreviation (input) OP4_SEEK :: u32 where "OP4_SEEK \<equiv> 69"
abbreviation (input) OP4_WRITE_SAME :: u32 where "OP4_WRITE_SAME \<equiv> 70"
abbreviation (input) OP4_CLONE :: u32 where "OP4_CLONE \<equiv> 71"
abbreviation (input) OP4_GETXATTR :: u32 where "OP4_GETXATTR \<equiv> 72"
abbreviation (input) OP4_SETXATTR :: u32 where "OP4_SETXATTR \<equiv> 73"
abbreviation (input) OP4_LISTXATTRS :: u32 where "OP4_LISTXATTRS \<equiv> 74"
abbreviation (input) OP4_REMOVEXATTR :: u32 where "OP4_REMOVEXATTR \<equiv> 75"
abbreviation (input) OP4_ILLEGAL :: u32 where "OP4_ILLEGAL \<equiv> 10044"
abbreviation (input) NF4REG :: u32 where "NF4REG \<equiv> 1"
abbreviation (input) NF4DIR :: u32 where "NF4DIR \<equiv> 2"
abbreviation (input) NF4BLK :: u32 where "NF4BLK \<equiv> 3"
abbreviation (input) NF4CHR :: u32 where "NF4CHR \<equiv> 4"
abbreviation (input) NF4LNK :: u32 where "NF4LNK \<equiv> 5"
abbreviation (input) NF4SOCK :: u32 where "NF4SOCK \<equiv> 6"
abbreviation (input) NF4FIFO :: u32 where "NF4FIFO \<equiv> 7"
abbreviation (input) NF4ATTRDIR :: u32 where "NF4ATTRDIR \<equiv> 8"
abbreviation (input) NF4NAMEDATTR :: u32 where "NF4NAMEDATTR \<equiv> 9"
abbreviation (input) FH4_PERSISTENT :: u32 where "FH4_PERSISTENT \<equiv> 0"
abbreviation (input) FH4_NOEXPIRE_WITH_OPEN :: u32 where "FH4_NOEXPIRE_WITH_OPEN \<equiv> 1"
abbreviation (input) FH4_VOLATILE_ANY :: u32 where "FH4_VOLATILE_ANY \<equiv> 2"
abbreviation (input) FH4_VOL_MIGRATION :: u32 where "FH4_VOL_MIGRATION \<equiv> 4"
abbreviation (input) FH4_VOL_RENAME :: u32 where "FH4_VOL_RENAME \<equiv> 8"
abbreviation (input) ACCESS4_READ :: u32 where "ACCESS4_READ \<equiv> 1"
abbreviation (input) ACCESS4_LOOKUP :: u32 where "ACCESS4_LOOKUP \<equiv> 2"
abbreviation (input) ACCESS4_MODIFY :: u32 where "ACCESS4_MODIFY \<equiv> 4"
abbreviation (input) ACCESS4_EXTEND :: u32 where "ACCESS4_EXTEND \<equiv> 8"
abbreviation (input) ACCESS4_DELETE :: u32 where "ACCESS4_DELETE \<equiv> 16"
abbreviation (input) ACCESS4_EXECUTE :: u32 where "ACCESS4_EXECUTE \<equiv> 32"
abbreviation (input) ACCESS4_XAREAD :: u32 where "ACCESS4_XAREAD \<equiv> 64"
abbreviation (input) ACCESS4_XAWRITE :: u32 where "ACCESS4_XAWRITE \<equiv> 128"
abbreviation (input) ACCESS4_XALIST :: u32 where "ACCESS4_XALIST \<equiv> 256"
abbreviation (input) ACE4_ACCESS_ALLOWED_ACE_TYPE :: u32 where "ACE4_ACCESS_ALLOWED_ACE_TYPE \<equiv> 0"
abbreviation (input) ACE4_ACCESS_DENIED_ACE_TYPE :: u32 where "ACE4_ACCESS_DENIED_ACE_TYPE \<equiv> 1"
abbreviation (input) ACE4_SYSTEM_AUDIT_ACE_TYPE :: u32 where "ACE4_SYSTEM_AUDIT_ACE_TYPE \<equiv> 2"
abbreviation (input) ACE4_SYSTEM_ALARM_ACE_TYPE :: u32 where "ACE4_SYSTEM_ALARM_ACE_TYPE \<equiv> 3"
abbreviation (input) ACE4_FILE_INHERIT_ACE :: u32 where "ACE4_FILE_INHERIT_ACE \<equiv> 1"
abbreviation (input) ACE4_DIRECTORY_INHERIT_ACE :: u32 where "ACE4_DIRECTORY_INHERIT_ACE \<equiv> 2"
abbreviation (input) ACE4_NO_PROPAGATE_INHERIT_ACE :: u32 where "ACE4_NO_PROPAGATE_INHERIT_ACE \<equiv> 4"
abbreviation (input) ACE4_INHERIT_ONLY_ACE :: u32 where "ACE4_INHERIT_ONLY_ACE \<equiv> 8"
abbreviation (input) ACE4_SUCCESSFUL_ACCESS_ACE_FLAG :: u32 where "ACE4_SUCCESSFUL_ACCESS_ACE_FLAG \<equiv> 16"
abbreviation (input) ACE4_FAILED_ACCESS_ACE_FLAG :: u32 where "ACE4_FAILED_ACCESS_ACE_FLAG \<equiv> 32"
abbreviation (input) ACE4_IDENTIFIER_GROUP :: u32 where "ACE4_IDENTIFIER_GROUP \<equiv> 64"
abbreviation (input) ACE4_READ_DATA :: u32 where "ACE4_READ_DATA \<equiv> 1"
abbreviation (input) ACE4_LIST_DIRECTORY :: u32 where "ACE4_LIST_DIRECTORY \<equiv> 1"
abbreviation (input) ACE4_WRITE_DATA :: u32 where "ACE4_WRITE_DATA \<equiv> 2"
abbreviation (input) ACE4_ADD_FILE :: u32 where "ACE4_ADD_FILE \<equiv> 2"
abbreviation (input) ACE4_APPEND_DATA :: u32 where "ACE4_APPEND_DATA \<equiv> 4"
abbreviation (input) ACE4_ADD_SUBDIRECTORY :: u32 where "ACE4_ADD_SUBDIRECTORY \<equiv> 4"
abbreviation (input) ACE4_READ_NAMED_ATTRS :: u32 where "ACE4_READ_NAMED_ATTRS \<equiv> 8"
abbreviation (input) ACE4_WRITE_NAMED_ATTRS :: u32 where "ACE4_WRITE_NAMED_ATTRS \<equiv> 16"
abbreviation (input) ACE4_EXECUTE :: u32 where "ACE4_EXECUTE \<equiv> 32"
abbreviation (input) ACE4_DELETE_CHILD :: u32 where "ACE4_DELETE_CHILD \<equiv> 64"
abbreviation (input) ACE4_READ_ATTRIBUTES :: u32 where "ACE4_READ_ATTRIBUTES \<equiv> 128"
abbreviation (input) ACE4_WRITE_ATTRIBUTES :: u32 where "ACE4_WRITE_ATTRIBUTES \<equiv> 256"
abbreviation (input) ACE4_DELETE :: u32 where "ACE4_DELETE \<equiv> 65536"
abbreviation (input) ACE4_READ_ACL :: u32 where "ACE4_READ_ACL \<equiv> 131072"
abbreviation (input) ACE4_WRITE_ACL :: u32 where "ACE4_WRITE_ACL \<equiv> 262144"
abbreviation (input) ACE4_WRITE_OWNER :: u32 where "ACE4_WRITE_OWNER \<equiv> 524288"
abbreviation (input) ACE4_SYNCHRONIZE :: u32 where "ACE4_SYNCHRONIZE \<equiv> 1048576"
abbreviation (input) OPEN4_SHARE_ACCESS_READ :: u32 where "OPEN4_SHARE_ACCESS_READ \<equiv> 1"
abbreviation (input) OPEN4_SHARE_ACCESS_WRITE :: u32 where "OPEN4_SHARE_ACCESS_WRITE \<equiv> 2"
abbreviation (input) OPEN4_SHARE_ACCESS_BOTH :: u32 where "OPEN4_SHARE_ACCESS_BOTH \<equiv> 3"
abbreviation (input) OPEN4_RESULT_PRESERVE_UNLINKED :: u32 where "OPEN4_RESULT_PRESERVE_UNLINKED \<equiv> 8"
abbreviation (input) EXCHGID4_FLAG_BIND_PRINC_STATEID :: u32 where "EXCHGID4_FLAG_BIND_PRINC_STATEID \<equiv> 256"
abbreviation (input) EXCHGID4_FLAG_UPD_CONFIRMED_REC_A :: u32 where "EXCHGID4_FLAG_UPD_CONFIRMED_REC_A \<equiv> 1073741824"
abbreviation (input) EXCHGID4_FLAG_CONFIRMED_R :: u32 where "EXCHGID4_FLAG_CONFIRMED_R \<equiv> 2147483648"
abbreviation (input) EXCHGID4_FLAG_USE_NON_PNFS :: u32 where "EXCHGID4_FLAG_USE_NON_PNFS \<equiv> 65536"
abbreviation (input) CREATE_SESSION4_FLAG_PERSIST :: u32 where "CREATE_SESSION4_FLAG_PERSIST \<equiv> 1"
abbreviation (input) CREATE_SESSION4_FLAG_CONN_BACK_CHAN :: u32 where "CREATE_SESSION4_FLAG_CONN_BACK_CHAN \<equiv> 2"
abbreviation (input) CREATE_SESSION4_FLAG_CONN_RDMA :: u32 where "CREATE_SESSION4_FLAG_CONN_RDMA \<equiv> 4"
abbreviation (input) WND4_NOT_SUPP_FTYPE :: u32 where "WND4_NOT_SUPP_FTYPE \<equiv> 3"

section \<open>RPC constants (\<^verbatim>\<open>msg/rpc.go\<close>)\<close>

abbreviation (input) RPC_CALL :: u32 where "RPC_CALL \<equiv> 0"
abbreviation (input) RPC_REPLY :: u32 where "RPC_REPLY \<equiv> 1"
abbreviation (input) MSG_ACCEPTED :: u32 where "MSG_ACCEPTED \<equiv> 0"
abbreviation (input) MSG_DENIED :: u32 where "MSG_DENIED \<equiv> 1"
abbreviation (input) ACCEPT_SUCCESS :: u32 where "ACCEPT_SUCCESS \<equiv> 0"
abbreviation (input) ACCEPT_PROG_UNAVAIL :: u32 where "ACCEPT_PROG_UNAVAIL \<equiv> 1"
abbreviation (input) ACCEPT_PROG_MISMATCH :: u32 where "ACCEPT_PROG_MISMATCH \<equiv> 2"
abbreviation (input) ACCEPT_PROC_UNAVAIL :: u32 where "ACCEPT_PROC_UNAVAIL \<equiv> 3"
abbreviation (input) ACCEPT_GARBAGE_ARGS :: u32 where "ACCEPT_GARBAGE_ARGS \<equiv> 4"
abbreviation (input) REJECT_RPC_MISMATCH :: u32 where "REJECT_RPC_MISMATCH \<equiv> 0"
abbreviation (input) REJECT_AUTH_ERROR :: u32 where "REJECT_AUTH_ERROR \<equiv> 1"
abbreviation (input) AUTH_FLAVOR_NULL :: u32 where "AUTH_FLAVOR_NULL \<equiv> 0"
abbreviation (input) AUTH_FLAVOR_UNIX :: u32 where "AUTH_FLAVOR_UNIX \<equiv> 1"
abbreviation (input) AUTH_FLAVOR_SHORT :: u32 where "AUTH_FLAVOR_SHORT \<equiv> 2"
abbreviation (input) AUTH_FLAVOR_DES :: u32 where "AUTH_FLAVOR_DES \<equiv> 3"
abbreviation (input) AUTH_BADCRED :: u32 where "AUTH_BADCRED \<equiv> 1"
abbreviation (input) AUTH_REJECTEDCRED :: u32 where "AUTH_REJECTEDCRED \<equiv> 2"
abbreviation (input) AUTH_BADVERF :: u32 where "AUTH_BADVERF \<equiv> 3"
abbreviation (input) AUTH_REJECTEDVERF :: u32 where "AUTH_REJECTEDVERF \<equiv> 4"
abbreviation (input) AUTH_TOOWEAK :: u32 where "AUTH_TOOWEAK \<equiv> 5"

section \<open>Constants of the message types (\<^verbatim>\<open>msg/structs.go\<close>)\<close>

abbreviation (input) RPCSEC_GSS :: u32 where "RPCSEC_GSS \<equiv> 6"
abbreviation (input) RPC_GSS_SVC_NONE :: u32 where "RPC_GSS_SVC_NONE \<equiv> 1"
abbreviation (input) RPC_GSS_SVC_INTEGRITY :: u32 where "RPC_GSS_SVC_INTEGRITY \<equiv> 2"
abbreviation (input) RPC_GSS_SVC_PRIVACY :: u32 where "RPC_GSS_SVC_PRIVACY \<equiv> 3"
abbreviation (input) SP4_NONE :: u32 where "SP4_NONE \<equiv> 0"
abbreviation (input) SP4_MACH_CRED :: u32 where "SP4_MACH_CRED \<equiv> 1"
abbreviation (input) SP4_SSV :: u32 where "SP4_SSV \<equiv> 2"
abbreviation (input) OPEN4_NOCREATE :: u32 where "OPEN4_NOCREATE \<equiv> 0"
abbreviation (input) OPEN4_CREATE :: u32 where "OPEN4_CREATE \<equiv> 1"
abbreviation (input) UNCHECKED4 :: u32 where "UNCHECKED4 \<equiv> 0"
abbreviation (input) GUARDED4 :: u32 where "GUARDED4 \<equiv> 1"
abbreviation (input) EXCLUSIVE4 :: u32 where "EXCLUSIVE4 \<equiv> 2"
abbreviation (input) EXCLUSIVE4_1 :: u32 where "EXCLUSIVE4_1 \<equiv> 3"
abbreviation (input) OPEN_DELEGATE_NONE :: u32 where "OPEN_DELEGATE_NONE \<equiv> 0"
abbreviation (input) OPEN_DELEGATE_READ :: u32 where "OPEN_DELEGATE_READ \<equiv> 1"
abbreviation (input) OPEN_DELEGATE_WRITE :: u32 where "OPEN_DELEGATE_WRITE \<equiv> 2"
abbreviation (input) OPEN_DELEGATE_NONE_EXT :: u32 where "OPEN_DELEGATE_NONE_EXT \<equiv> 3"
abbreviation (input) CLAIM_NULL :: u32 where "CLAIM_NULL \<equiv> 0"
abbreviation (input) CLAIM_PREVIOUS :: u32 where "CLAIM_PREVIOUS \<equiv> 1"
abbreviation (input) CLAIM_DELEGATE_CUR :: u32 where "CLAIM_DELEGATE_CUR \<equiv> 2"
abbreviation (input) CLAIM_DELEGATE_PREV :: u32 where "CLAIM_DELEGATE_PREV \<equiv> 3"
abbreviation (input) CLAIM_FH :: u32 where "CLAIM_FH \<equiv> 4"
abbreviation (input) CLAIM_DELEG_CUR_FH :: u32 where "CLAIM_DELEG_CUR_FH \<equiv> 5"
abbreviation (input) CLAIM_DELEG_PREV_FH :: u32 where "CLAIM_DELEG_PREV_FH \<equiv> 6"
abbreviation (input) OPEN4_RESULT_CONFIRM :: u32 where "OPEN4_RESULT_CONFIRM \<equiv> 2"
abbreviation (input) OPEN4_RESULT_LOCKTYPE_POSIX :: u32 where "OPEN4_RESULT_LOCKTYPE_POSIX \<equiv> 4"
abbreviation (input) UNSTABLE4 :: u32 where "UNSTABLE4 \<equiv> 0"
abbreviation (input) DATA_SYNC4 :: u32 where "DATA_SYNC4 \<equiv> 1"
abbreviation (input) FILE_SYNC4 :: u32 where "FILE_SYNC4 \<equiv> 2"
abbreviation (input) SETXATTR4_EITHER :: u32 where "SETXATTR4_EITHER \<equiv> 0"
abbreviation (input) SETXATTR4_CREATE :: u32 where "SETXATTR4_CREATE \<equiv> 1"
abbreviation (input) SETXATTR4_REPLACE :: u32 where "SETXATTR4_REPLACE \<equiv> 2"

section \<open>Decimal numbers\<close>

definition digit :: "nat \<Rightarrow> char" where
  "digit d = char_of (48 + d)"

fun show_nat :: "nat \<Rightarrow> string" where
  "show_nat n = (if n < 10 then [digit n] else show_nat (n div 10) @ [digit (n mod 10)])"

declare show_nat.simps [simp del]

definition digit_val :: "char \<Rightarrow> nat option" where
  "digit_val c = (let d = of_char c :: nat in if 48 \<le> d \<and> d \<le> 57 then Some (d - 48) else None)"

text \<open>\<^verbatim>\<open>strconv.ParseUint(s, 10, 32)\<close>: a syntax error on an empty string or a character that is no
  digit, a range error past \<open>2 ^ 32 - 1\<close>.\<close>

fun parse_digits :: "nat \<Rightarrow> string \<Rightarrow> nat option" where
  "parse_digits acc [] = Some acc"
| "parse_digits acc (c # cs) =
     (case digit_val c of None \<Rightarrow> None | Some d \<Rightarrow> parse_digits (10 * acc + d) cs)"

definition ParseUint32 :: "string \<Rightarrow> go_error + u32" where
  "ParseUint32 s =
     (if s = [] then Inl (GoErr [])
      else case parse_digits 0 s of
             None \<Rightarrow> Inl (GoErr [])
           | Some n \<Rightarrow> if n < 2 ^ 32 then Inr (of_nat n) else Inl (GoErr []))"

lemma digit_val_digit [simp]: "d < 10 \<Longrightarrow> digit_val (digit d) = Some d"
  by (simp add: digit_val_def digit_def)

lemma parse_digits_append:
  "parse_digits acc (xs @ ys) = (case parse_digits acc xs of None \<Rightarrow> None | Some n \<Rightarrow> parse_digits n ys)"
  by (induction acc xs rule: parse_digits.induct) (auto split: option.splits)

lemma parse_show_nat: "parse_digits 0 (show_nat n) = Some n"
proof (induction n rule: show_nat.induct)
  case (1 n)
  show ?case
  proof (cases "n < 10")
    case True
    then show ?thesis by (simp add: show_nat.simps)
  next
    case False
    then have "parse_digits 0 (show_nat (n div 10)) = Some (n div 10)" by (rule 1)
    then show ?thesis using False by (simp add: show_nat.simps [of n] parse_digits_append)
  qed
qed

lemma show_nat_not_Nil [simp]: "show_nat n \<noteq> []"
  by (simp add: show_nat.simps)

lemma ParseUint32_show: "ParseUint32 (show_nat (unat v)) = Inr v"
proof -
  have "unat v < 2 ^ 32" using unsigned_less [of v, where ?'a = nat] by simp
  then show ?thesis by (simp add: ParseUint32_def parse_show_nat)
qed

section \<open>Operation names\<close>

definition Proc4_names :: "(u32 \<times> string) list" where
  "Proc4_names =
    [(PROC4_VOID, ''void''),
     (PROC4_COMPOUND, ''compound''),
     (OP4_ACCESS, ''access''),
     (OP4_CLOSE, ''close''),
     (OP4_COMMIT, ''commit''),
     (OP4_CREATE, ''create''),
     (OP4_DELEGPURGE, ''delegpurge''),
     (OP4_DELEGRETURN, ''delegreturn''),
     (OP4_GETATTR, ''getattr''),
     (OP4_GETFH, ''getfh''),
     (OP4_LINK, ''link''),
     (OP4_LOCK, ''lock''),
     (OP4_LOCKT, ''lockt''),
     (OP4_LOCKU, ''locku''),
     (OP4_LOOKUP, ''lookup''),
     (OP4_LOOKUPP, ''lookupp''),
     (OP4_NVERIFY, ''nverify''),
     (OP4_OPEN, ''open''),
     (OP4_OPENATTR, ''openattr''),
     (OP4_OPEN_CONFIRM, ''open_confirm''),
     (OP4_OPEN_DOWNGRADE, ''open_downgrade''),
     (OP4_PUTFH, ''putfh''),
     (OP4_PUTPUBFH, ''putpubfh''),
     (OP4_PUTROOTFH, ''putrootfh''),
     (OP4_READ, ''read''),
     (OP4_READDIR, ''readdir''),
     (OP4_READLINK, ''readlink''),
     (OP4_REMOVE, ''remove''),
     (OP4_RENAME, ''rename''),
     (OP4_RENEW, ''renew''),
     (OP4_RESTOREFH, ''restorefh''),
     (OP4_SAVEFH, ''savefh''),
     (OP4_SECINFO, ''secinfo''),
     (OP4_SETATTR, ''setattr''),
     (OP4_SETCLIENTID, ''setclientid''),
     (OP4_SETCLIENTID_CONFIRM, ''setclientid_confirm''),
     (OP4_VERIFY, ''verify''),
     (OP4_WRITE, ''write''),
     (OP4_RELEASE_LOCKOWNER, ''release_lockowner''),
     (OP4_BACKCHANNEL_CTL, ''backchannel_ctl''),
     (OP4_BIND_CONN_TO_SESSION, ''bind_conn_to_session''),
     (OP4_EXCHANGE_ID, ''exchange_id''),
     (OP4_CREATE_SESSION, ''create_session''),
     (OP4_DESTROY_SESSION, ''destroy_session''),
     (OP4_FREE_STATEID, ''free_stateid''),
     (OP4_GET_DIR_DELEGATION, ''get_dir_delegation''),
     (OP4_GETDEVICEINFO, ''getdeviceinfo''),
     (OP4_GETDEVICELIST, ''getdevicelist''),
     (OP4_LAYOUTCOMMIT, ''layoutcommit''),
     (OP4_LAYOUTGET, ''layoutget''),
     (OP4_LAYOUTRETURN, ''layoutreturn''),
     (OP4_SECINFO_NO_NAME, ''secinfo_no_name''),
     (OP4_SEQUENCE, ''sequence''),
     (OP4_TEST_STATEID, ''test_stateid''),
     (OP4_WANT_DELEGATION, ''want_delegation''),
     (OP4_DESTROY_CLIENTID, ''destroy_clientid''),
     (OP4_RECLAIM_COMPLETE, ''reclaim_complete''),
     (OP4_ILLEGAL, ''illegal'')]"

definition Proc4Name :: "u32 \<Rightarrow> string" where
  "Proc4Name op = (case map_of Proc4_names op of Some s \<Rightarrow> s | None \<Rightarrow> show_nat (unat op))"

section \<open>Errors as status codes\<close>

definition Err2Status :: "go_error option \<Rightarrow> u32" where
  "Err2Status err =
     (case err of
        None \<Rightarrow> NFS4_OK
      | Some e \<Rightarrow>
          if errors_is e ErrNotExist then NFS4ERR_NOENT
          else if errors_is e ErrExist then NFS4ERR_EXIST
          else if errors_is e ErrPermission then NFS4ERR_PERM
          else if errors_is e ErrInvalid then NFS4ERR_INVAL
          else if errors_is e ErrInvalidHandle then NFS4ERR_BADHANDLE
          else if errors_is e EISDIR then NFS4ERR_ISDIR
          else if errors_is e ENOTDIR then NFS4ERR_NOTDIR
          else if errors_is e ENOTSUP \<or> errors_is e EOPNOTSUPP then NFS4ERR_NOTSUPP
          else if errors_is e EOF then NFS4ERR_IO
          else (case e of NfsError s \<Rightarrow> s | GoErr _ \<Rightarrow> NFS4ERR_SERVERFAULT))"

lemma Err2Status_None [simp]: "Err2Status None = NFS4_OK"
  by (simp add: Err2Status_def)

lemma Err2Status_Nfs [simp]: "Err2Status (Some (NfsError s)) = s"
  by (simp add: Err2Status_def)

lemma Err2Status_GoErr_not_OK: "Err2Status (Some (GoErr ss)) \<noteq> NFS4_OK"
  by (simp add: Err2Status_def)

end
