(* ===== verification/Bitmap.thy ===== *)
theory Bitmap
  imports Msg
begin

text \<open>
  Attribute bitmaps (\<^verbatim>\<open>bitmap4.go\<close>) and state identifiers (\<^verbatim>\<open>fileid.go\<close>). A Go \<^verbatim>\<open>map[int]bool\<close> is an
  association list over natural numbers (the keys the server uses are never negative); its list order
  is the order a \<^verbatim>\<open>range\<close> loop visits it in, and the theorems hold for every order.
\<close>

section \<open>Bitmaps\<close>

type_synonym attrset = "(nat, bool) gomap"

definition max_key :: "attrset \<Rightarrow> nat" where
  "max_key x = fold (\<lambda>(v, _) m. if v > m then v else m) x 0"

text \<open>The loop that sets the bits; an index past the end of the slice panics.\<close>

fun bitmap4_fill :: "attrset \<Rightarrow> u32 list \<Rightarrow> u32 list go" where
  "bitmap4_fill [] rs = Inr rs"
| "bitmap4_fill ((v, on) # x) rs =
     (if \<not> on then bitmap4_fill x rs
      else if v div 32 < length rs
      then bitmap4_fill x (rs[v div 32 := rs ! (v div 32) OR push_bit (v mod 32) 1])
      else Inl Panic)"

definition bitmap4Encode :: "attrset \<Rightarrow> u32 list go" where
  "bitmap4Encode x =
     (let maxInt = max_key x;
          n = maxInt div 32 + (if maxInt mod 32 > 0 then 1 else 0)
      in bitmap4_fill x (replicate n 0))"

definition decode_word :: "nat \<Rightarrow> u32 \<Rightarrow> attrset" where
  "decode_word i v =
     map (\<lambda>j. let s = push_bit j 1 in (32 * i + j, s AND v = s)) (rev [0..<32])"

definition bitmap4Decode :: "u32 list \<Rightarrow> attrset" where
  "bitmap4Decode nums = concat (map (\<lambda>(i, v). decode_word i v) (List.enumerate 0 nums))"

section \<open>State identifiers\<close>

definition FileOther :: "u64 \<Rightarrow> u32 \<Rightarrow> u32 \<times> u32 \<times> u32" where
  "FileOther fileID clientSeqID = (ucast (drop_bit 32 fileID), ucast fileID, clientSeqID)"

definition FileID :: "u32 \<times> u32 \<times> u32 \<Rightarrow> u64" where
  "FileID fileOther = push_bit 32 (ucast (fst fileOther)) + ucast (fst (snd fileOther))"

lemma FileID_FileOther: "FileID (FileOther i k) = i"
proof -
  have disj: "push_bit 32 (ucast (ucast (drop_bit 32 i) :: u32) :: u64) AND ucast (ucast i :: u32) = 0"
    by (rule bit_word_eqI) (auto simp: bit_simps)
  have "push_bit 32 (ucast (ucast (drop_bit 32 i) :: u32) :: u64) OR ucast (ucast i :: u32) = i"
    by (rule bit_word_eqI) (auto simp: bit_simps)
  then show ?thesis using disj by (simp add: FileID_def FileOther_def disjunctive_add_eq_or)
qed

section \<open>What the loops compute\<close>

lemma push_bit_1_AND: "j < 32 \<Longrightarrow> push_bit j 1 AND v = push_bit j 1 \<longleftrightarrow> bit (v :: u32) j"
proof
  assume "push_bit j 1 AND v = push_bit j 1" and "j < 32"
  then have "bit (push_bit j 1 AND v) j" by (simp add: bit_simps)
  then show "bit v j" by (simp add: bit_simps)
next
  assume "bit v j"
  then show "push_bit j 1 AND v = push_bit j 1" by (intro bit_word_eqI) (auto simp: bit_simps)
qed

lemma decode_word_eq: "decode_word i v = map (\<lambda>j. (32 * i + j, bit v j)) (rev [0..<32])"
  unfolding decode_word_def by (rule map_cong) (simp_all only: Let_def set_rev set_upt
      atLeastLessThan_iff push_bit_1_AND)

lemma decode_word_mem: "(n, on) \<in> set (decode_word i v) \<longleftrightarrow> n div 32 = i \<and> on = bit v (n mod 32)"
proof
  assume "n div 32 = i \<and> on = bit v (n mod 32)"
  then have "(n, on) = (32 * i + n mod 32, bit v (n mod 32))" "n mod 32 \<in> set (rev [0..<32])" by auto
  then show "(n, on) \<in> set (decode_word i v)" unfolding decode_word_eq set_map by (rule image_eqI)
qed (auto simp: decode_word_eq)

lemma bitmap4Decode_mem:
  "(n, on) \<in> set (bitmap4Decode nums) \<longleftrightarrow> n div 32 < length nums \<and> on = bit (nums ! (n div 32)) (n mod 32)"
  by (auto simp: bitmap4Decode_def in_set_enumerate_eq decode_word_mem)

lemma max_key_ge: "(v, on) \<in> set x \<Longrightarrow> v \<le> max_key x"
proof -
  have mono: "k \<le> fold (\<lambda>(v, _) m. if v > m then v else m) x k" for x :: attrset and k
  proof (induction x arbitrary: k)
    case (Cons a x)
    then show ?case using Cons.IH [of k] Cons.IH [of "fst a"] by (cases a) (auto intro: order_trans [of k "fst a"])
  qed simp
  have "(v, on) \<in> set x \<Longrightarrow> v \<le> fold (\<lambda>(v, _) m. if v > m then v else m) x k" for k
  proof (induction x arbitrary: k)
    case (Cons a x)
    then show ?case using mono [of v x] mono [of k x] order_trans [of v k]
      by (cases a) (auto split: if_splits)
  qed simp
  then show "(v, on) \<in> set x \<Longrightarrow> v \<le> max_key x" by (simp add: max_key_def)
qed

lemma max_key_in: "max_key x = 0 \<or> max_key x \<in> fst ` set x"
proof -
  have "fold (\<lambda>(v, _) m. if v > m then v else m) x k = k \<or>
      fold (\<lambda>(v, _) m. if v > m then v else m) x k \<in> fst ` set x" for k
    by (induction x arbitrary: k) (auto split: prod.splits)
  then show ?thesis by (simp add: max_key_def)
qed

lemma bitmap4_fill_ok:
  assumes "\<And>v. (v, True) \<in> set x \<Longrightarrow> v div 32 < length rs"
  shows "\<exists>rs'. bitmap4_fill x rs = Inr rs' \<and> length rs' = length rs \<and>
    (\<forall>i j. i < length rs \<longrightarrow> j < 32 \<longrightarrow> bit (rs' ! i) j = (bit (rs ! i) j \<or> (32 * i + j, True) \<in> set x))"
  using assms
proof (induction x rs rule: bitmap4_fill.induct)
  case (2 v on x rs)
  show ?case
  proof (cases on)
    case False
    with 2 show ?thesis by auto
  next
    case True
    let ?rs = "rs[v div 32 := rs ! (v div 32) OR push_bit (v mod 32) 1]"
    have v: "v div 32 < length rs" using 2(3) True by auto
    obtain rs' where rs': "bitmap4_fill x ?rs = Inr rs'" "length rs' = length rs"
        "\<forall>i j. i < length rs \<longrightarrow> j < 32 \<longrightarrow> bit (rs' ! i) j = (bit (?rs ! i) j \<or> (32 * i + j, True) \<in> set x)"
      using "2.IH"(2) [of] True v 2(3) by fastforce
    have "bit (?rs ! i) j \<longleftrightarrow> bit (rs ! i) j \<or> 32 * i + j = v" if "i < length rs" "j < 32" for i j
    proof (cases "i = v div 32")
      case True
      have "32 * (v div 32) + j = v \<longleftrightarrow> j = v mod 32"
        using mult_div_mod_eq [of 32 v] by linarith
      with True that v show ?thesis by (auto simp: bit_simps)
    next
      case False
      then show ?thesis using that by auto
    qed
    with rs' show ?thesis using True v by auto
  qed
qed simp

lemma bitmap4_fill_panic:
  assumes "(v, True) \<in> set x" and "length rs \<le> v div 32"
  shows "bitmap4_fill x rs = Inl Panic"
  using assms by (induction x rs rule: bitmap4_fill.induct) auto

lemma bitmap4Encode_size:
  "(m :: nat) div 32 + (if m mod 32 > 0 then 1 else 0) = (m + 31) div 32"
proof -
  define q r where "q = m div 32" and "r = m mod 32"
  then have m: "m = 32 * q + r" "r < 32" by simp_all
  have "(m + 31) div 32 = q + (if r > 0 then 1 else 0)"
    using m by (intro div_nat_eqI) auto
  then show ?thesis by (simp add: q_def r_def)
qed

text \<open>The encoder panics exactly when the largest key is switched on and a multiple of 32; otherwise
  the words have the bits of the map, and are just long enough for the largest key.\<close>

lemma bitmap4Encode_panic:
  assumes "(max_key x, True) \<in> set x" and "max_key x mod 32 = 0"
  shows "bitmap4Encode x = Inl Panic"
  unfolding bitmap4Encode_def Let_def using assms by (intro bitmap4_fill_panic) auto

lemma bitmap4Encode_ok:
  assumes "\<not> ((max_key x, True) \<in> set x \<and> max_key x mod 32 = 0)"
  shows "\<exists>rs. bitmap4Encode x = Inr rs \<and> length rs = (max_key x + 31) div 32 \<and>
    (\<forall>v. v div 32 < length rs \<longrightarrow> bit (rs ! (v div 32)) (v mod 32) = ((v, True) \<in> set x))"
proof -
  let ?n = "(max_key x + 31) div 32"
  have "v div 32 < length (replicate ?n (0 :: u32))" if "(v, True) \<in> set x" for v
  proof -
    have "v \<le> max_key x" using that by (rule max_key_ge)
    moreover have "v \<noteq> max_key x \<or> max_key x mod 32 \<noteq> 0" using that assms by metis
    moreover have "32 * (max_key x div 32) + max_key x mod 32 = max_key x" "max_key x mod 32 < 32"
      by simp_all
    ultimately have "v < ?n * 32" unfolding bitmap4Encode_size [symmetric] by (auto simp: not_less)
    then show ?thesis by (simp add: div_less_iff_less_mult)
  qed
  from bitmap4_fill_ok [of x "replicate ?n 0", OF this] obtain rs where
      "bitmap4_fill x (replicate ?n 0) = Inr rs" "length rs = ?n"
      "\<forall>i j. i < ?n \<longrightarrow> j < 32 \<longrightarrow> bit (rs ! i) j = ((32 * i + j, True) \<in> set x)"
    by auto
  then show ?thesis by (auto simp: bitmap4Encode_def Let_def bitmap4Encode_size)
qed

lemma max_key_decode: "max_key (bitmap4Decode nums) = (if nums = [] then 0 else 32 * length nums - 1)"
proof (cases "nums = []")
  case True
  then show ?thesis by (simp add: bitmap4Decode_def max_key_def)
next
  case False
  let ?m = "32 * length nums - 1"
  have len: "0 < length nums" using False by simp
  then have "?m < length nums * 32" by linarith
  then have "?m div 32 < length nums" by (simp only: div_less_iff_less_mult)
  then have "\<exists>on. (?m, on) \<in> set (bitmap4Decode nums)" by (simp add: bitmap4Decode_mem)
  then have "?m \<le> max_key (bitmap4Decode nums)" using max_key_ge by blast
  moreover have "max_key (bitmap4Decode nums) \<le> ?m"
  proof -
    have "max_key (bitmap4Decode nums) = 0 \<or> max_key (bitmap4Decode nums) div 32 < length nums"
      using max_key_in [of "bitmap4Decode nums"] by (auto simp: bitmap4Decode_mem)
    then show ?thesis using len by (auto simp: div_less_iff_less_mult)
  qed
  ultimately show ?thesis using False by simp
qed

lemma max_key_cong: "fst ` set x = fst ` set y \<Longrightarrow> max_key x = max_key y"
proof (rule antisym)
  have le: "fst ` set x \<subseteq> fst ` set y \<Longrightarrow> max_key x \<le> max_key y" for x y :: attrset
    using max_key_in [of x] max_key_ge [of _ _ y] by (force simp: image_iff)
  show "fst ` set x = fst ` set y \<Longrightarrow> max_key x \<le> max_key y" by (rule le) simp
  show "fst ` set x = fst ` set y \<Longrightarrow> max_key y \<le> max_key x" by (rule le) simp
qed

text \<open>Encoding a map with the keys of a decoded bitmap never panics, whatever the values, and gives
  back a bitmap of the same length.\<close>

lemma bitmap4Encode_same_keys:
  assumes keys: "fst ` set x = fst ` set (bitmap4Decode nums)" and wf: "wf_map x"
  shows "\<exists>rs. bitmap4Encode x = Inr rs \<and> length rs = length nums \<and>
    (\<forall>v. v div 32 < length nums \<longrightarrow> bit (rs ! (v div 32)) (v mod 32) = (mget x v = Some True))"
proof -
  have m: "max_key x = (if nums = [] then 0 else 32 * length nums - 1)"
    using max_key_cong [OF keys] max_key_decode by simp
  have "\<not> ((max_key x, True) \<in> set x \<and> max_key x mod 32 = 0)"
  proof (cases "nums = []")
    case True
    with keys show ?thesis by (simp add: bitmap4Decode_def)
  next
    case False
    then obtain k where "length nums = Suc k" by (cases nums) auto
    then have "32 * length nums - 1 = 32 * k + 31" by simp
    then have "(32 * length nums - 1) mod 32 \<noteq> 0" by (simp only:) simp
    with False m show ?thesis by simp
  qed
  from bitmap4Encode_ok [OF this] obtain rs where rs: "bitmap4Encode x = Inr rs"
      "length rs = (max_key x + 31) div 32"
      "\<And>v. v div 32 < length rs \<Longrightarrow> bit (rs ! (v div 32)) (v mod 32) = ((v, True) \<in> set x)"
    by blast
  have "length rs = length nums" using rs(2) m by (cases "nums = []") auto
  with rs show ?thesis using mget_in_set [OF wf] by auto
qed

lemma bitmap_words_eqI:
  assumes "length rs = length nums"
    and "\<And>v. v div 32 < length nums \<Longrightarrow> bit (rs ! (v div 32)) (v mod 32) = bit (nums ! (v div 32)) (v mod 32)"
  shows "rs = (nums :: u32 list)"
proof (rule nth_equalityI)
  fix i assume i: "i < length rs"
  show "rs ! i = nums ! i"
  proof (rule bit_word_eqI)
    fix j assume "j < LENGTH(32)"
    then show "bit (rs ! i) j = bit (nums ! i) j" using assms(2) [of "32 * i + j"] i assms(1) by simp
  qed
qed (simp add: assms(1))

section \<open>Properties\<close>

text \<open>The state identifier of an open file leads back to the file: \<^verbatim>\<open>FileID\<close> undoes \<^verbatim>\<open>FileOther\<close> for every
  64-bit file number and every client sequence number.\<close>

theorem state_id_roundtrip: "FileID (FileOther fileID clientSeqID) = fileID"
  by (rule FileID_FileOther)

text \<open>Decoding a bitmap and encoding it again gives back the same words, trailing zero words included.\<close>

theorem bitmap_roundtrip: "bitmap4Encode (bitmap4Decode nums) = Inr nums"
proof -
  have "\<not> ((max_key (bitmap4Decode nums), True) \<in> set (bitmap4Decode nums) \<and> max_key (bitmap4Decode nums) mod 32 = 0)"
  proof (cases nums)
    case Nil
    then show ?thesis by (simp add: bitmap4Decode_def)
  next
    case (Cons v vs)
    then have "max_key (bitmap4Decode nums) = 32 * length vs + 31" by (simp add: max_key_decode)
    then have "max_key (bitmap4Decode nums) mod 32 = 31" by (simp only:) simp
    then show ?thesis by simp
  qed
  from bitmap4Encode_ok [OF this] obtain rs where rs: "bitmap4Encode (bitmap4Decode nums) = Inr rs"
      "length rs = (max_key (bitmap4Decode nums) + 31) div 32"
      "\<And>v. v div 32 < length rs \<Longrightarrow> bit (rs ! (v div 32)) (v mod 32) = ((v, True) \<in> set (bitmap4Decode nums))"
    by blast
  have "length rs = length nums" using rs(2) by (cases nums) (simp_all add: max_key_decode)
  then have "rs = nums" using rs(3) by (intro bitmap_words_eqI) (auto simp: bitmap4Decode_mem)
  then show ?thesis using rs(1) by simp
qed

text \<open>C35: \<^verbatim>\<open>bitmap4Encode\<close> panics (index out of range) exactly when its largest key is switched on and is a
  multiple of 32; otherwise it returns words whose bits are the keys switched on.\<close>

theorem bitmap_panic_iff:
  "bitmap4Encode x = Inl Panic \<longleftrightarrow> (max_key x, True) \<in> set x \<and> max_key x mod 32 = 0"
proof (cases "(max_key x, True) \<in> set x \<and> max_key x mod 32 = 0")
  case True
  then show ?thesis using bitmap4Encode_panic by simp
next
  case False
  then show ?thesis using bitmap4Encode_ok [OF False] by auto
qed

end
