(* ===== verification/Xdr.thy ===== *)
theory Xdr
  imports Prelude
begin

text \<open>
  The XDR coder: \<^verbatim>\<open>xdr/pad.go\<close>, \<^verbatim>\<open>xdr/encoder.go\<close>, \<^verbatim>\<open>xdr/decoder.go\<close> and \<^verbatim>\<open>xdr/marshal.go\<close>.
  An encoder call is the bytes it writes together with the error it returns; a decoder is a
  function of the bytes its reader still holds. \<^verbatim>\<open>io.ReadFull\<close> is modelled as the loop it is, over
  an arbitrary reader, and shown to agree with the decoder's primitive read on a
  \<^verbatim>\<open>bytes.Buffer\<close>. The locale \<open>xdr_codec\<close> is the contract of an encode/decode pair; every message
  of \<^verbatim>\<open>msg/\<close> interprets it.
\<close>

section \<open>Padding\<close>

definition Pad :: "nat \<Rightarrow> nat" where
  "Pad n = (if n mod 4 \<noteq> 0 then 4 - n mod 4 else 0)"

lemma Pad_less: "Pad n < 4"
  by (simp add: Pad_def)

lemma Pad_aligned: "(n + Pad n) mod 4 = 0"
  unfolding Pad_def by presburger

lemma Pad_zero_iff: "Pad n = 0 \<longleftrightarrow> 4 dvd n"
  by (auto simp: Pad_def dvd_eq_mod_eq_0)

section \<open>Readers and \<^verbatim>\<open>io.ReadFull\<close>\<close>

text \<open>\<^verbatim>\<open>r.Read(p)\<close> for a slice \<^verbatim>\<open>p\<close> of length \<open>n\<close>: the bytes copied, the error, the reader after.\<close>

type_synonym 's reader = "'s \<Rightarrow> nat \<Rightarrow> bytes \<times> go_error option \<times> 's"

text \<open>The loop of \<^verbatim>\<open>io.ReadFull\<close>: read until the slice is full or the reader reports an error. It
  need not end: a reader that keeps answering zero bytes and no error makes the value
  \<^const>\<open>None\<close>.\<close>

partial_function (option) ReadFull ::
  "'s reader \<Rightarrow> nat \<Rightarrow> bytes \<Rightarrow> 's \<Rightarrow> ((go_error + bytes) \<times> 's) option" where
  "ReadFull rd m acc s =
     (if length acc < m then
        (case rd s (m - length acc) of (b, err, s') \<Rightarrow>
           (case err of
              None \<Rightarrow> ReadFull rd m (acc @ b) s'
            | Some e \<Rightarrow>
                if m \<le> length (acc @ b) then Some (Inr (acc @ b), s')
                else if acc @ b \<noteq> [] \<and> errors_is e EOF then Some (Inl (GoErr []), s')
                else Some (Inl e, s')))
      else Some (Inr acc, s))"

text \<open>\<^verbatim>\<open>bytes.Buffer.Read\<close> and \<^verbatim>\<open>bytes.Reader.Read\<close> of the standard library: end of file once empty.\<close>

definition bytes_Buffer_Read :: "bytes reader" where
  "bytes_Buffer_Read s n =
     (if s = [] then ([], if n = 0 then None else Some (GoErr [EOF]), [])
      else (take n s, None, drop n s))"

section \<open>Decoder results\<close>

text \<open>Why a decode stops: the reader ran dry, at a value's first byte or inside it, or a union
  discriminant names no arm. What running dry means is the reader's business: end-of-file errors on a
  \<^verbatim>\<open>bytes.Buffer\<close>, no return at all on the server's own buffers (theory \<open>Bufpool\<close>).\<close>

datatype xerr = Eof | UnexpectedEof | BadUnionMode u32

type_synonym 'a xdec = "bytes \<Rightarrow> xerr + ('a \<times> bytes)"

fun go_of_xerr :: "xerr \<Rightarrow> go_error" where
  "go_of_xerr Eof = GoErr [EOF]"
| "go_of_xerr UnexpectedEof = GoErr []"
| "go_of_xerr (BadUnionMode _) = GoErr []"

definition dret :: "'a \<Rightarrow> 'a xdec" where
  "dret x bs = Inr (x, bs)"

definition dthen :: "'a xdec \<Rightarrow> ('a \<Rightarrow> 'b xdec) \<Rightarrow> 'b xdec" where
  "dthen d f bs = (case d bs of Inl e \<Rightarrow> Inl e | Inr (x, rest) \<Rightarrow> f x rest)"

definition dfail :: "xerr \<Rightarrow> 'a xdec" where
  "dfail e bs = Inl e"

definition readN :: "nat \<Rightarrow> bytes xdec" where
  "readN n bs = (if n \<le> length bs then Inr (take n bs, drop n bs)
                 else Inl (if bs = [] then Eof else UnexpectedEof))"

lemma dthen_Inr [simp]: "d bs = Inr (x, rest) \<Longrightarrow> dthen d f bs = f x rest"
  by (simp add: dthen_def)

lemma dthen_Inl [simp]: "d bs = Inl e \<Longrightarrow> dthen d f bs = Inl e"
  by (simp add: dthen_def)

lemma dret_apply [simp]: "dret x bs = Inr (x, bs)"
  by (simp add: dret_def)

lemma dfail_apply [simp]: "dfail e bs = Inl e"
  by (simp add: dfail_def)

lemma readN_append [simp]: "length a = n \<Longrightarrow> readN n (a @ r) = Inr (a, r)"
  by (simp add: readN_def)

text \<open>The primitive read is \<^verbatim>\<open>io.ReadFull\<close> on a \<^verbatim>\<open>bytes.Buffer\<close>; in particular the loop ends.\<close>

lemma ReadFull_bytes_Buffer:
  "ReadFull bytes_Buffer_Read n [] bs =
     Some (case readN n bs of
             Inr (b, rest) \<Rightarrow> (Inr b, rest)
           | Inl e \<Rightarrow> (Inl (go_of_xerr e), []))"
proof (cases "n = 0 \<or> bs = []")
  case True
  then show ?thesis
    by (auto simp: ReadFull.simps [of bytes_Buffer_Read n "[]"] bytes_Buffer_Read_def readN_def)
next
  case False
  have one: "ReadFull bytes_Buffer_Read n [] bs
      = ReadFull bytes_Buffer_Read n (take n bs) (drop n bs)"
    using False by (simp add: ReadFull.simps [of _ n "[]"] bytes_Buffer_Read_def)
  show ?thesis
  proof (cases "n \<le> length bs")
    case True
    then show ?thesis
      by (simp add: one readN_def ReadFull.simps [of _ n "take n bs"])
  next
    case short: False
    then have "take n bs = bs" "drop n bs = []" by simp_all
    with False short show ?thesis
      by (simp add: one ReadFull.simps [of _ n bs] bytes_Buffer_Read_def readN_def)
  qed
qed

section \<open>The decoder\<close>

definition dUint32 :: "u32 xdec" where
  "dUint32 = dthen (readN 4) (\<lambda>b. dret (get_u32 b))"

definition dUint64 :: "u64 xdec" where
  "dUint64 = dthen (readN 8) (\<lambda>b. dret (get_u64 b))"

definition dBool :: "bool xdec" where
  "dBool = dthen dUint32 (\<lambda>b. dret (b \<noteq> 0))"

text \<open>A float is its bit pattern: \<^verbatim>\<open>math.Float32frombits\<close> and \<^verbatim>\<open>math.Float32bits\<close> reinterpret it.\<close>

datatype float32 = Float32frombits (Float32bits: u32)

datatype float64 = Float64frombits (Float64bits: u64)

definition dFloat32 :: "float32 xdec" where
  "dFloat32 = dthen dUint32 (\<lambda>v. dret (Float32frombits v))"

definition dFloat64 :: "float64 xdec" where
  "dFloat64 = dthen dUint64 (\<lambda>v. dret (Float64frombits v))"

definition dBytes :: "bytes xdec" where
  "dBytes = dthen dUint32 (\<lambda>sz. let n = unat sz in
     dthen (readN (n + Pad n)) (\<lambda>b. dret (take n b)))"

definition dString :: "string xdec" where
  "dString = dthen dBytes (\<lambda>data. dret (string_of_bytes data))"

definition dByteArray :: "nat \<Rightarrow> bytes xdec" where
  "dByteArray n = dthen (readN n) (\<lambda>b.
     if Pad n > 0 then dthen (readN (Pad n)) (\<lambda>_. dret b) else dret b)"

text \<open>The counted loops \<^verbatim>\<open>for i := range n\<close> of \<^verbatim>\<open>Uint32s\<close>, \<^verbatim>\<open>Strings\<close> and of the slice case of
  \<^verbatim>\<open>decodeReflect\<close>.\<close>

primrec drepeat :: "nat \<Rightarrow> 'a xdec \<Rightarrow> 'a list xdec" where
  "drepeat 0 d = dret []"
| "drepeat (Suc n) d = dthen d (\<lambda>x. dthen (drepeat n d) (\<lambda>xs. dret (x # xs)))"

definition dSlice :: "'a xdec \<Rightarrow> 'a list xdec" where
  "dSlice d = dthen dUint32 (\<lambda>sz. drepeat (unat sz) d)"

definition dUint32s :: "u32 list xdec" where
  "dUint32s = dSlice dUint32"

definition dStrings :: "string list xdec" where
  "dStrings = dSlice dString"

definition dArr3 :: "(u32 \<times> u32 \<times> u32) xdec" where
  "dArr3 = dthen dUint32 (\<lambda>a. dthen dUint32 (\<lambda>b. dthen dUint32 (\<lambda>c. dret (a, b, c))))"

text \<open>\<^verbatim>\<open>Decoder.Union\<close>: the discriminant, then the arm it indexes; an arm is a decoder here.\<close>

definition dUnion :: "(u32 \<Rightarrow> 'a xdec) list \<Rightarrow> 'a xdec" where
  "dUnion arms = dthen dUint32 (\<lambda>mode.
     if length arms \<le> unat mode then dfail (BadUnionMode mode) else (arms ! unat mode) mode)"

text \<open>The pointer fields of the generated decoders: a boolean, then the value when it is true.\<close>

definition dOption :: "'a xdec \<Rightarrow> 'a option xdec" where
  "dOption d = dthen dBool (\<lambda>ok. if ok then dthen d (\<lambda>x. dret (Some x)) else dret None)"

section \<open>The encoder\<close>

type_synonym xenc = "bytes \<times> xerr option"

definition eUint32 :: "u32 \<Rightarrow> xenc" where
  "eUint32 v = (put_u32 v, None)"

definition eUint64 :: "u64 \<Rightarrow> xenc" where
  "eUint64 v = (put_u64 v, None)"

definition eBool :: "bool \<Rightarrow> xenc" where
  "eBool v = eUint32 (if v then 1 else 0)"

definition eFloat32 :: "float32 \<Rightarrow> xenc" where
  "eFloat32 v = eUint32 (Float32bits v)"

definition eFloat64 :: "float64 \<Rightarrow> xenc" where
  "eFloat64 v = eUint64 (Float64bits v)"

definition eBytes :: "bytes \<Rightarrow> xenc" where
  "eBytes v = (put_u32 (of_nat (length v)) @ v @ replicate (Pad (length v)) 0, None)"

definition eString :: "string \<Rightarrow> xenc" where
  "eString v = eBytes (bytes_of_string v)"

definition eByteArray :: "bytes \<Rightarrow> xenc" where
  "eByteArray v = (v @ replicate (Pad (length v)) 0, None)"

text \<open>\<^verbatim>\<open>EncodeAll\<close> (and every hand-written sequence of encoder calls): stop at the first error.\<close>

fun EncodeAll :: "xenc list \<Rightarrow> xenc" where
  "EncodeAll [] = ([], None)"
| "EncodeAll ((b, Some e) # xs) = (b, Some e)"
| "EncodeAll ((b, None) # xs) = (case EncodeAll xs of (c, e) \<Rightarrow> (b @ c, e))"

definition eSlice :: "('a \<Rightarrow> xenc) \<Rightarrow> 'a list \<Rightarrow> xenc" where
  "eSlice f v = EncodeAll (eUint32 (of_nat (length v)) # map f v)"

definition eUint32s :: "u32 list \<Rightarrow> xenc" where
  "eUint32s = eSlice eUint32"

definition eStrings :: "string list \<Rightarrow> xenc" where
  "eStrings = eSlice eString"

fun eArr3 :: "u32 \<times> u32 \<times> u32 \<Rightarrow> xenc" where
  "eArr3 (a, b, c) = EncodeAll [eUint32 a, eUint32 b, eUint32 c]"

definition eUnion :: "u32 \<Rightarrow> xenc list \<Rightarrow> xenc" where
  "eUnion mode args =
     (if length args \<le> unat mode then (put_u32 mode, Some (BadUnionMode mode))
      else EncodeAll [eUint32 mode, args ! unat mode])"

definition eOption :: "('a \<Rightarrow> xenc) \<Rightarrow> 'a option \<Rightarrow> xenc" where
  "eOption f v = (case v of None \<Rightarrow> eBool False | Some x \<Rightarrow> EncodeAll [eBool True, f x])"

text \<open>\<^verbatim>\<open>Marshal\<close> throws the bytes away on an error.\<close>

definition Marshal :: "xenc list \<Rightarrow> go_error + bytes" where
  "Marshal src = (case EncodeAll src of (b, None) \<Rightarrow> Inr b | (b, Some e) \<Rightarrow> Inl (go_of_xerr e))"

section \<open>Framing: a decoder reads a prefix and nothing else\<close>

named_theorems framed_intros \<open>decoders that depend only on the bytes they consume\<close>

definition framed :: "'a xdec \<Rightarrow> bool" where
  "framed d \<longleftrightarrow> (\<forall>bs x rest. d bs = Inr (x, rest) \<longrightarrow>
     (\<exists>p. bs = p @ rest \<and> (\<forall>r. d (p @ r) = Inr (x, r))))"

lemma framedD:
  "framed d \<Longrightarrow> d bs = Inr (x, rest) \<Longrightarrow> \<exists>p. bs = p @ rest \<and> (\<forall>r. d (p @ r) = Inr (x, r))"
  by (simp add: framed_def)

lemma framed_dret [framed_intros]: "framed (dret x)"
  by (simp add: framed_def)

lemma framed_dfail [framed_intros]: "framed (dfail e)"
  by (simp add: framed_def)

lemma framed_readN [framed_intros]: "framed (readN n)"
  unfolding framed_def
proof (intro allI impI)
  fix bs x rest
  assume "readN n bs = Inr (x, rest)"
  then have "n \<le> length bs" "x = take n bs" "rest = drop n bs"
    by (auto simp: readN_def split: if_splits)
  then have "bs = x @ rest \<and> (\<forall>r. readN n (x @ r) = Inr (x, r))" by simp
  then show "\<exists>p. bs = p @ rest \<and> (\<forall>r. readN n (p @ r) = Inr (x, r))" by blast
qed

lemma framed_dthen [framed_intros]:
  assumes d: "framed d" and f: "\<And>x. framed (f x)"
  shows "framed (dthen d f)"
  unfolding framed_def
proof (intro allI impI)
  fix bs y rest
  assume "dthen d f bs = Inr (y, rest)"
  then obtain x mid where dx: "d bs = Inr (x, mid)" and fx: "f x mid = Inr (y, rest)"
    by (auto simp: dthen_def split: sum.splits)
  obtain p where p: "bs = p @ mid" "\<And>r. d (p @ r) = Inr (x, r)"
    using framedD [OF d dx] by blast
  obtain q where q: "mid = q @ rest" "\<And>r. f x (q @ r) = Inr (y, r)"
    using framedD [OF f fx] by blast
  have "bs = (p @ q) @ rest" using p q by simp
  moreover have "dthen d f ((p @ q) @ r) = Inr (y, r)" for r
    using p(2) [of "q @ r"] q(2) by simp
  ultimately show "\<exists>p. bs = p @ rest \<and> (\<forall>r. dthen d f (p @ r) = Inr (y, r))" by blast
qed

lemma framed_if [framed_intros]: "framed d \<Longrightarrow> framed e \<Longrightarrow> framed (if c then d else e)"
  by simp

lemma framed_drepeat [framed_intros]: "framed d \<Longrightarrow> framed (drepeat n d)"
  by (induction n) (auto intro: framed_intros)

lemma framed_dUint32 [framed_intros]: "framed dUint32"
  unfolding dUint32_def by (intro framed_intros)

lemma framed_dUint64 [framed_intros]: "framed dUint64"
  unfolding dUint64_def by (intro framed_intros)

lemma framed_dBool [framed_intros]: "framed dBool"
  unfolding dBool_def by (intro framed_intros)

lemma framed_dBytes [framed_intros]: "framed dBytes"
  unfolding dBytes_def Let_def by (intro framed_intros)

lemma framed_dString [framed_intros]: "framed dString"
  unfolding dString_def by (intro framed_intros)

lemma framed_dByteArray [framed_intros]: "framed (dByteArray n)"
  unfolding dByteArray_def by (intro framed_intros)

lemma framed_dSlice [framed_intros]: "framed d \<Longrightarrow> framed (dSlice d)"
  unfolding dSlice_def by (intro framed_intros)

lemma framed_dUint32s [framed_intros]: "framed dUint32s"
  unfolding dUint32s_def by (intro framed_intros)

lemma framed_dStrings [framed_intros]: "framed dStrings"
  unfolding dStrings_def by (intro framed_intros)

lemma framed_dArr3 [framed_intros]: "framed dArr3"
  unfolding dArr3_def by (intro framed_intros)

lemma framed_dOption [framed_intros]: "framed d \<Longrightarrow> framed (dOption d)"
  unfolding dOption_def by (intro framed_intros)

definition framed_arms :: "(u32 \<Rightarrow> 'a xdec) list \<Rightarrow> bool" where
  "framed_arms arms \<longleftrightarrow> (\<forall>i < length arms. \<forall>m. framed ((arms ! i) m))"

lemma framed_arms_Nil [framed_intros]: "framed_arms []"
  by (simp add: framed_arms_def)

lemma framed_arms_Cons [framed_intros]:
  "(\<And>m. framed (a m)) \<Longrightarrow> framed_arms as \<Longrightarrow> framed_arms (a # as)"
  by (simp add: framed_arms_def less_Suc_eq_0_disj) auto

lemma framed_dUnion [framed_intros]:
  assumes "framed_arms arms"
  shows "framed (dUnion arms)"
  unfolding dUnion_def
proof (rule framed_dthen [OF framed_dUint32])
  fix mode
  show "framed (if length arms \<le> unat mode then dfail (BadUnionMode mode)
      else (arms ! unat mode) mode)"
    using assms by (simp add: framed_arms_def framed_dfail)
qed

section \<open>The contract of an encode/decode pair\<close>

text \<open>\<open>ok\<close> holds of the values the pair carries faithfully (lengths that fit 32 bits, unions whose
  unused arms are zero). The laws: encoding an \<open>ok\<close> value reports no error, decoding gives the value
  back and leaves the rest of the input alone, a decode depends only on the bytes it consumes, and
  everything is made of four-byte units.\<close>

locale xdr_codec =
  fixes enc :: "'a \<Rightarrow> xenc"
    and dec :: "'a xdec"
    and ok :: "'a \<Rightarrow> bool"
  assumes enc_ok [simp]: "ok x \<Longrightarrow> snd (enc x) = None"
    and dec_enc [simp]: "ok x \<Longrightarrow> dec (fst (enc x) @ rest) = Inr (x, rest)"
    and dec_framed [framed_intros]: "framed dec"
    and enc_aligned [simp]: "ok x \<Longrightarrow> 4 dvd length (fst (enc x))"
begin

lemma enc_prefix_free:
  assumes "ok x" and "ok y" and "fst (enc x) @ r = fst (enc y) @ s"
  shows "x = y \<and> r = s"
proof -
  have "Inr (x, r) = dec (fst (enc y) @ s)"
    using dec_enc [OF assms(1), of r] unfolding assms(3) ..
  also have "\<dots> = Inr (y, s)" by (rule dec_enc [OF assms(2)])
  finally show ?thesis by simp
qed

lemma enc_inj: "inj_on (fst \<circ> enc) (Collect ok)"
proof (rule inj_onI)
  fix x y assume "x \<in> Collect ok" "y \<in> Collect ok" "(fst \<circ> enc) x = (fst \<circ> enc) y"
  then show "x = y" using enc_prefix_free [of x y "[]" "[]"] by simp
qed

lemma dec_shortens: "dec bs = Inr (x, rest) \<Longrightarrow> length rest \<le> length bs"
  using framedD [OF dec_framed] by fastforce

lemma EncodeAll_map:
  "list_all ok xs \<Longrightarrow> EncodeAll (map enc xs) = (concat (map (fst \<circ> enc) xs), None)"
proof (induction xs)
  case (Cons x xs)
  then obtain b where "enc x = (b, None)" using enc_ok [of x] by (cases "enc x") auto
  with Cons show ?case by simp
qed simp

lemma drepeat_concat:
  "list_all ok xs \<Longrightarrow>
     drepeat (length xs) dec (concat (map (fst \<circ> enc) xs) @ rest) = Inr (xs, rest)"
  by (induction xs) (auto simp: dec_enc)

end

section \<open>The primitive codecs\<close>

lemma EncodeAll_single: "EncodeAll [x] = x"
  by (cases x; cases "snd x") auto

lemma EncodeAll_Cons [simp]:
  "snd x = None \<Longrightarrow> EncodeAll (x # xs) = (fst x @ fst (EncodeAll xs), snd (EncodeAll xs))"
  by (cases x) (simp split: prod.splits)

lemma enc_snd [simp]:
  "snd (eUint32 v) = None" "snd (eUint64 w) = None" "snd (eBool b) = None"
  "snd (eBytes y) = None" "snd (eString s) = None" "snd (eByteArray y) = None"
  by (simp_all add: eUint32_def eUint64_def eBool_def eBytes_def eString_def eByteArray_def)

lemma length_eBytes: "length (fst (eBytes y)) = 4 + (length y + Pad (length y))"
  by (simp add: eBytes_def)

lemma dUint32_enc [xdr_rt, simp]: "dUint32 (fst (eUint32 v) @ rest) = Inr (v, rest)"
  using get_put_u32 [of v "[]"] by (simp add: dUint32_def eUint32_def)

lemma dUint32_put [xdr_rt, simp]: "dUint32 (put_u32 v @ rest) = Inr (v, rest)"
  using dUint32_enc [of v rest] by (simp add: eUint32_def)

lemma dUint64_enc [xdr_rt, simp]: "dUint64 (fst (eUint64 v) @ rest) = Inr (v, rest)"
  using get_put_u64 [of v "[]"] by (simp add: dUint64_def eUint64_def)

lemma dBool_enc [xdr_rt, simp]: "dBool (fst (eBool b) @ rest) = Inr (b, rest)"
  by (cases b) (simp_all add: dBool_def eBool_def)

lemma dBytes_enc [xdr_rt, simp]:
  assumes "length y < 2 ^ 32"
  shows "dBytes (fst (eBytes y) @ rest) = Inr (y, rest)"
proof -
  have n: "unat (of_nat (length y) :: u32) = length y"
    using assms by (simp add: unat_of_nat)
  have "readN (length y + Pad (length y)) ((y @ replicate (Pad (length y)) 0) @ rest)
      = Inr (y @ replicate (Pad (length y)) 0, rest)"
    by (rule readN_append) simp
  then show ?thesis by (simp add: dBytes_def eBytes_def n Let_def)
qed

lemma dString_enc [xdr_rt, simp]:
  "length s < 2 ^ 32 \<Longrightarrow> dString (fst (eString s) @ rest) = Inr (s, rest)"
  by (simp add: dString_def eString_def)

lemma dByteArray_enc [xdr_rt, simp]:
  assumes "length y = n"
  shows "dByteArray n (fst (eByteArray y) @ rest) = Inr (y, rest)"
proof (cases "Pad n > 0")
  case True
  have "readN n (y @ (replicate (Pad n) 0 @ rest)) = Inr (y, replicate (Pad n) 0 @ rest)"
    using assms by simp
  moreover have "readN (Pad n) (replicate (Pad n) 0 @ rest) = Inr (replicate (Pad n) 0, rest)"
    by simp
  ultimately show ?thesis using True assms by (simp add: dByteArray_def eByteArray_def)
next
  case False
  then show ?thesis using assms by (simp add: dByteArray_def eByteArray_def)
qed

lemma four_dvd_pad [simp]: "4 dvd n + Pad n"
  using Pad_aligned by (simp add: dvd_eq_mod_eq_0)

lemma enc_lengths [simp]:
  "length (fst (eUint32 v)) = 4" "length (fst (eUint64 w)) = 8" "length (fst (eBool b)) = 4"
  by (simp_all add: eUint32_def eUint64_def eBool_def)

lemma dvd_eBytes [simp]: "4 dvd length (fst (eBytes y))"
  by (simp add: length_eBytes)

lemma dvd_eString [simp]: "4 dvd length (fst (eString y))"
  by (simp add: eString_def)

lemma dvd_eByteArray [simp]: "4 dvd length (fst (eByteArray y))"
  by (simp add: eByteArray_def)

abbreviation fits32 :: "'a list \<Rightarrow> bool" where
  "fits32 v \<equiv> length v < 2 ^ 32"

interpretation u32c: xdr_codec eUint32 dUint32 "\<lambda>_. True"
  by unfold_locales (auto intro: framed_intros)

interpretation u64c: xdr_codec eUint64 dUint64 "\<lambda>_. True"
  by unfold_locales (auto intro: framed_intros)

interpretation boolc: xdr_codec eBool dBool "\<lambda>_. True"
  by unfold_locales (auto intro: framed_intros)

interpretation float32c: xdr_codec eFloat32 dFloat32 "\<lambda>_. True"
  by unfold_locales (auto simp: eFloat32_def dFloat32_def dthen_def intro!: framed_intros)

interpretation float64c: xdr_codec eFloat64 dFloat64 "\<lambda>_. True"
  by unfold_locales (auto simp: eFloat64_def dFloat64_def dthen_def intro!: framed_intros)

interpretation bytesc: xdr_codec eBytes dBytes fits32
  by unfold_locales (auto intro: framed_intros)

interpretation stringc: xdr_codec eString dString fits32
  by unfold_locales (auto intro: framed_intros)

interpretation arr16c: xdr_codec eByteArray "dByteArray 16" "\<lambda>y. length y = 16"
  by unfold_locales (auto intro: framed_intros)

text \<open>A slice of values with a codec has a codec: the length word, then the elements.\<close>

locale xdr_slice = xdr_codec
begin

lemma eSlice_ok: "list_all ok xs \<Longrightarrow> snd (eSlice enc xs) = None"
  by (simp add: eSlice_def EncodeAll_map)

lemma dSlice_enc:
  assumes "list_all ok xs" and "fits32 xs"
  shows "dSlice dec (fst (eSlice enc xs) @ rest) = Inr (xs, rest)"
proof -
  have "unat (of_nat (length xs) :: u32) = length xs"
    using assms(2) by (simp add: unat_of_nat)
  then show ?thesis
    by (simp add: dSlice_def eSlice_def EncodeAll_map assms(1) drepeat_concat)
qed

lemma eSlice_aligned: "list_all ok xs \<Longrightarrow> 4 dvd length (fst (eSlice enc xs))"
proof -
  assume *: "list_all ok xs"
  have "4 dvd length (concat (map (fst \<circ> enc) xs))"
    using * by (induction xs) (auto simp: enc_aligned)
  then show ?thesis by (simp add: eSlice_def EncodeAll_map *)
qed

end

sublocale xdr_slice \<subseteq> slice: xdr_codec "eSlice enc" "dSlice dec" "\<lambda>xs. list_all ok xs \<and> fits32 xs"
  by unfold_locales (auto intro: eSlice_ok dSlice_enc eSlice_aligned dec_framed framed_dSlice)

interpretation u32sl: xdr_slice eUint32 dUint32 "\<lambda>_. True"
  by unfold_locales

interpretation stringsl: xdr_slice eString dString fits32
  by unfold_locales

lemma enc_snd_slices [simp]:
  "snd (eUint32s m) = None" "list_all fits32 ss \<Longrightarrow> snd (eStrings ss) = None"
  "snd (eArr3 t) = None"
  using u32sl.eSlice_ok [of m] stringsl.eSlice_ok [of ss]
  by (simp_all add: eUint32s_def eStrings_def list_all_iff) (cases t, simp)

lemma dUint32s_enc [xdr_rt, simp]:
  "fits32 m \<Longrightarrow> dUint32s (fst (eUint32s m) @ rest) = Inr (m, rest)"
  using u32sl.dSlice_enc [of m rest] by (simp add: dUint32s_def eUint32s_def list_all_iff)

lemma dStrings_enc [xdr_rt, simp]:
  "list_all fits32 ss \<Longrightarrow> fits32 ss \<Longrightarrow> dStrings (fst (eStrings ss) @ rest) = Inr (ss, rest)"
  using stringsl.dSlice_enc [of ss rest] by (simp add: dStrings_def eStrings_def)

lemma dArr3_enc [xdr_rt, simp]: "dArr3 (fst (eArr3 t) @ rest) = Inr (t, rest)"
  by (cases t) (simp add: dArr3_def)

lemma dvd_slices [simp]:
  "4 dvd length (fst (eUint32s m))" "list_all fits32 ss \<Longrightarrow> 4 dvd length (fst (eStrings ss))"
  "4 dvd length (fst (eArr3 t))"
  using u32sl.eSlice_aligned [of m] stringsl.eSlice_aligned [of ss]
  by (simp_all add: eUint32s_def eStrings_def list_all_iff) (cases t, simp)

lemma length_eUint32s: "length (fst (eUint32s m)) = 4 + 4 * length m"
proof -
  have "length (concat (map (fst \<circ> eUint32) m)) = 4 * length m"
    by (induction m) simp_all
  then show ?thesis
    using u32c.EncodeAll_map [of m] by (simp add: eUint32s_def eSlice_def list_all_iff)
qed

interpretation u32sc: xdr_codec eUint32s dUint32s fits32
  by unfold_locales (auto intro: framed_intros)

interpretation stringsc: xdr_codec eStrings dStrings "\<lambda>ss. list_all fits32 ss \<and> fits32 ss"
  by unfold_locales (auto intro: framed_intros)

interpretation arr3c: xdr_codec eArr3 dArr3 "\<lambda>_. True"
  by unfold_locales (auto intro: framed_intros)

section \<open>Fields of a reflected struct\<close>

text \<open>A struct decoded through reflection wraps the error of a field with \<^verbatim>\<open>%v\<close>, which hides an
  \<^verbatim>\<open>io.EOF\<close> from \<^verbatim>\<open>errors.Is\<close>.\<close>

definition dreflect :: "'a xdec \<Rightarrow> 'a xdec" where
  "dreflect d b = (case d b of Inl Eof \<Rightarrow> Inl UnexpectedEof | r \<Rightarrow> r)"

lemma dreflect_eq_Inr: "dreflect d b = Inr y \<longleftrightarrow> d b = Inr y"
  by (auto simp: dreflect_def split: sum.splits xerr.splits)

lemma framed_dreflect: "framed d \<Longrightarrow> framed (dreflect d)"
  by (simp add: framed_def dreflect_eq_Inr)

section \<open>Options and unions\<close>

lemma eOption_None [simp]: "eOption f None = eBool False"
  and eOption_Some [simp]: "eOption f (Some x) = EncodeAll [eBool True, f x]"
  by (simp_all add: eOption_def)

locale xdr_option = xdr_codec
begin

lemma dOption_enc: "pred_option ok v \<Longrightarrow> dOption dec (fst (eOption enc v) @ rest) = Inr (v, rest)"
  by (cases v) (simp_all add: dOption_def dthen_def enc_ok dec_enc)

end

sublocale xdr_option \<subseteq> opt: xdr_codec "eOption enc" "dOption dec" "pred_option ok"
proof unfold_locales
  fix v assume *: "pred_option ok v"
  show "snd (eOption enc v) = None" using * by (cases v) (simp_all add: enc_ok)
  show "4 dvd length (fst (eOption enc v))"
    using * by (cases v) (simp_all add: enc_ok enc_aligned)
  show "dOption dec (fst (eOption enc v) @ rest) = Inr (v, rest)" for rest
    using * by (rule dOption_enc)
qed (intro framed_intros dec_framed)

lemma eUnion_snd [simp]:
  "unat mode < length args \<Longrightarrow> snd (args ! unat mode) = None \<Longrightarrow> snd (eUnion mode args) = None"
  by (simp add: eUnion_def)

lemma dUnion_enc:
  "unat mode < length args \<Longrightarrow> length arms = length args \<Longrightarrow> snd (args ! unat mode) = None \<Longrightarrow>
     dUnion arms (fst (eUnion mode args) @ rest)
       = (arms ! unat mode) mode (fst (args ! unat mode) @ rest)"
  by (simp add: eUnion_def dUnion_def)

lemma eUnion_bad: "length args \<le> unat mode \<Longrightarrow> snd (eUnion mode args) = Some (BadUnionMode mode)"
  by (simp add: eUnion_def)

lemma dvd_eUnion [simp]:
  "unat mode < length args \<Longrightarrow> snd (args ! unat mode) = None \<Longrightarrow>
     4 dvd length (fst (args ! unat mode)) \<Longrightarrow> 4 dvd length (fst (eUnion mode args))"
  by (simp add: eUnion_def)

end
