(* ===== verification/MsgBase.thy ===== *)
theory MsgBase
  imports Xdr
begin

text \<open>
  The component types of the protocol messages (\<^verbatim>\<open>msg/structs.go\<close>, \<^verbatim>\<open>msg/rpc.go\<close>) with their generated
  coders (\<^verbatim>\<open>msg/structs_xdr.go\<close>, \<^verbatim>\<open>msg/rpc_xdr.go\<close>). For each struct \<open>T\<close>: the record, its zero value, the
  encoder \<open>enc_T\<close> and decoder \<open>dec_T\<close> as the Go methods compose them, the values \<open>ok_T\<close> the wire format
  carries faithfully, and the interpretation of \<open>xdr_codec\<close> that proves the round trip. A union struct
  (\<^verbatim>\<open>xdr:"union"\<close>) keeps all its arms as fields, as in Go; \<open>ok\<close> asks that only the selected arm is
  non-zero, because only that arm is encoded.
\<close>

type_synonym Void = unit

definition enc_Void :: "Void \<Rightarrow> xenc" where
  "enc_Void x = ([], None)"

definition dec_Void :: "Void xdec" where
  "dec_Void = dret ()"

interpretation VoidC: xdr_codec enc_Void dec_Void "\<lambda>_. True"
  by unfold_locales (auto simp: enc_Void_def dec_Void_def intro: framed_intros)

abbreviation ok_strings :: "string list \<Rightarrow> bool" where
  "ok_strings ss \<equiv> list_all fits32 ss \<and> fits32 ss"

abbreviation len16 :: "bytes \<Rightarrow> bool" where
  "len16 b \<equiv> length b = 16"

abbreviation ok_slice :: "('a \<Rightarrow> bool) \<Rightarrow> 'a list \<Rightarrow> bool" where
  "ok_slice ok xs \<equiv> list_all ok xs \<and> fits32 xs"

record Fsid4 =
  Fsid4_Major :: u64
  Fsid4_Minor :: u64

definition zero_Fsid4 :: Fsid4 where
  "zero_Fsid4 = \<lparr>Fsid4_Major = 0, Fsid4_Minor = 0\<rparr>"

definition enc_Fsid4 :: "Fsid4 \<Rightarrow> xenc" where
  "enc_Fsid4 x = EncodeAll [eUint64 (Fsid4_Major x), eUint64 (Fsid4_Minor x)]"

definition dec_Fsid4 :: "Fsid4 xdec" where
  "dec_Fsid4 =
    dthen dUint64 (\<lambda>x1. dthen dUint64 (\<lambda>x2.
      dret \<lparr>Fsid4_Major = x1, Fsid4_Minor = x2\<rparr>))"

definition ok_Fsid4 :: "Fsid4 \<Rightarrow> bool" where
  "ok_Fsid4 x \<longleftrightarrow> True"

declare ok_Fsid4_def [simp]

interpretation Fsid4C: xdr_codec enc_Fsid4 dec_Fsid4 ok_Fsid4
  by unfold_locales
    (auto simp: enc_Fsid4_def dec_Fsid4_def dthen_def intro!: framed_intros)

record Specdata4 =
  Specdata4_D1 :: u32
  Specdata4_D2 :: u32

definition zero_Specdata4 :: Specdata4 where
  "zero_Specdata4 = \<lparr>Specdata4_D1 = 0, Specdata4_D2 = 0\<rparr>"

definition enc_Specdata4 :: "Specdata4 \<Rightarrow> xenc" where
  "enc_Specdata4 x = EncodeAll [eUint32 (Specdata4_D1 x), eUint32 (Specdata4_D2 x)]"

definition dec_Specdata4 :: "Specdata4 xdec" where
  "dec_Specdata4 =
    dthen dUint32 (\<lambda>x1. dthen dUint32 (\<lambda>x2.
      dret \<lparr>Specdata4_D1 = x1, Specdata4_D2 = x2\<rparr>))"

definition ok_Specdata4 :: "Specdata4 \<Rightarrow> bool" where
  "ok_Specdata4 x \<longleftrightarrow> True"

declare ok_Specdata4_def [simp]

interpretation Specdata4C: xdr_codec enc_Specdata4 dec_Specdata4 ok_Specdata4
  by unfold_locales
    (auto simp: enc_Specdata4_def dec_Specdata4_def dthen_def intro!: framed_intros)

record FAttr4 =
  FAttr4_Mask :: "u32 list"
  FAttr4_Vals :: bytes

definition zero_FAttr4 :: FAttr4 where
  "zero_FAttr4 = \<lparr>FAttr4_Mask = [], FAttr4_Vals = []\<rparr>"

definition enc_FAttr4 :: "FAttr4 \<Rightarrow> xenc" where
  "enc_FAttr4 x = EncodeAll [eUint32s (FAttr4_Mask x), eBytes (FAttr4_Vals x)]"

definition dec_FAttr4 :: "FAttr4 xdec" where
  "dec_FAttr4 =
    dthen dUint32s (\<lambda>x1. dthen dBytes (\<lambda>x2.
      dret \<lparr>FAttr4_Mask = x1, FAttr4_Vals = x2\<rparr>))"

definition ok_FAttr4 :: "FAttr4 \<Rightarrow> bool" where
  "ok_FAttr4 x \<longleftrightarrow> fits32 (FAttr4_Mask x) \<and> fits32 (FAttr4_Vals x)"

interpretation FAttr4C: xdr_codec enc_FAttr4 dec_FAttr4 ok_FAttr4
  by unfold_locales
    (auto simp: enc_FAttr4_def dec_FAttr4_def ok_FAttr4_def dthen_def intro!: framed_intros)

record NfsClientId4 =
  NfsClientId4_Verifier :: u64
  NfsClientId4_Id :: bytes

definition zero_NfsClientId4 :: NfsClientId4 where
  "zero_NfsClientId4 = \<lparr>NfsClientId4_Verifier = 0, NfsClientId4_Id = []\<rparr>"

definition enc_NfsClientId4 :: "NfsClientId4 \<Rightarrow> xenc" where
  "enc_NfsClientId4 x = EncodeAll [eUint64 (NfsClientId4_Verifier x), eBytes (NfsClientId4_Id x)]"

definition dec_NfsClientId4 :: "NfsClientId4 xdec" where
  "dec_NfsClientId4 =
    dthen dUint64 (\<lambda>x1. dthen dBytes (\<lambda>x2.
      dret \<lparr>NfsClientId4_Verifier = x1, NfsClientId4_Id = x2\<rparr>))"

definition ok_NfsClientId4 :: "NfsClientId4 \<Rightarrow> bool" where
  "ok_NfsClientId4 x \<longleftrightarrow> fits32 (NfsClientId4_Id x)"

interpretation NfsClientId4C: xdr_codec enc_NfsClientId4 dec_NfsClientId4 ok_NfsClientId4
  by unfold_locales
    (auto simp: enc_NfsClientId4_def dec_NfsClientId4_def ok_NfsClientId4_def dthen_def intro!: framed_intros)

record ClientAddr4 =
  ClientAddr4_NetId :: string
  ClientAddr4_Addr :: string

definition zero_ClientAddr4 :: ClientAddr4 where
  "zero_ClientAddr4 = \<lparr>ClientAddr4_NetId = [], ClientAddr4_Addr = []\<rparr>"

definition enc_ClientAddr4 :: "ClientAddr4 \<Rightarrow> xenc" where
  "enc_ClientAddr4 x = EncodeAll [eString (ClientAddr4_NetId x), eString (ClientAddr4_Addr x)]"

definition dec_ClientAddr4 :: "ClientAddr4 xdec" where
  "dec_ClientAddr4 =
    dthen dString (\<lambda>x1. dthen dString (\<lambda>x2.
      dret \<lparr>ClientAddr4_NetId = x1, ClientAddr4_Addr = x2\<rparr>))"

definition ok_ClientAddr4 :: "ClientAddr4 \<Rightarrow> bool" where
  "ok_ClientAddr4 x \<longleftrightarrow> fits32 (ClientAddr4_NetId x) \<and> fits32 (ClientAddr4_Addr x)"

interpretation ClientAddr4C: xdr_codec enc_ClientAddr4 dec_ClientAddr4 ok_ClientAddr4
  by unfold_locales
    (auto simp: enc_ClientAddr4_def dec_ClientAddr4_def ok_ClientAddr4_def dthen_def intro!: framed_intros)

record CbClient4 =
  CbClient4_CbProgram :: u32
  CbClient4_CbLocation :: ClientAddr4

definition zero_CbClient4 :: CbClient4 where
  "zero_CbClient4 = \<lparr>CbClient4_CbProgram = 0, CbClient4_CbLocation = zero_ClientAddr4\<rparr>"

definition enc_CbClient4 :: "CbClient4 \<Rightarrow> xenc" where
  "enc_CbClient4 x = EncodeAll [eUint32 (CbClient4_CbProgram x), enc_ClientAddr4 (CbClient4_CbLocation x)]"

definition dec_CbClient4 :: "CbClient4 xdec" where
  "dec_CbClient4 =
    dthen dUint32 (\<lambda>x1. dthen dec_ClientAddr4 (\<lambda>x2.
      dret \<lparr>CbClient4_CbProgram = x1, CbClient4_CbLocation = x2\<rparr>))"

definition ok_CbClient4 :: "CbClient4 \<Rightarrow> bool" where
  "ok_CbClient4 x \<longleftrightarrow> ok_ClientAddr4 (CbClient4_CbLocation x)"

interpretation CbClient4C: xdr_codec enc_CbClient4 dec_CbClient4 ok_CbClient4
  by unfold_locales
    (auto simp: enc_CbClient4_def dec_CbClient4_def ok_CbClient4_def dthen_def intro!: framed_intros)

record RPCSecGssInfo =
  RPCSecGssInfo_Oid :: string
  RPCSecGssInfo_Qop :: u32
  RPCSecGssInfo_Service :: u32

definition zero_RPCSecGssInfo :: RPCSecGssInfo where
  "zero_RPCSecGssInfo = \<lparr>RPCSecGssInfo_Oid = [], RPCSecGssInfo_Qop = 0, RPCSecGssInfo_Service = 0\<rparr>"

definition enc_RPCSecGssInfo :: "RPCSecGssInfo \<Rightarrow> xenc" where
  "enc_RPCSecGssInfo x = EncodeAll [eString (RPCSecGssInfo_Oid x), eUint32 (RPCSecGssInfo_Qop x),
      eUint32 (RPCSecGssInfo_Service x)]"

definition dec_RPCSecGssInfo :: "RPCSecGssInfo xdec" where
  "dec_RPCSecGssInfo =
    dthen dString (\<lambda>x1. dthen dUint32 (\<lambda>x2. dthen dUint32 (\<lambda>x3.
      dret \<lparr>RPCSecGssInfo_Oid = x1, RPCSecGssInfo_Qop = x2, RPCSecGssInfo_Service = x3\<rparr>)))"

definition ok_RPCSecGssInfo :: "RPCSecGssInfo \<Rightarrow> bool" where
  "ok_RPCSecGssInfo x \<longleftrightarrow> fits32 (RPCSecGssInfo_Oid x)"

interpretation RPCSecGssInfoC: xdr_codec enc_RPCSecGssInfo dec_RPCSecGssInfo ok_RPCSecGssInfo
  by unfold_locales
    (auto simp: enc_RPCSecGssInfo_def dec_RPCSecGssInfo_def ok_RPCSecGssInfo_def dthen_def intro!: framed_intros)

record Secinfo4 =
  Secinfo4_Flavor :: u32

definition zero_Secinfo4 :: Secinfo4 where
  "zero_Secinfo4 = \<lparr>Secinfo4_Flavor = 0\<rparr>"

definition enc_Secinfo4 :: "Secinfo4 \<Rightarrow> xenc" where
  "enc_Secinfo4 x = EncodeAll [eUint32 (Secinfo4_Flavor x)]"

definition dec_Secinfo4 :: "Secinfo4 xdec" where
  "dec_Secinfo4 =
    dthen dUint32 (\<lambda>x1.
      dret \<lparr>Secinfo4_Flavor = x1\<rparr>)"

definition ok_Secinfo4 :: "Secinfo4 \<Rightarrow> bool" where
  "ok_Secinfo4 x \<longleftrightarrow> True"

declare ok_Secinfo4_def [simp]

interpretation Secinfo4C: xdr_codec enc_Secinfo4 dec_Secinfo4 ok_Secinfo4
  by unfold_locales
    (auto simp: enc_Secinfo4_def dec_Secinfo4_def dthen_def intro!: framed_intros)

interpretation Secinfo4S: xdr_slice enc_Secinfo4 dec_Secinfo4 ok_Secinfo4
  by unfold_locales

record ClientOwner4 =
  ClientOwner4_Verifier :: u64
  ClientOwner4_OwnerId :: bytes

definition zero_ClientOwner4 :: ClientOwner4 where
  "zero_ClientOwner4 = \<lparr>ClientOwner4_Verifier = 0, ClientOwner4_OwnerId = []\<rparr>"

definition enc_ClientOwner4 :: "ClientOwner4 \<Rightarrow> xenc" where
  "enc_ClientOwner4 x = EncodeAll [eUint64 (ClientOwner4_Verifier x), eBytes (ClientOwner4_OwnerId x)]"

definition dec_ClientOwner4 :: "ClientOwner4 xdec" where
  "dec_ClientOwner4 =
    dthen dUint64 (\<lambda>x1. dthen dBytes (\<lambda>x2.
      dret \<lparr>ClientOwner4_Verifier = x1, ClientOwner4_OwnerId = x2\<rparr>))"

definition ok_ClientOwner4 :: "ClientOwner4 \<Rightarrow> bool" where
  "ok_ClientOwner4 x \<longleftrightarrow> fits32 (ClientOwner4_OwnerId x)"

interpretation ClientOwner4C: xdr_codec enc_ClientOwner4 dec_ClientOwner4 ok_ClientOwner4
  by unfold_locales
    (auto simp: enc_ClientOwner4_def dec_ClientOwner4_def ok_ClientOwner4_def dthen_def intro!: framed_intros)

record StateProtectOps4 =
  StateProtectOps4_MustEnforce :: "u32 list"
  StateProtectOps4_MustAllow :: "u32 list"

definition zero_StateProtectOps4 :: StateProtectOps4 where
  "zero_StateProtectOps4 = \<lparr>StateProtectOps4_MustEnforce = [], StateProtectOps4_MustAllow = []\<rparr>"

definition enc_StateProtectOps4 :: "StateProtectOps4 \<Rightarrow> xenc" where
  "enc_StateProtectOps4 x = EncodeAll [eUint32s (StateProtectOps4_MustEnforce x), eUint32s (StateProtectOps4_MustAllow x)]"

definition dec_StateProtectOps4 :: "StateProtectOps4 xdec" where
  "dec_StateProtectOps4 =
    dthen dUint32s (\<lambda>x1. dthen dUint32s (\<lambda>x2.
      dret \<lparr>StateProtectOps4_MustEnforce = x1, StateProtectOps4_MustAllow = x2\<rparr>))"

definition ok_StateProtectOps4 :: "StateProtectOps4 \<Rightarrow> bool" where
  "ok_StateProtectOps4 x \<longleftrightarrow> fits32 (StateProtectOps4_MustEnforce x) \<and> fits32 (StateProtectOps4_MustAllow x)"

interpretation StateProtectOps4C: xdr_codec enc_StateProtectOps4 dec_StateProtectOps4 ok_StateProtectOps4
  by unfold_locales
    (auto simp: enc_StateProtectOps4_def dec_StateProtectOps4_def ok_StateProtectOps4_def dthen_def intro!: framed_intros)

record ServerOwner4 =
  ServerOwner4_MinorId :: u64
  ServerOwner4_MajorId :: string

definition zero_ServerOwner4 :: ServerOwner4 where
  "zero_ServerOwner4 = \<lparr>ServerOwner4_MinorId = 0, ServerOwner4_MajorId = []\<rparr>"

definition enc_ServerOwner4 :: "ServerOwner4 \<Rightarrow> xenc" where
  "enc_ServerOwner4 x = EncodeAll [eUint64 (ServerOwner4_MinorId x), eString (ServerOwner4_MajorId x)]"

definition dec_ServerOwner4 :: "ServerOwner4 xdec" where
  "dec_ServerOwner4 =
    dthen dUint64 (\<lambda>x1. dthen dString (\<lambda>x2.
      dret \<lparr>ServerOwner4_MinorId = x1, ServerOwner4_MajorId = x2\<rparr>))"

definition ok_ServerOwner4 :: "ServerOwner4 \<Rightarrow> bool" where
  "ok_ServerOwner4 x \<longleftrightarrow> fits32 (ServerOwner4_MajorId x)"

interpretation ServerOwner4C: xdr_codec enc_ServerOwner4 dec_ServerOwner4 ok_ServerOwner4
  by unfold_locales
    (auto simp: enc_ServerOwner4_def dec_ServerOwner4_def ok_ServerOwner4_def dthen_def intro!: framed_intros)

record NfsTime4 =
  NfsTime4_Seconds :: u64
  NfsTime4_NSeconds :: u32

definition zero_NfsTime4 :: NfsTime4 where
  "zero_NfsTime4 = \<lparr>NfsTime4_Seconds = 0, NfsTime4_NSeconds = 0\<rparr>"

definition enc_NfsTime4 :: "NfsTime4 \<Rightarrow> xenc" where
  "enc_NfsTime4 x = EncodeAll [eUint64 (NfsTime4_Seconds x), eUint32 (NfsTime4_NSeconds x)]"

definition dec_NfsTime4 :: "NfsTime4 xdec" where
  "dec_NfsTime4 =
    dthen dUint64 (\<lambda>x1. dthen dUint32 (\<lambda>x2.
      dret \<lparr>NfsTime4_Seconds = x1, NfsTime4_NSeconds = x2\<rparr>))"

definition ok_NfsTime4 :: "NfsTime4 \<Rightarrow> bool" where
  "ok_NfsTime4 x \<longleftrightarrow> True"

declare ok_NfsTime4_def [simp]

interpretation NfsTime4C: xdr_codec enc_NfsTime4 dec_NfsTime4 ok_NfsTime4
  by unfold_locales
    (auto simp: enc_NfsTime4_def dec_NfsTime4_def dthen_def intro!: framed_intros)

record NfsImplId4 =
  NfsImplId4_Domain :: string
  NfsImplId4_Name :: string
  NfsImplId4_Date :: NfsTime4

definition zero_NfsImplId4 :: NfsImplId4 where
  "zero_NfsImplId4 = \<lparr>NfsImplId4_Domain = [], NfsImplId4_Name = [], NfsImplId4_Date = zero_NfsTime4\<rparr>"

definition enc_NfsImplId4 :: "NfsImplId4 \<Rightarrow> xenc" where
  "enc_NfsImplId4 x = EncodeAll [eString (NfsImplId4_Domain x), eString (NfsImplId4_Name x),
      enc_NfsTime4 (NfsImplId4_Date x)]"

definition dec_NfsImplId4 :: "NfsImplId4 xdec" where
  "dec_NfsImplId4 =
    dthen dString (\<lambda>x1. dthen dString (\<lambda>x2. dthen dec_NfsTime4 (\<lambda>x3.
      dret \<lparr>NfsImplId4_Domain = x1, NfsImplId4_Name = x2, NfsImplId4_Date = x3\<rparr>)))"

definition ok_NfsImplId4 :: "NfsImplId4 \<Rightarrow> bool" where
  "ok_NfsImplId4 x \<longleftrightarrow> fits32 (NfsImplId4_Domain x) \<and> fits32 (NfsImplId4_Name x) \<and>
      ok_NfsTime4 (NfsImplId4_Date x)"

interpretation NfsImplId4C: xdr_codec enc_NfsImplId4 dec_NfsImplId4 ok_NfsImplId4
  by unfold_locales
    (auto simp: enc_NfsImplId4_def dec_NfsImplId4_def ok_NfsImplId4_def dthen_def intro!: framed_intros)

interpretation NfsImplId4O: xdr_option enc_NfsImplId4 dec_NfsImplId4 ok_NfsImplId4
  by unfold_locales

record ChangeInfo4 =
  ChangeInfo4_Atomic :: bool
  ChangeInfo4_Before :: u64
  ChangeInfo4_After :: u64

definition zero_ChangeInfo4 :: ChangeInfo4 where
  "zero_ChangeInfo4 = \<lparr>ChangeInfo4_Atomic = False, ChangeInfo4_Before = 0, ChangeInfo4_After = 0\<rparr>"

definition enc_ChangeInfo4 :: "ChangeInfo4 \<Rightarrow> xenc" where
  "enc_ChangeInfo4 x = EncodeAll [eBool (ChangeInfo4_Atomic x), eUint64 (ChangeInfo4_Before x),
      eUint64 (ChangeInfo4_After x)]"

definition dec_ChangeInfo4 :: "ChangeInfo4 xdec" where
  "dec_ChangeInfo4 =
    dthen dBool (\<lambda>x1. dthen dUint64 (\<lambda>x2. dthen dUint64 (\<lambda>x3.
      dret \<lparr>ChangeInfo4_Atomic = x1, ChangeInfo4_Before = x2, ChangeInfo4_After = x3\<rparr>)))"

definition ok_ChangeInfo4 :: "ChangeInfo4 \<Rightarrow> bool" where
  "ok_ChangeInfo4 x \<longleftrightarrow> True"

declare ok_ChangeInfo4_def [simp]

interpretation ChangeInfo4C: xdr_codec enc_ChangeInfo4 dec_ChangeInfo4 ok_ChangeInfo4
  by unfold_locales
    (auto simp: enc_ChangeInfo4_def dec_ChangeInfo4_def dthen_def intro!: framed_intros)

record CREATE4type =
  CREATE4type_ObjType :: u32
  CREATE4type_Void :: Void
  CREATE4type_VoidReg :: Void
  CREATE4type_VoidDir :: Void
  CREATE4type_BlkData :: Specdata4
  CREATE4type_ChrData :: Specdata4
  CREATE4type_LinkData :: string
  CREATE4type_VoidSock :: Void
  CREATE4type_VoidFifo :: Void

definition zero_CREATE4type :: CREATE4type where
  "zero_CREATE4type = \<lparr>CREATE4type_ObjType = 0, CREATE4type_Void = (), CREATE4type_VoidReg = (),
      CREATE4type_VoidDir = (), CREATE4type_BlkData = zero_Specdata4,
      CREATE4type_ChrData = zero_Specdata4, CREATE4type_LinkData = [],
      CREATE4type_VoidSock = (), CREATE4type_VoidFifo = ()\<rparr>"

definition enc_CREATE4type :: "CREATE4type \<Rightarrow> xenc" where
  "enc_CREATE4type x = eUnion (CREATE4type_ObjType x)
     [enc_Void (CREATE4type_Void x), enc_Void (CREATE4type_VoidReg x),
      enc_Void (CREATE4type_VoidDir x), enc_Specdata4 (CREATE4type_BlkData x),
      enc_Specdata4 (CREATE4type_ChrData x), eString (CREATE4type_LinkData x),
      enc_Void (CREATE4type_VoidSock x), enc_Void (CREATE4type_VoidFifo x)]"

definition dec_CREATE4type :: "CREATE4type xdec" where
  "dec_CREATE4type = dUnion
     [\<lambda>m. dthen dec_Void (\<lambda>x. dret (zero_CREATE4type\<lparr>CREATE4type_ObjType := m, CREATE4type_Void := x\<rparr>)),
      \<lambda>m. dthen dec_Void (\<lambda>x. dret (zero_CREATE4type\<lparr>CREATE4type_ObjType := m, CREATE4type_VoidReg := x\<rparr>)),
      \<lambda>m. dthen dec_Void (\<lambda>x. dret (zero_CREATE4type\<lparr>CREATE4type_ObjType := m, CREATE4type_VoidDir := x\<rparr>)),
      \<lambda>m. dthen dec_Specdata4 (\<lambda>x. dret (zero_CREATE4type\<lparr>CREATE4type_ObjType := m, CREATE4type_BlkData := x\<rparr>)),
      \<lambda>m. dthen dec_Specdata4 (\<lambda>x. dret (zero_CREATE4type\<lparr>CREATE4type_ObjType := m, CREATE4type_ChrData := x\<rparr>)),
      \<lambda>m. dthen dString (\<lambda>x. dret (zero_CREATE4type\<lparr>CREATE4type_ObjType := m, CREATE4type_LinkData := x\<rparr>)),
      \<lambda>m. dthen dec_Void (\<lambda>x. dret (zero_CREATE4type\<lparr>CREATE4type_ObjType := m, CREATE4type_VoidSock := x\<rparr>)),
      \<lambda>m. dthen dec_Void (\<lambda>x. dret (zero_CREATE4type\<lparr>CREATE4type_ObjType := m, CREATE4type_VoidFifo := x\<rparr>))]"

definition ok_CREATE4type :: "CREATE4type \<Rightarrow> bool" where
  "ok_CREATE4type x \<longleftrightarrow>
       (CREATE4type_ObjType x = 0 \<and> CREATE4type_BlkData x = zero_Specdata4 \<and>
        CREATE4type_ChrData x = zero_Specdata4 \<and> CREATE4type_LinkData x = [])
     \<or> (CREATE4type_ObjType x = 1 \<and> CREATE4type_BlkData x = zero_Specdata4 \<and>
        CREATE4type_ChrData x = zero_Specdata4 \<and> CREATE4type_LinkData x = [])
     \<or> (CREATE4type_ObjType x = 2 \<and> CREATE4type_BlkData x = zero_Specdata4 \<and>
        CREATE4type_ChrData x = zero_Specdata4 \<and> CREATE4type_LinkData x = [])
     \<or> (CREATE4type_ObjType x = 3 \<and> ok_Specdata4 (CREATE4type_BlkData x) \<and>
        CREATE4type_ChrData x = zero_Specdata4 \<and> CREATE4type_LinkData x = [])
     \<or> (CREATE4type_ObjType x = 4 \<and> CREATE4type_BlkData x = zero_Specdata4 \<and>
        ok_Specdata4 (CREATE4type_ChrData x) \<and> CREATE4type_LinkData x = [])
     \<or> (CREATE4type_ObjType x = 5 \<and> CREATE4type_BlkData x = zero_Specdata4 \<and>
        CREATE4type_ChrData x = zero_Specdata4 \<and> fits32 (CREATE4type_LinkData x))
     \<or> (CREATE4type_ObjType x = 6 \<and> CREATE4type_BlkData x = zero_Specdata4 \<and>
        CREATE4type_ChrData x = zero_Specdata4 \<and> CREATE4type_LinkData x = [])
     \<or> (CREATE4type_ObjType x = 7 \<and> CREATE4type_BlkData x = zero_Specdata4 \<and>
        CREATE4type_ChrData x = zero_Specdata4 \<and> CREATE4type_LinkData x = [])"

interpretation CREATE4typeC: xdr_codec enc_CREATE4type dec_CREATE4type ok_CREATE4type
proof unfold_locales
  fix x :: CREATE4type and rest :: bytes
  assume "ok_CREATE4type x"
  then show "snd (enc_CREATE4type x) = None" and "4 dvd length (fst (enc_CREATE4type x))"
      and "dec_CREATE4type (fst (enc_CREATE4type x) @ rest) = Inr (x, rest)"
    by (cases x; auto simp: ok_CREATE4type_def enc_CREATE4type_def dec_CREATE4type_def eUnion_def dUnion_def dthen_def
        zero_CREATE4type_def)+
qed (auto simp: dec_CREATE4type_def intro!: framed_intros)

record OpenOwner4 =
  OpenOwner4_ClientId :: u64
  OpenOwner4_Owner :: string

definition zero_OpenOwner4 :: OpenOwner4 where
  "zero_OpenOwner4 = \<lparr>OpenOwner4_ClientId = 0, OpenOwner4_Owner = []\<rparr>"

definition enc_OpenOwner4 :: "OpenOwner4 \<Rightarrow> xenc" where
  "enc_OpenOwner4 x = EncodeAll [eUint64 (OpenOwner4_ClientId x), eString (OpenOwner4_Owner x)]"

definition dec_OpenOwner4 :: "OpenOwner4 xdec" where
  "dec_OpenOwner4 =
    dthen dUint64 (\<lambda>x1. dthen dString (\<lambda>x2.
      dret \<lparr>OpenOwner4_ClientId = x1, OpenOwner4_Owner = x2\<rparr>))"

definition ok_OpenOwner4 :: "OpenOwner4 \<Rightarrow> bool" where
  "ok_OpenOwner4 x \<longleftrightarrow> fits32 (OpenOwner4_Owner x)"

interpretation OpenOwner4C: xdr_codec enc_OpenOwner4 dec_OpenOwner4 ok_OpenOwner4
  by unfold_locales
    (auto simp: enc_OpenOwner4_def dec_OpenOwner4_def ok_OpenOwner4_def dthen_def intro!: framed_intros)

record CreateVerfAttr =
  CreateVerfAttr_Verf :: u64
  CreateVerfAttr_Attrs :: FAttr4

definition zero_CreateVerfAttr :: CreateVerfAttr where
  "zero_CreateVerfAttr = \<lparr>CreateVerfAttr_Verf = 0, CreateVerfAttr_Attrs = zero_FAttr4\<rparr>"

definition enc_CreateVerfAttr :: "CreateVerfAttr \<Rightarrow> xenc" where
  "enc_CreateVerfAttr x = EncodeAll [eUint64 (CreateVerfAttr_Verf x), enc_FAttr4 (CreateVerfAttr_Attrs x)]"

definition dec_CreateVerfAttr :: "CreateVerfAttr xdec" where
  "dec_CreateVerfAttr =
    dthen dUint64 (\<lambda>x1. dthen dec_FAttr4 (\<lambda>x2.
      dret \<lparr>CreateVerfAttr_Verf = x1, CreateVerfAttr_Attrs = x2\<rparr>))"

definition ok_CreateVerfAttr :: "CreateVerfAttr \<Rightarrow> bool" where
  "ok_CreateVerfAttr x \<longleftrightarrow> ok_FAttr4 (CreateVerfAttr_Attrs x)"

interpretation CreateVerfAttrC: xdr_codec enc_CreateVerfAttr dec_CreateVerfAttr ok_CreateVerfAttr
  by unfold_locales
    (auto simp: enc_CreateVerfAttr_def dec_CreateVerfAttr_def ok_CreateVerfAttr_def dthen_def intro!: framed_intros)

record CreateHow4 =
  CreateHow4_CreateMode :: u32
  CreateHow4_CreateAttrsUnchecked :: FAttr4
  CreateHow4_CreateAttrsGuarded :: FAttr4
  CreateHow4_CreateVerf :: u64
  CreateHow4_CreateVerf41 :: CreateVerfAttr

definition zero_CreateHow4 :: CreateHow4 where
  "zero_CreateHow4 = \<lparr>CreateHow4_CreateMode = 0, CreateHow4_CreateAttrsUnchecked = zero_FAttr4,
      CreateHow4_CreateAttrsGuarded = zero_FAttr4, CreateHow4_CreateVerf = 0,
      CreateHow4_CreateVerf41 = zero_CreateVerfAttr\<rparr>"

definition enc_CreateHow4 :: "CreateHow4 \<Rightarrow> xenc" where
  "enc_CreateHow4 x = eUnion (CreateHow4_CreateMode x)
     [enc_FAttr4 (CreateHow4_CreateAttrsUnchecked x),
      enc_FAttr4 (CreateHow4_CreateAttrsGuarded x), eUint64 (CreateHow4_CreateVerf x),
      enc_CreateVerfAttr (CreateHow4_CreateVerf41 x)]"

definition dec_CreateHow4 :: "CreateHow4 xdec" where
  "dec_CreateHow4 = dUnion
     [\<lambda>m. dthen dec_FAttr4 (\<lambda>x. dret (zero_CreateHow4\<lparr>CreateHow4_CreateMode := m, CreateHow4_CreateAttrsUnchecked := x\<rparr>)),
      \<lambda>m. dthen dec_FAttr4 (\<lambda>x. dret (zero_CreateHow4\<lparr>CreateHow4_CreateMode := m, CreateHow4_CreateAttrsGuarded := x\<rparr>)),
      \<lambda>m. dthen dUint64 (\<lambda>x. dret (zero_CreateHow4\<lparr>CreateHow4_CreateMode := m, CreateHow4_CreateVerf := x\<rparr>)),
      \<lambda>m. dthen dec_CreateVerfAttr (\<lambda>x. dret (zero_CreateHow4\<lparr>CreateHow4_CreateMode := m, CreateHow4_CreateVerf41 := x\<rparr>))]"

definition ok_CreateHow4 :: "CreateHow4 \<Rightarrow> bool" where
  "ok_CreateHow4 x \<longleftrightarrow>
       (CreateHow4_CreateMode x = 0 \<and> ok_FAttr4 (CreateHow4_CreateAttrsUnchecked x) \<and>
        CreateHow4_CreateAttrsGuarded x = zero_FAttr4 \<and> CreateHow4_CreateVerf x = 0 \<and>
        CreateHow4_CreateVerf41 x = zero_CreateVerfAttr)
     \<or> (CreateHow4_CreateMode x = 1 \<and>
        CreateHow4_CreateAttrsUnchecked x = zero_FAttr4 \<and>
        ok_FAttr4 (CreateHow4_CreateAttrsGuarded x) \<and> CreateHow4_CreateVerf x = 0 \<and>
        CreateHow4_CreateVerf41 x = zero_CreateVerfAttr)
     \<or> (CreateHow4_CreateMode x = 2 \<and>
        CreateHow4_CreateAttrsUnchecked x = zero_FAttr4 \<and>
        CreateHow4_CreateAttrsGuarded x = zero_FAttr4 \<and>
        CreateHow4_CreateVerf41 x = zero_CreateVerfAttr)
     \<or> (CreateHow4_CreateMode x = 3 \<and>
        CreateHow4_CreateAttrsUnchecked x = zero_FAttr4 \<and>
        CreateHow4_CreateAttrsGuarded x = zero_FAttr4 \<and> CreateHow4_CreateVerf x = 0 \<and>
        ok_CreateVerfAttr (CreateHow4_CreateVerf41 x))"

interpretation CreateHow4C: xdr_codec enc_CreateHow4 dec_CreateHow4 ok_CreateHow4
proof unfold_locales
  fix x :: CreateHow4 and rest :: bytes
  assume "ok_CreateHow4 x"
  then show "snd (enc_CreateHow4 x) = None" and "4 dvd length (fst (enc_CreateHow4 x))"
      and "dec_CreateHow4 (fst (enc_CreateHow4 x) @ rest) = Inr (x, rest)"
    by (cases x; auto simp: ok_CreateHow4_def enc_CreateHow4_def dec_CreateHow4_def eUnion_def dUnion_def dthen_def
        zero_CreateHow4_def)+
qed (auto simp: dec_CreateHow4_def intro!: framed_intros)

record OpenHow4 =
  OpenHow4_How :: u32
  OpenHow4_Void :: Void
  OpenHow4_Claim :: CreateHow4

definition zero_OpenHow4 :: OpenHow4 where
  "zero_OpenHow4 = \<lparr>OpenHow4_How = 0, OpenHow4_Void = (), OpenHow4_Claim = zero_CreateHow4\<rparr>"

definition enc_OpenHow4 :: "OpenHow4 \<Rightarrow> xenc" where
  "enc_OpenHow4 x = eUnion (OpenHow4_How x)
     [enc_Void (OpenHow4_Void x), enc_CreateHow4 (OpenHow4_Claim x)]"

definition dec_OpenHow4 :: "OpenHow4 xdec" where
  "dec_OpenHow4 = dUnion
     [\<lambda>m. dthen dec_Void (\<lambda>x. dret (zero_OpenHow4\<lparr>OpenHow4_How := m, OpenHow4_Void := x\<rparr>)),
      \<lambda>m. dthen dec_CreateHow4 (\<lambda>x. dret (zero_OpenHow4\<lparr>OpenHow4_How := m, OpenHow4_Claim := x\<rparr>))]"

definition ok_OpenHow4 :: "OpenHow4 \<Rightarrow> bool" where
  "ok_OpenHow4 x \<longleftrightarrow>
       (OpenHow4_How x = 0 \<and> OpenHow4_Claim x = zero_CreateHow4)
     \<or> (OpenHow4_How x = 1 \<and> ok_CreateHow4 (OpenHow4_Claim x))"

interpretation OpenHow4C: xdr_codec enc_OpenHow4 dec_OpenHow4 ok_OpenHow4
proof unfold_locales
  fix x :: OpenHow4 and rest :: bytes
  assume "ok_OpenHow4 x"
  then show "snd (enc_OpenHow4 x) = None" and "4 dvd length (fst (enc_OpenHow4 x))"
      and "dec_OpenHow4 (fst (enc_OpenHow4 x) @ rest) = Inr (x, rest)"
    by (cases x; auto simp: ok_OpenHow4_def enc_OpenHow4_def dec_OpenHow4_def eUnion_def dUnion_def dthen_def
        zero_OpenHow4_def)+
qed (auto simp: dec_OpenHow4_def intro!: framed_intros)

record StateId4 =
  StateId4_SeqId :: u32
  StateId4_Other :: "u32 \<times> u32 \<times> u32"

definition zero_StateId4 :: StateId4 where
  "zero_StateId4 = \<lparr>StateId4_SeqId = 0, StateId4_Other = (0, 0, 0)\<rparr>"

definition enc_StateId4 :: "StateId4 \<Rightarrow> xenc" where
  "enc_StateId4 x = EncodeAll [eUint32 (StateId4_SeqId x), eArr3 (StateId4_Other x)]"

definition dec_StateId4 :: "StateId4 xdec" where
  "dec_StateId4 =
    dthen dUint32 (\<lambda>x1. dthen dArr3 (\<lambda>x2.
      dret \<lparr>StateId4_SeqId = x1, StateId4_Other = x2\<rparr>))"

definition ok_StateId4 :: "StateId4 \<Rightarrow> bool" where
  "ok_StateId4 x \<longleftrightarrow> True"

declare ok_StateId4_def [simp]

interpretation StateId4C: xdr_codec enc_StateId4 dec_StateId4 ok_StateId4
  by unfold_locales
    (auto simp: enc_StateId4_def dec_StateId4_def dthen_def intro!: framed_intros)

record OpenClaimDelegateCur4 =
  OpenClaimDelegateCur4_DelegateStateId :: StateId4
  OpenClaimDelegateCur4_File :: string

definition zero_OpenClaimDelegateCur4 :: OpenClaimDelegateCur4 where
  "zero_OpenClaimDelegateCur4 = \<lparr>OpenClaimDelegateCur4_DelegateStateId = zero_StateId4, OpenClaimDelegateCur4_File = []\<rparr>"

definition enc_OpenClaimDelegateCur4 :: "OpenClaimDelegateCur4 \<Rightarrow> xenc" where
  "enc_OpenClaimDelegateCur4 x = EncodeAll [enc_StateId4 (OpenClaimDelegateCur4_DelegateStateId x),
      eString (OpenClaimDelegateCur4_File x)]"

definition dec_OpenClaimDelegateCur4 :: "OpenClaimDelegateCur4 xdec" where
  "dec_OpenClaimDelegateCur4 =
    dthen dec_StateId4 (\<lambda>x1. dthen dString (\<lambda>x2.
      dret \<lparr>OpenClaimDelegateCur4_DelegateStateId = x1, OpenClaimDelegateCur4_File = x2\<rparr>))"

definition ok_OpenClaimDelegateCur4 :: "OpenClaimDelegateCur4 \<Rightarrow> bool" where
  "ok_OpenClaimDelegateCur4 x \<longleftrightarrow> ok_StateId4 (OpenClaimDelegateCur4_DelegateStateId x) \<and>
      fits32 (OpenClaimDelegateCur4_File x)"

interpretation OpenClaimDelegateCur4C: xdr_codec enc_OpenClaimDelegateCur4 dec_OpenClaimDelegateCur4 ok_OpenClaimDelegateCur4
  by unfold_locales
    (auto simp: enc_OpenClaimDelegateCur4_def dec_OpenClaimDelegateCur4_def ok_OpenClaimDelegateCur4_def dthen_def intro!: framed_intros)

record OpenClaim4 =
  OpenClaim4_Claim :: u32
  OpenClaim4_File :: string
  OpenClaim4_DelegateType :: u32
  OpenClaim4_DelegateCurInfo :: OpenClaimDelegateCur4
  OpenClaim4_FileDelegatePrev :: string
  OpenClaim4_VoidClaimFH :: Void
  OpenClaim4_DelegCurFHStateID :: StateId4
  OpenClaim4_VoidDelegPrevFH :: Void

definition zero_OpenClaim4 :: OpenClaim4 where
  "zero_OpenClaim4 = \<lparr>OpenClaim4_Claim = 0, OpenClaim4_File = [], OpenClaim4_DelegateType = 0,
      OpenClaim4_DelegateCurInfo = zero_OpenClaimDelegateCur4,
      OpenClaim4_FileDelegatePrev = [], OpenClaim4_VoidClaimFH = (),
      OpenClaim4_DelegCurFHStateID = zero_StateId4, OpenClaim4_VoidDelegPrevFH = ()\<rparr>"

definition enc_OpenClaim4 :: "OpenClaim4 \<Rightarrow> xenc" where
  "enc_OpenClaim4 x = eUnion (OpenClaim4_Claim x)
     [eString (OpenClaim4_File x), eUint32 (OpenClaim4_DelegateType x),
      enc_OpenClaimDelegateCur4 (OpenClaim4_DelegateCurInfo x),
      eString (OpenClaim4_FileDelegatePrev x), enc_Void (OpenClaim4_VoidClaimFH x),
      enc_StateId4 (OpenClaim4_DelegCurFHStateID x), enc_Void (OpenClaim4_VoidDelegPrevFH x)]"

definition dec_OpenClaim4 :: "OpenClaim4 xdec" where
  "dec_OpenClaim4 = dUnion
     [\<lambda>m. dthen dString (\<lambda>x. dret (zero_OpenClaim4\<lparr>OpenClaim4_Claim := m, OpenClaim4_File := x\<rparr>)),
      \<lambda>m. dthen dUint32 (\<lambda>x. dret (zero_OpenClaim4\<lparr>OpenClaim4_Claim := m, OpenClaim4_DelegateType := x\<rparr>)),
      \<lambda>m. dthen dec_OpenClaimDelegateCur4 (\<lambda>x. dret (zero_OpenClaim4\<lparr>OpenClaim4_Claim := m, OpenClaim4_DelegateCurInfo := x\<rparr>)),
      \<lambda>m. dthen dString (\<lambda>x. dret (zero_OpenClaim4\<lparr>OpenClaim4_Claim := m, OpenClaim4_FileDelegatePrev := x\<rparr>)),
      \<lambda>m. dthen dec_Void (\<lambda>x. dret (zero_OpenClaim4\<lparr>OpenClaim4_Claim := m, OpenClaim4_VoidClaimFH := x\<rparr>)),
      \<lambda>m. dthen dec_StateId4 (\<lambda>x. dret (zero_OpenClaim4\<lparr>OpenClaim4_Claim := m, OpenClaim4_DelegCurFHStateID := x\<rparr>)),
      \<lambda>m. dthen dec_Void (\<lambda>x. dret (zero_OpenClaim4\<lparr>OpenClaim4_Claim := m, OpenClaim4_VoidDelegPrevFH := x\<rparr>))]"

definition ok_OpenClaim4 :: "OpenClaim4 \<Rightarrow> bool" where
  "ok_OpenClaim4 x \<longleftrightarrow>
       (OpenClaim4_Claim x = 0 \<and> fits32 (OpenClaim4_File x) \<and>
        OpenClaim4_DelegateType x = 0 \<and>
        OpenClaim4_DelegateCurInfo x = zero_OpenClaimDelegateCur4 \<and>
        OpenClaim4_FileDelegatePrev x = [] \<and>
        OpenClaim4_DelegCurFHStateID x = zero_StateId4)
     \<or> (OpenClaim4_Claim x = 1 \<and> OpenClaim4_File x = [] \<and>
        OpenClaim4_DelegateCurInfo x = zero_OpenClaimDelegateCur4 \<and>
        OpenClaim4_FileDelegatePrev x = [] \<and>
        OpenClaim4_DelegCurFHStateID x = zero_StateId4)
     \<or> (OpenClaim4_Claim x = 2 \<and> OpenClaim4_File x = [] \<and>
        OpenClaim4_DelegateType x = 0 \<and>
        ok_OpenClaimDelegateCur4 (OpenClaim4_DelegateCurInfo x) \<and>
        OpenClaim4_FileDelegatePrev x = [] \<and>
        OpenClaim4_DelegCurFHStateID x = zero_StateId4)
     \<or> (OpenClaim4_Claim x = 3 \<and> OpenClaim4_File x = [] \<and>
        OpenClaim4_DelegateType x = 0 \<and>
        OpenClaim4_DelegateCurInfo x = zero_OpenClaimDelegateCur4 \<and>
        fits32 (OpenClaim4_FileDelegatePrev x) \<and>
        OpenClaim4_DelegCurFHStateID x = zero_StateId4)
     \<or> (OpenClaim4_Claim x = 4 \<and> OpenClaim4_File x = [] \<and>
        OpenClaim4_DelegateType x = 0 \<and>
        OpenClaim4_DelegateCurInfo x = zero_OpenClaimDelegateCur4 \<and>
        OpenClaim4_FileDelegatePrev x = [] \<and>
        OpenClaim4_DelegCurFHStateID x = zero_StateId4)
     \<or> (OpenClaim4_Claim x = 5 \<and> OpenClaim4_File x = [] \<and>
        OpenClaim4_DelegateType x = 0 \<and>
        OpenClaim4_DelegateCurInfo x = zero_OpenClaimDelegateCur4 \<and>
        OpenClaim4_FileDelegatePrev x = [] \<and> ok_StateId4 (OpenClaim4_DelegCurFHStateID x))
     \<or> (OpenClaim4_Claim x = 6 \<and> OpenClaim4_File x = [] \<and>
        OpenClaim4_DelegateType x = 0 \<and>
        OpenClaim4_DelegateCurInfo x = zero_OpenClaimDelegateCur4 \<and>
        OpenClaim4_FileDelegatePrev x = [] \<and>
        OpenClaim4_DelegCurFHStateID x = zero_StateId4)"

interpretation OpenClaim4C: xdr_codec enc_OpenClaim4 dec_OpenClaim4 ok_OpenClaim4
proof unfold_locales
  fix x :: OpenClaim4 and rest :: bytes
  assume "ok_OpenClaim4 x"
  then show "snd (enc_OpenClaim4 x) = None" and "4 dvd length (fst (enc_OpenClaim4 x))"
      and "dec_OpenClaim4 (fst (enc_OpenClaim4 x) @ rest) = Inr (x, rest)"
    by (cases x; auto simp: ok_OpenClaim4_def enc_OpenClaim4_def dec_OpenClaim4_def eUnion_def dUnion_def dthen_def
        zero_OpenClaim4_def)+
qed (auto simp: dec_OpenClaim4_def intro!: framed_intros)

record NfsAce4 =
  NfsAce4_Type :: u32
  NfsAce4_Flag :: u32
  NfsAce4_AccessMask :: u32
  NfsAce4_Who :: string

definition zero_NfsAce4 :: NfsAce4 where
  "zero_NfsAce4 = \<lparr>NfsAce4_Type = 0, NfsAce4_Flag = 0, NfsAce4_AccessMask = 0, NfsAce4_Who = []\<rparr>"

definition enc_NfsAce4 :: "NfsAce4 \<Rightarrow> xenc" where
  "enc_NfsAce4 x = EncodeAll [eUint32 (NfsAce4_Type x), eUint32 (NfsAce4_Flag x), eUint32 (NfsAce4_AccessMask x),
      eString (NfsAce4_Who x)]"

definition dec_NfsAce4 :: "NfsAce4 xdec" where
  "dec_NfsAce4 =
    dthen dUint32 (\<lambda>x1. dthen dUint32 (\<lambda>x2. dthen dUint32 (\<lambda>x3.
    dthen dString (\<lambda>x4.
      dret \<lparr>NfsAce4_Type = x1, NfsAce4_Flag = x2, NfsAce4_AccessMask = x3, NfsAce4_Who = x4\<rparr>))))"

definition ok_NfsAce4 :: "NfsAce4 \<Rightarrow> bool" where
  "ok_NfsAce4 x \<longleftrightarrow> fits32 (NfsAce4_Who x)"

interpretation NfsAce4C: xdr_codec enc_NfsAce4 dec_NfsAce4 ok_NfsAce4
  by unfold_locales
    (auto simp: enc_NfsAce4_def dec_NfsAce4_def ok_NfsAce4_def dthen_def intro!: framed_intros)

interpretation NfsAce4S: xdr_slice enc_NfsAce4 dec_NfsAce4 ok_NfsAce4
  by unfold_locales

record NfsPosixAce4 =
  NfsPosixAce4_Tag :: u32
  NfsPosixAce4_Perm :: u32
  NfsPosixAce4_Who :: string

definition zero_NfsPosixAce4 :: NfsPosixAce4 where
  "zero_NfsPosixAce4 = \<lparr>NfsPosixAce4_Tag = 0, NfsPosixAce4_Perm = 0, NfsPosixAce4_Who = []\<rparr>"

definition enc_NfsPosixAce4 :: "NfsPosixAce4 \<Rightarrow> xenc" where
  "enc_NfsPosixAce4 x = EncodeAll [eUint32 (NfsPosixAce4_Tag x), eUint32 (NfsPosixAce4_Perm x), eString (NfsPosixAce4_Who x)]"

definition dec_NfsPosixAce4 :: "NfsPosixAce4 xdec" where
  "dec_NfsPosixAce4 =
    dthen dUint32 (\<lambda>x1. dthen dUint32 (\<lambda>x2. dthen dString (\<lambda>x3.
      dret \<lparr>NfsPosixAce4_Tag = x1, NfsPosixAce4_Perm = x2, NfsPosixAce4_Who = x3\<rparr>)))"

definition ok_NfsPosixAce4 :: "NfsPosixAce4 \<Rightarrow> bool" where
  "ok_NfsPosixAce4 x \<longleftrightarrow> fits32 (NfsPosixAce4_Who x)"

interpretation NfsPosixAce4C: xdr_codec enc_NfsPosixAce4 dec_NfsPosixAce4 ok_NfsPosixAce4
  by unfold_locales
    (auto simp: enc_NfsPosixAce4_def dec_NfsPosixAce4_def ok_NfsPosixAce4_def dthen_def intro!: framed_intros)

interpretation NfsPosixAce4S: xdr_slice enc_NfsPosixAce4 dec_NfsPosixAce4 ok_NfsPosixAce4
  by unfold_locales

record NfsModifiedLimit4 =
  NfsModifiedLimit4_NumBlocks :: u32
  NfsModifiedLimit4_BytesPerBlock :: u32

definition zero_NfsModifiedLimit4 :: NfsModifiedLimit4 where
  "zero_NfsModifiedLimit4 = \<lparr>NfsModifiedLimit4_NumBlocks = 0, NfsModifiedLimit4_BytesPerBlock = 0\<rparr>"

definition enc_NfsModifiedLimit4 :: "NfsModifiedLimit4 \<Rightarrow> xenc" where
  "enc_NfsModifiedLimit4 x = EncodeAll [eUint32 (NfsModifiedLimit4_NumBlocks x), eUint32 (NfsModifiedLimit4_BytesPerBlock x)]"

definition dec_NfsModifiedLimit4 :: "NfsModifiedLimit4 xdec" where
  "dec_NfsModifiedLimit4 =
    dthen dUint32 (\<lambda>x1. dthen dUint32 (\<lambda>x2.
      dret \<lparr>NfsModifiedLimit4_NumBlocks = x1, NfsModifiedLimit4_BytesPerBlock = x2\<rparr>))"

definition ok_NfsModifiedLimit4 :: "NfsModifiedLimit4 \<Rightarrow> bool" where
  "ok_NfsModifiedLimit4 x \<longleftrightarrow> True"

declare ok_NfsModifiedLimit4_def [simp]

interpretation NfsModifiedLimit4C: xdr_codec enc_NfsModifiedLimit4 dec_NfsModifiedLimit4 ok_NfsModifiedLimit4
  by unfold_locales
    (auto simp: enc_NfsModifiedLimit4_def dec_NfsModifiedLimit4_def dthen_def intro!: framed_intros)

interpretation NfsModifiedLimit4O: xdr_option enc_NfsModifiedLimit4 dec_NfsModifiedLimit4 ok_NfsModifiedLimit4
  by unfold_locales

record NfsSpaceLimit4 =
  NfsSpaceLimit4_LimitBy :: u32
  NfsSpaceLimit4_FileSize :: u64
  NfsSpaceLimit4_ModBlocks :: "NfsModifiedLimit4 option"

definition zero_NfsSpaceLimit4 :: NfsSpaceLimit4 where
  "zero_NfsSpaceLimit4 = \<lparr>NfsSpaceLimit4_LimitBy = 0, NfsSpaceLimit4_FileSize = 0, NfsSpaceLimit4_ModBlocks = None\<rparr>"

definition enc_NfsSpaceLimit4 :: "NfsSpaceLimit4 \<Rightarrow> xenc" where
  "enc_NfsSpaceLimit4 x = EncodeAll [eUint32 (NfsSpaceLimit4_LimitBy x), eUint64 (NfsSpaceLimit4_FileSize x),
      (eOption enc_NfsModifiedLimit4) (NfsSpaceLimit4_ModBlocks x)]"

definition dec_NfsSpaceLimit4 :: "NfsSpaceLimit4 xdec" where
  "dec_NfsSpaceLimit4 =
    dthen dUint32 (\<lambda>x1. dthen dUint64 (\<lambda>x2.
    dthen (dOption dec_NfsModifiedLimit4) (\<lambda>x3.
      dret \<lparr>NfsSpaceLimit4_LimitBy = x1, NfsSpaceLimit4_FileSize = x2, NfsSpaceLimit4_ModBlocks = x3\<rparr>)))"

definition ok_NfsSpaceLimit4 :: "NfsSpaceLimit4 \<Rightarrow> bool" where
  "ok_NfsSpaceLimit4 x \<longleftrightarrow> (pred_option ok_NfsModifiedLimit4) (NfsSpaceLimit4_ModBlocks x)"

interpretation NfsSpaceLimit4C: xdr_codec enc_NfsSpaceLimit4 dec_NfsSpaceLimit4 ok_NfsSpaceLimit4
  by unfold_locales
    (auto simp: enc_NfsSpaceLimit4_def dec_NfsSpaceLimit4_def ok_NfsSpaceLimit4_def dthen_def intro!: framed_intros)

record OpenReadDelegation4 =
  OpenReadDelegation4_StateId :: StateId4
  OpenReadDelegation4_Recall :: bool
  OpenReadDelegation4_Permissions :: NfsAce4

definition zero_OpenReadDelegation4 :: OpenReadDelegation4 where
  "zero_OpenReadDelegation4 = \<lparr>OpenReadDelegation4_StateId = zero_StateId4, OpenReadDelegation4_Recall = False,
      OpenReadDelegation4_Permissions = zero_NfsAce4\<rparr>"

definition enc_OpenReadDelegation4 :: "OpenReadDelegation4 \<Rightarrow> xenc" where
  "enc_OpenReadDelegation4 x = EncodeAll [enc_StateId4 (OpenReadDelegation4_StateId x), eBool (OpenReadDelegation4_Recall x),
      enc_NfsAce4 (OpenReadDelegation4_Permissions x)]"

definition dec_OpenReadDelegation4 :: "OpenReadDelegation4 xdec" where
  "dec_OpenReadDelegation4 =
    dthen dec_StateId4 (\<lambda>x1. dthen dBool (\<lambda>x2. dthen dec_NfsAce4 (\<lambda>x3.
      dret \<lparr>OpenReadDelegation4_StateId = x1, OpenReadDelegation4_Recall = x2,
      OpenReadDelegation4_Permissions = x3\<rparr>)))"

definition ok_OpenReadDelegation4 :: "OpenReadDelegation4 \<Rightarrow> bool" where
  "ok_OpenReadDelegation4 x \<longleftrightarrow> ok_StateId4 (OpenReadDelegation4_StateId x) \<and>
      ok_NfsAce4 (OpenReadDelegation4_Permissions x)"

interpretation OpenReadDelegation4C: xdr_codec enc_OpenReadDelegation4 dec_OpenReadDelegation4 ok_OpenReadDelegation4
  by unfold_locales
    (auto simp: enc_OpenReadDelegation4_def dec_OpenReadDelegation4_def ok_OpenReadDelegation4_def dthen_def intro!: framed_intros)

record OpenWriteDelegation4 =
  OpenWriteDelegation4_StateId :: StateId4
  OpenWriteDelegation4_Recall :: bool
  OpenWriteDelegation4_SpaceLimit :: NfsSpaceLimit4
  OpenWriteDelegation4_Permissions :: NfsAce4

definition zero_OpenWriteDelegation4 :: OpenWriteDelegation4 where
  "zero_OpenWriteDelegation4 = \<lparr>OpenWriteDelegation4_StateId = zero_StateId4, OpenWriteDelegation4_Recall = False,
      OpenWriteDelegation4_SpaceLimit = zero_NfsSpaceLimit4,
      OpenWriteDelegation4_Permissions = zero_NfsAce4\<rparr>"

definition enc_OpenWriteDelegation4 :: "OpenWriteDelegation4 \<Rightarrow> xenc" where
  "enc_OpenWriteDelegation4 x = EncodeAll [enc_StateId4 (OpenWriteDelegation4_StateId x), eBool (OpenWriteDelegation4_Recall x),
      enc_NfsSpaceLimit4 (OpenWriteDelegation4_SpaceLimit x),
      enc_NfsAce4 (OpenWriteDelegation4_Permissions x)]"

definition dec_OpenWriteDelegation4 :: "OpenWriteDelegation4 xdec" where
  "dec_OpenWriteDelegation4 =
    dthen dec_StateId4 (\<lambda>x1. dthen dBool (\<lambda>x2.
    dthen dec_NfsSpaceLimit4 (\<lambda>x3. dthen dec_NfsAce4 (\<lambda>x4.
      dret \<lparr>OpenWriteDelegation4_StateId = x1, OpenWriteDelegation4_Recall = x2,
      OpenWriteDelegation4_SpaceLimit = x3, OpenWriteDelegation4_Permissions = x4\<rparr>))))"

definition ok_OpenWriteDelegation4 :: "OpenWriteDelegation4 \<Rightarrow> bool" where
  "ok_OpenWriteDelegation4 x \<longleftrightarrow> ok_StateId4 (OpenWriteDelegation4_StateId x) \<and>
      ok_NfsSpaceLimit4 (OpenWriteDelegation4_SpaceLimit x) \<and>
      ok_NfsAce4 (OpenWriteDelegation4_Permissions x)"

interpretation OpenWriteDelegation4C: xdr_codec enc_OpenWriteDelegation4 dec_OpenWriteDelegation4 ok_OpenWriteDelegation4
  by unfold_locales
    (auto simp: enc_OpenWriteDelegation4_def dec_OpenWriteDelegation4_def ok_OpenWriteDelegation4_def dthen_def intro!: framed_intros)

record OpenDelegationNoneWhy4 =
  OpenDelegationNoneWhy4_Why :: u32

definition zero_OpenDelegationNoneWhy4 :: OpenDelegationNoneWhy4 where
  "zero_OpenDelegationNoneWhy4 = \<lparr>OpenDelegationNoneWhy4_Why = 0\<rparr>"

definition enc_OpenDelegationNoneWhy4 :: "OpenDelegationNoneWhy4 \<Rightarrow> xenc" where
  "enc_OpenDelegationNoneWhy4 x = EncodeAll [eUint32 (OpenDelegationNoneWhy4_Why x)]"

definition dec_OpenDelegationNoneWhy4 :: "OpenDelegationNoneWhy4 xdec" where
  "dec_OpenDelegationNoneWhy4 =
    dthen dUint32 (\<lambda>x1.
      dret \<lparr>OpenDelegationNoneWhy4_Why = x1\<rparr>)"

definition ok_OpenDelegationNoneWhy4 :: "OpenDelegationNoneWhy4 \<Rightarrow> bool" where
  "ok_OpenDelegationNoneWhy4 x \<longleftrightarrow> True"

declare ok_OpenDelegationNoneWhy4_def [simp]

interpretation OpenDelegationNoneWhy4C: xdr_codec enc_OpenDelegationNoneWhy4 dec_OpenDelegationNoneWhy4 ok_OpenDelegationNoneWhy4
  by unfold_locales
    (auto simp: enc_OpenDelegationNoneWhy4_def dec_OpenDelegationNoneWhy4_def dthen_def intro!: framed_intros)

record OpenDelegation4 =
  OpenDelegation4_Type :: u32
  OpenDelegation4_DelegateNone :: Void
  OpenDelegation4_DelegateRead :: OpenReadDelegation4
  OpenDelegation4_DelegateWrite :: OpenWriteDelegation4
  OpenDelegation4_DelegateNoneWhy :: OpenDelegationNoneWhy4

definition zero_OpenDelegation4 :: OpenDelegation4 where
  "zero_OpenDelegation4 = \<lparr>OpenDelegation4_Type = 0, OpenDelegation4_DelegateNone = (),
      OpenDelegation4_DelegateRead = zero_OpenReadDelegation4,
      OpenDelegation4_DelegateWrite = zero_OpenWriteDelegation4,
      OpenDelegation4_DelegateNoneWhy = zero_OpenDelegationNoneWhy4\<rparr>"

definition enc_OpenDelegation4 :: "OpenDelegation4 \<Rightarrow> xenc" where
  "enc_OpenDelegation4 x = eUnion (OpenDelegation4_Type x)
     [enc_Void (OpenDelegation4_DelegateNone x),
      enc_OpenReadDelegation4 (OpenDelegation4_DelegateRead x),
      enc_OpenWriteDelegation4 (OpenDelegation4_DelegateWrite x),
      enc_OpenDelegationNoneWhy4 (OpenDelegation4_DelegateNoneWhy x)]"

definition dec_OpenDelegation4 :: "OpenDelegation4 xdec" where
  "dec_OpenDelegation4 = dUnion
     [\<lambda>m. dthen dec_Void (\<lambda>x. dret (zero_OpenDelegation4\<lparr>OpenDelegation4_Type := m, OpenDelegation4_DelegateNone := x\<rparr>)),
      \<lambda>m. dthen dec_OpenReadDelegation4 (\<lambda>x. dret (zero_OpenDelegation4\<lparr>OpenDelegation4_Type := m, OpenDelegation4_DelegateRead := x\<rparr>)),
      \<lambda>m. dthen dec_OpenWriteDelegation4 (\<lambda>x. dret (zero_OpenDelegation4\<lparr>OpenDelegation4_Type := m, OpenDelegation4_DelegateWrite := x\<rparr>)),
      \<lambda>m. dthen dec_OpenDelegationNoneWhy4 (\<lambda>x. dret (zero_OpenDelegation4\<lparr>OpenDelegation4_Type := m, OpenDelegation4_DelegateNoneWhy := x\<rparr>))]"

definition ok_OpenDelegation4 :: "OpenDelegation4 \<Rightarrow> bool" where
  "ok_OpenDelegation4 x \<longleftrightarrow>
       (OpenDelegation4_Type x = 0 \<and>
        OpenDelegation4_DelegateRead x = zero_OpenReadDelegation4 \<and>
        OpenDelegation4_DelegateWrite x = zero_OpenWriteDelegation4 \<and>
        OpenDelegation4_DelegateNoneWhy x = zero_OpenDelegationNoneWhy4)
     \<or> (OpenDelegation4_Type x = 1 \<and>
        ok_OpenReadDelegation4 (OpenDelegation4_DelegateRead x) \<and>
        OpenDelegation4_DelegateWrite x = zero_OpenWriteDelegation4 \<and>
        OpenDelegation4_DelegateNoneWhy x = zero_OpenDelegationNoneWhy4)
     \<or> (OpenDelegation4_Type x = 2 \<and>
        OpenDelegation4_DelegateRead x = zero_OpenReadDelegation4 \<and>
        ok_OpenWriteDelegation4 (OpenDelegation4_DelegateWrite x) \<and>
        OpenDelegation4_DelegateNoneWhy x = zero_OpenDelegationNoneWhy4)
     \<or> (OpenDelegation4_Type x = 3 \<and>
        OpenDelegation4_DelegateRead x = zero_OpenReadDelegation4 \<and>
        OpenDelegation4_DelegateWrite x = zero_OpenWriteDelegation4 \<and>
        ok_OpenDelegationNoneWhy4 (OpenDelegation4_DelegateNoneWhy x))"

interpretation OpenDelegation4C: xdr_codec enc_OpenDelegation4 dec_OpenDelegation4 ok_OpenDelegation4
proof unfold_locales
  fix x :: OpenDelegation4 and rest :: bytes
  assume "ok_OpenDelegation4 x"
  then show "snd (enc_OpenDelegation4 x) = None" and "4 dvd length (fst (enc_OpenDelegation4 x))"
      and "dec_OpenDelegation4 (fst (enc_OpenDelegation4 x) @ rest) = Inr (x, rest)"
    by (cases x; auto simp: ok_OpenDelegation4_def enc_OpenDelegation4_def dec_OpenDelegation4_def eUnion_def dUnion_def dthen_def
        zero_OpenDelegation4_def)+
qed (auto simp: dec_OpenDelegation4_def intro!: framed_intros)

record OpenDelegationNone4 =
  OpenDelegationNone4_Mode :: u32

definition zero_OpenDelegationNone4 :: OpenDelegationNone4 where
  "zero_OpenDelegationNone4 = \<lparr>OpenDelegationNone4_Mode = 0\<rparr>"

definition enc_OpenDelegationNone4 :: "OpenDelegationNone4 \<Rightarrow> xenc" where
  "enc_OpenDelegationNone4 x = EncodeAll [eUint32 (OpenDelegationNone4_Mode x)]"

definition dec_OpenDelegationNone4 :: "OpenDelegationNone4 xdec" where
  "dec_OpenDelegationNone4 =
    dthen dUint32 (\<lambda>x1.
      dret \<lparr>OpenDelegationNone4_Mode = x1\<rparr>)"

definition ok_OpenDelegationNone4 :: "OpenDelegationNone4 \<Rightarrow> bool" where
  "ok_OpenDelegationNone4 x \<longleftrightarrow> True"

declare ok_OpenDelegationNone4_def [simp]

interpretation OpenDelegationNone4C: xdr_codec enc_OpenDelegationNone4 dec_OpenDelegationNone4 ok_OpenDelegationNone4
  by unfold_locales
    (auto simp: enc_OpenDelegationNone4_def dec_OpenDelegationNone4_def dthen_def intro!: framed_intros)

record SsvSpParams4 =
  SsvSpParams4_Ops :: StateProtectOps4
  SsvSpParams4_HashAlgs :: "string list"
  SsvSpParams4_EncrAlgs :: "string list"
  SsvSpParams4_Window :: u32
  SsvSpParams4_NumGssHandles :: u32

definition zero_SsvSpParams4 :: SsvSpParams4 where
  "zero_SsvSpParams4 = \<lparr>SsvSpParams4_Ops = zero_StateProtectOps4, SsvSpParams4_HashAlgs = [],
      SsvSpParams4_EncrAlgs = [], SsvSpParams4_Window = 0, SsvSpParams4_NumGssHandles = 0\<rparr>"

definition enc_SsvSpParams4 :: "SsvSpParams4 \<Rightarrow> xenc" where
  "enc_SsvSpParams4 x = EncodeAll [enc_StateProtectOps4 (SsvSpParams4_Ops x), eStrings (SsvSpParams4_HashAlgs x),
      eStrings (SsvSpParams4_EncrAlgs x), eUint32 (SsvSpParams4_Window x),
      eUint32 (SsvSpParams4_NumGssHandles x)]"

definition dec_SsvSpParams4 :: "SsvSpParams4 xdec" where
  "dec_SsvSpParams4 =
    dthen dec_StateProtectOps4 (\<lambda>x1. dthen dStrings (\<lambda>x2.
    dthen dStrings (\<lambda>x3. dthen dUint32 (\<lambda>x4. dthen dUint32 (\<lambda>x5.
      dret \<lparr>SsvSpParams4_Ops = x1, SsvSpParams4_HashAlgs = x2, SsvSpParams4_EncrAlgs = x3,
      SsvSpParams4_Window = x4, SsvSpParams4_NumGssHandles = x5\<rparr>)))))"

definition ok_SsvSpParams4 :: "SsvSpParams4 \<Rightarrow> bool" where
  "ok_SsvSpParams4 x \<longleftrightarrow> ok_StateProtectOps4 (SsvSpParams4_Ops x) \<and>
      ok_strings (SsvSpParams4_HashAlgs x) \<and> ok_strings (SsvSpParams4_EncrAlgs x)"

interpretation SsvSpParams4C: xdr_codec enc_SsvSpParams4 dec_SsvSpParams4 ok_SsvSpParams4
  by unfold_locales
    (auto simp: enc_SsvSpParams4_def dec_SsvSpParams4_def ok_SsvSpParams4_def dthen_def intro!: framed_intros)

record StateProtect4 =
  StateProtect4_How :: u32
  StateProtect4_Void :: Void
  StateProtect4_MachOps :: StateProtectOps4
  StateProtect4_SsvInfo :: SsvSpParams4

definition zero_StateProtect4 :: StateProtect4 where
  "zero_StateProtect4 = \<lparr>StateProtect4_How = 0, StateProtect4_Void = (),
      StateProtect4_MachOps = zero_StateProtectOps4, StateProtect4_SsvInfo = zero_SsvSpParams4\<rparr>"

definition enc_StateProtect4 :: "StateProtect4 \<Rightarrow> xenc" where
  "enc_StateProtect4 x = eUnion (StateProtect4_How x)
     [enc_Void (StateProtect4_Void x), enc_StateProtectOps4 (StateProtect4_MachOps x),
      enc_SsvSpParams4 (StateProtect4_SsvInfo x)]"

definition dec_StateProtect4 :: "StateProtect4 xdec" where
  "dec_StateProtect4 = dUnion
     [\<lambda>m. dthen dec_Void (\<lambda>x. dret (zero_StateProtect4\<lparr>StateProtect4_How := m, StateProtect4_Void := x\<rparr>)),
      \<lambda>m. dthen dec_StateProtectOps4 (\<lambda>x. dret (zero_StateProtect4\<lparr>StateProtect4_How := m, StateProtect4_MachOps := x\<rparr>)),
      \<lambda>m. dthen dec_SsvSpParams4 (\<lambda>x. dret (zero_StateProtect4\<lparr>StateProtect4_How := m, StateProtect4_SsvInfo := x\<rparr>))]"

definition ok_StateProtect4 :: "StateProtect4 \<Rightarrow> bool" where
  "ok_StateProtect4 x \<longleftrightarrow>
       (StateProtect4_How x = 0 \<and> StateProtect4_MachOps x = zero_StateProtectOps4 \<and>
        StateProtect4_SsvInfo x = zero_SsvSpParams4)
     \<or> (StateProtect4_How x = 1 \<and> ok_StateProtectOps4 (StateProtect4_MachOps x) \<and>
        StateProtect4_SsvInfo x = zero_SsvSpParams4)
     \<or> (StateProtect4_How x = 2 \<and> StateProtect4_MachOps x = zero_StateProtectOps4 \<and>
        ok_SsvSpParams4 (StateProtect4_SsvInfo x))"

interpretation StateProtect4C: xdr_codec enc_StateProtect4 dec_StateProtect4 ok_StateProtect4
proof unfold_locales
  fix x :: StateProtect4 and rest :: bytes
  assume "ok_StateProtect4 x"
  then show "snd (enc_StateProtect4 x) = None" and "4 dvd length (fst (enc_StateProtect4 x))"
      and "dec_StateProtect4 (fst (enc_StateProtect4 x) @ rest) = Inr (x, rest)"
    by (cases x; auto simp: ok_StateProtect4_def enc_StateProtect4_def dec_StateProtect4_def eUnion_def dUnion_def dthen_def
        zero_StateProtect4_def)+
qed (auto simp: dec_StateProtect4_def intro!: framed_intros)

record SsvProtInfo4 =
  SsvProtInfo4_Ops :: StateProtectOps4
  SsvProtInfo4_HashAlg :: u32
  SsvProtInfo4_EncrAlg :: u32
  SsvProtInfo4_SsvLen :: u32
  SsvProtInfo4_Window :: u32
  SsvProtInfo4_Handles :: "string list"

definition zero_SsvProtInfo4 :: SsvProtInfo4 where
  "zero_SsvProtInfo4 = \<lparr>SsvProtInfo4_Ops = zero_StateProtectOps4, SsvProtInfo4_HashAlg = 0,
      SsvProtInfo4_EncrAlg = 0, SsvProtInfo4_SsvLen = 0, SsvProtInfo4_Window = 0,
      SsvProtInfo4_Handles = []\<rparr>"

definition enc_SsvProtInfo4 :: "SsvProtInfo4 \<Rightarrow> xenc" where
  "enc_SsvProtInfo4 x = EncodeAll [enc_StateProtectOps4 (SsvProtInfo4_Ops x), eUint32 (SsvProtInfo4_HashAlg x),
      eUint32 (SsvProtInfo4_EncrAlg x), eUint32 (SsvProtInfo4_SsvLen x),
      eUint32 (SsvProtInfo4_Window x), eStrings (SsvProtInfo4_Handles x)]"

definition dec_SsvProtInfo4 :: "SsvProtInfo4 xdec" where
  "dec_SsvProtInfo4 =
    dthen dec_StateProtectOps4 (\<lambda>x1. dthen dUint32 (\<lambda>x2.
    dthen dUint32 (\<lambda>x3. dthen dUint32 (\<lambda>x4. dthen dUint32 (\<lambda>x5.
    dthen dStrings (\<lambda>x6.
      dret \<lparr>SsvProtInfo4_Ops = x1, SsvProtInfo4_HashAlg = x2, SsvProtInfo4_EncrAlg = x3,
      SsvProtInfo4_SsvLen = x4, SsvProtInfo4_Window = x5, SsvProtInfo4_Handles = x6\<rparr>))))))"

definition ok_SsvProtInfo4 :: "SsvProtInfo4 \<Rightarrow> bool" where
  "ok_SsvProtInfo4 x \<longleftrightarrow> ok_StateProtectOps4 (SsvProtInfo4_Ops x) \<and> ok_strings (SsvProtInfo4_Handles x)"

interpretation SsvProtInfo4C: xdr_codec enc_SsvProtInfo4 dec_SsvProtInfo4 ok_SsvProtInfo4
  by unfold_locales
    (auto simp: enc_SsvProtInfo4_def dec_SsvProtInfo4_def ok_SsvProtInfo4_def dthen_def intro!: framed_intros)

record ChannelAttrs4 =
  ChannelAttrs4_HeaderPadSize :: u32
  ChannelAttrs4_MaxRequestSize :: u32
  ChannelAttrs4_MaxResponseSize :: u32
  ChannelAttrs4_MaxResponseSizeCached :: u32
  ChannelAttrs4_MaxOperations :: u32
  ChannelAttrs4_MaxRequests :: u32
  ChannelAttrs4_RdmaIrd :: bytes

definition zero_ChannelAttrs4 :: ChannelAttrs4 where
  "zero_ChannelAttrs4 = \<lparr>ChannelAttrs4_HeaderPadSize = 0, ChannelAttrs4_MaxRequestSize = 0,
      ChannelAttrs4_MaxResponseSize = 0, ChannelAttrs4_MaxResponseSizeCached = 0,
      ChannelAttrs4_MaxOperations = 0, ChannelAttrs4_MaxRequests = 0,
      ChannelAttrs4_RdmaIrd = []\<rparr>"

definition enc_ChannelAttrs4 :: "ChannelAttrs4 \<Rightarrow> xenc" where
  "enc_ChannelAttrs4 x = EncodeAll [eUint32 (ChannelAttrs4_HeaderPadSize x), eUint32 (ChannelAttrs4_MaxRequestSize x),
      eUint32 (ChannelAttrs4_MaxResponseSize x),
      eUint32 (ChannelAttrs4_MaxResponseSizeCached x), eUint32 (ChannelAttrs4_MaxOperations x),
      eUint32 (ChannelAttrs4_MaxRequests x), eBytes (ChannelAttrs4_RdmaIrd x)]"

definition dec_ChannelAttrs4 :: "ChannelAttrs4 xdec" where
  "dec_ChannelAttrs4 =
    dthen dUint32 (\<lambda>x1. dthen dUint32 (\<lambda>x2. dthen dUint32 (\<lambda>x3.
    dthen dUint32 (\<lambda>x4. dthen dUint32 (\<lambda>x5. dthen dUint32 (\<lambda>x6.
    dthen dBytes (\<lambda>x7.
      dret \<lparr>ChannelAttrs4_HeaderPadSize = x1, ChannelAttrs4_MaxRequestSize = x2,
      ChannelAttrs4_MaxResponseSize = x3, ChannelAttrs4_MaxResponseSizeCached = x4,
      ChannelAttrs4_MaxOperations = x5, ChannelAttrs4_MaxRequests = x6,
      ChannelAttrs4_RdmaIrd = x7\<rparr>)))))))"

definition ok_ChannelAttrs4 :: "ChannelAttrs4 \<Rightarrow> bool" where
  "ok_ChannelAttrs4 x \<longleftrightarrow> fits32 (ChannelAttrs4_RdmaIrd x)"

interpretation ChannelAttrs4C: xdr_codec enc_ChannelAttrs4 dec_ChannelAttrs4 ok_ChannelAttrs4
  by unfold_locales
    (auto simp: enc_ChannelAttrs4_def dec_ChannelAttrs4_def ok_ChannelAttrs4_def dthen_def intro!: framed_intros)

record Auth =
  Auth_Flavor :: u32
  Auth_Body :: bytes

definition zero_Auth :: Auth where
  "zero_Auth = \<lparr>Auth_Flavor = 0, Auth_Body = []\<rparr>"

definition enc_Auth :: "Auth \<Rightarrow> xenc" where
  "enc_Auth x = EncodeAll [eUint32 (Auth_Flavor x), eBytes (Auth_Body x)]"

definition dec_Auth :: "Auth xdec" where
  "dec_Auth =
    dthen dUint32 (\<lambda>x1. dthen dBytes (\<lambda>x2.
      dret \<lparr>Auth_Flavor = x1, Auth_Body = x2\<rparr>))"

definition ok_Auth :: "Auth \<Rightarrow> bool" where
  "ok_Auth x \<longleftrightarrow> fits32 (Auth_Body x)"

interpretation AuthC: xdr_codec enc_Auth dec_Auth ok_Auth
  by unfold_locales
    (auto simp: enc_Auth_def dec_Auth_def ok_Auth_def dthen_def intro!: framed_intros)

end
