(* ===== verification/Bufpool.thy ===== *)
theory Bufpool
  imports Xdr
begin

text \<open>
  The request and reply buffers: \<^verbatim>\<open>bufpool/buf.go\<close> and \<^verbatim>\<open>bufpool/pool.go\<close>. A buffer is its backing slice
  with a read and a write offset; \<open>content\<close> is what it holds between the two. The locale \<open>byte_buffer\<close>
  is the \<^verbatim>\<open>Bytes\<close> interface as the reply writer uses it; the pool hands buffers out of a heap.
\<close>

section \<open>Buffers\<close>

record Buf =
  Buf_buf :: bytes
  Buf_r :: nat
  Buf_w :: nat

definition wf_buf :: "Buf \<Rightarrow> bool" where
  "wf_buf b \<longleftrightarrow> Buf_r b \<le> Buf_w b \<and> Buf_w b \<le> length (Buf_buf b)"

text \<open>The slice expression \<^verbatim>\<open>s[lo:hi]\<close>: bounds out of range panic. Offsets are Go \<^verbatim>\<open>int\<close>s.\<close>

definition slice :: "int \<Rightarrow> int \<Rightarrow> bytes \<Rightarrow> bytes go" where
  "slice lo hi s =
     (if 0 \<le> lo \<and> lo \<le> hi \<and> hi \<le> int (length s) then Inr (take (nat (hi - lo)) (drop (nat lo) s))
      else Inl Panic)"

definition Buf_Bytes :: "Buf \<Rightarrow> bytes go" where
  "Buf_Bytes b = slice (int (Buf_r b)) (int (Buf_w b)) (Buf_buf b)"

definition Buf_Grow :: "nat \<Rightarrow> Buf \<Rightarrow> Buf" where
  "Buf_Grow n b =
     (if n \<le> length (Buf_buf b) then b
      else b\<lparr>Buf_buf := Buf_buf b @ replicate (n - length (Buf_buf b)) 0\<rparr>)"

text \<open>\<^verbatim>\<open>copy(dst[at:], src)\<close> on a slice that is long enough.\<close>

definition overwrite :: "nat \<Rightarrow> bytes \<Rightarrow> bytes \<Rightarrow> bytes" where
  "overwrite at src dst = take at dst @ src @ drop (at + length src) dst"

definition Buf_Write :: "bytes \<Rightarrow> Buf \<Rightarrow> Buf" where
  "Buf_Write p b =
     (let b' = (if Buf_w b + length p > length (Buf_buf b) then Buf_Grow (Buf_w b + length p) b else b)
      in b'\<lparr>Buf_buf := overwrite (Buf_w b') p (Buf_buf b'), Buf_w := Buf_w b' + length p\<rparr>)"

text \<open>\<^verbatim>\<open>Read(p)\<close> with \<open>n\<close> the length of \<^verbatim>\<open>p\<close>: note that it never reports an error, not even at the
  end of the buffer.\<close>

definition Buf_Read :: "Buf reader" where
  "Buf_Read b n =
     (let got = take n (take (Buf_w b - Buf_r b) (drop (Buf_r b) (Buf_buf b)))
      in (got, None, b\<lparr>Buf_r := Buf_r b + length got\<rparr>))"

definition Buf_Allocate :: "int \<Rightarrow> Buf \<Rightarrow> (bytes \<times> Buf) go" where
  "Buf_Allocate n b =
     (let b' = (if int (Buf_w b) + n > int (length (Buf_buf b))
                then Buf_Grow (nat (int (Buf_w b) + n)) b else b)
      in go_bind (slice (int (Buf_w b')) (int (Buf_w b') + n) (Buf_buf b')) (\<lambda>s. Inr (s, b')))"

text \<open>What the callers of \<^verbatim>\<open>Allocate\<close> do with the slice it returns: fill it from the front.\<close>

definition Buf_fill :: "bytes \<Rightarrow> Buf \<Rightarrow> Buf" where
  "Buf_fill p b = b\<lparr>Buf_buf := overwrite (Buf_w b) p (Buf_buf b)\<rparr>"

definition Buf_Commit :: "nat \<Rightarrow> Buf \<Rightarrow> Buf" where
  "Buf_Commit n b = b\<lparr>Buf_w := Buf_w b + n\<rparr>"

definition Buf_SeekWrite :: "nat \<Rightarrow> Buf \<Rightarrow> nat \<times> Buf" where
  "Buf_SeekWrite n b = (Buf_w b, b\<lparr>Buf_w := n\<rparr>)"

definition Buf_Reset :: "Buf \<Rightarrow> Buf" where
  "Buf_Reset b = b\<lparr>Buf_r := 0, Buf_w := 0\<rparr>"

definition Buf_Len :: "Buf \<Rightarrow> int" where
  "Buf_Len b = int (Buf_w b) - int (Buf_r b)"

text \<open>\<^verbatim>\<open>b.Copy(other)\<close>: \<open>other\<close> with the contents of \<open>b\<close> appended.\<close>

definition Buf_Copy :: "Buf \<Rightarrow> Buf \<Rightarrow> Buf go" where
  "Buf_Copy b other =
     go_bind (Buf_Allocate (Buf_Len b) other) (\<lambda>(target, other').
       go_bind (Buf_Bytes b) (\<lambda>src.
         let n = min (length target) (length src)
         in Inr (Buf_Commit n (Buf_fill (take n src) other'))))"

definition content :: "Buf \<Rightarrow> bytes" where
  "content b = take (Buf_w b - Buf_r b) (drop (Buf_r b) (Buf_buf b))"

lemma length_content: "wf_buf b \<Longrightarrow> length (content b) = Buf_w b - Buf_r b"
  by (auto simp: content_def wf_buf_def min_def)

lemma Buf_Bytes_content: "wf_buf b \<Longrightarrow> Buf_Bytes b = Inr (content b)"
  by (auto simp: Buf_Bytes_def slice_def content_def wf_buf_def nat_diff_distrib')

lemma length_Buf_Grow [simp]: "length (Buf_buf (Buf_Grow n b)) = max n (length (Buf_buf b))"
  by (simp add: Buf_Grow_def)

lemma Buf_Grow_offsets [simp]: "Buf_r (Buf_Grow n b) = Buf_r b" "Buf_w (Buf_Grow n b) = Buf_w b"
  by (simp_all add: Buf_Grow_def)

lemma wf_Buf_Grow [simp]: "wf_buf b \<Longrightarrow> wf_buf (Buf_Grow n b)"
  by (auto simp: wf_buf_def)

lemma content_Buf_Grow [simp]: "wf_buf b \<Longrightarrow> content (Buf_Grow n b) = content b"
  by (simp add: content_def Buf_Grow_def wf_buf_def)

lemma length_overwrite [simp]:
  "at + length src \<le> length dst \<Longrightarrow> length (overwrite at src dst) = length dst"
  by (simp add: overwrite_def)

text \<open>Writing at the write offset appends to the contents.\<close>

lemma fill_commit:
  assumes "wf_buf b" and "Buf_w b + length p \<le> length (Buf_buf b)"
  shows "wf_buf (Buf_Commit (length p) (Buf_fill p b))"
    and "content (Buf_Commit (length p) (Buf_fill p b)) = content b @ p"
proof -
  show "wf_buf (Buf_Commit (length p) (Buf_fill p b))"
    using assms by (simp add: wf_buf_def Buf_Commit_def Buf_fill_def)
  have "Buf_w b + length p - Buf_r b = (Buf_w b - Buf_r b) + length p"
    using assms by (simp add: wf_buf_def)
  then show "content (Buf_Commit (length p) (Buf_fill p b)) = content b @ p"
    using assms
    by (simp add: content_def Buf_Commit_def Buf_fill_def overwrite_def wf_buf_def drop_take)
qed

lemma Buf_Write_alt:
  "Buf_Write p b = Buf_Commit (length p) (Buf_fill p (Buf_Grow (Buf_w b + length p) b))"
  by (simp add: Buf_Write_def Buf_Commit_def Buf_fill_def Let_def Buf_Grow_def)

lemma wf_Buf_Write [simp]: "wf_buf b \<Longrightarrow> wf_buf (Buf_Write p b)"
  by (simp add: Buf_Write_alt fill_commit(1))

lemma content_Buf_Write [simp]: "wf_buf b \<Longrightarrow> content (Buf_Write p b) = content b @ p"
  by (simp add: Buf_Write_alt fill_commit(2))

text \<open>A sequence of writes is one write of the concatenation, so an encoder's many small writes can
  be seen as one.\<close>

lemma Buf_Write_Write: "wf_buf b \<Longrightarrow> content (Buf_Write q (Buf_Write p b)) = content (Buf_Write (p @ q) b)"
  by simp

lemma Buf_Allocate_ok:
  assumes "wf_buf b" and "0 \<le> n"
  shows "\<exists>s. Buf_Allocate n b = Inr (s, Buf_Grow (Buf_w b + nat n) b) \<and> length s = nat n"
proof -
  have "(if int (Buf_w b) + n > int (length (Buf_buf b))
      then Buf_Grow (nat (int (Buf_w b) + n)) b else b) = Buf_Grow (Buf_w b + nat n) b"
    using assms(2) by (auto simp: Buf_Grow_def nat_add_distrib)
  then show ?thesis
    using assms by (auto simp: Buf_Allocate_def slice_def Let_def wf_buf_def)
qed

lemma Buf_Allocate_negative: "n < 0 \<Longrightarrow> Buf_w b \<le> length (Buf_buf b) \<Longrightarrow> Buf_Allocate n b = Inl Panic"
  by (simp add: Buf_Allocate_def slice_def)

lemma Buf_Copy_ok:
  assumes b: "wf_buf b" and o: "wf_buf other"
  shows "\<exists>t. Buf_Copy b other = Inr t \<and> wf_buf t \<and> content t = content other @ content b"
proof -
  let ?n = "Buf_w b - Buf_r b"
  have len: "Buf_Len b = int ?n" using b by (simp add: Buf_Len_def wf_buf_def)
  obtain s where s: "Buf_Allocate (int ?n) other = Inr (s, Buf_Grow (Buf_w other + ?n) other)"
      and ls: "length s = ?n"
    using Buf_Allocate_ok [OF o, of "int ?n"] by auto
  have lc: "length (content b) = ?n" by (rule length_content [OF b])
  have "Buf_Copy b other
      = Inr (Buf_Commit ?n (Buf_fill (content b) (Buf_Grow (Buf_w other + ?n) other)))"
    by (simp add: Buf_Copy_def len s Buf_Bytes_content [OF b] ls lc Let_def)
  moreover have "wf_buf (Buf_Grow (Buf_w other + ?n) other)" using o by simp
  ultimately show ?thesis
    using fill_commit [of "Buf_Grow (Buf_w other + ?n) other" "content b"] o lc by simp
qed

lemma content_Buf_Reset [simp]: "content (Buf_Reset b) = []" "wf_buf (Buf_Reset b)"
  "Buf_r (Buf_Reset b) = 0" "Buf_w (Buf_Reset b) = 0"
  by (simp_all add: content_def Buf_Reset_def wf_buf_def)

section \<open>The buffer interface of the reply writer\<close>

text \<open>\<open>view\<close> abstracts a buffer that nothing has been read from; \<open>pos\<close> is its write offset.\<close>

locale byte_buffer =
  fixes view :: "'b \<Rightarrow> bytes"
    and pos :: "'b \<Rightarrow> nat"
    and wr :: "bytes \<Rightarrow> 'b \<Rightarrow> 'b"
    and seek :: "nat \<Rightarrow> 'b \<Rightarrow> nat \<times> 'b"
    and inv :: "'b \<Rightarrow> bool"
  assumes view_write: "inv b \<Longrightarrow> view (wr p b) = view b @ p"
    and inv_write: "inv b \<Longrightarrow> inv (wr p b)"
    and pos_view: "inv b \<Longrightarrow> pos b = length (view b)"
    and seek_old: "fst (seek n b) = pos b"
    and overwrite_head: "inv b \<Longrightarrow> length h \<le> pos b \<Longrightarrow>
      inv (snd (seek (pos b) (wr h (snd (seek 0 b))))) \<and>
      view (snd (seek (pos b) (wr h (snd (seek 0 b))))) = h @ drop (length h) (view b)"
begin

text \<open>Replacing a header by one of the same length leaves the rest of the buffer in place.\<close>

lemma rewrite_header:
  assumes "inv b" and "view b = h @ body" and "length h' = length h"
  shows "view (snd (seek (fst (seek 0 b)) (wr h' (snd (seek 0 b))))) = h' @ body"
proof -
  have "length h' \<le> pos b" using assms by (simp add: pos_view)
  then show ?thesis using overwrite_head [OF assms(1)] assms by (simp add: seek_old)
qed

lemma write_all: "inv b \<Longrightarrow> inv (fold wr ps b) \<and> view (fold wr ps b) = view b @ concat ps"
  by (induction ps arbitrary: b) (simp_all add: view_write inv_write)

end

definition fresh_out :: "Buf \<Rightarrow> bool" where
  "fresh_out b \<longleftrightarrow> wf_buf b \<and> Buf_r b = 0"

lemma Buf_Write_r [simp]: "Buf_r (Buf_Write p b) = Buf_r b"
  by (simp add: Buf_Write_alt Buf_Commit_def Buf_fill_def)

interpretation out_buf: byte_buffer content Buf_w Buf_Write Buf_SeekWrite fresh_out
proof unfold_locales
  fix b :: Buf and h :: bytes assume b: "fresh_out b" and h: "length h \<le> Buf_w b"
  let ?t = "snd (Buf_SeekWrite (Buf_w b) (Buf_Write h (snd (Buf_SeekWrite 0 b))))"
  have len: "length h \<le> length (Buf_buf b)" "Buf_w b \<le> length (Buf_buf b)"
    using b h by (auto simp: fresh_out_def wf_buf_def)
  then have t: "?t = b\<lparr>Buf_buf := h @ drop (length h) (Buf_buf b)\<rparr>"
    by (simp add: Buf_SeekWrite_def Buf_Write_def overwrite_def Let_def)
  have "take (Buf_w b) (h @ drop (length h) (Buf_buf b))
      = h @ drop (length h) (take (Buf_w b) (Buf_buf b))"
    using h by (simp add: drop_take)
  with b len show "fresh_out ?t \<and> content ?t = h @ drop (length h) (content b)"
    unfolding t by (simp add: fresh_out_def content_def wf_buf_def)
qed (auto simp: fresh_out_def length_content Buf_SeekWrite_def)

section \<open>Reading from a buffer\<close>

lemma Buf_Read_content:
  assumes "wf_buf b"
  shows "Buf_Read b n = (take n (content b), None, b\<lparr>Buf_r := Buf_r b + min n (length (content b))\<rparr>)"
  by (simp add: Buf_Read_def content_def min.commute min.left_commute)

lemma Buf_Read_wf: "wf_buf b \<Longrightarrow> wf_buf (snd (snd (Buf_Read b n)))"
  by (auto simp: Buf_Read_def wf_buf_def Let_def)

lemma content_after_read:
  "wf_buf b \<Longrightarrow> n \<le> length (content b) \<Longrightarrow> content (b\<lparr>Buf_r := Buf_r b + n\<rparr>) = drop n (content b)"
  by (simp add: content_def wf_buf_def drop_take add.commute)

text \<open>\<^verbatim>\<open>io.ReadFull\<close> on a buffer that holds enough bytes is the decoder's primitive read.\<close>

lemma ReadFull_Buf:
  assumes "wf_buf b" and "n \<le> length (content b)"
  shows "ReadFull Buf_Read n [] b = Some (Inr (take n (content b)), b\<lparr>Buf_r := Buf_r b + n\<rparr>)"
proof (cases "n = 0")
  case True
  then show ?thesis by (simp add: ReadFull.simps)
next
  case False
  have "ReadFull Buf_Read n [] b = ReadFull Buf_Read n (take n (content b)) (b\<lparr>Buf_r := Buf_r b + n\<rparr>)"
    using assms False by (simp add: ReadFull.simps [of _ n "[]"] Buf_Read_content min_absorb1)
  then show ?thesis using assms by (simp add: ReadFull.simps [of _ n "take n (content b)"])
qed

text \<open>On a shorter buffer the loop makes no progress and gets no error: it never returns.\<close>

lemma ReadFull_stuck:
  assumes "length acc < m" and "rd s (m - length acc) = ([], None, s)"
  shows "ReadFull rd m acc s = None"
proof (rule ccontr)
  assume "ReadFull rd m acc s \<noteq> None"
  then obtain y where "ReadFull rd m acc s = Some y" by blast
  then show False
  proof (rule ReadFull.raw_induct [where P = "\<lambda>rd' m' acc' s' y. \<not> (rd' = rd \<and> m' = m \<and> acc' = acc \<and> s' = s)", THEN notE, rotated])
    show "rd = rd \<and> m = m \<and> acc = acc \<and> s = s" by simp
  next
    fix f rd' m' acc' s' y'
    assume IH: "\<And>rd'' m'' acc'' s'' y''. f rd'' m'' acc'' s'' = Some y'' \<Longrightarrow>
        \<not> (rd'' = rd \<and> m'' = m \<and> acc'' = acc \<and> s'' = s)"
      and eq: "(if length acc' < m' then
        (case rd' s' (m' - length acc') of (b, err, s'') \<Rightarrow>
           (case err of
              None \<Rightarrow> f rd' m' (acc' @ b) s''
            | Some e \<Rightarrow>
                if m' \<le> length (acc' @ b) then Some (Inr (acc' @ b), s'')
                else if acc' @ b \<noteq> [] \<and> errors_is e EOF then Some (Inl (GoErr []), s'')
                else Some (Inl e, s'')))
      else Some (Inr acc', s')) = Some y'"
    show "\<not> (rd' = rd \<and> m' = m \<and> acc' = acc \<and> s' = s)"
    proof
      assume "rd' = rd \<and> m' = m \<and> acc' = acc \<and> s' = s"
      with eq assms have "f rd m acc s = Some y'" by simp
      from IH [OF this] show False by simp
    qed
  qed
qed

lemma ReadFull_Buf_short:
  assumes "wf_buf b" and "length (content b) < n"
  shows "ReadFull Buf_Read n [] b = None"
proof -
  let ?b = "b\<lparr>Buf_r := Buf_r b + length (content b)\<rparr>"
  have wf: "wf_buf ?b" and empty: "content ?b = []"
    using assms content_after_read [OF assms(1), of "length (content b)"]
    by (auto simp: wf_buf_def length_content)
  have "ReadFull Buf_Read n [] b = ReadFull Buf_Read n (content b) ?b"
    using assms by (simp add: ReadFull.simps [of _ n "[]"] Buf_Read_content min_absorb2)
  also have "\<dots> = None"
    by (rule ReadFull_stuck) (simp_all add: assms Buf_Read_content [OF wf] empty)
  finally show ?thesis .
qed

text \<open>So a decoder that runs dry on a buffer hangs, where on a \<^verbatim>\<open>bytes.Buffer\<close> it returns an error.
  \<open>on_buf\<close> reads a decoder's result that way; handlers decode their arguments through it.\<close>

definition on_buf :: "xerr + ('a \<times> bytes) \<Rightarrow> ('a \<times> bytes) go" where
  "on_buf r = (case r of
     Inr x \<Rightarrow> Inr x
   | Inl (BadUnionMode m) \<Rightarrow> Inl (Err (go_of_xerr (BadUnionMode m)))
   | Inl _ \<Rightarrow> Inl Hang)"

definition on_bytes :: "xerr + ('a \<times> bytes) \<Rightarrow> ('a \<times> bytes) go" where
  "on_bytes r = (case r of Inr x \<Rightarrow> Inr x | Inl e \<Rightarrow> Inl (Err (go_of_xerr e)))"

lemma on_buf_simps [simp]:
  "on_buf (Inr x) = Inr x" "on_buf (Inl Eof) = Inl Hang" "on_buf (Inl UnexpectedEof) = Inl Hang"
  by (simp_all add: on_buf_def)

lemma on_buf_eq_Inr [simp]: "on_buf r = Inr x \<longleftrightarrow> r = Inr x"
  by (auto simp: on_buf_def split: sum.splits xerr.splits)

lemma on_bytes_eq_Inr [simp]: "on_bytes r = Inr x \<longleftrightarrow> r = Inr x"
  by (auto simp: on_bytes_def split: sum.splits)

section \<open>The pool\<close>

text \<open>Buffers live in a heap; the pool is a queue of addresses. \<open>next\<close> bounds the addresses in use,
  so that \<^verbatim>\<open>New\<close> can hand out a fresh one.\<close>

record Pool =
  Pool_heap :: "nat \<Rightarrow> Buf"
  Pool_next :: nat
  Pool_bufs :: "nat list"

definition Pool_New :: "bytes \<Rightarrow> Pool \<Rightarrow> nat \<times> Pool" where
  "Pool_New s p = (Pool_next p,
     p\<lparr>Pool_heap := (Pool_heap p)(Pool_next p := \<lparr>Buf_buf = s, Buf_r = 0, Buf_w = 0\<rparr>),
       Pool_next := Suc (Pool_next p)\<rparr>)"

definition Pool_Get :: "Pool \<Rightarrow> nat \<times> Pool" where
  "Pool_Get p = (case Pool_bufs p of
     a # as \<Rightarrow> (a, p\<lparr>Pool_bufs := as\<rparr>)
   | [] \<Rightarrow> Pool_New (replicate 1024 0) p)"

definition Pool_Put :: "nat \<Rightarrow> Pool \<Rightarrow> Pool" where
  "Pool_Put a p = p\<lparr>Pool_heap := (Pool_heap p)(a := Buf_Reset (Pool_heap p a)),
                    Pool_bufs := Pool_bufs p @ [a]\<rparr>"

definition Pool_update :: "nat \<Rightarrow> (Buf \<Rightarrow> Buf) \<Rightarrow> Pool \<Rightarrow> Pool" where
  "Pool_update a f p = p\<lparr>Pool_heap := (Pool_heap p)(a := f (Pool_heap p a))\<rparr>"

text \<open>The pool's promise: pooled buffers are distinct, empty, and none of them is held by a client
  (\<open>held\<close> is the set of addresses handed out and not yet put back).\<close>

definition pool_inv :: "nat set \<Rightarrow> Pool \<Rightarrow> bool" where
  "pool_inv held p \<longleftrightarrow> distinct (Pool_bufs p) \<and> set (Pool_bufs p) \<inter> held = {} \<and>
     (\<forall>a \<in> set (Pool_bufs p) \<union> held. a < Pool_next p \<and> wf_buf (Pool_heap p a)) \<and>
     (\<forall>a \<in> set (Pool_bufs p). Buf_r (Pool_heap p a) = 0 \<and> Buf_w (Pool_heap p a) = 0)"

lemma Pool_Get_inv:
  assumes "pool_inv held p" and "Pool_Get p = (a, p')"
  shows "pool_inv (insert a held) p' \<and> a \<notin> held \<and> content (Pool_heap p' a) = [] \<and> Buf_r (Pool_heap p' a) = 0"
proof (cases "Pool_bufs p")
  case Nil
  then have a: "a = Pool_next p" and
      p': "p' = p\<lparr>Pool_heap := (Pool_heap p)
        (a := \<lparr>Buf_buf = replicate 1024 0, Buf_r = 0, Buf_w = 0\<rparr>), Pool_next := Suc a\<rparr>"
    using assms(2) by (auto simp: Pool_Get_def Pool_New_def)
  have "a \<notin> held" using assms(1) a by (auto simp: pool_inv_def)
  then show ?thesis
    using assms(1) Nil a unfolding p' by (auto simp: pool_inv_def wf_buf_def content_def less_Suc_eq)
next
  case (Cons b bs)
  then show ?thesis using assms by (auto simp: Pool_Get_def pool_inv_def content_def)
qed

lemma Pool_Put_inv:
  assumes "pool_inv held p" and "a \<in> held"
  shows "pool_inv (held - {a}) (Pool_Put a p)"
  using assms by (auto simp: pool_inv_def Pool_Put_def)

lemma Pool_update_inv:
  assumes "pool_inv held p" and "a \<in> held" and "wf_buf (f (Pool_heap p a))"
  shows "pool_inv held (Pool_update a f p)"
  using assms by (auto simp: pool_inv_def Pool_update_def)

section \<open>Properties\<close>

text \<open>C39: \<^verbatim>\<open>io.ReadFull\<close> on a buffer returns the bytes asked for when the buffer holds enough of them, and
  otherwise never returns: \<^verbatim>\<open>Buf.Read\<close> reports neither the end of the buffer nor an error.\<close>

theorem read_full_buf:
  assumes "wf_buf b"
  shows "ReadFull Buf_Read n [] b =
    (if n \<le> length (content b) then Some (Inr (take n (content b)), b\<lparr>Buf_r := Buf_r b + n\<rparr>) else None)"
  using ReadFull_Buf [OF assms] ReadFull_Buf_short [OF assms] by simp

theorem read_full_buf_witness:
  "ReadFull Buf_Read 4 [] \<lparr>Buf_buf = [1, 2, 3, 4, 5], Buf_r = 0, Buf_w = 3\<rparr> = None \<and>
   ReadFull Buf_Read 2 [] \<lparr>Buf_buf = [1, 2, 3, 4, 5], Buf_r = 0, Buf_w = 3\<rparr> =
     Some (Inr [1, 2], \<lparr>Buf_buf = [1, 2, 3, 4, 5], Buf_r = 2, Buf_w = 3\<rparr>)"
  using read_full_buf [of "\<lparr>Buf_buf = [1, 2, 3, 4, 5], Buf_r = 0, Buf_w = 3\<rparr>" 4]
    read_full_buf [of "\<lparr>Buf_buf = [1, 2, 3, 4, 5], Buf_r = 0, Buf_w = 3\<rparr>" 2]
  by (simp add: wf_buf_def content_def)

text \<open>A reply header can be corrected in place: seeking to the start, writing a header of the same length
  and seeking back replaces the header and leaves the rest of the reply untouched.\<close>

theorem header_in_place:
  assumes "fresh_out b" and "content b = h @ body" and "length h' = length h"
  shows "content (snd (Buf_SeekWrite (fst (Buf_SeekWrite 0 b)) (Buf_Write h' (snd (Buf_SeekWrite 0 b))))) = h' @ body"
  using assms by (rule out_buf.rewrite_header)

theorem header_in_place_witness:
  "content (snd (Buf_SeekWrite (fst (Buf_SeekWrite 0 \<lparr>Buf_buf = [1, 2, 3, 4], Buf_r = 0, Buf_w = 4\<rparr>))
     (Buf_Write [9, 8] (snd (Buf_SeekWrite 0 \<lparr>Buf_buf = [1, 2, 3, 4], Buf_r = 0, Buf_w = 4\<rparr>))))) = [9, 8] @ [3, 4]"
  by (rule header_in_place [where h = "[1, 2]"]) (simp_all add: fresh_out_def wf_buf_def content_def)

text \<open>\<^verbatim>\<open>Buf.Copy\<close> appends the unread bytes of one buffer to another and never panics on well-formed
  buffers.\<close>

theorem buf_copy_appends:
  assumes "wf_buf b" and "wf_buf other"
  shows "\<exists>t. Buf_Copy b other = Inr t \<and> wf_buf t \<and> content t = content other @ content b"
  using assms by (rule Buf_Copy_ok)

theorem buf_copy_appends_witness:
  "\<exists>t. Buf_Copy \<lparr>Buf_buf = [1, 2, 3], Buf_r = 1, Buf_w = 3\<rparr> \<lparr>Buf_buf = [7], Buf_r = 0, Buf_w = 1\<rparr> = Inr t \<and>
     content t = [7, 2, 3]"
proof -
  let ?b = "\<lparr>Buf_buf = [1, 2, 3], Buf_r = 1, Buf_w = 3\<rparr>" and ?o = "\<lparr>Buf_buf = [7], Buf_r = 0, Buf_w = 1\<rparr>"
  have "wf_buf ?b" "wf_buf ?o" by (simp_all add: wf_buf_def)
  from buf_copy_appends [OF this] show ?thesis by (auto simp: content_def)
qed

end
