(* ===== verification/Auth.thy ===== *)
theory Auth
  imports MsgBase Msg Bufpool
begin

text \<open>
  Client credentials (\<^verbatim>\<open>auth/authenticate.go\<close>): the decoder of an \<^verbatim>\<open>AUTH_UNIX\<close> body, \<^verbatim>\<open>Authenticate\<close>, and
  the comparison \<^verbatim>\<open>Creds.Equal\<close> by which the client table and the worker table recognise a user.
\<close>

record Creds =
  Creds_ExpirationValue :: u32
  Creds_Hostname :: string
  Creds_UID :: u32
  Creds_GID :: u32
  Creds_AdditionalGroups :: "u32 list"

definition enc_Creds :: "Creds \<Rightarrow> xenc" where
  "enc_Creds c = EncodeAll [eUint32 (Creds_ExpirationValue c), eString (Creds_Hostname c),
     eUint32 (Creds_UID c), eUint32 (Creds_GID c), eUint32s (Creds_AdditionalGroups c)]"

definition dec_Creds :: "Creds xdec" where
  "dec_Creds =
     dthen dUint32 (\<lambda>exp. dthen dString (\<lambda>host. dthen dUint32 (\<lambda>uid. dthen dUint32 (\<lambda>gid.
       dthen dUint32 (\<lambda>len. dthen (drepeat (unat len) dUint32) (\<lambda>groups.
         dret \<lparr>Creds_ExpirationValue = exp, Creds_Hostname = host, Creds_UID = uid,
               Creds_GID = gid, Creds_AdditionalGroups = groups\<rparr>))))))"

definition ok_Creds :: "Creds \<Rightarrow> bool" where
  "ok_Creds c \<longleftrightarrow> fits32 (Creds_Hostname c) \<and> fits32 (Creds_AdditionalGroups c)"

lemma dec_Creds_slice:
  "dec_Creds =
     dthen dUint32 (\<lambda>exp. dthen dString (\<lambda>host. dthen dUint32 (\<lambda>uid. dthen dUint32 (\<lambda>gid.
       dthen dUint32s (\<lambda>groups.
         dret \<lparr>Creds_ExpirationValue = exp, Creds_Hostname = host, Creds_UID = uid,
               Creds_GID = gid, Creds_AdditionalGroups = groups\<rparr>)))))"
  by (rule ext) (auto simp: dec_Creds_def dUint32s_def dSlice_def dthen_def split: sum.splits)

interpretation CredsC: xdr_codec enc_Creds dec_Creds ok_Creds
  by unfold_locales
    (auto simp: enc_Creds_def dec_Creds_slice ok_Creds_def dthen_def intro!: framed_intros)

section \<open>Authenticate\<close>

datatype auth_error = AuthError u32 | AuthOther go_error

definition Authenticate :: "Auth \<Rightarrow> Auth \<Rightarrow> auth_error + (Auth \<times> Creds)" where
  "Authenticate cred verf =
     (if Auth_Flavor cred < AUTH_FLAVOR_UNIX then Inl (AuthError AUTH_TOOWEAK)
      else case dec_Creds (Auth_Body cred) of
             Inl e \<Rightarrow> Inl (AuthOther (go_of_xerr e))
           | Inr (c, _) \<Rightarrow> Inr (\<lparr>Auth_Flavor = AUTH_FLAVOR_UNIX, Auth_Body = []\<rparr>, c))"

section \<open>Equality of credentials\<close>

text \<open>\<^verbatim>\<open>slices.Compact\<close> drops adjacent duplicates, \<^const>\<open>remdups_adj\<close>.\<close>

definition Creds_Equal :: "Creds \<Rightarrow> Creds \<Rightarrow> bool" where
  "Creds_Equal c other =
     (if Creds_AdditionalGroups c = Creds_AdditionalGroups other then Creds_UID c = Creds_UID other
      else
        let d = int (length (Creds_AdditionalGroups c)) - int (length (Creds_AdditionalGroups other))
        in if d > 1 \<or> d < -1 then False
           else
             let myGroups = remdups_adj (sort (Creds_GID c # Creds_AdditionalGroups c));
                 otherGroups = remdups_adj (sort (Creds_GID other # Creds_AdditionalGroups other))
             in Creds_UID c = Creds_UID other \<and> myGroups = otherGroups)"

lemma strict_remdups_adj: "sorted xs \<Longrightarrow> sorted (remdups_adj xs) \<and> distinct (remdups_adj xs)"
proof (induction xs rule: remdups_adj.induct)
  case (3 x y xs)
  then show ?case by auto
qed auto

lemma remdups_adj_sort_eq_iff:
  fixes xs ys :: "'a::linorder list"
  shows "remdups_adj (sort xs) = remdups_adj (sort ys) \<longleftrightarrow> set xs = set ys"
proof
  assume "remdups_adj (sort xs) = remdups_adj (sort ys)"
  then have "set (remdups_adj (sort xs)) = set (remdups_adj (sort ys))" by simp
  then show "set xs = set ys" by (simp only: remdups_adj_set set_sort)
next
  assume "set xs = set ys"
  then have "set (remdups_adj (sort xs)) = set (remdups_adj (sort ys))" by simp
  then show "remdups_adj (sort xs) = remdups_adj (sort ys)"
    using strict_remdups_adj [OF sorted_sort [of xs]] strict_remdups_adj [OF sorted_sort [of ys]]
    by (intro sorted_distinct_set_unique) auto
qed

text \<open>The groups a credential stands for: the primary group and the additional ones.\<close>

definition groups :: "Creds \<Rightarrow> u32 set" where
  "groups c = insert (Creds_GID c) (set (Creds_AdditionalGroups c))"

lemma Creds_Equal_iff:
  "Creds_Equal a b \<longleftrightarrow>
     Creds_UID a = Creds_UID b \<and>
     (Creds_AdditionalGroups a = Creds_AdditionalGroups b \<or>
      groups a = groups b \<and>
      \<bar>int (length (Creds_AdditionalGroups a)) - int (length (Creds_AdditionalGroups b))\<bar> \<le> 1)"
proof -
  have "remdups_adj (sort (Creds_GID a # Creds_AdditionalGroups a))
      = remdups_adj (sort (Creds_GID b # Creds_AdditionalGroups b)) \<longleftrightarrow> groups a = groups b"
    unfolding remdups_adj_sort_eq_iff by (simp add: groups_def)
  then show ?thesis unfolding Creds_Equal_def Let_def by (auto simp: abs_le_iff)
qed

lemma Creds_Equal_refl [simp]: "Creds_Equal c c"
  by (simp add: Creds_Equal_iff)

lemma Creds_Equal_sym: "Creds_Equal a b \<longleftrightarrow> Creds_Equal b a"
  by (auto simp: Creds_Equal_iff abs_minus_commute)

lemma Creds_Equal_UID: "Creds_Equal a b \<Longrightarrow> Creds_UID a = Creds_UID b"
  by (simp add: Creds_Equal_iff)

section \<open>Properties\<close>

text \<open>C40: \<^verbatim>\<open>Creds.Equal\<close> computes the following relation: the same user, and either the same list of additional
  groups (then the primary groups are not compared) or the same set of groups, primary one included, with
  lists whose lengths differ by at most one.\<close>

theorem creds_equal_spec:
  "Creds_Equal a b \<longleftrightarrow> Creds_UID a = Creds_UID b \<and>
     (Creds_AdditionalGroups a = Creds_AdditionalGroups b \<or>
      insert (Creds_GID a) (set (Creds_AdditionalGroups a)) = insert (Creds_GID b) (set (Creds_AdditionalGroups b)) \<and>
      \<bar>int (length (Creds_AdditionalGroups a)) - int (length (Creds_AdditionalGroups b))\<bar> \<le> 1)"
  unfolding Creds_Equal_iff groups_def ..

text \<open>\<^verbatim>\<open>Creds.Equal\<close> is reflexive and symmetric but not transitive, and it identifies credentials that give
  access to different groups.\<close>

theorem creds_equal_not_transitive:
  "(\<forall>c. Creds_Equal c c) \<and> (\<forall>a b. Creds_Equal a b = Creds_Equal b a) \<and>
   (\<exists>a b c. Creds_Equal a b \<and> Creds_Equal b c \<and> \<not> Creds_Equal a c) \<and>
   (\<exists>a b. Creds_Equal a b \<and> groups a \<noteq> groups b)"
proof (intro conjI allI)
  let ?c = "\<lambda>g gs. \<lparr>Creds_ExpirationValue = 0, Creds_Hostname = [], Creds_UID = 1, Creds_GID = g,
    Creds_AdditionalGroups = gs\<rparr>"
  show "\<exists>a b c. Creds_Equal a b \<and> Creds_Equal b c \<and> \<not> Creds_Equal a c"
    by (intro exI [of _ "?c 1 [2]"] exI [of _ "?c 3 [2]"] exI [of _ "?c 3 [2, 3]"])
      (auto simp: Creds_Equal_iff groups_def doubleton_eq_iff insert_commute)
  show "\<exists>a b. Creds_Equal a b \<and> groups a \<noteq> groups b"
    by (intro exI [of _ "?c 1 [2]"] exI [of _ "?c 3 [2]"]) (auto simp: Creds_Equal_iff groups_def doubleton_eq_iff insert_commute)
qed (simp_all add: Creds_Equal_sym)

end
