(* ===== verification/Clock.thy ===== *)
theory Clock
  imports Prelude
begin

text \<open>
  The clock (\<^verbatim>\<open>clock/clock.go\<close>, \<^verbatim>\<open>clock/global.go\<close>): a time that is started by its first use and refreshed by a ticker every
  second, so that it lags behind the time of the machine. Times are nanoseconds. The other theories keep the time of
  the started \<^verbatim>\<open>GlobalClock\<close> only.
\<close>

section \<open>Time\<close>

type_synonym time = int

abbreviation (input) Second :: time where "Second \<equiv> 1000000000"

abbreviation (input) Minute :: time where "Minute \<equiv> 60 * Second"

text \<open>\<^verbatim>\<open>Since\<close> and \<^verbatim>\<open>MustIncrement\<close> of a clock at \<open>now\<close>.\<close>

definition Clock_Since :: "time \<Rightarrow> time \<Rightarrow> time" where
  "Clock_Since now t = now - t"

definition Clock_MustIncrement :: "time \<Rightarrow> time \<Rightarrow> time" where
  "Clock_MustIncrement now prev = (if now < prev then now + Second else now)"

section \<open>The clock\<close>

record Clock =
  Clock_init :: bool
  Clock_now :: time

text \<open>The global clock before its first use.\<close>

definition GlobalClock :: Clock where
  "GlobalClock = \<lparr>Clock_init = False, Clock_now = 0\<rparr>"

definition Clock_set :: "time \<Rightarrow> Clock \<Rightarrow> Clock" where
  "Clock_set t c = c\<lparr>Clock_now := t\<rparr>"

text \<open>\<open>actual\<close> is the time of the machine, \<^verbatim>\<open>time.Now()\<close>.\<close>

definition Clock_start :: "time \<Rightarrow> Clock \<Rightarrow> Clock" where
  "Clock_start actual c = (Clock_set actual c)\<lparr>Clock_init := True\<rparr>"

text \<open>\<^verbatim>\<open>c.init.Do(c.start)\<close>, with which every method begins.\<close>

definition Clock_once :: "time \<Rightarrow> Clock \<Rightarrow> Clock" where
  "Clock_once actual c = (if Clock_init c then c else Clock_start actual c)"

definition Clock_Now :: "time \<Rightarrow> Clock \<Rightarrow> time \<times> Clock" where
  "Clock_Now actual c = (let c = Clock_once actual c in (Clock_now c, c))"

text \<open>A run: the machine's time goes on, the clock is used, the ticker delivers the time of a tick since the last one.\<close>

inductive clock_step :: "time \<times> Clock \<Rightarrow> time \<times> Clock \<Rightarrow> bool" where
  passes: "actual \<le> actual' \<Longrightarrow> clock_step (actual, c) (actual', c)"
| used: "Clock_Now actual c = (now, c') \<Longrightarrow> clock_step (actual, c) (actual, c')"
| ticks: "Clock_init c \<Longrightarrow> Clock_now c \<le> t \<Longrightarrow> t \<le> actual \<Longrightarrow> clock_step (actual, c) (actual, Clock_set t c)"

definition clock_inv :: "time \<times> Clock \<Rightarrow> bool" where
  "clock_inv s \<longleftrightarrow> (Clock_init (snd s) \<longrightarrow> Clock_now (snd s) \<le> fst s)"

interpretation clock: transition_invariant "\<lambda>s. snd s = GlobalClock" clock_step clock_inv
proof unfold_locales
  fix s s' assume "clock_inv s" and "clock_step s s'"
  from this(2,1) show "clock_inv s'"
    by (induction rule: clock_step.induct)
      (auto simp: clock_inv_def Clock_Now_def Clock_once_def Clock_start_def Clock_set_def Let_def)
qed (simp add: clock_inv_def GlobalClock_def)

text \<open>What the clock shows never lies in the future, and once it is started never goes back: later readings are not smaller.\<close>

lemma clock_lags:
  assumes "reach (\<lambda>s. snd s = GlobalClock) clock_step (actual, c)"
  shows "fst (Clock_Now actual c) \<le> actual"
  using clock.holds [OF assms] by (auto simp: clock_inv_def Clock_Now_def Clock_once_def Clock_start_def Clock_set_def Let_def)

lemma clock_monotone: "clock_step s s' \<Longrightarrow> Clock_init (snd s) \<Longrightarrow> Clock_init (snd s') \<and> Clock_now (snd s) \<le> Clock_now (snd s')"
  by (induction rule: clock_step.induct) (auto simp: Clock_Now_def Clock_once_def Clock_set_def Let_def)

text \<open>\<^verbatim>\<open>MustIncrement\<close> is not before the clock, and later than \<open>prev\<close> only if the clock is, or is less than a second behind it.\<close>

lemma MustIncrement_spec:
  "now \<le> Clock_MustIncrement now prev"
  "prev < Clock_MustIncrement now prev \<longleftrightarrow> prev < now \<or> now < prev \<and> prev < now + Second"
  by (auto simp: Clock_MustIncrement_def)

end
