(* ===== verification/Clients.thy ===== *)
theory Clients
  imports Auth Clock
begin

text \<open>
  The client table (\<^verbatim>\<open>clients/clients.go\<close>, \<^verbatim>\<open>clients/client.go\<close>, \<^verbatim>\<open>clients/rand.go\<close>).
  Every method holds the table's mutex from start to end, so each is one atomic
  step: a function of the table. A \<^verbatim>\<open>*Client\<close> is the key it is stored under. The values
  \<^verbatim>\<open>crypto/rand\<close> will deliver are an explicit list of draws; a call that would need more draws than the
  list holds has the outcome \<^const>\<open>Hang\<close>.
\<close>

section \<open>Random identifiers\<close>

type_synonym draws = "u64 list"

definition randUint64 :: "draws \<Rightarrow> (u64 \<times> draws) go" where
  "randUint64 ds = (case ds of [] \<Rightarrow> Inl Hang | d # ds' \<Rightarrow> Inr (d, ds'))"

text \<open>\<^verbatim>\<open>id := randUint64(); for used(id) { id = randUint64() }\<close>\<close>

fun fresh_id :: "(u64 \<Rightarrow> bool) \<Rightarrow> draws \<Rightarrow> (u64 \<times> draws) go" where
  "fresh_id used [] = Inl Hang"
| "fresh_id used (d # ds) = (if used d then fresh_id used ds else Inr (d, ds))"

lemma fresh_id_unused: "fresh_id used ds = Inr (i, ds') \<Longrightarrow> \<not> used i \<and> i \<in> set ds"
  by (induction used ds rule: fresh_id.induct) (auto split: if_splits)

lemma fresh_id_total: "\<exists>d \<in> set ds. \<not> used d \<Longrightarrow> \<exists>i ds'. fresh_id used ds = Inr (i, ds')"
  by (induction used ds rule: fresh_id.induct) auto

section \<open>Clients, sessions, slots\<close>

record Slot =
  Slot_SlotID :: u32
  Slot_SequenceID :: u32
  Slot_ContainsData :: bool
  Slot_Buf :: "nat option"

type_synonym Session = "Slot list"

record Client =
  Client_Name :: bytes
  Client_Verifier :: u64
  Client_Creds :: Creds
  Client_clientID :: u64
  Client_lastSeen :: time
  Client_confirmed :: bool
  Client_confirmValue :: u64
  Client_seqID :: u32
  Client_busy :: int
  Client_sessions :: "(u64, Session) gomap"

type_synonym Clients = "(u64, Client) gomap"

abbreviation (input) MaxSlotID :: u32 where "MaxSlotID \<equiv> 15"

text \<open>The fields \<^verbatim>\<open>EXCHANGE_ID\<close> and \<^verbatim>\<open>SETCLIENTID\<close> fill in; the rest is Go's zero value.\<close>

definition new_Client :: "bytes \<Rightarrow> u64 \<Rightarrow> Creds \<Rightarrow> Client" where
  "new_Client name verifier creds =
     \<lparr>Client_Name = name, Client_Verifier = verifier, Client_Creds = creds, Client_clientID = 0,
      Client_lastSeen = 0, Client_confirmed = False, Client_confirmValue = 0, Client_seqID = 0,
      Client_busy = 0, Client_sessions = []\<rparr>"

section \<open>Operations on one client\<close>

definition Client_Add :: "int \<Rightarrow> Client \<Rightarrow> Client" where
  "Client_Add n c = c\<lparr>Client_busy := Client_busy c + n\<rparr>"

definition Client_Done :: "Client \<Rightarrow> Client" where
  "Client_Done c = c\<lparr>Client_busy := Client_busy c - 1\<rparr>"

definition ClientIDFromSessionID :: "bytes \<Rightarrow> u64" where
  "ClientIDFromSessionID sid = get_u64 (take 8 sid)"

definition CacheIDFromSessionID :: "bytes \<Rightarrow> u64" where
  "CacheIDFromSessionID sid = get_u64 (drop 8 sid)"

text \<open>The loop that fills a new session, from slot \<open>i\<close> on, \<open>k\<close> slots to go.\<close>

fun build_slots :: "bool \<Rightarrow> u32 \<Rightarrow> nat \<Rightarrow> Pool \<Rightarrow> Session \<times> Pool" where
  "build_slots persist i 0 p = ([], p)"
| "build_slots persist i (Suc k) p =
     (let (b, p') = (if persist then (case Pool_Get p of (a, q) \<Rightarrow> (Some a, q)) else (None, p));
          (rest, p'') = build_slots persist (i + 1) k p'
      in (\<lparr>Slot_SlotID = i, Slot_SequenceID = 0, Slot_ContainsData = False, Slot_Buf = b\<rparr> # rest,
          p''))"

definition BuildSession ::
  "bool \<Rightarrow> Client \<Rightarrow> Pool \<Rightarrow> draws \<Rightarrow> (bytes \<times> Client \<times> Pool \<times> draws) go" where
  "BuildSession persist c p ds =
     go_bind (fresh_id (\<lambda>i. mget (Client_sessions c) i \<noteq> None) ds) (\<lambda>(cacheID, ds').
       let sid = put_u64 (Client_clientID c) @ put_u64 cacheID;
           (slots, p') = build_slots persist 0 (unat MaxSlotID + 1) p
       in Inr (sid, c\<lparr>Client_sessions := mput cacheID slots (Client_sessions c)\<rparr>, p', ds'))"

definition GetSlot :: "bytes \<Rightarrow> u32 \<Rightarrow> Client \<Rightarrow> Slot option" where
  "GetSlot sid slotID c =
     (case mget (Client_sessions c) (CacheIDFromSessionID sid) of
        None \<Rightarrow> None
      | Some slots \<Rightarrow> if length slots \<le> unat slotID then None else Some (slots ! unat slotID))"

text \<open>Writing through the \<^verbatim>\<open>*Slot\<close> that \<^verbatim>\<open>GetSlot\<close> returned.\<close>

definition SetSlot :: "bytes \<Rightarrow> u32 \<Rightarrow> Slot \<Rightarrow> Client \<Rightarrow> Client" where
  "SetSlot sid slotID sl c =
     (case mget (Client_sessions c) (CacheIDFromSessionID sid) of
        None \<Rightarrow> c
      | Some slots \<Rightarrow>
          c\<lparr>Client_sessions :=
              mput (CacheIDFromSessionID sid) (slots[unat slotID := sl]) (Client_sessions c)\<rparr>)"

text \<open>What \<^verbatim>\<open>RunSequence\<close> writes to the slot of a request it accepts: the two assignments before the operations run.\<close>

definition Slot_Accept :: "u32 \<Rightarrow> bool \<Rightarrow> Slot \<Rightarrow> Slot" where
  "Slot_Accept sequenceID cacheThis slot =
     slot\<lparr>Slot_SequenceID := sequenceID, Slot_ContainsData := cacheThis \<and> Slot_Buf slot \<noteq> None\<rparr>"

lemma Slot_Accept_simps [simp]:
  "Slot_SlotID (Slot_Accept q d s) = Slot_SlotID s" "Slot_SequenceID (Slot_Accept q d s) = q"
  "Slot_ContainsData (Slot_Accept q d s) = (d \<and> Slot_Buf s \<noteq> None)" "Slot_Buf (Slot_Accept q d s) = Slot_Buf s"
  by (simp_all add: Slot_Accept_def)

definition slot_bufs :: "Session \<Rightarrow> nat list" where
  "slot_bufs slots = List.map_filter Slot_Buf slots"

definition put_bufs :: "nat list \<Rightarrow> Pool \<Rightarrow> Pool" where
  "put_bufs as p = fold Pool_Put as p"

definition RemoveSession :: "bytes \<Rightarrow> Client \<Rightarrow> Pool \<Rightarrow> Client \<times> Pool" where
  "RemoveSession sid c p =
     (case mget (Client_sessions c) (CacheIDFromSessionID sid) of
        None \<Rightarrow> (c, p)
      | Some slots \<Rightarrow>
          (c\<lparr>Client_sessions := mdel (CacheIDFromSessionID sid) (Client_sessions c)\<rparr>,
           put_bufs (slot_bufs slots) p))"

section \<open>Operations on the table\<close>

text \<open>The first loop of \<^verbatim>\<open>Add\<close>: confirmed clients of the same name, or an error as soon as one of them
  belongs to someone else.\<close>

fun Add_prev :: "Client \<Rightarrow> Clients \<Rightarrow> go_error + Clients" where
  "Add_prev client [] = Inr []"
| "Add_prev client ((i, stored) # cs) =
     (if \<not> Client_confirmed stored then Add_prev client cs
      else if Client_Name stored \<noteq> Client_Name client then Add_prev client cs
      else if \<not> Creds_Equal (Client_Creds stored) (Client_Creds client)
      then Inl (NfsError NFS4ERR_CLID_INUSE)
      else case Add_prev client cs of Inl e \<Rightarrow> Inl e | Inr prev \<Rightarrow> Inr ((i, stored) # prev))"

fun Add_update :: "Client \<Rightarrow> Clients \<Rightarrow> (u64 \<times> Client) option" where
  "Add_update client [] = None"
| "Add_update client ((i, stored) # cs) =
     (if Client_Verifier stored \<noteq> Client_Verifier client \<or> \<not> Client_confirmed stored
      then Add_update client cs else Some (i, stored))"

definition Clients_Add ::
  "Client \<Rightarrow> time \<Rightarrow> Clients \<Rightarrow> draws \<Rightarrow>
     ((go_error + u64 \<times> u64 \<times> u32) \<times> Clients \<times> draws) go" where
  "Clients_Add client now x ds =
     (case Add_prev client x of
        Inl e \<Rightarrow> Inr (Inl e, x, ds)
      | Inr prev \<Rightarrow>
          (case Add_update client prev of
             Some (i, stored) \<Rightarrow>
               go_bind (randUint64 ds) (\<lambda>(cv, ds').
                 let stored' = stored\<lparr>Client_confirmValue := cv,
                       Client_seqID := Client_seqID stored + 1, Client_lastSeen := now\<rparr>
                 in Inr (Inr (i, cv, Client_seqID stored'), mput i stored' x, ds'))
           | None \<Rightarrow>
               go_bind (fresh_id (\<lambda>i. mget x i \<noteq> None) ds) (\<lambda>(i, ds').
                 let x' = filter (\<lambda>(_, stored). Client_confirmed stored \<or>
                            Client_Name stored \<noteq> Client_Name client) x
                 in go_bind (randUint64 ds') (\<lambda>(cv, ds'').
                      let client' = client\<lparr>Client_clientID := i, Client_confirmValue := cv,
                            Client_seqID := 1, Client_lastSeen := now\<rparr>
                      in Inr (Inr (i, cv, Client_seqID client'), mput i client' x', ds'')))))"

definition Clients_Confirm ::
  "u64 \<Rightarrow> u64 \<Rightarrow> Creds \<Rightarrow> time \<Rightarrow> Clients \<Rightarrow> (go_error + Client) \<times> Clients" where
  "Clients_Confirm clientID confirmValue creds now x =
     (case mget x clientID of
        None \<Rightarrow> (Inl (NfsError NFS4ERR_STALE_CLIENTID), x)
      | Some client \<Rightarrow>
          if Client_confirmValue client \<noteq> confirmValue
          then (Inl (NfsError NFS4ERR_STALE_CLIENTID), x)
          else if \<not> Creds_Equal (Client_Creds client) creds
          then (Inl (NfsError NFS4ERR_CLID_INUSE), x)
          else
            let client' = client\<lparr>Client_confirmed := True, Client_lastSeen := now\<rparr>
            in (Inr client', mput clientID client' x))"

definition Clients_Confirm41 ::
  "u64 \<Rightarrow> u32 \<Rightarrow> Creds \<Rightarrow> time \<Rightarrow> Clients \<Rightarrow> (go_error + Client) \<times> Clients" where
  "Clients_Confirm41 clientID seqID creds now x =
     (case mget x clientID of
        None \<Rightarrow> (Inl (NfsError NFS4ERR_STALE_CLIENTID), x)
      | Some client \<Rightarrow>
          if Client_confirmed client then
            if seqID = 0 \<and> Client_seqID client \<noteq> 0 then
              let client' = client\<lparr>Client_lastSeen := now, Client_seqID := 0\<rparr>
              in (Inr client', mput clientID client' x)
            else if seqID < Client_seqID client then (Inl (NfsError NFS4ERR_SEQ_MISORDERED), x)
            else if Client_seqID client = seqID then (Inr client, x)
            else
              let client' = client\<lparr>Client_lastSeen := now, Client_seqID := seqID\<rparr>
              in (Inr client', mput clientID client' x)
          else if Client_seqID client \<noteq> seqID then (Inl (NfsError NFS4ERR_STALE_CLIENTID), x)
          else if \<not> Creds_Equal (Client_Creds client) creds
          then (Inl (NfsError NFS4ERR_CLID_INUSE), x)
          else
            let client' = client\<lparr>Client_confirmed := True, Client_lastSeen := now\<rparr>
            in (Inr client', mput clientID client' x))"

definition Clients_Get :: "u64 \<Rightarrow> time \<Rightarrow> Clients \<Rightarrow> Client option \<times> Clients" where
  "Clients_Get clientID now x =
     (case mget x clientID of
        None \<Rightarrow> (None, x)
      | Some c \<Rightarrow>
          if \<not> Client_confirmed c then (None, x)
          else let c' = c\<lparr>Client_lastSeen := now\<rparr> in (Some c', mput clientID c' x))"

fun find_by_name :: "bytes \<Rightarrow> u64 \<Rightarrow> Creds \<Rightarrow> Clients \<Rightarrow> (u64 \<times> Client) option" where
  "find_by_name name verifier creds [] = None"
| "find_by_name name verifier creds ((i, c) # cs) =
     (if Client_Name c \<noteq> name \<or> Client_Verifier c \<noteq> verifier \<or>
         \<not> Creds_Equal (Client_Creds c) creds \<or> \<not> Client_confirmed c
      then find_by_name name verifier creds cs else Some (i, c))"

definition Clients_GetByName ::
  "bytes \<Rightarrow> u64 \<Rightarrow> Creds \<Rightarrow> time \<Rightarrow> Clients \<Rightarrow> u64 option \<times> Clients" where
  "Clients_GetByName name verifier creds now x =
     (case find_by_name name verifier creds x of
        None \<Rightarrow> (None, x)
      | Some (i, c) \<Rightarrow> (Some i, mput i (c\<lparr>Client_lastSeen := now\<rparr>) x))"

definition Clients_RemoveClient :: "u64 \<Rightarrow> Clients \<Rightarrow> go_error option \<times> Clients" where
  "Clients_RemoveClient clientID x =
     (case mget x clientID of
        None \<Rightarrow> (Some (NfsError NFS4ERR_STALE_CLIENTID), x)
      | Some c \<Rightarrow>
          if \<not> Client_confirmed c then (Some (NfsError NFS4ERR_STALE_CLIENTID), x)
          else if Client_busy c > 0 then (Some (NfsError NFS4ERR_CLIENTID_BUSY), x)
          else (None, mdel clientID x))"

definition client_bufs :: "Client \<Rightarrow> nat list" where
  "client_bufs c = concat (map (slot_bufs \<circ> snd) (Client_sessions c))"

definition keeps :: "time \<Rightarrow> time \<Rightarrow> Client \<Rightarrow> bool" where
  "keeps expiration now c \<longleftrightarrow> now - Client_lastSeen c \<le> expiration \<or> Client_busy c > 0"

fun expired :: "time \<Rightarrow> time \<Rightarrow> Clients \<Rightarrow> Clients" where
  "expired expiration now [] = []"
| "expired expiration now ((i, c) # cs) =
     (if keeps expiration now c then expired expiration now cs
      else (i, c) # expired expiration now cs)"

definition RemoveExpiredClients ::
  "time \<Rightarrow> time \<Rightarrow> Clients \<Rightarrow> Pool \<Rightarrow> u64 list \<times> Clients \<times> Pool" where
  "RemoveExpiredClients expiration now x p =
     (let gone = expired expiration now x
      in (map fst gone,
          fold (\<lambda>(i, _). mdel i) gone x,
          fold (\<lambda>(_, c). put_bufs (client_bufs c)) gone p))"

abbreviation (input) ClientExpiration :: time where "ClientExpiration \<equiv> 5 * Minute"

text \<open>\<^verbatim>\<open>client.Add(n)\<close> and \<^verbatim>\<open>client.Done()\<close> through a pointer into the table.\<close>

definition modify_client :: "u64 \<Rightarrow> (Client \<Rightarrow> Client) \<Rightarrow> Clients \<Rightarrow> Clients" where
  "modify_client i f x = (case mget x i of None \<Rightarrow> x | Some c \<Rightarrow> mput i (f c) x)"

section \<open>What the table keeps\<close>

text \<open>Two entries that stand for the same client to the outside.\<close>

definition same_identity :: "Client \<Rightarrow> Client \<Rightarrow> bool" where
  "same_identity c d \<longleftrightarrow> Client_Name c = Client_Name d \<and> Client_Verifier c = Client_Verifier d \<and>
     Client_Creds c = Client_Creds d"

text \<open>Every client of \<open>x'\<close> was in \<open>x\<close> under the same key: all operations but a successful \<^verbatim>\<open>Add\<close> of
  a new client.\<close>

definition from_table :: "Clients \<Rightarrow> Clients \<Rightarrow> bool" where
  "from_table x x' \<longleftrightarrow>
     (\<forall>i c'. mget x' i = Some c' \<longrightarrow> (\<exists>c. mget x i = Some c \<and> same_identity c c'))"

text \<open>A name belongs to one principal, and name and verifier identify one client.\<close>

definition one_owner :: "Clients \<Rightarrow> bool" where
  "one_owner x \<longleftrightarrow> (\<forall>i c j d. mget x i = Some c \<and> mget x j = Some d \<and> Client_Name c = Client_Name d \<longrightarrow>
     Creds_Equal (Client_Creds c) (Client_Creds d) \<and>
     (Client_Verifier c = Client_Verifier d \<longrightarrow> i = j))"

text \<open>A slot that holds a reply has a buffer to hold it in.\<close>

definition wf_slot :: "Slot \<Rightarrow> bool" where
  "wf_slot s \<longleftrightarrow> (Slot_ContainsData s \<longrightarrow> Slot_Buf s \<noteq> None)"

definition wf_session :: "Session \<Rightarrow> bool" where
  "wf_session slots \<longleftrightarrow> map Slot_SlotID slots = map of_nat [0..<16] \<and> (\<forall>s \<in> set slots. wf_slot s)"

definition wf_client :: "u64 \<Rightarrow> Client \<Rightarrow> bool" where
  "wf_client i c \<longleftrightarrow> Client_clientID c = i \<and> wf_map (Client_sessions c) \<and>
     (\<forall>k slots. mget (Client_sessions c) k = Some slots \<longrightarrow> wf_session slots)"

definition wf_clients :: "Clients \<Rightarrow> bool" where
  "wf_clients x \<longleftrightarrow> wf_map x \<and> (\<forall>i c. mget x i = Some c \<longrightarrow> wf_client i c)"

lemma same_identity_refl [simp]: "same_identity c c"
  by (simp add: same_identity_def)

lemma from_table_refl [simp]: "from_table x x"
  by (auto simp: from_table_def)

lemma from_table_mdel [simp]: "from_table x (mdel i x)"
  by (auto simp: from_table_def)

lemma from_table_mput:
  "mget x i = Some c \<Longrightarrow> same_identity c c' \<Longrightarrow> from_table x (mput i c' x)"
  by (auto simp: from_table_def)

lemma from_table_one_owner:
  assumes "from_table x x'" and "one_owner x"
  shows "one_owner x'"
  using assms unfolding from_table_def one_owner_def same_identity_def by metis

lemma wf_clients_mput: "wf_clients x \<Longrightarrow> wf_client i c \<Longrightarrow> wf_clients (mput i c x)"
  by (auto simp: wf_clients_def)

lemma wf_clients_mdel: "wf_clients x \<Longrightarrow> wf_clients (mdel i x)"
  by (auto simp: wf_clients_def)

lemma wf_clients_filter: "wf_clients x \<Longrightarrow> wf_clients (filter P x)"
  by (auto simp: wf_clients_def mget_in_set [symmetric])

lemma wf_clients_get: "wf_clients x \<Longrightarrow> mget x i = Some c \<Longrightarrow> wf_client i c"
  by (simp add: wf_clients_def)

lemmas wf_clients_intros = wf_clients_mput wf_clients_mdel wf_clients_filter

subsection \<open>Adding a client\<close>

lemma Add_prev_Inl: "Add_prev client x = Inl e \<Longrightarrow> e = NfsError NFS4ERR_CLID_INUSE"
  by (induction client x rule: Add_prev.induct) (auto split: if_splits sum.splits)

lemma Add_prev_Inl_iff:
  "(\<exists>e. Add_prev client x = Inl e) \<longleftrightarrow>
     (\<exists>(i, c) \<in> set x. Client_confirmed c \<and> Client_Name c = Client_Name client \<and>
        \<not> Creds_Equal (Client_Creds c) (Client_Creds client))"
  by (induction client x rule: Add_prev.induct) (auto split: if_splits sum.splits)

lemma Add_prev_Inr:
  "Add_prev client x = Inr prev \<Longrightarrow>
     prev = filter (\<lambda>(_, c). Client_confirmed c \<and> Client_Name c = Client_Name client) x \<and>
     (\<forall>(i, c) \<in> set prev. Creds_Equal (Client_Creds c) (Client_Creds client))"
  by (induction client x arbitrary: prev rule: Add_prev.induct) (auto split: if_splits sum.splits)

lemma Add_update_Some:
  "Add_update client prev = Some (i, c) \<Longrightarrow>
     (i, c) \<in> set prev \<and> Client_Verifier c = Client_Verifier client \<and> Client_confirmed c"
  by (induction client prev rule: Add_update.induct) (auto split: if_splits)

lemma Add_update_None:
  "Add_update client prev = None \<Longrightarrow> (i, c) \<in> set prev \<Longrightarrow> Client_confirmed c \<Longrightarrow>
     Client_Verifier c \<noteq> Client_Verifier client"
  by (induction client prev rule: Add_update.induct) (auto split: if_splits)

text \<open>The outcomes of \<^verbatim>\<open>Add\<close>: refused, an update of a confirmed client, or a new client beside the
  confirmed ones.\<close>

lemma Clients_Add_cases [consumes 2, case_names refused updated added]:
  assumes "wf_map x" and "Clients_Add client now x ds = Inr (r, x', ds')"
  obtains "r = Inl (NfsError NFS4ERR_CLID_INUSE)" "x' = x" "ds' = ds"
      "\<exists>i c. mget x i = Some c \<and> Client_confirmed c \<and> Client_Name c = Client_Name client \<and>
         \<not> Creds_Equal (Client_Creds c) (Client_Creds client)"
  | i c cv where "r = Inr (i, cv, Client_seqID c + 1)" "mget x i = Some c" "Client_confirmed c"
      "Client_Name c = Client_Name client" "Client_Verifier c = Client_Verifier client"
      "Creds_Equal (Client_Creds c) (Client_Creds client)"
      "x' = mput i (c\<lparr>Client_confirmValue := cv, Client_seqID := Client_seqID c + 1,
              Client_lastSeen := now\<rparr>) x"
  | i cv where "r = Inr (i, cv, 1)" "mget x i = None"
      "\<And>j c. mget x j = Some c \<Longrightarrow> Client_confirmed c \<Longrightarrow> Client_Name c = Client_Name client \<Longrightarrow>
         Creds_Equal (Client_Creds c) (Client_Creds client) \<and>
         Client_Verifier c \<noteq> Client_Verifier client"
      "x' = mput i (client\<lparr>Client_clientID := i, Client_confirmValue := cv, Client_seqID := 1,
              Client_lastSeen := now\<rparr>)
            (filter (\<lambda>(_, c). Client_confirmed c \<or> Client_Name c \<noteq> Client_Name client) x)"
proof (cases "Add_prev client x")
  case (Inl e)
  then have "r = Inl (NfsError NFS4ERR_CLID_INUSE)" "x' = x" "ds' = ds"
    using assms(2) Add_prev_Inl [OF Inl] by (auto simp: Clients_Add_def)
  moreover have "\<exists>i c. mget x i = Some c \<and> Client_confirmed c \<and> Client_Name c = Client_Name client \<and>
         \<not> Creds_Equal (Client_Creds c) (Client_Creds client)"
    using Add_prev_Inl_iff [of client x] Inl mget_in_set [OF assms(1)] by force
  ultimately show thesis by (rule that(1))
next
  case (Inr prev)
  note prev = Add_prev_Inr [OF Inr]
  show thesis
  proof (cases "Add_update client prev")
    case None
    have "Creds_Equal (Client_Creds c) (Client_Creds client) \<and>
         Client_Verifier c \<noteq> Client_Verifier client"
      if "mget x j = Some c" "Client_confirmed c" "Client_Name c = Client_Name client" for j c
      using that prev Add_update_None [OF None, of j c] mget_in_set [OF assms(1), of j c] by auto
    moreover obtain i ds1 where "fresh_id (\<lambda>i. mget x i \<noteq> None) ds = Inr (i, ds1)"
      using assms(2) None Inr by (auto simp: Clients_Add_def go_bind_eq_Inr)
    moreover from this have "mget x i = None" using fresh_id_unused by fastforce
    ultimately show thesis
      using assms(2) None Inr that(3)
      by (auto simp: Clients_Add_def go_bind_eq_Inr Let_def)
  next
    case (Some ic)
    obtain i c where ic: "ic = (i, c)" by force
    with Add_update_Some [of client prev i c] Some prev
    have "(i, c) \<in> set x" "Client_confirmed c" "Client_Name c = Client_Name client"
      "Client_Verifier c = Client_Verifier client"
      "Creds_Equal (Client_Creds c) (Client_Creds client)" by auto
    then show thesis
      using assms Some Inr ic that(2) [of i _ c]
      by (auto simp: Clients_Add_def go_bind_eq_Inr Let_def mget_in_set)
  qed
qed

text \<open>\<^verbatim>\<open>Add\<close> returns whenever the generator still delivers an unused identifier and a confirm value.\<close>

lemma Clients_Add_total:
  assumes "mget x d = None"
  shows "\<exists>r x' ds'. Clients_Add client now x (d # e # ds) = Inr (r, x', ds')"
  using assms
  by (cases "Add_prev client x"; cases "case Add_prev client x of Inr p \<Rightarrow> Add_update client p | _ \<Rightarrow> None")
    (auto simp: Clients_Add_def randUint64_def Let_def split: option.splits)

lemma Clients_Add_one_owner:
  assumes "wf_map x" "one_owner x" "Clients_Add client now x ds = Inr (r, x', ds')"
  shows "one_owner x'"
  using assms(1,3)
proof (cases rule: Clients_Add_cases)
  case refused
  then show ?thesis using assms(2) by simp
next
  case (updated i c cv)
  then have "from_table x x'" by (auto intro!: from_table_mput simp: same_identity_def)
  then show ?thesis using assms(2) from_table_one_owner by blast
next
  case (added i cv)
  have sym: "Creds_Equal a b \<longleftrightarrow> Creds_Equal b a" for a b
    using Creds_Equal_sym by blast
  have old: "mget (filter (\<lambda>(_, c). Client_confirmed c \<or> Client_Name c \<noteq> Client_Name client) x) j = Some c
     \<longleftrightarrow> mget x j = Some c \<and> (Client_confirmed c \<or> Client_Name c \<noteq> Client_Name client)" for j c
    by (auto simp: mget_filter_key [OF assms(1)] split: option.splits)
  show ?thesis
    unfolding one_owner_def added(4)
    using assms(2) added(3) sym [of "Client_Creds client"] Creds_Equal_refl
    by (auto simp: old one_owner_def split: if_splits) metis+
qed

lemma Clients_Add_wf:
  assumes "wf_clients x" "Client_sessions client = []" "Clients_Add client now x ds = Inr (r, x', ds')"
  shows "wf_clients x'"
proof -
  have x: "wf_map x" using assms(1) by (simp add: wf_clients_def)
  show ?thesis
    using x assms(3)
    by (cases rule: Clients_Add_cases)
      (use assms(1,2) in \<open>auto intro!: wf_clients_intros simp: wf_client_def
        dest: wf_clients_get [OF assms(1)]\<close>)
qed

subsection \<open>Sessions\<close>

lemma session_id_parts [simp]:
  "ClientIDFromSessionID (put_u64 i @ put_u64 k) = i"
  "CacheIDFromSessionID (put_u64 i @ put_u64 k) = k"
  using get_put_u64 [of i "[]"] get_put_u64 [of k "[]"]
  by (simp_all add: ClientIDFromSessionID_def CacheIDFromSessionID_def)

lemma build_slots_wf:
  "build_slots persist i k p = (slots, p') \<Longrightarrow>
     map Slot_SlotID slots = map (\<lambda>j. i + of_nat j) [0..<k]"
proof (induction persist i k p arbitrary: slots p' rule: build_slots.induct)
  case (2 persist i k p)
  then obtain b rest q where s: "slots = \<lparr>Slot_SlotID = i, Slot_SequenceID = 0,
      Slot_ContainsData = False, Slot_Buf = b\<rparr> # rest"
      and r: "map Slot_SlotID rest = map (\<lambda>j. i + 1 + of_nat j) [0..<k]"
    by (fastforce simp: Let_def split: prod.splits)
  have "map (\<lambda>j. i + of_nat j) [0..<Suc k] = i # map (\<lambda>j. i + 1 + of_nat j) [0..<k]"
    by (subst upt_conv_Cons) (simp_all add: map_Suc_upt [symmetric] ac_simps del: upt_Suc)
  then show ?case using r by (simp add: s del: upt_Suc)
qed simp

lemma build_slots_fresh:
  "build_slots persist i k p = (slots, p') \<Longrightarrow> s \<in> set slots \<Longrightarrow>
     Slot_SequenceID s = 0 \<and> \<not> Slot_ContainsData s \<and> (Slot_Buf s = None \<longleftrightarrow> \<not> persist)"
  by (induction persist i k p arbitrary: slots p' rule: build_slots.induct)
    (fastforce simp: Let_def split: prod.splits if_splits)+

lemma slot_bufs_Cons [simp]:
  "slot_bufs [] = []"
  "slot_bufs (s # ss) = (case Slot_Buf s of None \<Rightarrow> slot_bufs ss | Some a \<Rightarrow> a # slot_bufs ss)"
  by (simp_all add: slot_bufs_def map_filter_simps split: option.splits)

text \<open>The reply buffers of a new session come out of the pool: no one else holds them.\<close>

lemma build_slots_pool:
  "build_slots persist i k p = (slots, p') \<Longrightarrow> pool_inv held p \<Longrightarrow>
     distinct (slot_bufs slots) \<and> set (slot_bufs slots) \<inter> held = {} \<and>
     pool_inv (set (slot_bufs slots) \<union> held) p'"
proof (induction persist i k p arbitrary: slots p' held rule: build_slots.induct)
  case (2 persist i k p)
  obtain b p1 where b: "(if persist then (case Pool_Get p of (a, q) \<Rightarrow> (Some a, q)) else (None, p)) = (b, p1)"
    by force
  obtain rest where rest: "build_slots persist (i + 1) k p1 = (rest, p')"
      and s: "slots = \<lparr>Slot_SlotID = i, Slot_SequenceID = 0, Slot_ContainsData = False, Slot_Buf = b\<rparr> # rest"
    using 2(2) b by (auto simp: Let_def split: prod.splits)
  show ?case
  proof (cases b)
    case None
    then have "p1 = p" using b by (auto split: if_splits prod.splits)
    then show ?thesis
      using "2.IH" [of "(b, p1)" b p1 rest p' held] b rest s None 2(3) by simp
  next
    case (Some a)
    then have "Pool_Get p = (a, p1)" using b by (auto split: if_splits prod.splits)
    from Pool_Get_inv [OF 2(3) this]
    have "pool_inv (insert a held) p1" "a \<notin> held" by auto
    then show ?thesis
      using "2.IH" [of "(b, p1)" b p1 rest p' "insert a held"] b rest s Some by auto
  qed
qed simp

lemma put_bufs_pool:
  "pool_inv held p \<Longrightarrow> distinct as \<Longrightarrow> set as \<subseteq> held \<Longrightarrow> pool_inv (held - set as) (put_bufs as p)"
proof (induction as arbitrary: held p)
  case (Cons a as)
  then have "pool_inv (held - {a}) (Pool_Put a p)" by (auto intro: Pool_Put_inv)
  then have "pool_inv (held - {a} - set as) (put_bufs as (Pool_Put a p))"
    using Cons.prems by (intro Cons.IH) auto
  then show ?case by (simp add: put_bufs_def Diff_insert2 [of held a "set as"])
qed (simp add: put_bufs_def)

lemma BuildSession_cases:
  assumes "BuildSession persist c p ds = Inr (sid, c', p', ds')"
  obtains k slots where "mget (Client_sessions c) k = None"
    "build_slots persist 0 16 p = (slots, p')" "sid = put_u64 (Client_clientID c) @ put_u64 k"
    "c' = c\<lparr>Client_sessions := mput k slots (Client_sessions c)\<rparr>"
proof -
  have n: "unat MaxSlotID + 1 = 16" by simp
  obtain slots p1 where sl: "build_slots persist 0 16 p = (slots, p1)" by force
  obtain k where k: "fresh_id (\<lambda>i. mget (Client_sessions c) i \<noteq> None) ds = Inr (k, ds')"
    using assms by (auto simp: BuildSession_def n sl go_bind_eq_Inr Let_def
        simp del: build_slots.simps not_None_eq)
  show thesis
    using assms fresh_id_unused [OF k] by (intro that [of k slots])
      (simp_all add: BuildSession_def k n sl Let_def del: build_slots.simps not_None_eq)
qed

lemma BuildSession_wf:
  assumes "wf_client i c" and "BuildSession persist c p ds = Inr (sid, c', p', ds')"
  shows "wf_client i c' \<and> same_identity c c' \<and> Client_confirmed c' = Client_confirmed c"
proof -
  obtain k slots where sl: "build_slots persist 0 16 p = (slots, p')" and
      c': "c' = c\<lparr>Client_sessions := mput k slots (Client_sessions c)\<rparr>"
    using assms(2) by (rule BuildSession_cases)
  have "wf_session slots"
    using build_slots_wf [OF sl] build_slots_fresh [OF sl] by (auto simp: wf_session_def wf_slot_def)
  then show ?thesis using assms(1) by (auto simp: c' wf_client_def same_identity_def)
qed

lemma SetSlot_wf:
  assumes "wf_client i c" and "GetSlot sid k c = Some old" and "Slot_SlotID sl = Slot_SlotID old" and "wf_slot sl"
  shows "wf_client i (SetSlot sid k sl c)"
proof -
  obtain slots where slots: "mget (Client_sessions c) (CacheIDFromSessionID sid) = Some slots"
      and k: "unat k < length slots" and old: "old = slots ! unat k"
    using assms(2) by (auto simp: GetSlot_def split: option.splits if_splits)
  have "map Slot_SlotID (slots[unat k := sl]) = map Slot_SlotID slots"
    using k assms(3) old by (simp add: map_update list_update_same_conv)
  moreover have "\<forall>s \<in> set (slots[unat k := sl]). wf_slot s" if "\<forall>s \<in> set slots. wf_slot s"
    using that assms(4) set_update_subset_insert [of slots "unat k" sl] by blast
  ultimately show ?thesis
    using assms(1) slots by (auto simp: wf_client_def SetSlot_def wf_session_def)
qed

lemma GetSlot_SetSlot:
  assumes "GetSlot sid k c = Some old"
  shows "GetSlot sid k (SetSlot sid k sl c) = Some sl"
  using assms by (auto simp: GetSlot_def SetSlot_def split: option.splits if_splits)

lemma GetSlot_SetSlot_other:
  assumes "CacheIDFromSessionID sid' \<noteq> CacheIDFromSessionID sid \<or> k' \<noteq> k"
  shows "GetSlot sid' k' (SetSlot sid k sl c) = GetSlot sid' k' c"
proof -
  have "unat k' = unat k \<longleftrightarrow> k' = k" by (rule word_unat_eq_iff [symmetric])
  then show ?thesis
    using assms by (auto simp: GetSlot_def SetSlot_def nth_list_update split: option.splits)
qed

lemma RemoveSession_wf:
  "wf_client i c \<Longrightarrow> wf_client i (fst (RemoveSession sid c p))"
  by (auto simp: RemoveSession_def wf_client_def split: option.splits)

subsection \<open>Expiry\<close>

lemma expired_filter: "expired expiration now x = filter (\<lambda>(_, c). \<not> keeps expiration now c) x"
  by (induction expiration now x rule: expired.induct) auto

lemma fold_mdel: "mget (fold (\<lambda>(i, _). mdel i) gone x) j = (if j \<in> fst ` set gone then None else mget x j)"
  by (induction gone arbitrary: x) auto

lemma wf_map_fold_mdel: "wf_map x \<Longrightarrow> wf_map (fold (\<lambda>(i, _). mdel i) gone x)"
  by (induction gone arbitrary: x) auto

lemma RemoveExpiredClients_get:
  assumes "wf_map x" and "RemoveExpiredClients expiration now x p = (removed, x', p')"
  shows "wf_map x'"
    and "mget x' j = (case mget x j of None \<Rightarrow> None
           | Some c \<Rightarrow> if keeps expiration now c then Some c else None)"
    and "j \<in> set removed \<longleftrightarrow> (\<exists>c. mget x j = Some c \<and> \<not> keeps expiration now c)"
proof -
  let ?gone = "expired expiration now x"
  have eq: "removed = map fst ?gone" "x' = fold (\<lambda>(i, _). mdel i) ?gone x"
    using assms(2) by (auto simp: RemoveExpiredClients_def Let_def)
  show "wf_map x'" using assms(1) by (simp add: eq wf_map_fold_mdel)
  have gone: "j \<in> fst ` set ?gone \<longleftrightarrow> (\<exists>c. mget x j = Some c \<and> \<not> keeps expiration now c)" for j
    using mget_in_set [OF assms(1), of j] by (force simp: expired_filter image_iff)
  then show "j \<in> set removed \<longleftrightarrow> (\<exists>c. mget x j = Some c \<and> \<not> keeps expiration now c)"
    by (simp add: eq)
  show "mget x' j = (case mget x j of None \<Rightarrow> None
           | Some c \<Rightarrow> if keeps expiration now c then Some c else None)"
    by (auto simp: eq fold_mdel gone split: option.splits)
qed

section \<open>The table as a state machine\<close>

text \<open>Every way the server changes the table: the operations above and, through a pointer to a stored
  client, the operations on one client and what an accepted \<^verbatim>\<open>SEQUENCE\<close> writes to its slot.\<close>

inductive clients_step :: "Clients \<Rightarrow> Clients \<Rightarrow> bool" where
  add: "Client_sessions client = [] \<Longrightarrow> Clients_Add client now x ds = Inr (r, x', ds') \<Longrightarrow>
    clients_step x x'"
| confirm: "clients_step x (snd (Clients_Confirm i cv creds now x))"
| confirm41: "clients_step x (snd (Clients_Confirm41 i sq creds now x))"
| get: "clients_step x (snd (Clients_Get i now x))"
| get_by_name: "clients_step x (snd (Clients_GetByName name verifier creds now x))"
| remove: "clients_step x (snd (Clients_RemoveClient i x))"
| expire: "RemoveExpiredClients expiration now x p = (removed, x', p') \<Longrightarrow> clients_step x x'"
| busy: "clients_step x (modify_client i (Client_Add n) x)"
| undo: "clients_step x (modify_client i Client_Done x)"
| build: "mget x i = Some c \<Longrightarrow> BuildSession persist c p ds = Inr (sid, c', p', ds') \<Longrightarrow>
    clients_step x (mput i c' x)"
| slot: "mget x i = Some c \<Longrightarrow> GetSlot sid k c = Some slot \<Longrightarrow>
    clients_step x (mput i (SetSlot sid k (Slot_Accept sequenceID cacheThis slot) c) x)"
| close: "mget x i = Some c \<Longrightarrow> clients_step x (mput i (fst (RemoveSession sid c p)) x)"

lemma find_by_name_Some:
  "find_by_name name verifier creds x = Some (i, c) \<Longrightarrow>
     (i, c) \<in> set x \<and> Client_Name c = name \<and> Client_Verifier c = verifier \<and>
     Creds_Equal (Client_Creds c) creds \<and> Client_confirmed c"
  by (induction name verifier creds x rule: find_by_name.induct) (auto split: if_splits)

lemma find_by_name_None:
  "find_by_name name verifier creds x = None \<Longrightarrow> (i, c) \<in> set x \<Longrightarrow>
     Client_Name c = name \<Longrightarrow> Client_Verifier c = verifier \<Longrightarrow>
     Creds_Equal (Client_Creds c) creds \<Longrightarrow> \<not> Client_confirmed c"
  by (induction name verifier creds x rule: find_by_name.induct) (auto split: if_splits)

text \<open>An update through a pointer that leaves identity and sessions alone.\<close>

lemma touch_ok:
  assumes "wf_clients x" "mget x i = Some c" "same_identity c c'" "Client_sessions c' = Client_sessions c"
    "Client_clientID c' = Client_clientID c"
  shows "wf_clients (mput i c' x)" "from_table x (mput i c' x)"
  using assms by (auto intro!: wf_clients_mput from_table_mput simp: wf_client_def
      dest: wf_clients_get)

lemma Clients_Confirm_ok:
  assumes "wf_clients x"
  shows "wf_clients (snd (Clients_Confirm i cv creds now x))"
    "from_table x (snd (Clients_Confirm i cv creds now x))"
  using assms by (auto simp: Clients_Confirm_def Let_def same_identity_def intro!: touch_ok
      split: option.splits)

lemma Clients_Confirm41_ok:
  assumes "wf_clients x"
  shows "wf_clients (snd (Clients_Confirm41 i sq creds now x))"
    "from_table x (snd (Clients_Confirm41 i sq creds now x))"
  using assms by (auto simp: Clients_Confirm41_def Let_def same_identity_def intro!: touch_ok
      split: option.splits)

lemma Clients_Get_ok:
  assumes "wf_clients x"
  shows "wf_clients (snd (Clients_Get i now x))" "from_table x (snd (Clients_Get i now x))"
  using assms by (auto simp: Clients_Get_def Let_def same_identity_def intro!: touch_ok
      split: option.splits)

lemma Clients_GetByName_ok:
  assumes "wf_clients x"
  shows "wf_clients (snd (Clients_GetByName name verifier creds now x))"
    "from_table x (snd (Clients_GetByName name verifier creds now x))"
proof -
  have "mget x i = Some c" if "find_by_name name verifier creds x = Some (i, c)" for i c
    using find_by_name_Some [OF that] assms by (simp add: wf_clients_def mget_in_set)
  with assms show "wf_clients (snd (Clients_GetByName name verifier creds now x))"
    "from_table x (snd (Clients_GetByName name verifier creds now x))"
    by (auto simp: Clients_GetByName_def same_identity_def intro!: touch_ok split: option.splits)
qed

lemma modify_client_ok:
  assumes "wf_clients x" "\<And>c. same_identity c (f c)" "\<And>c. Client_sessions (f c) = Client_sessions c"
    "\<And>c. Client_clientID (f c) = Client_clientID c"
  shows "wf_clients (modify_client i f x)" "from_table x (modify_client i f x)"
  using assms by (auto simp: modify_client_def intro!: touch_ok split: option.splits)

lemma RemoveExpiredClients_ok:
  assumes "wf_clients x" and "RemoveExpiredClients expiration now x p = (removed, x', p')"
  shows "wf_clients x'" "from_table x x'"
proof -
  have x: "wf_map x" using assms(1) by (simp add: wf_clients_def)
  note get = RemoveExpiredClients_get [OF x assms(2)]
  show "wf_clients x'"
    using assms(1) get(1) by (auto simp: wf_clients_def get(2) split: option.splits if_splits)
  show "from_table x x'" by (auto simp: from_table_def get(2) split: option.splits if_splits)
qed

lemma clients_step_keeps:
  assumes "clients_step x x'" "wf_clients x"
  shows "wf_clients x' \<and> (one_owner x \<longrightarrow> one_owner x')"
  using assms
proof cases
  case (add client now ds r ds')
  then have "wf_map x" using assms(2) by (simp add: wf_clients_def)
  with add show ?thesis
    using Clients_Add_wf [OF assms(2)] Clients_Add_one_owner by blast
next
  case (remove i)
  then show ?thesis
    using assms(2) by (auto simp: Clients_RemoveClient_def intro: wf_clients_mdel
        intro: from_table_one_owner [OF from_table_mdel] split: option.splits)
next
  case (build i c persist p ds sid c' p' ds')
  then show ?thesis
    using assms(2) BuildSession_wf [OF wf_clients_get [OF assms(2)]]
    by (metis from_table_mput from_table_one_owner wf_clients_mput)
next
  case (slot i c sid k slot sequenceID cacheThis)
  let ?c = "SetSlot sid k (Slot_Accept sequenceID cacheThis slot) c"
  have "same_identity c ?c" by (auto simp: SetSlot_def same_identity_def split: option.splits)
  moreover have "wf_client i ?c"
    using slot by (intro SetSlot_wf [OF wf_clients_get [OF assms(2)]]) (auto simp: wf_slot_def)
  ultimately show ?thesis
    using slot assms(2) by (metis from_table_mput from_table_one_owner wf_clients_mput)
next
  case (close i c sid p)
  have "same_identity c (fst (RemoveSession sid c p))"
    by (auto simp: RemoveSession_def same_identity_def split: option.splits)
  with close show ?thesis
    using assms(2) RemoveSession_wf [OF wf_clients_get [OF assms(2)]]
    by (metis from_table_mput from_table_one_owner wf_clients_mput)
next
  case (busy i n)
  have "same_identity c (Client_Add n c) \<and> Client_sessions (Client_Add n c) = Client_sessions c \<and>
      Client_clientID (Client_Add n c) = Client_clientID c" for c
    by (simp add: Client_Add_def same_identity_def)
  then show ?thesis unfolding busy using modify_client_ok [OF assms(2)] from_table_one_owner by blast
next
  case (undo i)
  have "same_identity c (Client_Done c) \<and> Client_sessions (Client_Done c) = Client_sessions c \<and>
      Client_clientID (Client_Done c) = Client_clientID c" for c
    by (simp add: Client_Done_def same_identity_def)
  then show ?thesis unfolding undo using modify_client_ok [OF assms(2)] from_table_one_owner by blast
qed (use assms(2) in \<open>auto intro: Clients_Confirm_ok Clients_Confirm41_ok Clients_Get_ok
       Clients_GetByName_ok RemoveExpiredClients_ok from_table_one_owner\<close>)

interpretation table: transition_invariant "\<lambda>x. x = []" clients_step
  "\<lambda>x. wf_clients x \<and> one_owner x"
proof unfold_locales
  fix s s' assume "wf_clients s \<and> one_owner s" and "clients_step s s'"
  then show "wf_clients s' \<and> one_owner s'" using clients_step_keeps by blast
qed (simp add: wf_clients_def one_owner_def)

section \<open>Properties\<close>

definition demo_creds :: Creds where
  "demo_creds = \<lparr>Creds_ExpirationValue = 0, Creds_Hostname = ''h'', Creds_UID = 1000, Creds_GID = 1000,
     Creds_AdditionalGroups = [4, 24]\<rparr>"

text \<open>C16: In every table the server can reach, two clients of the same name belong to the same
  principal (\<^verbatim>\<open>Creds.Equal\<close>), and a name together with a verifier identifies one client: a second
  principal can never get a client of a name that is taken, whatever the order of the calls.\<close>

theorem clients_one_owner:
  assumes "reach (\<lambda>x. x = []) clients_step x"
    and "mget x i = Some c" and "mget x j = Some d" and "Client_Name c = Client_Name d"
  shows "Creds_Equal (Client_Creds c) (Client_Creds d) \<and>
    (Client_Verifier c = Client_Verifier d \<longrightarrow> i = j)"
  using table.holds [OF assms(1)] assms(2-4) unfolding one_owner_def by metis

lemma demo_table_reach:
  "\<exists>c. reach (\<lambda>x. x = []) clients_step [(7, c)] \<and> Client_Name c = [1] \<and> Client_Verifier c = 5"
proof -
  let ?n = "new_Client [1] 5 demo_creds"
  let ?c = "?n\<lparr>Client_clientID := 7, Client_confirmValue := 9, Client_seqID := 1, Client_lastSeen := 0\<rparr>"
  have "Clients_Add ?n 0 [] [7, 9] = Inr (Inr (7, 9, 1), [(7, ?c)], [])"
    by (simp add: Clients_Add_def randUint64_def new_Client_def)
  from clients_step.add [OF _ this] have "clients_step [] [(7, ?c)]" by (simp add: new_Client_def)
  then have "reach (\<lambda>x. x = []) clients_step [(7, ?c)]"
    by (intro reach_step [OF reach_init]) simp_all
  then show ?thesis by (intro exI [of _ ?c]) (simp add: new_Client_def)
qed

theorem clients_one_owner_witness:
  "\<exists>x c. reach (\<lambda>x. x = []) clients_step x \<and> mget x 7 = Some c \<and>
     Creds_Equal (Client_Creds c) (Client_Creds c)"
proof -
  obtain c where c: "reach (\<lambda>x. x = []) clients_step [(7, c)]" using demo_table_reach by blast
  then show ?thesis
    using clients_one_owner [of "[(7, c)]" 7 c 7 c] by (intro exI [of _ "[(7, c)]"] exI [of _ c]) simp
qed

text \<open>C23: \<^verbatim>\<open>Add\<close> refuses a client exactly when a confirmed client of the same name belongs to another
  principal; it then answers \<^verbatim>\<open>NFS4ERR_CLID_INUSE\<close> and leaves the table and the random source as they
  were.\<close>

theorem add_refused_iff:
  assumes "wf_map x"
  shows "((\<exists>e x' ds'. Clients_Add client now x ds = Inr (Inl e, x', ds')) \<longleftrightarrow>
      (\<exists>i c. mget x i = Some c \<and> Client_confirmed c \<and> Client_Name c = Client_Name client \<and>
        \<not> Creds_Equal (Client_Creds c) (Client_Creds client))) \<and>
    (\<forall>e x' ds'. Clients_Add client now x ds = Inr (Inl e, x', ds') \<longrightarrow>
      e = NfsError NFS4ERR_CLID_INUSE \<and> x' = x \<and> ds' = ds)"
proof (intro conjI allI impI)
  have "(\<exists>e x' ds'. Clients_Add client now x ds = Inr (Inl e, x', ds')) \<longleftrightarrow> (\<exists>e. Add_prev client x = Inl e)"
    by (auto simp: Clients_Add_def go_bind_eq_Inr Let_def split: sum.splits option.splits)
  then show "(\<exists>e x' ds'. Clients_Add client now x ds = Inr (Inl e, x', ds')) \<longleftrightarrow>
      (\<exists>i c. mget x i = Some c \<and> Client_confirmed c \<and> Client_Name c = Client_Name client \<and>
        \<not> Creds_Equal (Client_Creds c) (Client_Creds client))"
    unfolding Add_prev_Inl_iff using mget_in_set [OF assms] by fast
next
  fix e x' ds' assume "Clients_Add client now x ds = Inr (Inl e, x', ds')"
  then show "e = NfsError NFS4ERR_CLID_INUSE" "x' = x" "ds' = ds"
    using Add_prev_Inl [of client x e]
    by (auto simp: Clients_Add_def go_bind_eq_Inr Let_def split: sum.splits option.splits)
qed

text \<open>A table with one confirmed client, and someone else asking for its name.\<close>

definition demo_client :: Client where
  "demo_client = (new_Client [1] 5 demo_creds)\<lparr>Client_clientID := 7, Client_confirmValue := 9,
     Client_seqID := 1, Client_confirmed := True\<rparr>"

definition demo_pool :: Pool where
  "demo_pool = \<lparr>Pool_heap = (\<lambda>_. \<lparr>Buf_buf = [], Buf_r = 0, Buf_w = 0\<rparr>), Pool_next = 0, Pool_bufs = []\<rparr>"

theorem add_refused_iff_witness:
  "Clients_Add (new_Client [1] 6 (demo_creds\<lparr>Creds_UID := 0\<rparr>)) 3 [(7, demo_client)] [] =
     Inr (Inl (NfsError NFS4ERR_CLID_INUSE), [(7, demo_client)], []) \<and>
   \<not> Creds_Equal (Client_Creds demo_client) (demo_creds\<lparr>Creds_UID := 0\<rparr>)"
proof -
  let ?c = "new_Client [1] 6 (demo_creds\<lparr>Creds_UID := 0\<rparr>)"
  have wf: "wf_map [(7 :: u64, demo_client)]" by (simp add: wf_map_def)
  have ne: "\<not> Creds_Equal (Client_Creds demo_client) (demo_creds\<lparr>Creds_UID := 0\<rparr>)"
    by (simp add: Creds_Equal_def demo_client_def new_Client_def demo_creds_def)
  then have "\<exists>i c. mget [(7, demo_client)] i = Some c \<and> Client_confirmed c \<and> Client_Name c = Client_Name ?c \<and>
        \<not> Creds_Equal (Client_Creds c) (Client_Creds ?c)"
    by (intro exI [of _ 7] exI [of _ demo_client]) (simp add: demo_client_def new_Client_def)
  then obtain e x' ds' where "Clients_Add ?c 3 [(7, demo_client)] [] = Inr (Inl e, x', ds')"
    using add_refused_iff [OF wf, of ?c 3 "[]"] by blast
  then show ?thesis using add_refused_iff [OF wf, of ?c 3 "[]"] ne by simp
qed

text \<open>C24: The NFS 4.0 handshake. The identifier and confirm value \<^verbatim>\<open>Add\<close> returned let the same principal
  confirm the client, which \<^verbatim>\<open>Get\<close> then finds; any other confirm value is answered with
  \<^verbatim>\<open>NFS4ERR_STALE_CLIENTID\<close> and changes nothing.\<close>

theorem handshake:
  assumes "wf_map x" and "Clients_Add (new_Client name verifier creds) now x ds = Inr (Inr (i, cv, sq), x1, ds')"
  shows "(\<exists>c x2 x3. Clients_Confirm i cv creds t x1 = (Inr c, x2) \<and> Client_Name c = name \<and>
      Client_Verifier c = verifier \<and> Clients_Get i t' x2 = (Some (c\<lparr>Client_lastSeen := t'\<rparr>), x3)) \<and>
    (cv' \<noteq> cv \<longrightarrow> Clients_Confirm i cv' creds t x1 = (Inl (NfsError NFS4ERR_STALE_CLIENTID), x1))"
proof -
  have "\<exists>c. mget x1 i = Some c \<and> Client_confirmValue c = cv \<and> Creds_Equal (Client_Creds c) creds \<and>
      Client_Name c = name \<and> Client_Verifier c = verifier"
    using assms by (cases rule: Clients_Add_cases) (auto simp: new_Client_def)
  then show ?thesis by (auto simp: Clients_Confirm_def Clients_Get_def Let_def)
qed

theorem handshake_witness:
  "\<exists>x1 c x2. Clients_Add (new_Client [1] 5 demo_creds) 0 [] [7, 9] = Inr (Inr (7, 9, 1), x1, []) \<and>
     Clients_Confirm 7 9 demo_creds 1 x1 = (Inr c, x2) \<and> Client_Name c = [1] \<and>
     Clients_Confirm 7 8 demo_creds 1 x1 = (Inl (NfsError NFS4ERR_STALE_CLIENTID), x1)"
proof -
  let ?n = "new_Client [1] 5 demo_creds"
  let ?c = "?n\<lparr>Client_clientID := 7, Client_confirmValue := 9, Client_seqID := 1, Client_lastSeen := 0\<rparr>"
  have a: "Clients_Add ?n 0 [] [7, 9] = Inr (Inr (7, 9, 1), [(7, ?c)], [])"
    by (simp add: Clients_Add_def randUint64_def new_Client_def)
  have wf: "wf_map ([] :: Clients)" by (simp add: wf_map_def)
  obtain c x2 where "Clients_Confirm 7 9 demo_creds 1 [(7, ?c)] = (Inr c, x2)" "Client_Name c = [1]"
      "Clients_Confirm 7 8 demo_creds 1 [(7, ?c)] = (Inl (NfsError NFS4ERR_STALE_CLIENTID), [(7, ?c)])"
    using handshake [OF wf a, of 1 2 8] by auto
  then show ?thesis using a by blast
qed

text \<open>C25: \<^verbatim>\<open>BuildSession\<close> returns a session identifier that leads back to its client, with slots 0 to 15: all
  at sequence number 0, with no reply kept and a reply buffer exactly when the session is persistent.
  There is no slot beyond, and the other sessions of the client keep their slots.\<close>

theorem session_slots:
  assumes "BuildSession persist c p ds = Inr (sid, c', p', ds')"
  shows "ClientIDFromSessionID sid = Client_clientID c \<and>
    (k \<le> MaxSlotID \<longrightarrow> (\<exists>s. GetSlot sid k c' = Some s \<and> Slot_SlotID s = k \<and> Slot_SequenceID s = 0 \<and>
      \<not> Slot_ContainsData s \<and> (Slot_Buf s = None \<longleftrightarrow> \<not> persist))) \<and>
    (k > MaxSlotID \<longrightarrow> GetSlot sid k c' = None) \<and>
    (\<forall>sid' s. GetSlot sid' k c = Some s \<longrightarrow> GetSlot sid' k c' = Some s)"
proof -
  obtain n slots where n: "mget (Client_sessions c) n = None"
      and b: "build_slots persist 0 16 p = (slots, p')" and sid: "sid = put_u64 (Client_clientID c) @ put_u64 n"
      and c': "c' = c\<lparr>Client_sessions := mput n slots (Client_sessions c)\<rparr>"
    using assms by (rule BuildSession_cases)
  have ids: "map Slot_SlotID slots = map (\<lambda>j. 0 + of_nat j) [0..<16]" by (rule build_slots_wf [OF b])
  then have len: "length slots = 16" by (metis length_map length_upt diff_zero)
  have get: "GetSlot sid k c' = (if 16 \<le> unat k then None else Some (slots ! unat k))"
    by (simp add: GetSlot_def sid c' len)
  have "\<exists>s. GetSlot sid k c' = Some s \<and> Slot_SlotID s = k \<and> Slot_SequenceID s = 0 \<and>
      \<not> Slot_ContainsData s \<and> (Slot_Buf s = None \<longleftrightarrow> \<not> persist)" if "k \<le> MaxSlotID"
  proof -
    have k: "unat k < 16" using that by (simp add: word_le_nat_alt)
    have "Slot_SlotID (slots ! unat k) = (map (\<lambda>j. 0 + of_nat j) [0..<16]) ! unat k"
      using k len ids by (metis nth_map)
    then have "Slot_SlotID (slots ! unat k) = k" using k by simp
    then show ?thesis using k len build_slots_fresh [OF b, of "slots ! unat k"] by (simp add: get)
  qed
  moreover have "GetSlot sid k c' = None" if "k > MaxSlotID"
    using that by (simp add: get word_less_nat_alt)
  moreover have "GetSlot sid' k c' = Some s" if "GetSlot sid' k c = Some s" for sid' s
    using that n by (auto simp: GetSlot_def c' split: option.splits if_splits)
  ultimately show ?thesis by (simp add: sid)
qed

theorem session_slots_witness:
  "\<exists>sid c' p' s. BuildSession False demo_client demo_pool [3] =
       Inr (sid, c', p', []) \<and> ClientIDFromSessionID sid = 7 \<and> GetSlot sid 15 c' = Some s \<and>
     Slot_SequenceID s = 0 \<and> GetSlot sid 16 c' = None"
proof -
  obtain slots p' where sl: "build_slots False 0 16 demo_pool = (slots, p')" by force
  have "\<exists>sid c' p'. BuildSession False demo_client demo_pool [3] = Inr (sid, c', p', [])"
    by (simp add: BuildSession_def demo_client_def new_Client_def sl del: build_slots.simps)
  then obtain sid c' p' where b: "BuildSession False demo_client demo_pool [3] = Inr (sid, c', p', [])" by blast
  obtain s where "GetSlot sid 15 c' = Some s" "Slot_SequenceID s = 0" using session_slots [OF b, of 15] by auto
  moreover have "ClientIDFromSessionID sid = 7" using session_slots [OF b, of 15] by (simp add: demo_client_def)
  moreover have "GetSlot sid 16 c' = None" using session_slots [OF b, of 16] by simp
  ultimately show ?thesis using b by blast
qed

text \<open>C26: Expiry removes exactly the clients that were silent for longer than the limit and have no open
  file, reports exactly those, and leaves every other client as it was.\<close>

theorem expiry_exact:
  assumes "wf_map x" and "RemoveExpiredClients expiration now x p = (removed, x', p')"
  shows "(mget x' i = Some c \<longleftrightarrow>
      mget x i = Some c \<and> (now - Client_lastSeen c \<le> expiration \<or> Client_busy c > 0)) \<and>
    (i \<in> set removed \<longleftrightarrow> mget x i \<noteq> None \<and> mget x' i = None)"
  using RemoveExpiredClients_get(2,3) [OF assms, where j = i]
  by (auto simp: keeps_def split: option.splits if_splits)

theorem expiry_exact_witness:
  "\<exists>p'. RemoveExpiredClients ClientExpiration (6 * Minute) [(7, demo_client), (8, demo_client\<lparr>Client_busy := 1\<rparr>)]
     demo_pool =
     ([7], [(8, demo_client\<lparr>Client_busy := 1\<rparr>)], p') \<and>
   (7 :: u64) \<in> set [7] \<and> mget [(8 :: u64, demo_client\<lparr>Client_busy := 1\<rparr>)] 8 = Some (demo_client\<lparr>Client_busy := 1\<rparr>)"
proof -
  let ?x = "[(7 :: u64, demo_client), (8, demo_client\<lparr>Client_busy := 1\<rparr>)]"
  obtain p' where r: "RemoveExpiredClients ClientExpiration (6 * Minute) ?x demo_pool =
      ([7], [(8, demo_client\<lparr>Client_busy := 1\<rparr>)], p')"
    by (simp add: RemoveExpiredClients_def keeps_def demo_client_def new_Client_def)
  have wf: "wf_map ?x" by (simp add: wf_map_def)
  show ?thesis
    using r expiry_exact [OF wf r, where i = 8] expiry_exact [OF wf r, where i = 7]
    by auto
qed

text \<open>C27: Every table the server can reach is well formed: no identifier occurs twice, every client is stored
  under its own identifier, and each of its sessions has exactly the slots 0 to 15, in order; a slot that is marked as holding a reply has a
  buffer for it.\<close>

theorem client_table_wf:
  assumes "reach (\<lambda>x. x = []) clients_step x"
  shows "distinct (map fst x) \<and> (\<forall>i c k slots. mget x i = Some c \<longrightarrow> Client_clientID c = i \<and>
    (mget (Client_sessions c) k = Some slots \<longrightarrow> map Slot_SlotID slots = map of_nat [0..<16] \<and>
      (\<forall>s \<in> set slots. Slot_ContainsData s \<longrightarrow> Slot_Buf s \<noteq> None)))"
  using table.holds [OF assms] unfolding wf_clients_def wf_client_def wf_session_def wf_slot_def wf_map_def by blast

theorem client_table_wf_witness:
  "\<exists>c. reach (\<lambda>x. x = []) clients_step [(7, c)] \<and> Client_clientID c = 7"
proof -
  obtain c where c: "reach (\<lambda>x. x = []) clients_step [(7, c)]" using demo_table_reach by blast
  then show ?thesis using client_table_wf [OF c] by auto
qed

lemma fresh_id_stops:
  assumes "\<not> used d"
  shows "\<exists>i ds'. fresh_id used (ds1 @ d # e # ds2) = Inr (i, ds') \<and> ds' \<noteq> []"
  using assms by (induction ds1) auto

lemma length_mput: "length (mput k v m) = (if mget m k = None then Suc (length m) else length m)"
  by (induction m) auto

text \<open>\<^verbatim>\<open>Add\<close> returns as soon as the random source delivers one identifier that is not in the table, however
  many draws collide before it, and the table has grown by one client at most.\<close>

theorem add_returns:
  assumes "mget x d = None"
  shows "\<exists>r x' ds'. Clients_Add client now x (ds1 @ d # e # ds2) = Inr (r, x', ds') \<and>
    length x' \<le> Suc (length x)"
proof (cases "Add_prev client x")
  case (Inl err)
  then show ?thesis by (simp add: Clients_Add_def)
next
  case (Inr prev)
  let ?ds = "ds1 @ d # e # ds2"
  let ?kept = "filter (\<lambda>(_, stored). Client_confirmed stored \<or> Client_Name stored \<noteq> Client_Name client) x"
  have bound: "length (mput i c y) \<le> Suc (length x)" if "length y \<le> length x" for i c and y :: Clients
    using that by (simp add: length_mput)
  show ?thesis
  proof (cases "Add_update client prev")
    case None
    obtain i ds' where f: "fresh_id (\<lambda>i. mget x i \<noteq> None) ?ds = Inr (i, ds')" and ne: "ds' \<noteq> []"
      using fresh_id_stops [of "\<lambda>i. mget x i \<noteq> None" d ds1 e ds2] assms by auto
    then obtain cv rest where "ds' = cv # rest" by (cases ds') auto
    then show ?thesis
      using Inr None f bound [of ?kept] by (simp add: Clients_Add_def randUint64_def Let_def)
  next
    case (Some ic)
    obtain cv rest where "?ds = cv # rest" by (cases ?ds) auto
    then show ?thesis
      using Inr Some bound [of x] by (cases ic) (simp add: Clients_Add_def randUint64_def Let_def)
  qed
qed

theorem add_returns_witness:
  "\<exists>r x' ds'. Clients_Add (new_Client [2] 5 demo_creds) 0 [(7, demo_client)] ([7, 7] @ 8 # 9 # []) =
     Inr (r, x', ds') \<and> length x' \<le> 2"
  using add_returns [of "[(7, demo_client)]" 8 "new_Client [2] 5 demo_creds" 0 "[7, 7]" 9 "[]"]
  by (simp add: numeral_2_eq_2)

end
