(* ===== verification/Vfs.thy ===== *)
theory Vfs
  imports Clients
begin

text \<open>
  The file system the server exports, as the server sees it. Paths (\<^verbatim>\<open>Join\<close>, \<^verbatim>\<open>Base\<close>) and the methods
  of \<^verbatim>\<open>FileInfo\<close> are those of the vendored \<^verbatim>\<open>vfs\<close> package. The file system itself
  (\<^verbatim>\<open>vfs.AdvancedLinkFS\<close>, and the open files and directory listers it hands out) is chosen by whoever
  starts the server: it is a parameter of the model, a record \<open>vfs\<close> of one function per method over an
  arbitrary state \<open>'fs\<close>. A loaded root file system, an open file and a lister are each a natural number,
  the identity of the Go object.
\<close>

section \<open>File information\<close>

record FileInfo =
  fi_Name :: string
  fi_Size :: "64 word"
  fi_Mode :: u32
  fi_ModTime :: time
  fi_IsDir :: bool
  fi_Uid :: u32
  fi_Gid :: u32
  fi_NumLinks :: u64
  fi_Extended :: "go_error + (string, bytes) gomap"

abbreviation (input) ModeDir :: u32 where "ModeDir \<equiv> 0x80000000"
abbreviation (input) ModeSymlink :: u32 where "ModeSymlink \<equiv> 0x8000000"
abbreviation (input) ModeSocket :: u32 where "ModeSocket \<equiv> 0x1000000"
abbreviation (input) ModePerm :: u32 where "ModePerm \<equiv> 0x1FF"

text \<open>\<^verbatim>\<open>ModeType\<close>: directory, symlink, named pipe, socket, device, character device, irregular.\<close>

abbreviation (input) ModeType :: u32 where "ModeType \<equiv> 0x8F280000"

definition Mode_Type :: "u32 \<Rightarrow> u32" where
  "Mode_Type m = m AND ModeType"

definition time_Unix :: "time \<Rightarrow> int" where
  "time_Unix t = t div 1000000000"

definition time_Nanosecond :: "time \<Rightarrow> int" where
  "time_Nanosecond t = t mod 1000000000"

section \<open>Paths\<close>

text \<open>\<^verbatim>\<open>vfs.Join\<close> of two elements.\<close>

definition Join :: "string \<Rightarrow> string \<Rightarrow> string" where
  "Join dir name =
     (let d = (if dir = ''/'' then '''' else dir)
      in if name = '''' then d else d @ ''/'' @ name)"

definition Base :: "string \<Rightarrow> string" where
  "Base path =
     (if path = '''' \<or> path = ''/'' then ''.''
      else
        let p = rev (dropWhile (\<lambda>c. c = CHR ''/'') (rev path));
            q = rev (takeWhile (\<lambda>c. c \<noteq> CHR ''/'') (rev p))
        in if q = '''' then ''.'' else q)"

lemma Join_nonempty: "name \<noteq> '''' \<Longrightarrow> Join dir name \<noteq> ''''"
  by (simp add: Join_def Let_def)

text \<open>A child keeps its directory as a prefix and its name as last element.\<close>

lemma Base_Join:
  assumes "name \<noteq> ''''" and "CHR ''/'' \<notin> set name"
  shows "Base (Join dir name) = name"
proof -
  obtain init l where name: "name = init @ [l]" "l \<noteq> CHR ''/''"
    using assms by (cases name rule: rev_cases) auto
  obtain d where d: "Join dir name = d @ ''/'' @ name" using assms(1) by (auto simp: Join_def Let_def)
  have tw: "takeWhile (\<lambda>c. c \<noteq> CHR ''/'') (rev name @ CHR ''/'' # rev d) = rev name"
    using assms(2) by (subst takeWhile_append2) auto
  have "dropWhile (\<lambda>c. c = CHR ''/'') (rev name @ CHR ''/'' # rev d) = rev name @ CHR ''/'' # rev d"
    using name by simp
  then show ?thesis
    using assms(1) by (auto simp: Base_def d tw Let_def append_eq_Cons_conv)
qed

section \<open>The file system interface\<close>

text \<open>The result of \<^verbatim>\<open>ReadAt\<close>, \<^verbatim>\<open>WriteAt\<close> and \<^verbatim>\<open>ListAt\<close> is a value together with an error; the other
  methods return one or the other. \<open>loader\<close> is the \<^verbatim>\<open>RootLoader\<close> given to the server.\<close>

record 'fs vfs =
  vfs_loader :: "Creds \<Rightarrow> 'fs \<Rightarrow> (go_error + nat) \<times> 'fs"
  vfs_errorfs :: "go_error \<Rightarrow> 'fs \<Rightarrow> nat \<times> 'fs"
  vfs_Handle :: "nat \<Rightarrow> string \<Rightarrow> 'fs \<Rightarrow> (go_error + bytes) \<times> 'fs"
  vfs_Path :: "nat \<Rightarrow> bytes \<Rightarrow> 'fs \<Rightarrow> (go_error + string) \<times> 'fs"
  vfs_Lstat :: "nat \<Rightarrow> string \<Rightarrow> 'fs \<Rightarrow> (go_error + FileInfo) \<times> 'fs"
  vfs_List :: "nat \<Rightarrow> string \<Rightarrow> 'fs \<Rightarrow> (go_error + nat) \<times> 'fs"
  vfs_FileRead :: "nat \<Rightarrow> string \<Rightarrow> 'fs \<Rightarrow> (go_error + nat) \<times> 'fs"
  vfs_FileWrite :: "nat \<Rightarrow> string \<Rightarrow> u32 \<Rightarrow> 'fs \<Rightarrow> (go_error + nat) \<times> 'fs"
  vfs_OpenFile :: "nat \<Rightarrow> string \<Rightarrow> u32 \<Rightarrow> u32 \<Rightarrow> 'fs \<Rightarrow> (go_error + nat) \<times> 'fs"
  vfs_Mkdir :: "nat \<Rightarrow> string \<Rightarrow> u32 \<Rightarrow> 'fs \<Rightarrow> go_error option \<times> 'fs"
  vfs_Symlink :: "nat \<Rightarrow> string \<Rightarrow> string \<Rightarrow> 'fs \<Rightarrow> go_error option \<times> 'fs"
  vfs_Rename :: "nat \<Rightarrow> string \<Rightarrow> string \<Rightarrow> 'fs \<Rightarrow> go_error option \<times> 'fs"
  vfs_Link :: "nat \<Rightarrow> string \<Rightarrow> string \<Rightarrow> 'fs \<Rightarrow> go_error option \<times> 'fs"
  vfs_Remove :: "nat \<Rightarrow> string \<Rightarrow> 'fs \<Rightarrow> go_error option \<times> 'fs"
  vfs_Rmdir :: "nat \<Rightarrow> string \<Rightarrow> 'fs \<Rightarrow> go_error option \<times> 'fs"
  vfs_Readlink :: "nat \<Rightarrow> string \<Rightarrow> 'fs \<Rightarrow> (go_error + string) \<times> 'fs"
  vfs_Chmod :: "nat \<Rightarrow> string \<Rightarrow> u32 \<Rightarrow> 'fs \<Rightarrow> go_error option \<times> 'fs"
  vfs_Chown :: "nat \<Rightarrow> string \<Rightarrow> u32 \<Rightarrow> u32 \<Rightarrow> 'fs \<Rightarrow> go_error option \<times> 'fs"
  vfs_Truncate :: "nat \<Rightarrow> string \<Rightarrow> u64 \<Rightarrow> 'fs \<Rightarrow> go_error option \<times> 'fs"
  vfs_Chtimes :: "nat \<Rightarrow> string \<Rightarrow> time \<Rightarrow> time \<Rightarrow> 'fs \<Rightarrow> go_error option \<times> 'fs"
  vfs_SetExtendedAttr :: "nat \<Rightarrow> string \<Rightarrow> string \<Rightarrow> bytes \<Rightarrow> 'fs \<Rightarrow> go_error option \<times> 'fs"
  vfs_UnsetExtendedAttr :: "nat \<Rightarrow> string \<Rightarrow> string \<Rightarrow> 'fs \<Rightarrow> go_error option \<times> 'fs"
  vfs_Close :: "nat \<Rightarrow> 'fs \<Rightarrow> go_error option \<times> 'fs"
  file_ReadAt :: "nat \<Rightarrow> nat \<Rightarrow> u64 \<Rightarrow> 'fs \<Rightarrow> (bytes \<times> go_error option) \<times> 'fs"
  file_WriteAt :: "nat \<Rightarrow> bytes \<Rightarrow> u64 \<Rightarrow> 'fs \<Rightarrow> (nat \<times> go_error option) \<times> 'fs"
  file_Close :: "nat \<Rightarrow> 'fs \<Rightarrow> go_error option \<times> 'fs"
  lister_ListAt :: "nat \<Rightarrow> nat \<Rightarrow> u64 \<Rightarrow> 'fs \<Rightarrow> (FileInfo list \<times> go_error option) \<times> 'fs"
  lister_Close :: "nat \<Rightarrow> 'fs \<Rightarrow> go_error option \<times> 'fs"

section \<open>One-way files\<close>

text \<open>\<^verbatim>\<open>nop.go\<close>: a file opened for reading or for writing only refuses the other direction.\<close>

datatype OpenFile = NopWriterAt nat | NopReaderAt nat | ReadWrite nat

fun OpenFile_ReadAt :: "'fs vfs \<Rightarrow> OpenFile \<Rightarrow> nat \<Rightarrow> u64 \<Rightarrow> 'fs \<Rightarrow> (bytes \<times> go_error option) \<times> 'fs" where
  "OpenFile_ReadAt V (NopReaderAt h) n off fs = (([], Some (GoErr [ErrPermission])), fs)"
| "OpenFile_ReadAt V (NopWriterAt h) n off fs = file_ReadAt V h n off fs"
| "OpenFile_ReadAt V (ReadWrite h) n off fs = file_ReadAt V h n off fs"

fun OpenFile_WriteAt :: "'fs vfs \<Rightarrow> OpenFile \<Rightarrow> bytes \<Rightarrow> u64 \<Rightarrow> 'fs \<Rightarrow> (nat \<times> go_error option) \<times> 'fs" where
  "OpenFile_WriteAt V (NopWriterAt h) p off fs = ((0, Some (GoErr [ErrPermission])), fs)"
| "OpenFile_WriteAt V (NopReaderAt h) p off fs = file_WriteAt V h p off fs"
| "OpenFile_WriteAt V (ReadWrite h) p off fs = file_WriteAt V h p off fs"

fun OpenFile_Close :: "'fs vfs \<Rightarrow> OpenFile \<Rightarrow> 'fs \<Rightarrow> go_error option \<times> 'fs" where
  "OpenFile_Close V (NopReaderAt h) fs = file_Close V h fs"
| "OpenFile_Close V (NopWriterAt h) fs = file_Close V h fs"
| "OpenFile_Close V (ReadWrite h) fs = file_Close V h fs"

section \<open>A small instance\<close>

text \<open>A file system with one directory and one file, whose contents are the state. The concrete examples of
  the development run on it.\<close>

definition demo_info :: "string \<Rightarrow> bytes \<Rightarrow> FileInfo" where
  "demo_info path fs =
     \<lparr>fi_Name = Base path, fi_Size = of_nat (length fs), fi_Mode = (if path = ''/'' then 0x800001ED else 0x1A4),
      fi_ModTime = 0, fi_IsDir = (path = ''/''), fi_Uid = 1000, fi_Gid = 1000, fi_NumLinks = 1,
      fi_Extended = Inr [(''user.a'', [1])]\<rparr>"

definition demo_vfs :: "bytes vfs" where
  "demo_vfs =
     \<lparr>vfs_loader = (\<lambda>_ fs. (Inr 0, fs)),
      vfs_errorfs = (\<lambda>_ fs. (1, fs)),
      vfs_Handle = (\<lambda>_ path fs. (Inr (if path = ''/'' then [0] else [1]), fs)),
      vfs_Path = (\<lambda>_ h fs. (Inr (if h = [0] then ''/'' else ''/f''), fs)),
      vfs_Lstat = (\<lambda>_ path fs. (Inr (demo_info path fs), fs)),
      vfs_List = (\<lambda>_ _ fs. (Inr 2, fs)),
      vfs_FileRead = (\<lambda>_ _ fs. (Inr 3, fs)),
      vfs_FileWrite = (\<lambda>_ _ _ fs. (Inr 4, fs)),
      vfs_OpenFile = (\<lambda>_ _ _ _ fs. (Inr 5, fs)),
      vfs_Mkdir = (\<lambda>_ _ _ fs. (Some (GoErr [EOPNOTSUPP]), fs)),
      vfs_Symlink = (\<lambda>_ _ _ fs. (Some (GoErr [EOPNOTSUPP]), fs)),
      vfs_Rename = (\<lambda>_ _ _ fs. (None, fs)),
      vfs_Link = (\<lambda>_ _ _ fs. (Some (GoErr [EOPNOTSUPP]), fs)),
      vfs_Remove = (\<lambda>_ _ fs. (None, [])),
      vfs_Rmdir = (\<lambda>_ _ fs. (Some (GoErr [EOPNOTSUPP]), fs)),
      vfs_Readlink = (\<lambda>_ _ fs. (Inl (GoErr [EOPNOTSUPP]), fs)),
      vfs_Chmod = (\<lambda>_ _ _ fs. (None, fs)),
      vfs_Chown = (\<lambda>_ _ _ _ fs. (None, fs)),
      vfs_Truncate = (\<lambda>_ _ n fs. (None, take (unat n) fs)),
      vfs_Chtimes = (\<lambda>_ _ _ _ fs. (None, fs)),
      vfs_SetExtendedAttr = (\<lambda>_ _ _ _ fs. (None, fs)),
      vfs_UnsetExtendedAttr = (\<lambda>_ _ _ fs. (None, fs)),
      vfs_Close = (\<lambda>_ fs. (None, fs)),
      file_ReadAt = (\<lambda>_ n off fs. ((take n (drop (unat off) fs), if length fs \<le> unat off + n then Some (GoErr [EOF]) else None), fs)),
      file_WriteAt = (\<lambda>_ p off fs. ((length p, None), take (unat off) fs @ p)),
      file_Close = (\<lambda>_ fs. (None, fs)),
      lister_ListAt = (\<lambda>_ _ _ fs. (([demo_info ''/f'' fs], Some (GoErr [EOF])), fs)),
      lister_Close = (\<lambda>_ fs. (None, fs))\<rparr>"

text \<open>Looking a name up and taking the base name again gives the name back, for every name that is not
  empty and has no slash in it, whatever the directory.\<close>

theorem base_of_join:
  assumes "name \<noteq> ''''" and "CHR ''/'' \<notin> set name"
  shows "Base (Join dir name) = name"
  using assms by (rule Base_Join)

theorem base_of_join_witness: "Base (Join ''/'' ''f'') = ''f'' \<and> Base (Join ''/a'' ''b.c'') = ''b.c''"
  using base_of_join [of "''f''" "''/''"] base_of_join [of "''b.c''" "''/a''"] by simp

end
