(* ===== verification/Attrs.thy ===== *)
theory Attrs
  imports Bitmap Vfs
begin

text \<open>
  File attributes (\<^verbatim>\<open>attrs.go\<close>): the attribute numbers and names, the encoder that answers \<^verbatim>\<open>GETATTR\<close>,
  \<^verbatim>\<open>READDIR\<close>, \<^verbatim>\<open>VERIFY\<close> and \<^verbatim>\<open>NVERIFY\<close>, and the decoder of the attributes a client sets.
\<close>

section \<open>Attribute numbers\<close>

abbreviation (input) A_supported_attrs :: nat where "A_supported_attrs \<equiv> 0"
abbreviation (input) A_type :: nat where "A_type \<equiv> 1"
abbreviation (input) A_fh_expire_type :: nat where "A_fh_expire_type \<equiv> 2"
abbreviation (input) A_change :: nat where "A_change \<equiv> 3"
abbreviation (input) A_size :: nat where "A_size \<equiv> 4"
abbreviation (input) A_link_support :: nat where "A_link_support \<equiv> 5"
abbreviation (input) A_symlink_support :: nat where "A_symlink_support \<equiv> 6"
abbreviation (input) A_named_attr :: nat where "A_named_attr \<equiv> 7"
abbreviation (input) A_fsid :: nat where "A_fsid \<equiv> 8"
abbreviation (input) A_unique_handles :: nat where "A_unique_handles \<equiv> 9"
abbreviation (input) A_lease_time :: nat where "A_lease_time \<equiv> 10"
abbreviation (input) A_rdattr_error :: nat where "A_rdattr_error \<equiv> 11"
abbreviation (input) A_acl :: nat where "A_acl \<equiv> 12"
abbreviation (input) A_aclsupport :: nat where "A_aclsupport \<equiv> 13"
abbreviation (input) A_case_insensitive :: nat where "A_case_insensitive \<equiv> 16"
abbreviation (input) A_case_preserving :: nat where "A_case_preserving \<equiv> 17"
abbreviation (input) A_chown_restricted :: nat where "A_chown_restricted \<equiv> 18"
abbreviation (input) A_filehandle :: nat where "A_filehandle \<equiv> 19"
abbreviation (input) A_fileid :: nat where "A_fileid \<equiv> 20"
abbreviation (input) A_maxname :: nat where "A_maxname \<equiv> 29"
abbreviation (input) A_maxread :: nat where "A_maxread \<equiv> 30"
abbreviation (input) A_maxwrite :: nat where "A_maxwrite \<equiv> 31"
abbreviation (input) A_mode :: nat where "A_mode \<equiv> 33"
abbreviation (input) A_no_trunc :: nat where "A_no_trunc \<equiv> 34"
abbreviation (input) A_numlinks :: nat where "A_numlinks \<equiv> 35"
abbreviation (input) A_owner :: nat where "A_owner \<equiv> 36"
abbreviation (input) A_owner_group :: nat where "A_owner_group \<equiv> 37"
abbreviation (input) A_rawdev :: nat where "A_rawdev \<equiv> 41"
abbreviation (input) A_space_used :: nat where "A_space_used \<equiv> 45"
abbreviation (input) A_time_access :: nat where "A_time_access \<equiv> 47"
abbreviation (input) A_time_metadata :: nat where "A_time_metadata \<equiv> 52"
abbreviation (input) A_time_modify :: nat where "A_time_modify \<equiv> 53"
abbreviation (input) A_time_modify_set :: nat where "A_time_modify_set \<equiv> 54"
abbreviation (input) A_mounted_on_fileid :: nat where "A_mounted_on_fileid \<equiv> 55"
abbreviation (input) A_suppattr_exclcreat :: nat where "A_suppattr_exclcreat \<equiv> 75"
abbreviation (input) A_xattr_support :: nat where "A_xattr_support \<equiv> 82"
abbreviation (input) A_acl_trueform :: nat where "A_acl_trueform \<equiv> 88"
abbreviation (input) A_acl_trueform_scope :: nat where "A_acl_trueform_scope \<equiv> 89"
abbreviation (input) A_posix_default_acl :: nat where "A_posix_default_acl \<equiv> 90"
abbreviation (input) A_posix_access_acl :: nat where "A_posix_access_acl \<equiv> 91"

definition AttrsDefaultSet :: "nat list" where
  "AttrsDefaultSet = [
    A_type, A_fh_expire_type, A_change, A_size, A_fsid, A_rdattr_error, A_filehandle, A_fileid,
    A_mode, A_numlinks, A_owner, A_owner_group, A_rawdev, A_space_used, A_time_access,
    A_time_metadata, A_time_modify, A_mounted_on_fileid]"

definition AttrsSupported :: "nat list" where
  "AttrsSupported = [
    A_supported_attrs, A_type, A_fh_expire_type, A_change, A_size, A_link_support,
    A_symlink_support, A_named_attr, A_fsid, A_unique_handles, A_lease_time, A_aclsupport,
    A_case_insensitive, A_case_preserving, A_rdattr_error, A_chown_restricted, A_filehandle,
    A_fileid, A_maxname, A_maxread, A_maxwrite, A_mode, A_no_trunc, A_numlinks, A_owner,
    A_owner_group, A_rawdev, A_space_used, A_time_access, A_time_metadata, A_time_modify,
    A_mounted_on_fileid, A_suppattr_exclcreat, A_xattr_support, A_acl, A_aclsupport]"

definition attr_names :: "(nat \<times> string) list" where
  "attr_names = [
    (A_supported_attrs, ''supported_attrs''), (A_type, ''type''),
    (A_fh_expire_type, ''fh_expire_type''), (A_change, ''change''), (A_size, ''size''),
    (A_link_support, ''link_support''), (A_symlink_support, ''symlink_support''),
    (A_named_attr, ''named_attr''), (A_fsid, ''fsid''), (A_unique_handles, ''unique_handles''),
    (A_lease_time, ''lease_time''), (A_rdattr_error, ''rdattr_error''),
    (A_case_insensitive, ''case_insensitive''), (A_case_preserving, ''case_preserving''),
    (A_filehandle, ''filehandle''), (A_fileid, ''fileid''), (A_maxname, ''maxname''),
    (A_maxread, ''maxread''), (A_maxwrite, ''maxwrite''), (A_mode, ''mode''),
    (A_no_trunc, ''no_trunc''), (A_numlinks, ''numlinks''), (A_owner, ''owner''),
    (A_owner_group, ''owner_group''), (A_rawdev, ''rawdev''), (A_space_used, ''space_used''),
    (A_time_access, ''time_access''), (A_time_metadata, ''time_metadata''),
    (A_time_modify, ''time_modify''), (A_mounted_on_fileid, ''mounted_on_fileid''),
    (A_suppattr_exclcreat, ''suppattr_exclcreat''), (A_xattr_support, ''xattr_support''),
    (A_acl, ''acl''), (A_aclsupport, ''aclsupport''), (A_acl_trueform, ''acl_trueform''),
    (A_acl_trueform_scope, ''acl_trueform_scope''), (A_posix_default_acl, ''posix_default_acl''),
    (A_posix_access_acl, ''posix_access_acl'')]"

definition GetAttrNameByID :: "nat \<Rightarrow> string \<times> bool" where
  "GetAttrNameByID i =
     (case map_of attr_names i of Some s \<Rightarrow> (s, True) | None \<Rightarrow> (show_nat i, False))"

section \<open>Encoding attributes\<close>

definition idx_of :: "nat list \<Rightarrow> attrset" where
  "idx_of as = fold (\<lambda>a m. mput a True m) as []"

text \<open>\<^verbatim>\<open>binary.LittleEndian.Uint64\<close>\<close>

definition get_le_u64 :: "bytes \<Rightarrow> u64" where
  "get_le_u64 b = get_u64 (rev (take 8 b))"

fun fileid_loop :: "u64 \<Rightarrow> bytes \<Rightarrow> u64" where
  "fileid_loop fileid window =
     (if fileid = 0 \<and> 8 \<le> length window
      then fileid_loop (get_le_u64 (drop (length window - 8) window)) (butlast window)
      else fileid)"

declare fileid_loop.simps [simp del]

definition fileid_of :: "bytes \<Rightarrow> u64" where
  "fileid_of fh =
     (let window = (if length fh < 8 then fh @ replicate (8 - length fh) 0 else fh);
          fileid = fileid_loop 0 window
      in if fileid = 0 then fileid - 1 else fileid)"

definition attr_acl :: "NfsAce4 list" where
  "attr_acl =
     [\<lparr>NfsAce4_Type = ACE4_ACCESS_ALLOWED_ACE_TYPE, NfsAce4_Flag = 0,
       NfsAce4_AccessMask = ACE4_WRITE_OWNER OR ACE4_WRITE_ACL OR ACE4_WRITE_DATA OR ACE4_READ_ACL OR
         ACE4_READ_DATA, NfsAce4_Who = ''OWNER@''\<rparr>,
      \<lparr>NfsAce4_Type = ACE4_ACCESS_ALLOWED_ACE_TYPE, NfsAce4_Flag = ACE4_IDENTIFIER_GROUP,
       NfsAce4_AccessMask = ACE4_READ_ACL OR ACE4_READ_DATA, NfsAce4_Who = ''GROUP@''\<rparr>,
      \<lparr>NfsAce4_Type = ACE4_ACCESS_ALLOWED_ACE_TYPE, NfsAce4_Flag = 0, NfsAce4_AccessMask = 0,
       NfsAce4_Who = ''EVERYONE@''\<rparr>]"

definition attr_posix_acl :: "NfsPosixAce4 list" where
  "attr_posix_acl =
     [\<lparr>NfsPosixAce4_Tag = 1, NfsPosixAce4_Perm = 7, NfsPosixAce4_Who = ''''\<rparr>,
      \<lparr>NfsPosixAce4_Tag = 3, NfsPosixAce4_Perm = 7, NfsPosixAce4_Who = ''''\<rparr>,
      \<lparr>NfsPosixAce4_Tag = 6, NfsPosixAce4_Perm = 0, NfsPosixAce4_Who = ''''\<rparr>]"

definition attr_type :: "FileInfo \<Rightarrow> u32" where
  "attr_type fi =
     (if fi_IsDir fi then NF4DIR
      else if Mode_Type (fi_Mode fi) = ModeDir then NF4DIR
      else if Mode_Type (fi_Mode fi) = ModeSymlink then NF4LNK
      else if Mode_Type (fi_Mode fi) = ModeSocket then NF4SOCK
      else NF4REG)"

definition attr_change :: "FileInfo \<Rightarrow> Creds \<Rightarrow> u64 \<Rightarrow> u64" where
  "attr_change fi creds sessionID =
     word_of_int (time_Unix (fi_ModTime fi)) * 0xFFFFFFFF + ucast (Creds_UID creds) + sessionID"

definition attr_time :: "time \<Rightarrow> NfsTime4" where
  "attr_time t = \<lparr>NfsTime4_Seconds = word_of_int (time_Unix t),
     NfsTime4_NSeconds = word_of_int (time_Nanosecond t)\<rparr>"

text \<open>One turn of the switch: what is written for attribute \<open>a\<close>, the later cases first. The bitmap of the supported
  attributes is computed by \<^const>\<open>bitmap4Encode\<close>, which can panic.\<close>

definition attr_value_more :: "FileInfo \<Rightarrow> nat \<Rightarrow> xenc go" where
  "attr_value_more fi a =
     (if a = A_maxname then Inr (eUint32 255)
      else if a = A_maxread \<or> a = A_maxwrite then Inr (eUint64 (32 * 1024))
      else if a = A_mode then Inr (eUint32 (fi_Mode fi AND (push_bit 9 1 - 1)))
      else if a = A_no_trunc then Inr (eBool True)
      else if a = A_numlinks then
        Inr (eUint32 (let n = ucast (fi_NumLinks fi) in if n = 0 then 1 else n))
      else if a = A_owner then Inr (eString (show_nat (unat (fi_Uid fi))))
      else if a = A_owner_group then Inr (eString (show_nat (unat (fi_Gid fi))))
      else if a = A_rawdev then Inr (enc_Specdata4 zero_Specdata4)
      else if a = A_space_used then Inr (eUint64 (1024 * 4 + fi_Size fi))
      else if a = A_time_access \<or> a = A_time_metadata \<or> a = A_time_modify then
        Inr (enc_NfsTime4 (attr_time (fi_ModTime fi)))
      else if a = A_xattr_support then Inr (eUint32 1)
      else if a = A_acl_trueform then Inr (eUint32 2)
      else if a = A_acl_trueform_scope then Inr (eUint32 1)
      else if a = A_posix_default_acl then Inr (eSlice enc_NfsPosixAce4 [])
      else if a = A_posix_access_acl then Inr (eSlice enc_NfsPosixAce4 attr_posix_acl)
      else Inr ([], None))"

definition attr_value ::
  "bytes \<Rightarrow> FileInfo \<Rightarrow> go_error option \<Rightarrow> Creds \<Rightarrow> u64 \<Rightarrow> nat \<Rightarrow> xenc go" where
  "attr_value fh fi err creds sessionID a =
     (if a = A_supported_attrs \<or> a = A_suppattr_exclcreat then
        go_bind (bitmap4Encode (idx_of AttrsSupported)) (\<lambda>v. Inr (eUint32s v))
      else if a = A_type then Inr (eUint32 (attr_type fi))
      else if a = A_fh_expire_type then Inr (eUint32 (FH4_VOLATILE_ANY OR FH4_NOEXPIRE_WITH_OPEN))
      else if a = A_change then Inr (eUint64 (attr_change fi creds sessionID))
      else if a = A_size then Inr (eUint64 (fi_Size fi))
      else if a = A_link_support \<or> a = A_case_preserving then Inr (eBool True)
      else if a = A_symlink_support then Inr (eBool True)
      else if a = A_named_attr \<or> a = A_case_insensitive then Inr (eBool False)
      else if a = A_fsid then Inr (enc_Fsid4 \<lparr>Fsid4_Major = 1, Fsid4_Minor = 1\<rparr>)
      else if a = A_unique_handles then Inr (eBool False)
      else if a = A_lease_time then Inr (eUint32 (word_of_int (ClientExpiration div Second)))
      else if a = A_rdattr_error then Inr (eUint32 (Err2Status err))
      else if a = A_aclsupport then Inr (eUint32 1)
      else if a = A_acl then Inr (eSlice enc_NfsAce4 attr_acl)
      else if a = A_chown_restricted then Inr (eBool True)
      else if a = A_filehandle then Inr (eBytes fh)
      else if a = A_fileid \<or> a = A_mounted_on_fileid then Inr (eUint64 (fileid_of fh))
      else attr_value_more fi a)"

text \<open>The loop over the attribute numbers: encoder errors are logged and ignored, so what was written
  before the error stays.\<close>

fun attrs_loop ::
  "(nat \<Rightarrow> xenc go) \<Rightarrow> attrset \<Rightarrow> attrset \<Rightarrow> nat list \<Rightarrow> attrset \<Rightarrow> bytes \<Rightarrow> (attrset \<times> bytes) go" where
  "attrs_loop value request support [] ret out = Inr (ret, out)"
| "attrs_loop value request support (a # as) ret out =
     (if mget request a \<noteq> Some True then attrs_loop value request support as ret out
      else if mget support a \<noteq> Some True then attrs_loop value request support as ret out
      else go_bind (value a) (\<lambda>v. attrs_loop value request support as (mput a True ret) (out @ fst v)))"

definition fileInfoToAttrs ::
  "bytes \<Rightarrow> FileInfo \<Rightarrow> go_error option \<Rightarrow> attrset option \<Rightarrow> Creds \<Rightarrow> u64 \<Rightarrow> FAttr4 go" where
  "fileInfoToAttrs fh fi err attrsRequest creds sessionID =
     (let idxSupport = idx_of AttrsSupported;
          request = (case attrsRequest of None \<Rightarrow> idx_of AttrsDefaultSet | Some r \<Rightarrow> r);
          idxReturn = map (\<lambda>(a, _). (a, False)) request
      in go_bind (attrs_loop (attr_value fh fi err creds sessionID) request idxSupport
                    [0..<Suc (max_key request)] idxReturn []) (\<lambda>(ret, dat).
           go_bind (bitmap4Encode ret) (\<lambda>mask.
             Inr \<lparr>FAttr4_Mask = mask, FAttr4_Vals = dat\<rparr>)))"

section \<open>Decoding attributes\<close>

record Attr =
  Attr_SupportedAttrs :: "u32 list"
  Attr_Type :: u32
  Attr_FhExpireType :: u32
  Attr_Change :: u64
  Attr_Size :: "u64 option"
  Attr_LinkSupport :: bool
  Attr_SymlinkSupport :: bool
  Attr_NamedAttr :: bool
  Attr_Fsid :: "Fsid4 option"
  Attr_UniqueHandles :: bool
  Attr_LeaseTime :: u32
  Attr_RdattrError :: u32
  Attr_FileHandle :: bytes
  Attr_FileID :: u64
  Attr_Mode :: "u32 option"
  Attr_NumLinks :: u32
  Attr_Owner :: string
  Attr_OwnerGroup :: string
  Attr_Rawdev :: "Specdata4 option"
  Attr_SpaceUsed :: u64
  Attr_TimeAccess :: "NfsTime4 option"
  Attr_TimeMetadata :: "NfsTime4 option"
  Attr_TimeModify :: "NfsTime4 option"
  Attr_MountedOnFileID :: u64
  Attr_SuppAttrExclCreat :: "u32 list"
  Attr_XAttrSupport :: bool
  Attr_ACLSupport :: bool
  Attr_ACL :: "NfsAce4 list"
  Attr_PosixACL :: "NfsPosixAce4 list"
  Attr_PosixDefaultACL :: "NfsPosixAce4 list"

definition zero_Attr :: Attr where
  "zero_Attr = \<lparr>Attr_SupportedAttrs = [], Attr_Type = 0, Attr_FhExpireType = 0, Attr_Change = 0,
     Attr_Size = None, Attr_LinkSupport = False, Attr_SymlinkSupport = False, Attr_NamedAttr = False,
     Attr_Fsid = None, Attr_UniqueHandles = False, Attr_LeaseTime = 0, Attr_RdattrError = 0,
     Attr_FileHandle = [], Attr_FileID = 0, Attr_Mode = None, Attr_NumLinks = 0, Attr_Owner = '''',
     Attr_OwnerGroup = '''', Attr_Rawdev = None, Attr_SpaceUsed = 0, Attr_TimeAccess = None,
     Attr_TimeMetadata = None, Attr_TimeModify = None, Attr_MountedOnFileID = 0,
     Attr_SuppAttrExclCreat = [], Attr_XAttrSupport = False, Attr_ACLSupport = False, Attr_ACL = [],
     Attr_PosixACL = [], Attr_PosixDefaultACL = []\<rparr>"

text \<open>\<^verbatim>\<open>ar.Read(&decAttr.TimeModify)\<close>: the target is a pointer to a pointer, which reflection reads as an
  optional value, with a boolean of its own in front.\<close>

definition dec_time_ptr :: "NfsTime4 xdec" where
  "dec_time_ptr = dthen dBool (\<lambda>has. if has then dreflect dec_NfsTime4 else dret zero_NfsTime4)"

text \<open>The switch of \<^verbatim>\<open>decodeFAttrs4\<close>, the later cases first.\<close>

definition dec_attr_more :: "time \<Rightarrow> nat \<Rightarrow> Attr \<Rightarrow> Attr xdec" where
  "dec_attr_more now i at =
     (if i = A_owner then dthen dString (\<lambda>v. dret (at\<lparr>Attr_Owner := v\<rparr>))
      else if i = A_owner_group then dthen dString (\<lambda>v. dret (at\<lparr>Attr_OwnerGroup := v\<rparr>))
      else if i = A_rawdev then dthen dec_Specdata4 (\<lambda>v. dret (at\<lparr>Attr_Rawdev := Some v\<rparr>))
      else if i = A_space_used then dthen dUint64 (\<lambda>v. dret (at\<lparr>Attr_SpaceUsed := v\<rparr>))
      else if i = A_time_access then dthen dec_NfsTime4 (\<lambda>v. dret (at\<lparr>Attr_TimeAccess := Some v\<rparr>))
      else if i = A_time_metadata then dthen dec_NfsTime4 (\<lambda>v. dret (at\<lparr>Attr_TimeMetadata := Some v\<rparr>))
      else if i = A_time_modify then dthen dec_NfsTime4 (\<lambda>v. dret (at\<lparr>Attr_TimeModify := Some v\<rparr>))
      else if i = A_time_modify_set then
        dthen dBool (\<lambda>set_it.
          if set_it then dthen dec_time_ptr (\<lambda>v. dret (at\<lparr>Attr_TimeModify := Some v\<rparr>))
          else dret (at\<lparr>Attr_TimeModify := Some (attr_time now)\<rparr>))
      else if i = A_mounted_on_fileid then dthen dUint64 (\<lambda>v. dret (at\<lparr>Attr_MountedOnFileID := v\<rparr>))
      else if i = A_suppattr_exclcreat then dthen dUint32s (\<lambda>v. dret (at\<lparr>Attr_SuppAttrExclCreat := v\<rparr>))
      else if i = A_xattr_support then dthen dBool (\<lambda>v. dret (at\<lparr>Attr_XAttrSupport := v\<rparr>))
      else if i = A_aclsupport then dthen dBool (\<lambda>v. dret (at\<lparr>Attr_ACLSupport := v\<rparr>))
      else if i = A_acl then
        dthen (dSlice (dreflect dec_NfsAce4)) (\<lambda>v. dret (at\<lparr>Attr_ACL := v\<rparr>))
      else if i = A_posix_default_acl then
        dthen (dSlice (dreflect dec_NfsPosixAce4)) (\<lambda>v. dret (at\<lparr>Attr_PosixDefaultACL := v\<rparr>))
      else if i = A_posix_access_acl then
        dthen (dSlice (dreflect dec_NfsPosixAce4)) (\<lambda>v. dret (at\<lparr>Attr_PosixACL := v\<rparr>))
      else dret at)"

definition dec_attr :: "time \<Rightarrow> nat \<Rightarrow> Attr \<Rightarrow> Attr xdec" where
  "dec_attr now i at =
     (if i = A_supported_attrs then dthen dUint32s (\<lambda>v. dret (at\<lparr>Attr_SupportedAttrs := v\<rparr>))
      else if i = A_type then dthen dUint32 (\<lambda>v. dret (at\<lparr>Attr_Type := v\<rparr>))
      else if i = A_fh_expire_type then dthen dUint32 (\<lambda>v. dret (at\<lparr>Attr_FhExpireType := v\<rparr>))
      else if i = A_change then dthen dUint64 (\<lambda>v. dret (at\<lparr>Attr_Change := v\<rparr>))
      else if i = A_size then dthen dUint64 (\<lambda>v. dret (at\<lparr>Attr_Size := Some v\<rparr>))
      else if i = A_link_support then dthen dBool (\<lambda>v. dret (at\<lparr>Attr_LinkSupport := v\<rparr>))
      else if i = A_symlink_support then dthen dBool (\<lambda>v. dret (at\<lparr>Attr_SymlinkSupport := v\<rparr>))
      else if i = A_named_attr then dthen dBool (\<lambda>v. dret (at\<lparr>Attr_NamedAttr := v\<rparr>))
      else if i = A_fsid then dthen dec_Fsid4 (\<lambda>v. dret (at\<lparr>Attr_Fsid := Some v\<rparr>))
      else if i = A_unique_handles then dthen dBool (\<lambda>v. dret (at\<lparr>Attr_UniqueHandles := v\<rparr>))
      else if i = A_lease_time then dthen dUint32 (\<lambda>v. dret (at\<lparr>Attr_LeaseTime := v\<rparr>))
      else if i = A_rdattr_error then dthen dUint32 (\<lambda>v. dret (at\<lparr>Attr_RdattrError := v\<rparr>))
      else if i = A_filehandle then dthen dBytes (\<lambda>v. dret (at\<lparr>Attr_FileHandle := v\<rparr>))
      else if i = A_fileid then dthen dUint64 (\<lambda>v. dret (at\<lparr>Attr_FileID := v\<rparr>))
      else if i = A_mode then dthen dUint32 (\<lambda>v. dret (at\<lparr>Attr_Mode := Some v\<rparr>))
      else if i = A_numlinks then dthen dUint32 (\<lambda>v. dret (at\<lparr>Attr_NumLinks := v\<rparr>))
      else dec_attr_more now i at)"

fun dec_attrs_loop :: "time \<Rightarrow> attrset \<Rightarrow> nat list \<Rightarrow> Attr \<Rightarrow> Attr xdec" where
  "dec_attrs_loop now idx [] at = dret at"
| "dec_attrs_loop now idx (i # is) at =
     (if mget idx i = Some True then dthen (dec_attr now i at) (dec_attrs_loop now idx is)
      else dec_attrs_loop now idx is at)"

definition decodeFAttrs4 :: "time \<Rightarrow> FAttr4 \<Rightarrow> go_error + Attr" where
  "decodeFAttrs4 now attr =
     (let idx = bitmap4Decode (FAttr4_Mask attr);
          maxID = max_key (filter snd idx)
      in case dec_attrs_loop now idx [0..<Suc maxID] zero_Attr (FAttr4_Vals attr) of
           Inl e \<Rightarrow> Inl (go_of_xerr e)
         | Inr (at, _) \<Rightarrow> Inr at)"

section \<open>The encoder loop\<close>

lemma wf_map_bitmap4Decode: "wf_map (bitmap4Decode nums)"
proof -
  have keys: "map fst (decode_word i v) = map (\<lambda>j. 32 * i + j) (rev [0..<32])" for i v
    by (simp only: decode_word_eq map_map comp_def fst_conv)
  have "distinct (map fst (concat (map (\<lambda>(i, v). decode_word i v) (List.enumerate k ns))))" for k ns
  proof (induction ns arbitrary: k)
    case (Cons v ns)
    let ?rest = "map fst (concat (map (\<lambda>(i, v). decode_word i v) (List.enumerate (Suc k) ns)))"
    have "i div 32 = k" if "i \<in> set (map fst (decode_word k v))" for i
      using that by (auto simp: decode_word_mem)
    moreover have "k < i div 32" if "i \<in> set ?rest" for i
      using that by (auto simp: decode_word_mem in_set_enumerate_eq)
    ultimately have "set (map fst (decode_word k v)) \<inter> set ?rest = {}" by fastforce
    moreover have "distinct (map fst (decode_word k v))"
      unfolding keys by (simp add: distinct_map inj_on_def del: upt_Suc)
    ultimately show ?case
      using Cons [of "Suc k"] by (simp only: enumerate_simps list.map concat.simps case_prod_conv
          map_append distinct_append)
  qed simp
  then show ?thesis by (simp add: wf_map_def bitmap4Decode_def)
qed

lemma mget_bitmap4Decode:
  "mget (bitmap4Decode nums) a =
     (if a div 32 < length nums then Some (bit (nums ! (a div 32)) (a mod 32)) else None)"
proof -
  have "mget (bitmap4Decode nums) a = Some on \<longleftrightarrow>
      a div 32 < length nums \<and> on = bit (nums ! (a div 32)) (a mod 32)" for on
    using mget_in_set [OF wf_map_bitmap4Decode] bitmap4Decode_mem by blast
  then show ?thesis by (cases "mget (bitmap4Decode nums) a") auto
qed

lemma idx_of_keys: "mget (idx_of as) a = (if a \<in> set as then Some True else None)"
proof -
  have "mget (fold (\<lambda>a m. mput a True m) as m) a = (if a \<in> set as then Some True else mget m a)" for m
    by (induction as arbitrary: m) auto
  then show ?thesis by (simp add: idx_of_def)
qed

lemma supported_bitmap:
  "bitmap4Encode (idx_of AttrsSupported) = Inr [0xE01F3FFF, 0xB0A23E, 0x40800]"
proof -
  have "replicate 3 (0 :: u32) = [0, 0, 0]" by (simp add: numeral_3_eq_3)
  then show ?thesis by (simp add: bitmap4Encode_def idx_of_def AttrsSupported_def max_key_def)
qed

lemma attr_value_ok: "\<exists>v. attr_value fh fi err creds sid a = Inr v"
  by (simp add: attr_value_def attr_value_more_def supported_bitmap)

lemma attrs_loop_spec:
  assumes "\<And>a. \<exists>v. value a = Inr v"
  shows "attrs_loop value request support as ret out =
    Inr (fold (\<lambda>a. mput a True) (filter (\<lambda>a. mget request a = Some True \<and> mget support a = Some True) as) ret,
         out @ concat (map (\<lambda>a. fst (projr (value a)))
                 (filter (\<lambda>a. mget request a = Some True \<and> mget support a = Some True) as)))"
proof (induction as arbitrary: ret out)
  case (Cons a as)
  obtain v where "value a = Inr v" using assms by blast
  with Cons show ?case by simp
qed simp

lemma fold_mput_True:
  "set as \<subseteq> fst ` set m \<Longrightarrow> wf_map m \<Longrightarrow>
     fst ` set (fold (\<lambda>a. mput a True) as m) = fst ` set m \<and> wf_map (fold (\<lambda>a. mput a True) as m) \<and>
     (\<forall>b. mget (fold (\<lambda>a. mput a True) as m) b = (if b \<in> set as then Some True else mget m b))"
proof (induction as arbitrary: m)
  case (Cons a as)
  have keys: "fst ` set (mput a True m) = fst ` set m"
    using Cons.prems dom_update [of a True m] by (auto simp: dom_map_of_conv_image_fst)
  show ?case using Cons.IH [of "mput a True m"] Cons.prems keys by auto
qed simp

text \<open>The attributes that are answered, in the order they are written.\<close>

definition answered :: "u32 list \<Rightarrow> nat list" where
  "answered nums =
     filter (\<lambda>a. a div 32 < length nums \<and> bit (nums ! (a div 32)) (a mod 32) \<and> a \<in> set AttrsSupported)
       [0..<32 * length nums]"

lemma fileInfoToAttrs_spec:
  "\<exists>mask. fileInfoToAttrs fh fi err (Some (bitmap4Decode nums)) creds sid =
      Inr \<lparr>FAttr4_Mask = mask,
           FAttr4_Vals = concat (map (\<lambda>a. fst (projr (attr_value fh fi err creds sid a))) (answered nums))\<rparr> \<and>
    length mask = length nums \<and>
    (\<forall>a. a div 32 < length nums \<longrightarrow> bit (mask ! (a div 32)) (a mod 32) = (a \<in> set (answered nums)))"
proof -
  let ?r = "bitmap4Decode nums" and ?v = "attr_value fh fi err creds sid"
  let ?sel = "\<lambda>a. mget ?r a = Some True \<and> mget (idx_of AttrsSupported) a = Some True"
  let ?init = "map (\<lambda>(a, _ :: bool). (a, False)) ?r"
  have range: "filter ?sel [0..<Suc (max_key ?r)] = answered nums"
  proof (cases "nums = []")
    case True
    then show ?thesis by (simp add: answered_def bitmap4Decode_def max_key_def)
  next
    case False
    then have "Suc (max_key ?r) = 32 * length nums" by (simp add: max_key_decode)
    then show ?thesis
      unfolding answered_def by (auto simp: mget_bitmap4Decode idx_of_keys intro!: filter_cong)
  qed
  have keys: "fst ` set ?init = fst ` set ?r" by force
  have wf: "wf_map ?init"
    using wf_map_bitmap4Decode [of nums] by (simp add: wf_map_def comp_def case_prod_beta)
  have sub: "set (answered nums) \<subseteq> fst ` set ?init"
    unfolding keys by (auto simp: answered_def intro!: image_eqI [of _ fst "(_, True)"]
        bitmap4Decode_mem [THEN iffD2])
  have init: "mget ?init a \<noteq> Some True" for a
    using mget_in_set [OF wf, of a True] by auto
  let ?ret = "fold (\<lambda>a. mput a True) (answered nums) ?init"
  note ret = fold_mput_True [OF sub wf]
  obtain mask where mask: "bitmap4Encode ?ret = Inr mask" "length mask = length nums"
      "\<And>a. a div 32 < length nums \<Longrightarrow> bit (mask ! (a div 32)) (a mod 32) = (mget ?ret a = Some True)"
    using bitmap4Encode_same_keys [of ?ret nums] ret keys by auto
  have loop: "attrs_loop ?v ?r (idx_of AttrsSupported) [0..<Suc (max_key ?r)] ?init [] =
      Inr (?ret, concat (map (\<lambda>a. fst (projr (?v a))) (answered nums)))"
    using attrs_loop_spec [of ?v ?r "idx_of AttrsSupported" "[0..<Suc (max_key ?r)]" ?init "[]"]
      attr_value_ok range by (simp del: upt_Suc)
  show ?thesis
    using mask ret init by (intro exI [of _ mask])
      (simp add: fileInfoToAttrs_def loop Let_def del: upt_Suc)
qed

section \<open>Round trip\<close>

text \<open>The supported attributes the decoder knows. It skips the others without consuming their bytes.\<close>

definition decodable :: "nat list" where
  "decodable = [A_supported_attrs, A_type, A_fh_expire_type, A_change, A_size, A_link_support,
     A_symlink_support, A_named_attr, A_fsid, A_unique_handles, A_lease_time, A_rdattr_error, A_acl,
     A_aclsupport, A_filehandle, A_fileid, A_mode, A_numlinks, A_owner, A_owner_group, A_rawdev,
     A_space_used, A_time_access, A_time_metadata, A_time_modify, A_mounted_on_fileid,
     A_suppattr_exclcreat, A_xattr_support]"

lemma dBool_u32 [simp]: "dBool (fst (eUint32 v) @ rest) = Inr (v \<noteq> 0, rest)"
  by (simp add: dBool_def dthen_def dret_def)

interpretation ace_reflect: xdr_slice enc_NfsAce4 "dreflect dec_NfsAce4" ok_NfsAce4
  by unfold_locales (auto simp: dreflect_def intro: framed_dreflect NfsAce4C.dec_framed)

lemma dec_attr_acl:
  "dSlice (dreflect dec_NfsAce4) (fst (eSlice enc_NfsAce4 attr_acl) @ rest) = Inr (attr_acl, rest)"
  by (rule ace_reflect.dSlice_enc) (simp_all add: attr_acl_def ok_NfsAce4_def)

lemma length_show_nat: "length (show_nat n) \<le> Suc (n div 10)"
proof (induction n rule: show_nat.induct)
  case (1 n)
  then show ?case by (cases "n < 10") (auto simp: show_nat.simps [of n])
qed

lemma show_nat_fits32 [simp]: "length (show_nat (unat (n :: u32))) < 4294967296"
proof -
  have "unat n < 2 ^ 32" using unsigned_less [of n, where ?'a = nat] by simp
  then show ?thesis using length_show_nat [of "unat n"] by simp
qed

text \<open>What a reader learns of the file from attribute \<open>a\<close>: the field of the record, and its value.\<close>

definition describe :: "bytes \<Rightarrow> FileInfo \<Rightarrow> go_error option \<Rightarrow> Creds \<Rightarrow> u64 \<Rightarrow> nat \<Rightarrow> Attr \<Rightarrow> Attr" where
  "describe fh fi err creds sid a at =
     (if a = A_supported_attrs then at\<lparr>Attr_SupportedAttrs := [0xE01F3FFF, 0xB0A23E, 0x40800]\<rparr>
      else if a = A_type then at\<lparr>Attr_Type := attr_type fi\<rparr>
      else if a = A_fh_expire_type then at\<lparr>Attr_FhExpireType := FH4_VOLATILE_ANY OR FH4_NOEXPIRE_WITH_OPEN\<rparr>
      else if a = A_change then at\<lparr>Attr_Change := attr_change fi creds sid\<rparr>
      else if a = A_size then at\<lparr>Attr_Size := Some (fi_Size fi)\<rparr>
      else if a = A_link_support then at\<lparr>Attr_LinkSupport := True\<rparr>
      else if a = A_symlink_support then at\<lparr>Attr_SymlinkSupport := True\<rparr>
      else if a = A_named_attr then at\<lparr>Attr_NamedAttr := False\<rparr>
      else if a = A_fsid then at\<lparr>Attr_Fsid := Some \<lparr>Fsid4_Major = 1, Fsid4_Minor = 1\<rparr>\<rparr>
      else if a = A_unique_handles then at\<lparr>Attr_UniqueHandles := False\<rparr>
      else if a = A_lease_time then at\<lparr>Attr_LeaseTime := 300\<rparr>
      else if a = A_rdattr_error then at\<lparr>Attr_RdattrError := Err2Status err\<rparr>
      else if a = A_acl then at\<lparr>Attr_ACL := attr_acl\<rparr>
      else if a = A_aclsupport then at\<lparr>Attr_ACLSupport := True\<rparr>
      else if a = A_filehandle then at\<lparr>Attr_FileHandle := fh\<rparr>
      else if a = A_fileid then at\<lparr>Attr_FileID := fileid_of fh\<rparr>
      else if a = A_mode then at\<lparr>Attr_Mode := Some (fi_Mode fi AND 0x1FF)\<rparr>
      else if a = A_numlinks then at\<lparr>Attr_NumLinks := (if ucast (fi_NumLinks fi) = (0 :: u32) then 1 else ucast (fi_NumLinks fi))\<rparr>
      else if a = A_owner then at\<lparr>Attr_Owner := show_nat (unat (fi_Uid fi))\<rparr>
      else if a = A_owner_group then at\<lparr>Attr_OwnerGroup := show_nat (unat (fi_Gid fi))\<rparr>
      else if a = A_rawdev then at\<lparr>Attr_Rawdev := Some zero_Specdata4\<rparr>
      else if a = A_space_used then at\<lparr>Attr_SpaceUsed := 4096 + fi_Size fi\<rparr>
      else if a = A_time_access then at\<lparr>Attr_TimeAccess := Some (attr_time (fi_ModTime fi))\<rparr>
      else if a = A_time_metadata then at\<lparr>Attr_TimeMetadata := Some (attr_time (fi_ModTime fi))\<rparr>
      else if a = A_time_modify then at\<lparr>Attr_TimeModify := Some (attr_time (fi_ModTime fi))\<rparr>
      else if a = A_mounted_on_fileid then at\<lparr>Attr_MountedOnFileID := fileid_of fh\<rparr>
      else if a = A_suppattr_exclcreat then at\<lparr>Attr_SuppAttrExclCreat := [0xE01F3FFF, 0xB0A23E, 0x40800]\<rparr>
      else if a = A_xattr_support then at\<lparr>Attr_XAttrSupport := True\<rparr>
      else at)"

lemma dec_attr_value:
  assumes "a \<in> set decodable" and "fits32 fh"
  shows "dec_attr now a at (fst (projr (attr_value fh fi err creds sid a)) @ rest) = Inr (describe fh fi err creds sid a at, rest)"
  using assms(1) unfolding decodable_def list.set insert_iff empty_iff
  by (elim disjE; use assms(2) in \<open>simp add: dec_attr_def dec_attr_more_def attr_value_def attr_value_more_def describe_def dthen_def
      dret_def supported_bitmap dec_attr_acl Let_def\<close>)

lemma dec_attrs_loop_value:
  assumes "set (filter (\<lambda>i. mget idx i = Some True) is) \<subseteq> set decodable" and "fits32 fh"
  shows "dec_attrs_loop now idx is at
      (concat (map (\<lambda>a. fst (projr (attr_value fh fi err creds sid a)))
        (filter (\<lambda>i. mget idx i = Some True) is)) @ rest) =
    Inr (fold (describe fh fi err creds sid) (filter (\<lambda>i. mget idx i = Some True) is) at, rest)"
  using assms(1)
proof (induction "is" arbitrary: at)
  case (Cons i "is")
  show ?case
  proof (cases "mget idx i = Some True")
    case True
    then have "i \<in> set decodable" using Cons.prems by simp
    then show ?thesis
      using Cons.IH Cons.prems True dec_attr_value [OF _ assms(2)] by (simp add: dthen_def)
  qed (use Cons in simp)
qed (simp add: dret_def)

lemma filter_upt_max:
  assumes "\<And>a. P a \<Longrightarrow> a < m" and "\<And>a. P a \<Longrightarrow> a < n"
  shows "filter P [0..<m] = filter P [0..<n]"
  by (rule sorted_distinct_set_unique) (use assms in \<open>auto simp: sorted_wrt_filter\<close>)

lemma decode_answered:
  assumes "set (answered nums) \<subseteq> set decodable" and "fits32 fh"
    and "fileInfoToAttrs fh fi err (Some (bitmap4Decode nums)) creds sid = Inr f"
  shows "decodeFAttrs4 now f = Inr (fold (describe fh fi err creds sid) (answered nums) zero_Attr)"
proof -
  let ?idx = "bitmap4Decode (FAttr4_Mask f)"
  let ?on = "\<lambda>i. mget ?idx i = Some True"
  let ?m = "Suc (max_key (filter snd ?idx))"
  obtain mask where f: "f = \<lparr>FAttr4_Mask = mask,
        FAttr4_Vals = concat (map (\<lambda>a. fst (projr (attr_value fh fi err creds sid a))) (answered nums))\<rparr>"
      and mask: "length mask = length nums"
      "\<And>a. a div 32 < length nums \<Longrightarrow> bit (mask ! (a div 32)) (a mod 32) = (a \<in> set (answered nums))"
    using fileInfoToAttrs_spec [of fh fi err nums creds sid] assms(3) by auto
  have lt: "a div 32 < length nums" if "a \<in> set (answered nums)" for a
    using that by (auto simp: answered_def)
  have on: "?on a \<longleftrightarrow> a \<in> set (answered nums)" for a
    using mask lt [of a] by (auto simp: mget_bitmap4Decode f)
  have "a < ?m" if "?on a" for a
    using that mget_in_set [OF wf_map_bitmap4Decode, of a True "FAttr4_Mask f"]
      max_key_ge [of a True "filter snd ?idx"] by simp
  moreover have "a < 32 * length nums" if "?on a" for a
    using lt [of a] that on by (auto simp: div_less_iff_less_mult mult.commute)
  ultimately have "filter ?on [0..<?m] = filter ?on [0..<32 * length nums]" by (rule filter_upt_max)
  also have "\<dots> = answered nums"
    unfolding on using lt by (auto simp: answered_def intro!: filter_cong)
  finally have list: "filter ?on [0..<?m] = answered nums" .
  show ?thesis
    using dec_attrs_loop_value [of ?idx "[0..<?m]" fh now zero_Attr fi err creds sid "[]"] assms(1,2)
    unfolding list by (simp add: decodeFAttrs4_def Let_def f del: upt_Suc)
qed

text \<open>An attribute is described by its own field.\<close>

lemma describe_fields:
  "Attr_Size (describe fh fi err creds sid a at) = (if a = A_size then Some (fi_Size fi) else Attr_Size at)"
  "Attr_Mode (describe fh fi err creds sid a at) = (if a = A_mode then Some (fi_Mode fi AND 0x1FF) else Attr_Mode at)"
  "Attr_Owner (describe fh fi err creds sid a at) = (if a = A_owner then show_nat (unat (fi_Uid fi)) else Attr_Owner at)"
  "Attr_OwnerGroup (describe fh fi err creds sid a at) = (if a = A_owner_group then show_nat (unat (fi_Gid fi)) else Attr_OwnerGroup at)"
  by (simp_all add: describe_def)

lemma described:
  assumes "\<And>a at. g (d a at) = (if a = k then v else g at)"
  shows "g (fold d as at) = (if k \<in> set as then v else g at)"
proof (induction as arbitrary: at)
  case (Cons a as)
  then show ?case using assms by simp
qed simp

lemmas fields_described = describe_fields [THEN described]

section \<open>The wire format of attributes\<close>

text \<open>The types of the attributes in the protocol, and which bytes are a value of a type.\<close>

datatype attr_wire = W_bool | W_u32 | W_u64 | W_opaque | W_bitmap | W_fsid | W_specdata | W_time | W_acl

definition attr_wire_of :: "nat \<Rightarrow> attr_wire" where
  "attr_wire_of a =
     (if a \<in> {A_supported_attrs, A_suppattr_exclcreat} then W_bitmap
      else if a \<in> {A_link_support, A_symlink_support, A_named_attr, A_unique_handles, A_case_insensitive, A_case_preserving,
        A_chown_restricted, A_no_trunc, A_xattr_support} then W_bool
      else if a \<in> {A_change, A_size, A_fileid, A_maxread, A_maxwrite, A_space_used, A_mounted_on_fileid} then W_u64
      else if a \<in> {A_filehandle, A_owner, A_owner_group} then W_opaque
      else if a = A_fsid then W_fsid
      else if a = A_rawdev then W_specdata
      else if a \<in> {A_time_access, A_time_metadata, A_time_modify} then W_time
      else if a = A_acl then W_acl
      else W_u32)"

definition opaque_bytes :: "bytes \<Rightarrow> bytes" where
  "opaque_bytes b = put_u32 (of_nat (length b)) @ b @ replicate (Pad (length b)) 0"

fun wire_ok :: "attr_wire \<Rightarrow> bytes \<Rightarrow> bool" where
  "wire_ok W_bool v \<longleftrightarrow> v = put_u32 0 \<or> v = put_u32 1"
| "wire_ok W_u32 v \<longleftrightarrow> length v = 4"
| "wire_ok W_u64 v \<longleftrightarrow> length v = 8"
| "wire_ok W_opaque v \<longleftrightarrow> (\<exists>b. fits32 b \<and> v = opaque_bytes b)"
| "wire_ok W_bitmap v \<longleftrightarrow> (\<exists>ws. fits32 ws \<and> v = put_u32 (of_nat (length ws)) @ concat (map put_u32 ws))"
| "wire_ok W_fsid v \<longleftrightarrow> length v = 16"
| "wire_ok W_specdata v \<longleftrightarrow> length v = 8"
| "wire_ok W_time v \<longleftrightarrow> length v = 12"
| "wire_ok W_acl v \<longleftrightarrow> (\<exists>aces. fits32 aces \<and> (\<forall>(t, fl, am, who) \<in> set aces. fits32 who) \<and>
     v = put_u32 (of_nat (length aces)) @
       concat (map (\<lambda>(t, fl, am, who). put_u32 t @ put_u32 fl @ put_u32 am @ opaque_bytes who) aces))"

lemma eString_opaque: "fst (eString v) = opaque_bytes (bytes_of_string v)" "fst (eBytes b) = opaque_bytes b"
  by (simp_all add: eString_def eBytes_def opaque_bytes_def)

lemma attr_acl_wire: "wire_ok W_acl (fst (eSlice enc_NfsAce4 attr_acl))"
proof -
  let ?aces = "map (\<lambda>x. (NfsAce4_Type x, NfsAce4_Flag x, NfsAce4_AccessMask x, bytes_of_string (NfsAce4_Who x))) attr_acl"
  have "fst (eSlice enc_NfsAce4 attr_acl) = put_u32 (of_nat (length ?aces)) @
      concat (map (\<lambda>(t, fl, am, who). put_u32 t @ put_u32 fl @ put_u32 am @ opaque_bytes who) ?aces)"
    by code_simp
  then show ?thesis unfolding wire_ok.simps by (intro exI [of _ ?aces]) (simp add: attr_acl_def)
qed

lemma attr_value_wire:
  assumes "a \<in> set AttrsSupported" and "fits32 fh"
  shows "wire_ok (attr_wire_of a) (fst (projr (attr_value fh fi err creds sid a)))"
proof -
  have words: "fst (eUint32s ws) = put_u32 (of_nat (length ws)) @ concat (map put_u32 ws)" for ws
    using u32c.EncodeAll_map [of ws] by (simp add: eUint32s_def eSlice_def list_all_iff eUint32_def comp_def)
  have bm: "wire_ok W_bitmap (fst (eUint32s [0xE01F3FFF, 0xB0A23E, 0x40800]))"
    unfolding words wire_ok.simps by (intro exI [of _ "[0xE01F3FFF, 0xB0A23E, 0x40800]"]) simp
  have op: "wire_ok W_opaque (opaque_bytes b)" if "fits32 b" for b using that by auto
  show ?thesis
    using assms(1) unfolding AttrsSupported_def list.set insert_iff empty_iff
    by (elim disjE; use assms(2) op bm attr_acl_wire in \<open>simp add: attr_value_def attr_value_more_def attr_wire_of_def supported_bitmap
      eString_opaque eBool_def eUint32_def eUint64_def enc_Fsid4_def enc_Specdata4_def enc_NfsTime4_def del: wire_ok.simps(4,5,9)\<close>)
qed


section \<open>Properties\<close>

text \<open>C33: \<^verbatim>\<open>GETATTR\<close> and \<^verbatim>\<open>READDIR\<close> never panic on a client's bitmap, and answer exactly the attributes that
  are both asked for and supported, in a mask as long as the request's. The values after the mask are one for each attribute of
  the mask, in ascending order of their numbers, each with the bytes of its type in the protocol, if the file handle is shorter
  than 4 GiB.\<close>

theorem attrs_mask_exact:
  "\<exists>f vs. fileInfoToAttrs fh fi err (Some (bitmap4Decode nums)) creds sid = Inr f \<and>
     length (FAttr4_Mask f) = length nums \<and>
     {a. (a, True) \<in> set (bitmap4Decode (FAttr4_Mask f))} =
       {a. (a, True) \<in> set (bitmap4Decode nums)} \<inter> set AttrsSupported \<and>
     FAttr4_Vals f = concat vs \<and>
     (fits32 fh \<longrightarrow> list_all2 (\<lambda>a v. wire_ok (attr_wire_of a) v)
        (filter (\<lambda>a. (a, True) \<in> set (bitmap4Decode (FAttr4_Mask f))) [0..<32 * length nums]) vs)"
proof -
  let ?v = "\<lambda>a. fst (projr (attr_value fh fi err creds sid a))"
  obtain f where f: "fileInfoToAttrs fh fi err (Some (bitmap4Decode nums)) creds sid = Inr f"
      and len: "length (FAttr4_Mask f) = length nums" and vals: "FAttr4_Vals f = concat (map ?v (answered nums))"
      and bits: "\<And>a. a div 32 < length nums \<Longrightarrow>
        bit (FAttr4_Mask f ! (a div 32)) (a mod 32) = (a \<in> set (answered nums))"
    using fileInfoToAttrs_spec [of fh fi err nums creds sid] by force
  have lt: "a < length nums * 32" if "a div 32 < length nums" for a
    using that by (simp add: div_less_iff_less_mult)
  then have on: "(a, True) \<in> set (bitmap4Decode (FAttr4_Mask f)) \<longleftrightarrow> a \<in> set (answered nums)" for a
    using bits len by (auto simp: bitmap4Decode_mem answered_def)
  have "filter (\<lambda>a. (a, True) \<in> set (bitmap4Decode (FAttr4_Mask f))) [0..<32 * length nums] = answered nums"
    unfolding on using lt by (auto simp: answered_def intro!: filter_cong)
  moreover have "list_all2 (\<lambda>a v. wire_ok (attr_wire_of a) v) (answered nums) (map ?v (answered nums))" if "fits32 fh"
    unfolding list_all2_map2 using attr_value_wire that by (auto simp: list_all2_same answered_def)
  moreover have "{a. (a, True) \<in> set (bitmap4Decode (FAttr4_Mask f))} =
       {a. (a, True) \<in> set (bitmap4Decode nums)} \<inter> set AttrsSupported"
    unfolding on using lt by (auto simp: bitmap4Decode_mem answered_def mult.commute)
  ultimately show ?thesis using f len vals by (intro exI [of _ f] exI [of _ "map ?v (answered nums)"]) simp
qed

text \<open>Size and mode.\<close>

theorem attrs_mask_exact_witness:
  "\<exists>f v w. fileInfoToAttrs [1, 2] (demo_info ''/f'' [7]) None (Some (bitmap4Decode [0x10, 0x2])) demo_creds 9 = Inr f \<and>
     FAttr4_Vals f = v @ w \<and> length v = 8 \<and> length w = 4"
proof -
  obtain f vs where f: "fileInfoToAttrs [1, 2] (demo_info ''/f'' [7]) None (Some (bitmap4Decode [0x10, 0x2])) demo_creds 9 = Inr f"
      "{a. (a, True) \<in> set (bitmap4Decode (FAttr4_Mask f))} = {a. (a, True) \<in> set (bitmap4Decode [0x10, 0x2])} \<inter> set AttrsSupported"
      "FAttr4_Vals f = concat vs"
      "list_all2 (\<lambda>a v. wire_ok (attr_wire_of a) v) (filter (\<lambda>a. (a, True) \<in> set (bitmap4Decode (FAttr4_Mask f))) [0..<64]) vs"
    using attrs_mask_exact [of "[1, 2]" "demo_info ''/f'' [7]" None "[0x10, 0x2]" demo_creds 9] by auto
  have "set (filter (\<lambda>a. (a, True) \<in> set (bitmap4Decode [0x10, 0x2])) AttrsSupported) = {4, 33}" by code_simp
  then have "(a, True) \<in> set (bitmap4Decode (FAttr4_Mask f)) \<longleftrightarrow> a = 4 \<or> a = 33" for a using f(2) by auto
  then have "filter (\<lambda>a. (a, True) \<in> set (bitmap4Decode (FAttr4_Mask f))) [0..<64] = [4, 33]" by (simp add: upt_rec)
  then obtain v w where "vs = [v, w]" "wire_ok (attr_wire_of 4) v" "wire_ok (attr_wire_of 33) w"
    using f(4) by (auto simp: list_all2_Cons1)
  then show ?thesis using f(1,3) by (auto simp: attr_wire_of_def)
qed

text \<open>C34: The attributes the server sends are read back by its own decoder, if all the attributes answered are among those the
  decoder knows (it skips the others without consuming their bytes) and the file handle is shorter than 4 GiB: the record it
  returns has, for each attribute answered, the value of the file in the field of that attribute, and nothing else. The
  size, mode, owner and group are those of the file, for those that were asked for.\<close>

theorem attrs_roundtrip:
  assumes "set (answered nums) \<subseteq> set decodable" and "fits32 fh"
    and "fileInfoToAttrs fh fi err (Some (bitmap4Decode nums)) creds sid = Inr f"
  shows "\<exists>at. decodeFAttrs4 now f = Inr at \<and> at = fold (describe fh fi err creds sid) (answered nums) zero_Attr \<and>
    Attr_Size at = (if A_size \<in> set (answered nums) then Some (fi_Size fi) else None) \<and>
    Attr_Mode at = (if A_mode \<in> set (answered nums) then Some (fi_Mode fi AND 0x1FF) else None) \<and>
    Attr_Owner at = (if A_owner \<in> set (answered nums) then show_nat (unat (fi_Uid fi)) else []) \<and>
    Attr_OwnerGroup at = (if A_owner_group \<in> set (answered nums) then show_nat (unat (fi_Gid fi)) else [])"
  using decode_answered [OF assms, of now] by (simp add: fields_described) (simp add: zero_Attr_def)

lemma set_answered:
  "set (answered nums) =
     set (filter (\<lambda>a. a div 32 < length nums \<and> bit (nums ! (a div 32)) (a mod 32)) AttrsSupported)"
  by (auto simp: answered_def div_less_iff_less_mult mult.commute)

lemma answered_demo: "set (answered [0x10, 0x2]) = {4, 33}"
  unfolding set_answered by (simp add: AttrsSupported_def)

text \<open>At size and mode, the request \<^verbatim>\<open>[16, 2]\<close>.\<close>

theorem attrs_roundtrip_witness:
  "\<exists>f at. fileInfoToAttrs [1, 2] (demo_info ''/f'' [7]) None (Some (bitmap4Decode [0x10, 0x2])) demo_creds 9 = Inr f \<and>
     decodeFAttrs4 0 f = Inr at \<and> Attr_Size at = Some 1 \<and> Attr_Mode at = Some 0x1A4"
proof -
  obtain f where f: "fileInfoToAttrs [1, 2] (demo_info ''/f'' [7]) None (Some (bitmap4Decode [0x10, 0x2])) demo_creds 9 = Inr f"
    using fileInfoToAttrs_spec [of "[1, 2]" "demo_info ''/f'' [7]" None "[0x10, 0x2]" demo_creds 9] by auto
  have "set (answered [0x10, 0x2]) \<subseteq> set decodable" by (simp add: answered_demo decodable_def)
  from attrs_roundtrip [OF this _ f, of 0] obtain at where "decodeFAttrs4 0 f = Inr at"
      "Attr_Size at = Some 1" "Attr_Mode at = Some 0x1A4"
    by (auto simp: answered_demo demo_info_def)
  with f show ?thesis by blast
qed

end
