(* ===== verification/Worker.thy ===== *)
theory Worker
  imports Attrs
begin

text \<open>
  The worker (\<^verbatim>\<open>worker/\<close>): one loaded file system for one user of one session, with its handle cache
  (\<^verbatim>\<open>cache.go\<close>), its open files (\<^verbatim>\<open>file.go\<close>), its directory listers (\<^verbatim>\<open>lister.go\<close>) and its life cycle
  (\<^verbatim>\<open>worker.go\<close>). A worker is a record; every method that takes the worker's lock is a function of it.
  \<^verbatim>\<open>go w.cleanup()\<close> starts a goroutine: the model counts the clean-ups started and not yet run in
  \<open>Worker_pending\<close>, and running one is a step of its own.
\<close>

section \<open>The handle cache\<close>

record CacheEntry =
  Entry_Path :: string
  Entry_FileInfo :: FileInfo

type_synonym Cache = "(bytes, time \<times> CacheEntry) gomap"

abbreviation (input) DefaultTimeout :: time where "DefaultTimeout \<equiv> 30 * Second"

definition Cache_Get :: "time \<Rightarrow> bytes \<Rightarrow> Cache \<Rightarrow> CacheEntry option" where
  "Cache_Get now handle c =
     (case mget c handle of
        None \<Rightarrow> None
      | Some (t, entry) \<Rightarrow> if Clock_Since now t > DefaultTimeout then None else Some entry)"

definition Cache_Put :: "time \<Rightarrow> bytes \<Rightarrow> CacheEntry \<Rightarrow> Cache \<Rightarrow> Cache" where
  "Cache_Put now handle entry c = mput handle (now, entry) c"

definition Cache_Invalidate :: "bytes \<Rightarrow> Cache \<Rightarrow> Cache" where
  "Cache_Invalidate handle c = mdel handle c"

text \<open>One round of the collector.\<close>

definition Cache_gc :: "time \<Rightarrow> Cache \<Rightarrow> Cache" where
  "Cache_gc now c = filter (\<lambda>(_, t, _). \<not> Clock_Since now t > DefaultTimeout) c"

text \<open>The interface the handlers rely on: what a lookup returns after each of the other calls.\<close>

locale handle_cache =
  fixes get :: "time \<Rightarrow> 'h \<Rightarrow> 'c \<Rightarrow> 'e option"
    and put :: "time \<Rightarrow> 'h \<Rightarrow> 'e \<Rightarrow> 'c \<Rightarrow> 'c"
    and invalidate :: "'h \<Rightarrow> 'c \<Rightarrow> 'c"
    and collect :: "time \<Rightarrow> 'c \<Rightarrow> 'c"
    and timeout :: time
    and wf :: "'c \<Rightarrow> bool"
  assumes get_put: "wf c \<Longrightarrow>
      get now h (put t g e c) = (if h = g then (if now - t \<le> timeout then Some e else None) else get now h c)"
    and get_invalidate: "wf c \<Longrightarrow> get now h (invalidate g c) = (if h = g then None else get now h c)"
    and get_collect: "wf c \<Longrightarrow> t \<le> now \<Longrightarrow> get now h (collect t c) = get now h c"
    and wf_put: "wf c \<Longrightarrow> wf (put t g e c)"
    and wf_invalidate: "wf c \<Longrightarrow> wf (invalidate g c)"
    and wf_collect: "wf c \<Longrightarrow> wf (collect t c)"
begin

text \<open>Whatever else happens to other handles, an invalidated handle stays out of the cache until it is
  put again.\<close>

lemma miss_until_put:
  assumes "wf c" and "get now h c = None" and "\<forall>(t, g, e) \<in> set ps. g \<noteq> h"
  shows "get now h (fold (\<lambda>(t, g, e). put t g e) ps c) = None"
  using assms by (induction ps arbitrary: c) (auto simp: get_put wf_put)

lemma put_collect_get:
  "wf c \<Longrightarrow> t \<le> t' \<Longrightarrow> t' \<le> now \<Longrightarrow> now - t \<le> timeout \<Longrightarrow>
     get now h (collect t' (put t h e c)) = Some e"
  by (simp add: get_collect get_put wf_put)

end

interpretation hc: handle_cache Cache_Get Cache_Put Cache_Invalidate Cache_gc DefaultTimeout wf_map
proof unfold_locales
  fix c :: Cache and t now :: time and h assume c: "wf_map c" and t: "t \<le> now"
  have gc: "Cache_gc t c = filter (\<lambda>(k, v). \<not> Clock_Since t (fst v) > DefaultTimeout) c"
    unfolding Cache_gc_def by (rule filter_cong) auto
  show "Cache_Get now h (Cache_gc t c) = Cache_Get now h c"
    using t by (auto simp: Cache_Get_def gc mget_filter_key [OF c] Clock_Since_def split: option.splits)
qed (auto simp: Cache_Get_def Cache_Put_def Cache_Invalidate_def Cache_gc_def Clock_Since_def
      split: option.splits)

section \<open>Files, listers, workers\<close>

record File =
  File_File :: OpenFile
  File_Handle :: bytes
  File_Client :: u64
  File_ClientSeqID :: u32

record Lister =
  Lister_Lister :: nat
  Lister_lastSeen :: time

record Worker =
  Worker_FS :: nat
  Worker_Cache :: Cache
  Worker_Creds :: Creds
  Worker_SessionID :: u64
  Worker_Listers :: "(u64, Lister) gomap"
  Worker_Files :: "(u64, File) gomap"
  Worker_ClosedFiles :: "u64 list"
  Worker_inUse :: int
  Worker_discarded :: bool
  Worker_lastUse :: time
  Worker_pending :: nat

abbreviation (input) EOFLister :: u64 where "EOFLister \<equiv> 0xFFFFFFFFFFFFFFFF"
abbreviation (input) ListerExpiration :: time where "ListerExpiration \<equiv> Minute"
abbreviation (input) IdleTimeout :: time where "IdleTimeout \<equiv> 5 * Minute"

definition Worker_New :: "nat \<Rightarrow> Creds \<Rightarrow> time \<Rightarrow> draws \<Rightarrow> (Worker \<times> draws) go" where
  "Worker_New fs creds now ds =
     go_bind (randUint64 ds) (\<lambda>(sid, ds').
       Inr (\<lparr>Worker_FS = fs, Worker_Cache = [], Worker_Creds = creds, Worker_SessionID = sid,
             Worker_Listers = [], Worker_Files = [], Worker_ClosedFiles = [], Worker_inUse = 1,
             Worker_discarded = False, Worker_lastUse = now, Worker_pending = 0\<rparr>, ds'))"

subsection \<open>Open files\<close>

text \<open>\<^verbatim>\<open>AddFile\<close> and \<^verbatim>\<open>RemoveFile\<close> also call \<^verbatim>\<open>Add(1)\<close> and \<^verbatim>\<open>Done()\<close> on the file's client, which lives in
  the client table.\<close>

definition AddFile ::
  "File \<Rightarrow> Worker \<Rightarrow> Clients \<Rightarrow> draws \<Rightarrow> (u64 \<times> Worker \<times> Clients \<times> draws) go" where
  "AddFile file w cs ds =
     go_bind (fresh_id (\<lambda>i. mget (Worker_Files w) i \<noteq> None) ds) (\<lambda>(index, ds').
       Inr (index, w\<lparr>Worker_Files := mput index file (Worker_Files w)\<rparr>,
            modify_client (File_Client file) (Client_Add 1) cs, ds'))"

definition GetFile :: "u64 \<Rightarrow> Worker \<Rightarrow> File option" where
  "GetFile index w = mget (Worker_Files w) index"

fun find_seqid :: "u64 \<Rightarrow> u32 \<Rightarrow> (u64, File) gomap \<Rightarrow> u64 option" where
  "find_seqid client clientSeqID [] = None"
| "find_seqid client clientSeqID ((index, f) # fs) =
     (if File_ClientSeqID f = clientSeqID \<and> File_Client f = client then Some index
      else find_seqid client clientSeqID fs)"

definition GetFileByClientSeqID :: "u64 \<Rightarrow> u32 \<Rightarrow> Worker \<Rightarrow> u64 option" where
  "GetFileByClientSeqID client clientSeqID w = find_seqid client clientSeqID (Worker_Files w)"

definition RemoveFile :: "u64 \<Rightarrow> Worker \<Rightarrow> Clients \<Rightarrow> File option \<times> Worker \<times> Clients" where
  "RemoveFile index w cs =
     (case mget (Worker_Files w) index of
        None \<Rightarrow> (None, w, cs)
      | Some f \<Rightarrow>
          (Some f,
           w\<lparr>Worker_Files := mdel index (Worker_Files w),
             Worker_ClosedFiles := List.insert index (Worker_ClosedFiles w)\<rparr>,
           modify_client (File_Client f) Client_Done cs))"

definition IsRemovedFile :: "u64 \<Rightarrow> Worker \<Rightarrow> bool" where
  "IsRemovedFile index w \<longleftrightarrow> index \<in> set (Worker_ClosedFiles w)"

subsection \<open>Listers\<close>

text \<open>The search for a lister number starts at 0 and goes on with random numbers; the number that
  stands for the end of a directory is skipped.\<close>

definition AddLister :: "nat \<Rightarrow> time \<Rightarrow> Worker \<Rightarrow> draws \<Rightarrow> (u64 \<times> Worker \<times> draws) go" where
  "AddLister lister now w ds =
     go_bind (fresh_id (\<lambda>i. mget (Worker_Listers w) i \<noteq> None \<or> i = EOFLister) (0 # ds)) (\<lambda>(index, ds').
       Inr (index,
            w\<lparr>Worker_Listers := mput index \<lparr>Lister_Lister = lister, Lister_lastSeen = now\<rparr>
                                  (Worker_Listers w)\<rparr>, ds'))"

definition GetLister :: "u64 \<Rightarrow> time \<Rightarrow> Worker \<Rightarrow> Lister option \<times> Worker" where
  "GetLister index now w =
     (case mget (Worker_Listers w) index of
        None \<Rightarrow> (None, w)
      | Some l \<Rightarrow>
          let l' = l\<lparr>Lister_lastSeen := now\<rparr>
          in (Some l', w\<lparr>Worker_Listers := mput index l' (Worker_Listers w)\<rparr>))"

definition CloseLister :: "'fs vfs \<Rightarrow> u64 \<Rightarrow> Worker \<Rightarrow> 'fs \<Rightarrow> go_error option \<times> Worker \<times> 'fs" where
  "CloseLister V index w fs =
     (case mget (Worker_Listers w) index of
        None \<Rightarrow> (None, w, fs)
      | Some l \<Rightarrow>
          (case lister_Close V (Lister_Lister l) fs of (err, fs') \<Rightarrow>
             (err, w\<lparr>Worker_Listers := mdel index (Worker_Listers w)\<rparr>, fs')))"

text \<open>One tick of \<^verbatim>\<open>cleanupListers\<close>.\<close>

fun expire_listers ::
  "'fs vfs \<Rightarrow> time \<Rightarrow> (u64, Lister) gomap \<Rightarrow> 'fs \<Rightarrow> (u64, Lister) gomap \<times> 'fs" where
  "expire_listers V now [] fs = ([], fs)"
| "expire_listers V now ((index, l) # ls) fs =
     (if Clock_Since now (Lister_lastSeen l) \<le> ListerExpiration
      then (case expire_listers V now ls fs of (ls', fs') \<Rightarrow> ((index, l) # ls', fs'))
      else expire_listers V now ls (snd (lister_Close V (Lister_Lister l) fs)))"

definition cleanupListers :: "'fs vfs \<Rightarrow> time \<Rightarrow> Worker \<Rightarrow> 'fs \<Rightarrow> Worker \<times> 'fs" where
  "cleanupListers V now w fs =
     (if Worker_discarded w then (w, fs)
      else case expire_listers V now (Worker_Listers w) fs of (ls, fs') \<Rightarrow>
             (w\<lparr>Worker_Listers := ls\<rparr>, fs'))"

subsection \<open>Life cycle\<close>

definition Worker_Use :: "time \<Rightarrow> Worker \<Rightarrow> go_error option \<times> Worker" where
  "Worker_Use now w =
     (if Worker_discarded w then (Some (GoErr []), w)
      else (None, w\<lparr>Worker_inUse := Worker_inUse w + 1, Worker_lastUse := now\<rparr>))"

definition Worker_Discard :: "Worker \<Rightarrow> Worker" where
  "Worker_Discard w =
     (if Worker_discarded w then w
      else
        let w' = w\<lparr>Worker_discarded := True\<rparr>
        in if Worker_inUse w' > 0 then w' else w'\<lparr>Worker_pending := Suc (Worker_pending w')\<rparr>)"

definition Worker_Close :: "Worker \<Rightarrow> Worker" where
  "Worker_Close w =
     (let w' = w\<lparr>Worker_inUse := Worker_inUse w - 1\<rparr>
      in if Worker_discarded w' \<and> Worker_inUse w' = 0
         then w'\<lparr>Worker_pending := Suc (Worker_pending w')\<rparr> else w')"

text \<open>One turn of the \<^verbatim>\<open>autoDiscard\<close> loop; \<open>mustDiscard\<close> when the server's context is done.\<close>

definition Worker_autoDiscard :: "bool \<Rightarrow> time \<Rightarrow> Worker \<Rightarrow> Worker" where
  "Worker_autoDiscard mustDiscard now w =
     (if Worker_discarded w then w
      else if Clock_Since now (Worker_lastUse w) \<le> IdleTimeout \<and> \<not> mustDiscard then w
      else
        let w' = w\<lparr>Worker_discarded := True\<rparr>
        in if Worker_inUse w' = 0 then w'\<lparr>Worker_pending := Suc (Worker_pending w')\<rparr> else w')"

definition close_listers :: "'fs vfs \<Rightarrow> (u64, Lister) gomap \<Rightarrow> 'fs \<Rightarrow> 'fs" where
  "close_listers V ls fs = fold (\<lambda>(_, l) fs. snd (lister_Close V (Lister_Lister l) fs)) ls fs"

definition close_files ::
  "'fs vfs \<Rightarrow> (u64, File) gomap \<Rightarrow> 'fs \<times> Clients \<Rightarrow> 'fs \<times> Clients" where
  "close_files V files st =
     fold (\<lambda>(_, f) (fs, cs). (snd (OpenFile_Close V (File_File f) fs),
                              modify_client (File_Client f) Client_Done cs)) files st"

text \<open>A pending \<^verbatim>\<open>cleanup\<close> runs; errors are collected for the log only.\<close>

definition Worker_cleanup ::
  "'fs vfs \<Rightarrow> Worker \<Rightarrow> 'fs \<Rightarrow> Clients \<Rightarrow> Worker \<times> 'fs \<times> Clients" where
  "Worker_cleanup V w fs cs =
     (let fs1 = close_listers V (Worker_Listers w) fs
      in case close_files V (Worker_Files w) (fs1, cs) of (fs2, cs') \<Rightarrow>
           (w\<lparr>Worker_Listers := [], Worker_Files := [], Worker_ClosedFiles := [],
              Worker_pending := Worker_pending w - 1\<rparr>,
            snd (vfs_Close V (Worker_FS w) fs2), cs'))"

section \<open>Files keep their clients busy\<close>

definition files_of :: "u64 \<Rightarrow> Worker \<Rightarrow> nat" where
  "files_of i w = length (filter (\<lambda>(_, f). File_Client f = i) (Worker_Files w))"

lemma length_filter_mput_new:
  "mget m k = None \<Longrightarrow>
     length (filter (\<lambda>(_, v). P v) (mput k v m)) =
       length (filter (\<lambda>(_, v). P v) m) + (if P v then 1 else 0)"
  by (induction m) (auto split: if_splits)

lemma length_filter_mdel:
  "wf_map m \<Longrightarrow> mget m k = Some v \<Longrightarrow>
     length (filter (\<lambda>(_, v). P v) m) =
       length (filter (\<lambda>(_, v). P v) (mdel k m)) + (if P v then 1 else 0)"
proof (induction m)
  case (Cons kv m)
  obtain k' v' where kv: "kv = (k', v')" by force
  show ?case
  proof (cases "k' = k")
    case True
    then have "mdel k m = m" using Cons.prems kv
      by (metis delete_id distinct.simps(2) list.simps(9) fst_conv set_map wf_map_def)
    with True Cons.prems kv show ?thesis by auto
  next
    case False
    with Cons kv show ?thesis by (auto simp: wf_map_def)
  qed
qed simp

lemma files_of_AddFile:
  assumes "AddFile file w cs ds = Inr (index, w', cs', ds')"
  shows "files_of i w' = files_of i w + (if File_Client file = i then 1 else 0)"
    and "cs' = modify_client (File_Client file) (Client_Add 1) cs"
    and "GetFile index w = None" and "GetFile index w' = Some file"
    and "j \<noteq> index \<Longrightarrow> GetFile j w' = GetFile j w"
    and "Worker_inUse w' = Worker_inUse w \<and> Worker_discarded w' = Worker_discarded w \<and>
      Worker_pending w' = Worker_pending w"
proof -
  have new: "mget (Worker_Files w) index = None"
    and w': "w' = w\<lparr>Worker_Files := mput index file (Worker_Files w)\<rparr>"
    and cs': "cs' = modify_client (File_Client file) (Client_Add 1) cs"
    using assms fresh_id_unused by (fastforce simp: AddFile_def go_bind_eq_Inr)+
  show "files_of i w' = files_of i w + (if File_Client file = i then 1 else 0)"
    using length_filter_mput_new [OF new, where P = "\<lambda>f. File_Client f = i" and v = "file"] by (simp add: w' files_of_def)
  show "cs' = modify_client (File_Client file) (Client_Add 1) cs" by (rule cs')
  show "GetFile index w = None" "GetFile index w' = Some file" "j \<noteq> index \<Longrightarrow> GetFile j w' = GetFile j w"
    using new by (simp_all add: GetFile_def w')
  show "Worker_inUse w' = Worker_inUse w \<and> Worker_discarded w' = Worker_discarded w \<and>
      Worker_pending w' = Worker_pending w" by (simp add: w')
qed

lemma files_of_RemoveFile:
  assumes "RemoveFile index w cs = (Some f, w', cs')" and "wf_map (Worker_Files w)"
  shows "files_of i w = files_of i w' + (if File_Client f = i then 1 else 0)"
    and "cs' = modify_client (File_Client f) Client_Done cs"
    and "GetFile index w = Some f" and "GetFile index w' = None" and "IsRemovedFile index w'"
    and "j \<noteq> index \<Longrightarrow> GetFile j w' = GetFile j w"
proof -
  have f: "mget (Worker_Files w) index = Some f"
    and w': "w' = w\<lparr>Worker_Files := mdel index (Worker_Files w),
             Worker_ClosedFiles := List.insert index (Worker_ClosedFiles w)\<rparr>"
    and cs': "cs' = modify_client (File_Client f) Client_Done cs"
    using assms(1) by (auto simp: RemoveFile_def split: option.splits)
  show "files_of i w = files_of i w' + (if File_Client f = i then 1 else 0)"
    using length_filter_mdel [OF assms(2) f, where P = "\<lambda>f. File_Client f = i"] by (simp add: w' files_of_def)
  show "cs' = modify_client (File_Client f) Client_Done cs" by (rule cs')
  show "GetFile index w = Some f" "GetFile index w' = None" "IsRemovedFile index w'"
    "j \<noteq> index \<Longrightarrow> GetFile j w' = GetFile j w"
    using f by (simp_all add: GetFile_def IsRemovedFile_def w')
qed

lemma mget_modify_client:
  "mget (modify_client i f x) j = (if j = i then map_option f (mget x i) else mget x j)"
  by (auto simp: modify_client_def split: option.splits)

lemma close_files_clients:
  "mget (snd (close_files V files (fs, cs))) i =
     map_option (\<lambda>c. c\<lparr>Client_busy := Client_busy c -
       int (length (filter (\<lambda>(_, f). File_Client f = i) files))\<rparr>) (mget cs i)"
proof (induction files arbitrary: fs cs)
  case (Cons kf files)
  obtain k f where kf: "kf = (k, f)" by force
  show ?case
    using Cons [of "snd (OpenFile_Close V (File_File f) fs)" "modify_client (File_Client f) Client_Done cs"]
    by (cases "mget cs i") (auto simp: close_files_def kf mget_modify_client Client_Done_def)
qed (simp add: close_files_def option.map_ident)

text \<open>After a clean-up the worker has no files left, and each client lost one mark per file.\<close>

lemma Worker_cleanup_files:
  assumes "Worker_cleanup V w fs cs = (w', fs', cs')"
  shows "files_of i w' = 0"
    and "mget cs' i = map_option (\<lambda>c. c\<lparr>Client_busy := Client_busy c - int (files_of i w)\<rparr>) (mget cs i)"
proof -
  obtain fs2 where c: "close_files V (Worker_Files w) (close_listers V (Worker_Listers w) fs, cs) = (fs2, cs')"
      and w': "Worker_Files w' = []"
    using assms by (auto simp: Worker_cleanup_def Let_def split: prod.splits)
  show "files_of i w' = 0" by (simp add: files_of_def w')
  show "mget cs' i = map_option (\<lambda>c. c\<lparr>Client_busy := Client_busy c - int (files_of i w)\<rparr>) (mget cs i)"
    using close_files_clients [of V "Worker_Files w" "close_listers V (Worker_Listers w) fs" cs i] c
    by (simp add: files_of_def)
qed

section \<open>The life cycle as a state machine\<close>

text \<open>\<open>n\<close> counts the clean-ups that have run. A holder calls \<^verbatim>\<open>Close\<close> once for the \<^verbatim>\<open>New\<close> or \<^verbatim>\<open>Use\<close> that
  gave it the worker, so \<^verbatim>\<open>Close\<close> happens only while the worker is in use; what a holder does with
  files, listers and cache leaves the life-cycle fields alone.\<close>

inductive worker_life :: "'fs vfs \<Rightarrow> Worker \<times> nat \<Rightarrow> Worker \<times> nat \<Rightarrow> bool" for V where
  life_use: "Worker_Use now w = (None, w') \<Longrightarrow> worker_life V (w, n) (w', n)"
| life_discard: "worker_life V (w, n) (Worker_Discard w, n)"
| life_close: "Worker_inUse w > 0 \<Longrightarrow> worker_life V (w, n) (Worker_Close w, n)"
| life_auto: "worker_life V (w, n) (Worker_autoDiscard mustDiscard now w, n)"
| life_work: "Worker_inUse w > 0 \<Longrightarrow>
    worker_life V (w, n) (w\<lparr>Worker_Cache := c, Worker_Listers := ls, Worker_Files := fs,
      Worker_ClosedFiles := cl\<rparr>, n)"
| life_tick: "cleanupListers V now w fs = (w', fs') \<Longrightarrow> worker_life V (w, n) (w', n)"
| life_cleanup: "Worker_pending w > 0 \<Longrightarrow> Worker_cleanup V w fs cs = (w', fs', cs') \<Longrightarrow>
    worker_life V (w, n) (w', Suc n)"

definition worker_fresh :: "Worker \<times> nat \<Rightarrow> bool" where
  "worker_fresh s \<longleftrightarrow> (\<exists>fs creds now ds ds'. Worker_New fs creds now ds = Inr (fst s, ds')) \<and> snd s = 0"

definition life_inv :: "Worker \<times> nat \<Rightarrow> bool" where
  "life_inv s \<longleftrightarrow> Worker_inUse (fst s) \<ge> 0 \<and>
     Worker_pending (fst s) + snd s = (if Worker_discarded (fst s) \<and> Worker_inUse (fst s) = 0 then 1 else 0)"

interpretation life: transition_invariant worker_fresh "worker_life V" life_inv for V
proof unfold_locales
  fix s show "worker_fresh s \<Longrightarrow> life_inv s"
    by (cases s) (auto simp: worker_fresh_def life_inv_def Worker_New_def go_bind_eq_Inr)
next
  fix s s' assume inv: "life_inv s" and "worker_life V s s'"
  from this(2) show "life_inv s'"
  proof cases
    case (life_tick now w fs w' fs' n)
    then show ?thesis
      using inv by (auto simp: cleanupListers_def life_inv_def split: if_splits prod.splits)
  next
    case (life_cleanup w fs cs w' fs' cs' n)
    then show ?thesis
      using inv by (auto simp: Worker_cleanup_def life_inv_def Let_def split: if_splits prod.splits)
  qed (use inv in \<open>auto simp: life_inv_def Worker_Use_def Worker_Discard_def Worker_Close_def
      Worker_autoDiscard_def Let_def split: if_splits\<close>)
qed

section \<open>Properties\<close>

text \<open>C18: A worker is cleaned up at most once, and only after it was discarded and its last user closed it; and
  as soon as both have happened, the clean-up has run or is scheduled.\<close>

theorem cleanup_exactly_once:
  assumes "reach worker_fresh (worker_life V) (w, n)"
  shows "n \<le> 1 \<and> (n + Worker_pending w = 1 \<longleftrightarrow> Worker_discarded w \<and> Worker_inUse w = 0) \<and>
    (0 < n + Worker_pending w \<longrightarrow> n + Worker_pending w = 1) \<and> 0 \<le> Worker_inUse w"
  using life.holds [OF assms] by (auto simp: life_inv_def split: if_splits)

text \<open>New, discarded while in use, closed by its only user, cleaned up.\<close>

theorem cleanup_exactly_once_witness:
  "\<exists>w. reach worker_fresh (worker_life demo_vfs) (w, 1) \<and> Worker_discarded w \<and> Worker_inUse w = 0 \<and> Worker_pending w = 0"
proof -
  obtain w ds where new: "Worker_New 0 demo_creds 0 [5] = Inr (w, ds)"
      and w: "Worker_inUse w = 1" "\<not> Worker_discarded w" "Worker_pending w = 0"
    by (auto simp: Worker_New_def randUint64_def)
  let ?w1 = "Worker_Discard w"
  let ?w2 = "Worker_Close ?w1"
  obtain w3 fs cs where cl: "Worker_cleanup demo_vfs ?w2 [] [] = (w3, fs, cs)" by (metis prod_cases3)
  have "reach worker_fresh (worker_life demo_vfs) (w, 0)"
    using new by (intro reach_init) (unfold worker_fresh_def, simp, blast)
  then have "reach worker_fresh (worker_life demo_vfs) (?w1, 0)" by (rule reach_step) (rule life_discard)
  then have "reach worker_fresh (worker_life demo_vfs) (?w2, 0)"
    by (rule reach_step) (rule life_close, use w in \<open>simp add: Worker_Discard_def Let_def\<close>)
  then have r: "reach worker_fresh (worker_life demo_vfs) (w3, Suc 0)"
    by (rule reach_step)
      (rule life_cleanup [OF _ cl], use w in \<open>simp add: Worker_Discard_def Worker_Close_def Let_def\<close>)
  have "Worker_discarded w3 \<and> Worker_inUse w3 = 0"
    using cl w by (auto simp: Worker_cleanup_def Worker_Discard_def Worker_Close_def Let_def split: prod.splits)
  then show ?thesis using cleanup_exactly_once [OF r] r by (intro exI [of _ w3]) auto
qed

text \<open>The handle cache never serves stale information: once a handle was invalidated, lookups of it miss
  until it is put again, whatever is put for other handles.\<close>

theorem cache_miss_after_invalidate:
  assumes "wf_map c" and "\<forall>(t, g, e) \<in> set ps. g \<noteq> h"
  shows "Cache_Get now h (fold (\<lambda>(t, g, e). Cache_Put t g e) ps (Cache_Invalidate h c)) = None"
  using hc.miss_until_put [of "Cache_Invalidate h c" now h ps] hc.wf_invalidate [OF assms(1), of h]
    hc.get_invalidate [OF assms(1), of now h h] assms(2) by simp

theorem cache_miss_after_invalidate_witness:
  "Cache_Get 1 [1] (Cache_Put 1 [2] \<lparr>Entry_Path = ''/g'', Entry_FileInfo = demo_info ''/g'' []\<rparr>
     (Cache_Invalidate [1] (Cache_Put 0 [1] \<lparr>Entry_Path = ''/f'', Entry_FileInfo = demo_info ''/f'' []\<rparr> []))) = None"
proof -
  have wf: "wf_map (Cache_Put 0 [1] \<lparr>Entry_Path = ''/f'', Entry_FileInfo = demo_info ''/f'' []\<rparr> [])"
    by (simp add: Cache_Put_def wf_map_def)
  show ?thesis
    using cache_miss_after_invalidate [OF wf,
        of "[(1, [2], \<lparr>Entry_Path = ''/g'', Entry_FileInfo = demo_info ''/g'' []\<rparr>)]" "[1]" 1] by simp
qed

text \<open>Cached information is served, unchanged, for as long as the time-out lasts, whether or not the garbage
  collector ran in between; afterwards it is not served any more.\<close>

theorem cache_hit_until_timeout:
  assumes "wf_map c" and "t \<le> t'" and "t' \<le> now"
  shows "Cache_Get now h (Cache_gc t' (Cache_Put t h e c)) = (if now - t \<le> DefaultTimeout then Some e else None)"
  using assms hc.get_put [OF assms(1)] hc.get_collect [OF hc.wf_put [OF assms(1)]] by simp

theorem cache_hit_until_timeout_witness:
  "Cache_Get Second [1] (Cache_gc 1 (Cache_Put 0 [1] \<lparr>Entry_Path = ''/f'', Entry_FileInfo = demo_info ''/f'' []\<rparr> [])) =
     Some \<lparr>Entry_Path = ''/f'', Entry_FileInfo = demo_info ''/f'' []\<rparr>"
  using cache_hit_until_timeout [of "[]" 0 1 Second "[1]" "\<lparr>Entry_Path = ''/f'', Entry_FileInfo = demo_info ''/f'' []\<rparr>"]
  by (simp add: wf_map_def)

text \<open>A file is removed once: \<^verbatim>\<open>RemoveFile\<close> takes the file out of the table, remembers that it was closed and
  takes one mark off its client; removing it again finds nothing and changes nothing, and every other
  file stays.\<close>

theorem file_removed_once:
  assumes "wf_map (Worker_Files w)" and "RemoveFile i w cs = (Some f, w', cs')"
  shows "GetFile i w = Some f \<and> GetFile i w' = None \<and> IsRemovedFile i w' \<and>
    cs' = modify_client (File_Client f) Client_Done cs \<and> RemoveFile i w' cs' = (None, w', cs') \<and>
    (\<forall>j. j = i \<or> GetFile j w' = GetFile j w)"
  using files_of_RemoveFile(2-6) [OF assms(2,1)] by (auto simp: RemoveFile_def GetFile_def split: option.splits)

definition demo_file :: File where
  "demo_file = \<lparr>File_File = NopWriterAt 3, File_Handle = [1], File_Client = 7, File_ClientSeqID = 2\<rparr>"

definition demo_worker :: Worker where
  "demo_worker = \<lparr>Worker_FS = 0, Worker_Cache = [], Worker_Creds = demo_creds, Worker_SessionID = 5,
     Worker_Listers = [], Worker_Files = [], Worker_ClosedFiles = [], Worker_inUse = 1,
     Worker_discarded = False, Worker_lastUse = 0, Worker_pending = 0\<rparr>"

theorem file_removed_once_witness:
  "\<exists>w' cs'. RemoveFile 9 (demo_worker\<lparr>Worker_Files := [(9, demo_file)]\<rparr>) [(7, demo_client)] = (Some demo_file, w', cs') \<and>
     GetFile 9 w' = None \<and> RemoveFile 9 w' cs' = (None, w', cs')"
proof -
  let ?w = "demo_worker\<lparr>Worker_Files := [(9, demo_file)]\<rparr>"
  obtain w' cs' where r: "RemoveFile 9 ?w [(7, demo_client)] = (Some demo_file, w', cs')"
    by (simp add: RemoveFile_def)
  have "wf_map (Worker_Files ?w)" by (simp add: wf_map_def)
  from file_removed_once [OF this r] r show ?thesis by blast
qed

lemma find_seqid_mput_new:
  "find_seqid c s m = None \<Longrightarrow> mget m i = None \<Longrightarrow>
     find_seqid c s (mput i f m) = (if File_ClientSeqID f = s \<and> File_Client f = c then Some i else None)"
  by (induction m) (auto split: if_splits)

text \<open>A retransmitted \<^verbatim>\<open>OPEN\<close> finds the file the first one opened: after \<^verbatim>\<open>AddFile\<close>, the lookup by client and
  sequence number returns the new file's number, which is the one its state identifier stands for; and
  no file already open was replaced.\<close>

theorem open_retry_finds_file:
  assumes "AddFile file w cs ds = Inr (index, w', cs', ds')"
    and "GetFileByClientSeqID (File_Client file) (File_ClientSeqID file) w = None"
  shows "GetFileByClientSeqID (File_Client file) (File_ClientSeqID file) w' = Some index \<and>
    GetFile index w' = Some file \<and> GetFile index w = None \<and>
    FileID (FileOther index (File_ClientSeqID file)) = index"
proof -
  have w': "w' = w\<lparr>Worker_Files := mput index file (Worker_Files w)\<rparr>" and new: "mget (Worker_Files w) index = None"
    using assms(1) fresh_id_unused by (fastforce simp: AddFile_def go_bind_eq_Inr)+
  then show ?thesis
    using assms(2) find_seqid_mput_new [OF _ new] by (simp add: GetFileByClientSeqID_def GetFile_def FileID_FileOther)
qed

theorem open_retry_finds_file_witness:
  "\<exists>w' cs'. AddFile demo_file demo_worker [(7, demo_client)] [4] = Inr (4, w', cs', []) \<and>
     GetFileByClientSeqID 7 2 w' = Some 4 \<and> GetFile 4 w' = Some demo_file"
proof -
  obtain w' cs' where a: "AddFile demo_file demo_worker [(7, demo_client)] [4] = Inr (4, w', cs', [])"
    by (simp add: AddFile_def demo_worker_def)
  have "GetFileByClientSeqID (File_Client demo_file) (File_ClientSeqID demo_file) demo_worker = None"
    by (simp add: GetFileByClientSeqID_def demo_worker_def)
  from open_retry_finds_file [OF a this] a show ?thesis by (auto simp: demo_file_def)
qed

end
