(* ===== verification/Server.thy ===== *)
theory Server
  imports Worker
begin

text \<open>
  The server's shared state (\<^verbatim>\<open>server.go\<close>) and the table of workers. A \<^verbatim>\<open>*worker.Worker\<close> is an index into
  a heap of workers that only grows, so that a worker dropped from the table can still be used by the
  goroutine that holds it. \<open>World\<close> gathers what all connections share: the file system, the client table,
  the buffer pool, the workers, the wait group, the clock (\<^verbatim>\<open>clock.GlobalClock\<close> ticks once a second; its
  reading changes between operations, not within one) and the random draws to come.
\<close>

record 'fs World =
  W_fs :: 'fs
  W_clients :: Clients
  W_pool :: Pool
  W_heap :: "Worker list"
  W_workers :: "(bytes \<times> u32, nat) gomap"
  W_wg :: int
  W_now :: time
  W_draws :: draws

text \<open>What a connection adds: the exported file system, the address of the peer if it is a TCP address,
  and \<^verbatim>\<open>crypto/md5\<close>.\<close>

record 'fs Conn =
  Conn_V :: "'fs vfs"
  Conn_ip :: "string option"
  Conn_md5 :: "bytes \<Rightarrow> bytes"

definition zero_SessionID :: bytes where
  "zero_SessionID = replicate 16 0"

text \<open>Before NFS 4.1 there is no session identifier; one is derived from the address of the peer.\<close>

definition worker_session :: "'fs Conn \<Rightarrow> bytes \<Rightarrow> bytes" where
  "worker_session m sessionID =
     (if sessionID = zero_SessionID then
        let h = Conn_md5 m (case Conn_ip m of None \<Rightarrow> [] | Some ip \<Rightarrow> bytes_of_string ip)
        in take 16 h @ drop (length h) sessionID
      else sessionID)"

definition upd_worker :: "nat \<Rightarrow> (Worker \<Rightarrow> Worker) \<Rightarrow> 'fs World \<Rightarrow> 'fs World" where
  "upd_worker a f w = w\<lparr>W_heap := (W_heap w)[a := f (W_heap w ! a)]\<rparr>"

text \<open>\<^verbatim>\<open>newFS\<close>: a root file system that fails to load is replaced by one that returns the error.\<close>

definition newFS :: "'fs Conn \<Rightarrow> Creds \<Rightarrow> 'fs \<Rightarrow> nat \<times> 'fs" where
  "newFS m creds fs =
     (case vfs_loader (Conn_V m) creds fs of
        (Inl e, fs') \<Rightarrow> vfs_errorfs (Conn_V m) e fs'
      | (Inr r, fs') \<Rightarrow> (r, fs'))"

definition new_worker ::
  "'fs Conn \<Rightarrow> Creds \<Rightarrow> bytes \<Rightarrow> 'fs World \<Rightarrow> (nat \<times> 'fs World) go" where
  "new_worker m creds sid w =
     (case newFS m creds (W_fs w) of (r, fs') \<Rightarrow>
        go_bind (Worker_New r creds (W_now w) (W_draws w)) (\<lambda>(wk, ds').
          Inr (length (W_heap w),
               w\<lparr>W_fs := fs', W_draws := ds', W_wg := W_wg w + 1, W_heap := W_heap w @ [wk],
                 W_workers := mput (sid, Creds_UID creds) (length (W_heap w)) (W_workers w)\<rparr>)))"

definition GetWorker ::
  "'fs Conn \<Rightarrow> Creds \<Rightarrow> bytes \<Rightarrow> 'fs World \<Rightarrow> (nat \<times> 'fs World) go" where
  "GetWorker m creds sessionID w =
     (let sid = worker_session m sessionID
      in case mget (W_workers w) (sid, Creds_UID creds) of
           None \<Rightarrow> new_worker m creds sid w
         | Some a \<Rightarrow>
             if \<not> Creds_Equal (Worker_Creds (W_heap w ! a)) creds
             then new_worker m creds sid (upd_worker a Worker_Discard w)
             else
               (case Worker_Use (W_now w) (W_heap w ! a) of
                  (None, wk) \<Rightarrow> Inr (a, upd_worker a (\<lambda>_. wk) w)
                | (Some _, _) \<Rightarrow> new_worker m creds sid w))"

text \<open>The goroutine started by \<^verbatim>\<open>go w.cleanup()\<close>, with \<^verbatim>\<open>afterCleanup\<close> (the server's \<^verbatim>\<open>wg.Done\<close>).\<close>

definition run_cleanup :: "'fs Conn \<Rightarrow> nat \<Rightarrow> 'fs World \<Rightarrow> 'fs World" where
  "run_cleanup m a w =
     (case Worker_cleanup (Conn_V m) (W_heap w ! a) (W_fs w) (W_clients w) of (wk, fs', cs') \<Rightarrow>
        w\<lparr>W_heap := (W_heap w)[a := wk], W_fs := fs', W_clients := cs', W_wg := W_wg w - 1\<rparr>)"

section \<open>The worker a request gets\<close>

definition wf_world :: "'fs World \<Rightarrow> bool" where
  "wf_world w \<longleftrightarrow> wf_map (W_workers w) \<and> (\<forall>k a. mget (W_workers w) k = Some a \<longrightarrow> a < length (W_heap w))"

text \<open>A request is always served by a live worker with the credentials of the request (up to
  \<^verbatim>\<open>Creds.Equal\<close>), registered under its session and user, and counted as in use.\<close>

lemma new_worker_spec:
  assumes "wf_world w" and "new_worker m creds sid w = Inr (a, w')"
  shows "wf_world w' \<and> a = length (W_heap w) \<and> mget (W_workers w') (sid, Creds_UID creds) = Some a \<and>
    Worker_Creds (W_heap w' ! a) = creds \<and> \<not> Worker_discarded (W_heap w' ! a) \<and>
    Worker_inUse (W_heap w' ! a) = 1 \<and> Worker_Files (W_heap w' ! a) = [] \<and>
    W_clients w' = W_clients w \<and> W_pool w' = W_pool w \<and> W_now w' = W_now w \<and>
    length (W_heap w') = Suc (length (W_heap w)) \<and>
    (\<forall>b < length (W_heap w). W_heap w' ! b = W_heap w ! b)"
  using assms
  by (auto simp: new_worker_def Worker_New_def wf_world_def go_bind_eq_Inr nth_append less_Suc_eq
      split: prod.splits if_splits)

lemma GetWorker_spec:
  assumes "wf_world w" and "GetWorker m creds sid w = Inr (a, w')"
  shows "wf_world w' \<and> a < length (W_heap w') \<and>
    mget (W_workers w') (worker_session m sid, Creds_UID creds) = Some a \<and>
    Creds_Equal (Worker_Creds (W_heap w' ! a)) creds \<and> \<not> Worker_discarded (W_heap w' ! a) \<and>
    W_clients w' = W_clients w \<and> W_pool w' = W_pool w \<and> W_now w' = W_now w"
proof -
  let ?sid = "worker_session m sid"
  consider (found) b wk where "mget (W_workers w) (?sid, Creds_UID creds) = Some b"
      "Creds_Equal (Worker_Creds (W_heap w ! b)) creds" "Worker_Use (W_now w) (W_heap w ! b) = (None, wk)"
      "a = b" "w' = upd_worker b (\<lambda>_. wk) w"
    | (fresh) w1 where "new_worker m creds ?sid w1 = Inr (a, w')" "wf_world w1"
        "W_clients w1 = W_clients w" "W_pool w1 = W_pool w" "W_now w1 = W_now w"
  proof (cases "mget (W_workers w) (?sid, Creds_UID creds)")
    case None
    then show ?thesis using assms that(2) [of w] by (simp add: GetWorker_def)
  next
    case (Some b)
    show ?thesis
    proof (cases "Creds_Equal (Worker_Creds (W_heap w ! b)) creds")
      case False
      have "wf_world (upd_worker b Worker_Discard w)" using assms(1) by (simp add: wf_world_def upd_worker_def)
      then show ?thesis
        using assms Some False that(2) [of "upd_worker b Worker_Discard w"]
        by (simp add: GetWorker_def upd_worker_def)
    next
      case True
      obtain e wk where use: "Worker_Use (W_now w) (W_heap w ! b) = (e, wk)" by force
      show ?thesis
      proof (cases e)
        case None
        then show ?thesis
          using assms(2) Some True use by (intro that(1) [of b wk]) (auto simp: GetWorker_def)
      next
        case (Some e')
        then have "new_worker m creds ?sid w = Inr (a, w')"
          using assms(2) \<open>mget (W_workers w) (?sid, Creds_UID creds) = Some b\<close> True use
          by (simp add: GetWorker_def)
        then show ?thesis using assms(1) by (rule that(2)) simp_all
      qed
    qed
  qed
  then show ?thesis
  proof cases
    case found
    then have "b < length (W_heap w)" using assms(1) by (simp add: wf_world_def)
    with found assms(1) show ?thesis
      by (auto simp: upd_worker_def wf_world_def Worker_Use_def split: if_splits)
  next
    case fresh
    then show ?thesis using new_worker_spec [OF fresh(2,1)] by auto
  qed
qed

section \<open>Properties\<close>

text \<open>C17: Workers do not leak across users. The worker a request gets is alive, is the one registered for its
  session and user, and was made for the same user; its credentials are equal to those of the request in the sense of
  \<^verbatim>\<open>Creds.Equal\<close>, which does not always compare the primary group. A registered worker whose credentials are not equal in this
  sense is discarded and replaced, not reused. The client table and the buffers are not touched.\<close>

theorem worker_isolation:
  assumes "wf_world w" and "GetWorker m creds sid w = Inr (a, w')"
  shows "wf_world w' \<and> mget (W_workers w') (worker_session m sid, Creds_UID creds) = Some a \<and>
    Creds_UID (Worker_Creds (W_heap w' ! a)) = Creds_UID creds \<and>
    Creds_Equal (Worker_Creds (W_heap w' ! a)) creds \<and> \<not> Worker_discarded (W_heap w' ! a) \<and>
    (\<forall>b. mget (W_workers w) (worker_session m sid, Creds_UID creds) = Some b \<and>
      \<not> Creds_Equal (Worker_Creds (W_heap w ! b)) creds \<longrightarrow> a \<noteq> b \<and> Worker_discarded (W_heap w' ! b)) \<and>
    W_clients w' = W_clients w \<and> W_pool w' = W_pool w"
proof -
  have "a \<noteq> b \<and> Worker_discarded (W_heap w' ! b)"
    if b: "mget (W_workers w) (worker_session m sid, Creds_UID creds) = Some b"
      "\<not> Creds_Equal (Worker_Creds (W_heap w ! b)) creds" for b
  proof -
    let ?w1 = "upd_worker b Worker_Discard w"
    have l: "b < length (W_heap w)" using assms(1) b(1) by (simp add: wf_world_def)
    have n: "new_worker m creds (worker_session m sid) ?w1 = Inr (a, w')"
      using assms(2) b by (simp add: GetWorker_def)
    have "wf_world ?w1" using assms(1) by (simp add: wf_world_def upd_worker_def)
    from new_worker_spec [OF this n] l show ?thesis
      by (auto simp: upd_worker_def Worker_Discard_def Let_def)
  qed
  moreover note spec = GetWorker_spec [OF assms]
  moreover have "Creds_UID (Worker_Creds (W_heap w' ! a)) = Creds_UID creds" using spec Creds_Equal_UID by blast
  ultimately show ?thesis by blast
qed

definition demo_conn :: "bytes Conn" where
  "demo_conn = \<lparr>Conn_V = demo_vfs, Conn_ip = Some ''10.0.0.1'', Conn_md5 = (\<lambda>b. take 16 (b @ replicate 16 1))\<rparr>"

definition demo_world :: "bytes World" where
  "demo_world = \<lparr>W_fs = [104, 105], W_clients = [], W_pool = demo_pool, W_heap = [], W_workers = [], W_wg = 0,
     W_now = 0, W_draws = [7, 9, 11, 13]\<rparr>"

text \<open>User 1000 comes back on the same session with other groups.\<close>

theorem worker_isolation_witness:
  "\<exists>a w'. GetWorker demo_conn (demo_creds\<lparr>Creds_AdditionalGroups := [5]\<rparr>) (replicate 16 2)
      (demo_world\<lparr>W_heap := [demo_worker], W_workers := [((replicate 16 2, 1000), 0)]\<rparr>) = Inr (a, w') \<and>
    a \<noteq> 0 \<and> Worker_discarded (W_heap w' ! 0) \<and>
    Creds_Equal (Worker_Creds (W_heap w' ! a)) (demo_creds\<lparr>Creds_AdditionalGroups := [5]\<rparr>)"
proof -
  let ?sid = "replicate 16 2 :: bytes" and ?c = "demo_creds\<lparr>Creds_AdditionalGroups := [5]\<rparr>"
  let ?w = "demo_world\<lparr>W_heap := [demo_worker], W_workers := [((?sid, 1000), 0)]\<rparr>"
  have s: "worker_session demo_conn ?sid = ?sid" by (simp add: worker_session_def zero_SessionID_def replicate_eq_replicate)
  have ne: "\<not> Creds_Equal (Worker_Creds demo_worker) ?c"
    by (simp add: demo_worker_def Creds_Equal_def demo_creds_def)
  have uid: "Creds_UID ?c = 1000" by (simp add: demo_creds_def)
  have "GetWorker demo_conn ?c ?sid ?w = new_worker demo_conn ?c ?sid (upd_worker 0 Worker_Discard ?w)"
    using ne by (simp add: GetWorker_def s uid Let_def)
  moreover have "\<exists>a w'. new_worker demo_conn ?c ?sid (upd_worker 0 Worker_Discard ?w) = Inr (a, w')"
    by (simp add: new_worker_def newFS_def demo_conn_def demo_vfs_def Worker_New_def randUint64_def demo_world_def
        upd_worker_def)
  ultimately obtain a w' where g: "GetWorker demo_conn ?c ?sid ?w = Inr (a, w')" by auto
  have wf: "wf_world ?w" by (simp add: wf_world_def wf_map_def)
  show ?thesis using worker_isolation [OF wf g] g ne by (auto simp: s uid)
qed

end
