(* ===== verification/MsgArgs.thy ===== *)
theory MsgArgs
  imports MsgBase
begin

text \<open>
  The request messages of \<^verbatim>\<open>msg/structs.go\<close> and the RPC call header of \<^verbatim>\<open>msg/rpc.go\<close>, each with its coder
  and its round trip, in the layout of theory \<open>MsgBase\<close>.
\<close>

record GETATTR4args =
  GETATTR4args_AttrRequest :: "u32 list"

definition zero_GETATTR4args :: GETATTR4args where
  "zero_GETATTR4args = \<lparr>GETATTR4args_AttrRequest = []\<rparr>"

definition enc_GETATTR4args :: "GETATTR4args \<Rightarrow> xenc" where
  "enc_GETATTR4args x = EncodeAll [eUint32s (GETATTR4args_AttrRequest x)]"

definition dec_GETATTR4args :: "GETATTR4args xdec" where
  "dec_GETATTR4args =
    dthen dUint32s (\<lambda>x1.
      dret \<lparr>GETATTR4args_AttrRequest = x1\<rparr>)"

definition ok_GETATTR4args :: "GETATTR4args \<Rightarrow> bool" where
  "ok_GETATTR4args x \<longleftrightarrow> fits32 (GETATTR4args_AttrRequest x)"

interpretation GETATTR4argsC: xdr_codec enc_GETATTR4args dec_GETATTR4args ok_GETATTR4args
  by unfold_locales
    (auto simp: enc_GETATTR4args_def dec_GETATTR4args_def ok_GETATTR4args_def dthen_def intro!: framed_intros)

record SETCLIENTID4args =
  SETCLIENTID4args_Client :: NfsClientId4
  SETCLIENTID4args_Callback :: CbClient4
  SETCLIENTID4args_CallbackIdent :: u32

definition zero_SETCLIENTID4args :: SETCLIENTID4args where
  "zero_SETCLIENTID4args = \<lparr>SETCLIENTID4args_Client = zero_NfsClientId4, SETCLIENTID4args_Callback = zero_CbClient4,
      SETCLIENTID4args_CallbackIdent = 0\<rparr>"

definition enc_SETCLIENTID4args :: "SETCLIENTID4args \<Rightarrow> xenc" where
  "enc_SETCLIENTID4args x = EncodeAll [enc_NfsClientId4 (SETCLIENTID4args_Client x),
      enc_CbClient4 (SETCLIENTID4args_Callback x), eUint32 (SETCLIENTID4args_CallbackIdent x)]"

definition dec_SETCLIENTID4args :: "SETCLIENTID4args xdec" where
  "dec_SETCLIENTID4args =
    dthen dec_NfsClientId4 (\<lambda>x1. dthen dec_CbClient4 (\<lambda>x2.
    dthen dUint32 (\<lambda>x3.
      dret \<lparr>SETCLIENTID4args_Client = x1, SETCLIENTID4args_Callback = x2,
      SETCLIENTID4args_CallbackIdent = x3\<rparr>)))"

definition ok_SETCLIENTID4args :: "SETCLIENTID4args \<Rightarrow> bool" where
  "ok_SETCLIENTID4args x \<longleftrightarrow> ok_NfsClientId4 (SETCLIENTID4args_Client x) \<and>
      ok_CbClient4 (SETCLIENTID4args_Callback x)"

interpretation SETCLIENTID4argsC: xdr_codec enc_SETCLIENTID4args dec_SETCLIENTID4args ok_SETCLIENTID4args
  by unfold_locales
    (auto simp: enc_SETCLIENTID4args_def dec_SETCLIENTID4args_def ok_SETCLIENTID4args_def dthen_def intro!: framed_intros)

record SETCLIENTID_CONFIRM4args =
  SETCLIENTID_CONFIRM4args_ClientId :: u64
  SETCLIENTID_CONFIRM4args_Verifier :: u64

definition zero_SETCLIENTID_CONFIRM4args :: SETCLIENTID_CONFIRM4args where
  "zero_SETCLIENTID_CONFIRM4args = \<lparr>SETCLIENTID_CONFIRM4args_ClientId = 0, SETCLIENTID_CONFIRM4args_Verifier = 0\<rparr>"

definition enc_SETCLIENTID_CONFIRM4args :: "SETCLIENTID_CONFIRM4args \<Rightarrow> xenc" where
  "enc_SETCLIENTID_CONFIRM4args x = EncodeAll [eUint64 (SETCLIENTID_CONFIRM4args_ClientId x),
      eUint64 (SETCLIENTID_CONFIRM4args_Verifier x)]"

definition dec_SETCLIENTID_CONFIRM4args :: "SETCLIENTID_CONFIRM4args xdec" where
  "dec_SETCLIENTID_CONFIRM4args =
    dthen dUint64 (\<lambda>x1. dthen dUint64 (\<lambda>x2.
      dret \<lparr>SETCLIENTID_CONFIRM4args_ClientId = x1, SETCLIENTID_CONFIRM4args_Verifier = x2\<rparr>))"

definition ok_SETCLIENTID_CONFIRM4args :: "SETCLIENTID_CONFIRM4args \<Rightarrow> bool" where
  "ok_SETCLIENTID_CONFIRM4args x \<longleftrightarrow> True"

declare ok_SETCLIENTID_CONFIRM4args_def [simp]

interpretation SETCLIENTID_CONFIRM4argsC: xdr_codec enc_SETCLIENTID_CONFIRM4args dec_SETCLIENTID_CONFIRM4args ok_SETCLIENTID_CONFIRM4args
  by unfold_locales
    (auto simp: enc_SETCLIENTID_CONFIRM4args_def dec_SETCLIENTID_CONFIRM4args_def dthen_def intro!: framed_intros)

record PUTFH4args =
  PUTFH4args_Fh :: bytes

definition zero_PUTFH4args :: PUTFH4args where
  "zero_PUTFH4args = \<lparr>PUTFH4args_Fh = []\<rparr>"

definition enc_PUTFH4args :: "PUTFH4args \<Rightarrow> xenc" where
  "enc_PUTFH4args x = EncodeAll [eBytes (PUTFH4args_Fh x)]"

definition dec_PUTFH4args :: "PUTFH4args xdec" where
  "dec_PUTFH4args =
    dthen dBytes (\<lambda>x1.
      dret \<lparr>PUTFH4args_Fh = x1\<rparr>)"

definition ok_PUTFH4args :: "PUTFH4args \<Rightarrow> bool" where
  "ok_PUTFH4args x \<longleftrightarrow> fits32 (PUTFH4args_Fh x)"

interpretation PUTFH4argsC: xdr_codec enc_PUTFH4args dec_PUTFH4args ok_PUTFH4args
  by unfold_locales
    (auto simp: enc_PUTFH4args_def dec_PUTFH4args_def ok_PUTFH4args_def dthen_def intro!: framed_intros)

type_synonym GETFH4args = unit

definition enc_GETFH4args :: "GETFH4args \<Rightarrow> xenc" where
  "enc_GETFH4args x = ([], None)"

definition dec_GETFH4args :: "GETFH4args xdec" where
  "dec_GETFH4args = dret ()"

interpretation GETFH4argsC: xdr_codec enc_GETFH4args dec_GETFH4args "\<lambda>_. True"
  by unfold_locales (auto simp: enc_GETFH4args_def dec_GETFH4args_def intro: framed_intros)

record LOOKUP4args =
  LOOKUP4args_ObjName :: string

definition zero_LOOKUP4args :: LOOKUP4args where
  "zero_LOOKUP4args = \<lparr>LOOKUP4args_ObjName = []\<rparr>"

definition enc_LOOKUP4args :: "LOOKUP4args \<Rightarrow> xenc" where
  "enc_LOOKUP4args x = EncodeAll [eString (LOOKUP4args_ObjName x)]"

definition dec_LOOKUP4args :: "LOOKUP4args xdec" where
  "dec_LOOKUP4args =
    dthen dString (\<lambda>x1.
      dret \<lparr>LOOKUP4args_ObjName = x1\<rparr>)"

definition ok_LOOKUP4args :: "LOOKUP4args \<Rightarrow> bool" where
  "ok_LOOKUP4args x \<longleftrightarrow> fits32 (LOOKUP4args_ObjName x)"

interpretation LOOKUP4argsC: xdr_codec enc_LOOKUP4args dec_LOOKUP4args ok_LOOKUP4args
  by unfold_locales
    (auto simp: enc_LOOKUP4args_def dec_LOOKUP4args_def ok_LOOKUP4args_def dthen_def intro!: framed_intros)

record ACCESS4args =
  ACCESS4args_Access :: u32

definition zero_ACCESS4args :: ACCESS4args where
  "zero_ACCESS4args = \<lparr>ACCESS4args_Access = 0\<rparr>"

definition enc_ACCESS4args :: "ACCESS4args \<Rightarrow> xenc" where
  "enc_ACCESS4args x = EncodeAll [eUint32 (ACCESS4args_Access x)]"

definition dec_ACCESS4args :: "ACCESS4args xdec" where
  "dec_ACCESS4args =
    dthen dUint32 (\<lambda>x1.
      dret \<lparr>ACCESS4args_Access = x1\<rparr>)"

definition ok_ACCESS4args :: "ACCESS4args \<Rightarrow> bool" where
  "ok_ACCESS4args x \<longleftrightarrow> True"

declare ok_ACCESS4args_def [simp]

interpretation ACCESS4argsC: xdr_codec enc_ACCESS4args dec_ACCESS4args ok_ACCESS4args
  by unfold_locales
    (auto simp: enc_ACCESS4args_def dec_ACCESS4args_def dthen_def intro!: framed_intros)

record READDIR4args =
  READDIR4args_Cookie :: u64
  READDIR4args_CookieVerf :: u64
  READDIR4args_DirCount :: u32
  READDIR4args_MaxCount :: u32
  READDIR4args_AttrRequest :: "u32 list"

definition zero_READDIR4args :: READDIR4args where
  "zero_READDIR4args = \<lparr>READDIR4args_Cookie = 0, READDIR4args_CookieVerf = 0, READDIR4args_DirCount = 0,
      READDIR4args_MaxCount = 0, READDIR4args_AttrRequest = []\<rparr>"

definition enc_READDIR4args :: "READDIR4args \<Rightarrow> xenc" where
  "enc_READDIR4args x = EncodeAll [eUint64 (READDIR4args_Cookie x), eUint64 (READDIR4args_CookieVerf x),
      eUint32 (READDIR4args_DirCount x), eUint32 (READDIR4args_MaxCount x),
      eUint32s (READDIR4args_AttrRequest x)]"

definition dec_READDIR4args :: "READDIR4args xdec" where
  "dec_READDIR4args =
    dthen dUint64 (\<lambda>x1. dthen dUint64 (\<lambda>x2. dthen dUint32 (\<lambda>x3.
    dthen dUint32 (\<lambda>x4. dthen dUint32s (\<lambda>x5.
      dret \<lparr>READDIR4args_Cookie = x1, READDIR4args_CookieVerf = x2, READDIR4args_DirCount = x3,
      READDIR4args_MaxCount = x4, READDIR4args_AttrRequest = x5\<rparr>)))))"

definition ok_READDIR4args :: "READDIR4args \<Rightarrow> bool" where
  "ok_READDIR4args x \<longleftrightarrow> fits32 (READDIR4args_AttrRequest x)"

interpretation READDIR4argsC: xdr_codec enc_READDIR4args dec_READDIR4args ok_READDIR4args
  by unfold_locales
    (auto simp: enc_READDIR4args_def dec_READDIR4args_def ok_READDIR4args_def dthen_def intro!: framed_intros)

record SECINFO4args =
  SECINFO4args_Name :: string

definition zero_SECINFO4args :: SECINFO4args where
  "zero_SECINFO4args = \<lparr>SECINFO4args_Name = []\<rparr>"

definition enc_SECINFO4args :: "SECINFO4args \<Rightarrow> xenc" where
  "enc_SECINFO4args x = EncodeAll [eString (SECINFO4args_Name x)]"

definition dec_SECINFO4args :: "SECINFO4args xdec" where
  "dec_SECINFO4args =
    dthen dString (\<lambda>x1.
      dret \<lparr>SECINFO4args_Name = x1\<rparr>)"

definition ok_SECINFO4args :: "SECINFO4args \<Rightarrow> bool" where
  "ok_SECINFO4args x \<longleftrightarrow> fits32 (SECINFO4args_Name x)"

interpretation SECINFO4argsC: xdr_codec enc_SECINFO4args dec_SECINFO4args ok_SECINFO4args
  by unfold_locales
    (auto simp: enc_SECINFO4args_def dec_SECINFO4args_def ok_SECINFO4args_def dthen_def intro!: framed_intros)

record RENEW4args =
  RENEW4args_ClientId :: u64

definition zero_RENEW4args :: RENEW4args where
  "zero_RENEW4args = \<lparr>RENEW4args_ClientId = 0\<rparr>"

definition enc_RENEW4args :: "RENEW4args \<Rightarrow> xenc" where
  "enc_RENEW4args x = EncodeAll [eUint64 (RENEW4args_ClientId x)]"

definition dec_RENEW4args :: "RENEW4args xdec" where
  "dec_RENEW4args =
    dthen dUint64 (\<lambda>x1.
      dret \<lparr>RENEW4args_ClientId = x1\<rparr>)"

definition ok_RENEW4args :: "RENEW4args \<Rightarrow> bool" where
  "ok_RENEW4args x \<longleftrightarrow> True"

declare ok_RENEW4args_def [simp]

interpretation RENEW4argsC: xdr_codec enc_RENEW4args dec_RENEW4args ok_RENEW4args
  by unfold_locales
    (auto simp: enc_RENEW4args_def dec_RENEW4args_def dthen_def intro!: framed_intros)

record CREATE4args =
  CREATE4args_Type :: CREATE4type
  CREATE4args_ObjName :: string
  CREATE4args_CreateAttrs :: FAttr4

definition zero_CREATE4args :: CREATE4args where
  "zero_CREATE4args = \<lparr>CREATE4args_Type = zero_CREATE4type, CREATE4args_ObjName = [],
      CREATE4args_CreateAttrs = zero_FAttr4\<rparr>"

definition enc_CREATE4args :: "CREATE4args \<Rightarrow> xenc" where
  "enc_CREATE4args x = EncodeAll [enc_CREATE4type (CREATE4args_Type x), eString (CREATE4args_ObjName x),
      enc_FAttr4 (CREATE4args_CreateAttrs x)]"

definition dec_CREATE4args :: "CREATE4args xdec" where
  "dec_CREATE4args =
    dthen dec_CREATE4type (\<lambda>x1. dthen dString (\<lambda>x2.
    dthen dec_FAttr4 (\<lambda>x3.
      dret \<lparr>CREATE4args_Type = x1, CREATE4args_ObjName = x2, CREATE4args_CreateAttrs = x3\<rparr>)))"

definition ok_CREATE4args :: "CREATE4args \<Rightarrow> bool" where
  "ok_CREATE4args x \<longleftrightarrow> ok_CREATE4type (CREATE4args_Type x) \<and> fits32 (CREATE4args_ObjName x) \<and>
      ok_FAttr4 (CREATE4args_CreateAttrs x)"

interpretation CREATE4argsC: xdr_codec enc_CREATE4args dec_CREATE4args ok_CREATE4args
  by unfold_locales
    (auto simp: enc_CREATE4args_def dec_CREATE4args_def ok_CREATE4args_def dthen_def intro!: framed_intros)

record OPEN4args =
  OPEN4args_SeqID :: u32
  OPEN4args_ShareAccess :: u32
  OPEN4args_ShareDeny :: u32
  OPEN4args_Owner :: OpenOwner4
  OPEN4args_OpenHow :: OpenHow4
  OPEN4args_OpenClaim :: OpenClaim4

definition zero_OPEN4args :: OPEN4args where
  "zero_OPEN4args = \<lparr>OPEN4args_SeqID = 0, OPEN4args_ShareAccess = 0, OPEN4args_ShareDeny = 0,
      OPEN4args_Owner = zero_OpenOwner4, OPEN4args_OpenHow = zero_OpenHow4,
      OPEN4args_OpenClaim = zero_OpenClaim4\<rparr>"

definition enc_OPEN4args :: "OPEN4args \<Rightarrow> xenc" where
  "enc_OPEN4args x = EncodeAll [eUint32 (OPEN4args_SeqID x), eUint32 (OPEN4args_ShareAccess x),
      eUint32 (OPEN4args_ShareDeny x), enc_OpenOwner4 (OPEN4args_Owner x),
      enc_OpenHow4 (OPEN4args_OpenHow x), enc_OpenClaim4 (OPEN4args_OpenClaim x)]"

definition dec_OPEN4args :: "OPEN4args xdec" where
  "dec_OPEN4args =
    dthen dUint32 (\<lambda>x1. dthen dUint32 (\<lambda>x2. dthen dUint32 (\<lambda>x3.
    dthen dec_OpenOwner4 (\<lambda>x4. dthen dec_OpenHow4 (\<lambda>x5.
    dthen dec_OpenClaim4 (\<lambda>x6.
      dret \<lparr>OPEN4args_SeqID = x1, OPEN4args_ShareAccess = x2, OPEN4args_ShareDeny = x3,
      OPEN4args_Owner = x4, OPEN4args_OpenHow = x5, OPEN4args_OpenClaim = x6\<rparr>))))))"

definition ok_OPEN4args :: "OPEN4args \<Rightarrow> bool" where
  "ok_OPEN4args x \<longleftrightarrow> ok_OpenOwner4 (OPEN4args_Owner x) \<and> ok_OpenHow4 (OPEN4args_OpenHow x) \<and>
      ok_OpenClaim4 (OPEN4args_OpenClaim x)"

interpretation OPEN4argsC: xdr_codec enc_OPEN4args dec_OPEN4args ok_OPEN4args
  by unfold_locales
    (auto simp: enc_OPEN4args_def dec_OPEN4args_def ok_OPEN4args_def dthen_def intro!: framed_intros)

record OPENDG4args =
  OPENDG4args_OpenStateId :: StateId4
  OPENDG4args_SeqId :: u32
  OPENDG4args_ShareAccess :: u32
  OPENDG4args_ShareDeny :: u32

definition zero_OPENDG4args :: OPENDG4args where
  "zero_OPENDG4args = \<lparr>OPENDG4args_OpenStateId = zero_StateId4, OPENDG4args_SeqId = 0,
      OPENDG4args_ShareAccess = 0, OPENDG4args_ShareDeny = 0\<rparr>"

definition enc_OPENDG4args :: "OPENDG4args \<Rightarrow> xenc" where
  "enc_OPENDG4args x = EncodeAll [enc_StateId4 (OPENDG4args_OpenStateId x), eUint32 (OPENDG4args_SeqId x),
      eUint32 (OPENDG4args_ShareAccess x), eUint32 (OPENDG4args_ShareDeny x)]"

definition dec_OPENDG4args :: "OPENDG4args xdec" where
  "dec_OPENDG4args =
    dthen dec_StateId4 (\<lambda>x1. dthen dUint32 (\<lambda>x2. dthen dUint32 (\<lambda>x3.
    dthen dUint32 (\<lambda>x4.
      dret \<lparr>OPENDG4args_OpenStateId = x1, OPENDG4args_SeqId = x2, OPENDG4args_ShareAccess = x3,
      OPENDG4args_ShareDeny = x4\<rparr>))))"

definition ok_OPENDG4args :: "OPENDG4args \<Rightarrow> bool" where
  "ok_OPENDG4args x \<longleftrightarrow> ok_StateId4 (OPENDG4args_OpenStateId x)"

interpretation OPENDG4argsC: xdr_codec enc_OPENDG4args dec_OPENDG4args ok_OPENDG4args
  by unfold_locales
    (auto simp: enc_OPENDG4args_def dec_OPENDG4args_def ok_OPENDG4args_def dthen_def intro!: framed_intros)

record CLOSE4args =
  CLOSE4args_SeqId :: u32
  CLOSE4args_OpenStateId :: StateId4

definition zero_CLOSE4args :: CLOSE4args where
  "zero_CLOSE4args = \<lparr>CLOSE4args_SeqId = 0, CLOSE4args_OpenStateId = zero_StateId4\<rparr>"

definition enc_CLOSE4args :: "CLOSE4args \<Rightarrow> xenc" where
  "enc_CLOSE4args x = EncodeAll [eUint32 (CLOSE4args_SeqId x), enc_StateId4 (CLOSE4args_OpenStateId x)]"

definition dec_CLOSE4args :: "CLOSE4args xdec" where
  "dec_CLOSE4args =
    dthen dUint32 (\<lambda>x1. dthen dec_StateId4 (\<lambda>x2.
      dret \<lparr>CLOSE4args_SeqId = x1, CLOSE4args_OpenStateId = x2\<rparr>))"

definition ok_CLOSE4args :: "CLOSE4args \<Rightarrow> bool" where
  "ok_CLOSE4args x \<longleftrightarrow> ok_StateId4 (CLOSE4args_OpenStateId x)"

interpretation CLOSE4argsC: xdr_codec enc_CLOSE4args dec_CLOSE4args ok_CLOSE4args
  by unfold_locales
    (auto simp: enc_CLOSE4args_def dec_CLOSE4args_def ok_CLOSE4args_def dthen_def intro!: framed_intros)

record SETATTR4args =
  SETATTR4args_StateId :: StateId4
  SETATTR4args_Attrs :: FAttr4

definition zero_SETATTR4args :: SETATTR4args where
  "zero_SETATTR4args = \<lparr>SETATTR4args_StateId = zero_StateId4, SETATTR4args_Attrs = zero_FAttr4\<rparr>"

definition enc_SETATTR4args :: "SETATTR4args \<Rightarrow> xenc" where
  "enc_SETATTR4args x = EncodeAll [enc_StateId4 (SETATTR4args_StateId x), enc_FAttr4 (SETATTR4args_Attrs x)]"

definition dec_SETATTR4args :: "SETATTR4args xdec" where
  "dec_SETATTR4args =
    dthen dec_StateId4 (\<lambda>x1. dthen dec_FAttr4 (\<lambda>x2.
      dret \<lparr>SETATTR4args_StateId = x1, SETATTR4args_Attrs = x2\<rparr>))"

definition ok_SETATTR4args :: "SETATTR4args \<Rightarrow> bool" where
  "ok_SETATTR4args x \<longleftrightarrow> ok_StateId4 (SETATTR4args_StateId x) \<and> ok_FAttr4 (SETATTR4args_Attrs x)"

interpretation SETATTR4argsC: xdr_codec enc_SETATTR4args dec_SETATTR4args ok_SETATTR4args
  by unfold_locales
    (auto simp: enc_SETATTR4args_def dec_SETATTR4args_def ok_SETATTR4args_def dthen_def intro!: framed_intros)

record REMOVE4args =
  REMOVE4args_Target :: string

definition zero_REMOVE4args :: REMOVE4args where
  "zero_REMOVE4args = \<lparr>REMOVE4args_Target = []\<rparr>"

definition enc_REMOVE4args :: "REMOVE4args \<Rightarrow> xenc" where
  "enc_REMOVE4args x = EncodeAll [eString (REMOVE4args_Target x)]"

definition dec_REMOVE4args :: "REMOVE4args xdec" where
  "dec_REMOVE4args =
    dthen dString (\<lambda>x1.
      dret \<lparr>REMOVE4args_Target = x1\<rparr>)"

definition ok_REMOVE4args :: "REMOVE4args \<Rightarrow> bool" where
  "ok_REMOVE4args x \<longleftrightarrow> fits32 (REMOVE4args_Target x)"

interpretation REMOVE4argsC: xdr_codec enc_REMOVE4args dec_REMOVE4args ok_REMOVE4args
  by unfold_locales
    (auto simp: enc_REMOVE4args_def dec_REMOVE4args_def ok_REMOVE4args_def dthen_def intro!: framed_intros)

record COMMIT4args =
  COMMIT4args_Offset :: u64
  COMMIT4args_Count :: u32

definition zero_COMMIT4args :: COMMIT4args where
  "zero_COMMIT4args = \<lparr>COMMIT4args_Offset = 0, COMMIT4args_Count = 0\<rparr>"

definition enc_COMMIT4args :: "COMMIT4args \<Rightarrow> xenc" where
  "enc_COMMIT4args x = EncodeAll [eUint64 (COMMIT4args_Offset x), eUint32 (COMMIT4args_Count x)]"

definition dec_COMMIT4args :: "COMMIT4args xdec" where
  "dec_COMMIT4args =
    dthen dUint64 (\<lambda>x1. dthen dUint32 (\<lambda>x2.
      dret \<lparr>COMMIT4args_Offset = x1, COMMIT4args_Count = x2\<rparr>))"

definition ok_COMMIT4args :: "COMMIT4args \<Rightarrow> bool" where
  "ok_COMMIT4args x \<longleftrightarrow> True"

declare ok_COMMIT4args_def [simp]

interpretation COMMIT4argsC: xdr_codec enc_COMMIT4args dec_COMMIT4args ok_COMMIT4args
  by unfold_locales
    (auto simp: enc_COMMIT4args_def dec_COMMIT4args_def dthen_def intro!: framed_intros)

record WRITE4args =
  WRITE4args_StateId :: StateId4
  WRITE4args_Offset :: u64
  WRITE4args_Stable :: u32
  WRITE4args_Data :: bytes

definition zero_WRITE4args :: WRITE4args where
  "zero_WRITE4args = \<lparr>WRITE4args_StateId = zero_StateId4, WRITE4args_Offset = 0, WRITE4args_Stable = 0,
      WRITE4args_Data = []\<rparr>"

definition enc_WRITE4args :: "WRITE4args \<Rightarrow> xenc" where
  "enc_WRITE4args x = EncodeAll [enc_StateId4 (WRITE4args_StateId x), eUint64 (WRITE4args_Offset x),
      eUint32 (WRITE4args_Stable x), eBytes (WRITE4args_Data x)]"

definition dec_WRITE4args :: "WRITE4args xdec" where
  "dec_WRITE4args =
    dthen dec_StateId4 (\<lambda>x1. dthen dUint64 (\<lambda>x2. dthen dUint32 (\<lambda>x3.
    dthen dBytes (\<lambda>x4.
      dret \<lparr>WRITE4args_StateId = x1, WRITE4args_Offset = x2, WRITE4args_Stable = x3,
      WRITE4args_Data = x4\<rparr>))))"

definition ok_WRITE4args :: "WRITE4args \<Rightarrow> bool" where
  "ok_WRITE4args x \<longleftrightarrow> ok_StateId4 (WRITE4args_StateId x) \<and> fits32 (WRITE4args_Data x)"

interpretation WRITE4argsC: xdr_codec enc_WRITE4args dec_WRITE4args ok_WRITE4args
  by unfold_locales
    (auto simp: enc_WRITE4args_def dec_WRITE4args_def ok_WRITE4args_def dthen_def intro!: framed_intros)

record READ4args =
  READ4args_StateId :: StateId4
  READ4args_Offset :: u64
  READ4args_Count :: u32

definition zero_READ4args :: READ4args where
  "zero_READ4args = \<lparr>READ4args_StateId = zero_StateId4, READ4args_Offset = 0, READ4args_Count = 0\<rparr>"

definition enc_READ4args :: "READ4args \<Rightarrow> xenc" where
  "enc_READ4args x = EncodeAll [enc_StateId4 (READ4args_StateId x), eUint64 (READ4args_Offset x),
      eUint32 (READ4args_Count x)]"

definition dec_READ4args :: "READ4args xdec" where
  "dec_READ4args =
    dthen dec_StateId4 (\<lambda>x1. dthen dUint64 (\<lambda>x2. dthen dUint32 (\<lambda>x3.
      dret \<lparr>READ4args_StateId = x1, READ4args_Offset = x2, READ4args_Count = x3\<rparr>)))"

definition ok_READ4args :: "READ4args \<Rightarrow> bool" where
  "ok_READ4args x \<longleftrightarrow> ok_StateId4 (READ4args_StateId x)"

interpretation READ4argsC: xdr_codec enc_READ4args dec_READ4args ok_READ4args
  by unfold_locales
    (auto simp: enc_READ4args_def dec_READ4args_def ok_READ4args_def dthen_def intro!: framed_intros)

record RENAME4args =
  RENAME4args_OldName :: string
  RENAME4args_NewName :: string

definition zero_RENAME4args :: RENAME4args where
  "zero_RENAME4args = \<lparr>RENAME4args_OldName = [], RENAME4args_NewName = []\<rparr>"

definition enc_RENAME4args :: "RENAME4args \<Rightarrow> xenc" where
  "enc_RENAME4args x = EncodeAll [eString (RENAME4args_OldName x), eString (RENAME4args_NewName x)]"

definition dec_RENAME4args :: "RENAME4args xdec" where
  "dec_RENAME4args =
    dthen dString (\<lambda>x1. dthen dString (\<lambda>x2.
      dret \<lparr>RENAME4args_OldName = x1, RENAME4args_NewName = x2\<rparr>))"

definition ok_RENAME4args :: "RENAME4args \<Rightarrow> bool" where
  "ok_RENAME4args x \<longleftrightarrow> fits32 (RENAME4args_OldName x) \<and> fits32 (RENAME4args_NewName x)"

interpretation RENAME4argsC: xdr_codec enc_RENAME4args dec_RENAME4args ok_RENAME4args
  by unfold_locales
    (auto simp: enc_RENAME4args_def dec_RENAME4args_def ok_RENAME4args_def dthen_def intro!: framed_intros)

record LINK4args =
  LINK4args_NewName :: string

definition zero_LINK4args :: LINK4args where
  "zero_LINK4args = \<lparr>LINK4args_NewName = []\<rparr>"

definition enc_LINK4args :: "LINK4args \<Rightarrow> xenc" where
  "enc_LINK4args x = EncodeAll [eString (LINK4args_NewName x)]"

definition dec_LINK4args :: "LINK4args xdec" where
  "dec_LINK4args =
    dthen dString (\<lambda>x1.
      dret \<lparr>LINK4args_NewName = x1\<rparr>)"

definition ok_LINK4args :: "LINK4args \<Rightarrow> bool" where
  "ok_LINK4args x \<longleftrightarrow> fits32 (LINK4args_NewName x)"

interpretation LINK4argsC: xdr_codec enc_LINK4args dec_LINK4args ok_LINK4args
  by unfold_locales
    (auto simp: enc_LINK4args_def dec_LINK4args_def ok_LINK4args_def dthen_def intro!: framed_intros)

record GETXATTR4args =
  GETXATTR4args_Name :: string

definition zero_GETXATTR4args :: GETXATTR4args where
  "zero_GETXATTR4args = \<lparr>GETXATTR4args_Name = []\<rparr>"

definition enc_GETXATTR4args :: "GETXATTR4args \<Rightarrow> xenc" where
  "enc_GETXATTR4args x = EncodeAll [eString (GETXATTR4args_Name x)]"

definition dec_GETXATTR4args :: "GETXATTR4args xdec" where
  "dec_GETXATTR4args =
    dthen dString (\<lambda>x1.
      dret \<lparr>GETXATTR4args_Name = x1\<rparr>)"

definition ok_GETXATTR4args :: "GETXATTR4args \<Rightarrow> bool" where
  "ok_GETXATTR4args x \<longleftrightarrow> fits32 (GETXATTR4args_Name x)"

interpretation GETXATTR4argsC: xdr_codec enc_GETXATTR4args dec_GETXATTR4args ok_GETXATTR4args
  by unfold_locales
    (auto simp: enc_GETXATTR4args_def dec_GETXATTR4args_def ok_GETXATTR4args_def dthen_def intro!: framed_intros)

record SETXATTR4args =
  SETXATTR4args_Option :: u32
  SETXATTR4args_Name :: string
  SETXATTR4args_Value :: bytes

definition zero_SETXATTR4args :: SETXATTR4args where
  "zero_SETXATTR4args = \<lparr>SETXATTR4args_Option = 0, SETXATTR4args_Name = [], SETXATTR4args_Value = []\<rparr>"

definition enc_SETXATTR4args :: "SETXATTR4args \<Rightarrow> xenc" where
  "enc_SETXATTR4args x = EncodeAll [eUint32 (SETXATTR4args_Option x), eString (SETXATTR4args_Name x),
      eBytes (SETXATTR4args_Value x)]"

definition dec_SETXATTR4args :: "SETXATTR4args xdec" where
  "dec_SETXATTR4args =
    dthen dUint32 (\<lambda>x1. dthen dString (\<lambda>x2. dthen dBytes (\<lambda>x3.
      dret \<lparr>SETXATTR4args_Option = x1, SETXATTR4args_Name = x2, SETXATTR4args_Value = x3\<rparr>)))"

definition ok_SETXATTR4args :: "SETXATTR4args \<Rightarrow> bool" where
  "ok_SETXATTR4args x \<longleftrightarrow> fits32 (SETXATTR4args_Name x) \<and> fits32 (SETXATTR4args_Value x)"

interpretation SETXATTR4argsC: xdr_codec enc_SETXATTR4args dec_SETXATTR4args ok_SETXATTR4args
  by unfold_locales
    (auto simp: enc_SETXATTR4args_def dec_SETXATTR4args_def ok_SETXATTR4args_def dthen_def intro!: framed_intros)

record LISTXATTRS4args =
  LISTXATTRS4args_Cookie :: u64
  LISTXATTRS4args_MaxCount :: u32

definition zero_LISTXATTRS4args :: LISTXATTRS4args where
  "zero_LISTXATTRS4args = \<lparr>LISTXATTRS4args_Cookie = 0, LISTXATTRS4args_MaxCount = 0\<rparr>"

definition enc_LISTXATTRS4args :: "LISTXATTRS4args \<Rightarrow> xenc" where
  "enc_LISTXATTRS4args x = EncodeAll [eUint64 (LISTXATTRS4args_Cookie x), eUint32 (LISTXATTRS4args_MaxCount x)]"

definition dec_LISTXATTRS4args :: "LISTXATTRS4args xdec" where
  "dec_LISTXATTRS4args =
    dthen dUint64 (\<lambda>x1. dthen dUint32 (\<lambda>x2.
      dret \<lparr>LISTXATTRS4args_Cookie = x1, LISTXATTRS4args_MaxCount = x2\<rparr>))"

definition ok_LISTXATTRS4args :: "LISTXATTRS4args \<Rightarrow> bool" where
  "ok_LISTXATTRS4args x \<longleftrightarrow> True"

declare ok_LISTXATTRS4args_def [simp]

interpretation LISTXATTRS4argsC: xdr_codec enc_LISTXATTRS4args dec_LISTXATTRS4args ok_LISTXATTRS4args
  by unfold_locales
    (auto simp: enc_LISTXATTRS4args_def dec_LISTXATTRS4args_def dthen_def intro!: framed_intros)

record REMOVEXATTR4args =
  REMOVEXATTR4args_Name :: string

definition zero_REMOVEXATTR4args :: REMOVEXATTR4args where
  "zero_REMOVEXATTR4args = \<lparr>REMOVEXATTR4args_Name = []\<rparr>"

definition enc_REMOVEXATTR4args :: "REMOVEXATTR4args \<Rightarrow> xenc" where
  "enc_REMOVEXATTR4args x = EncodeAll [eString (REMOVEXATTR4args_Name x)]"

definition dec_REMOVEXATTR4args :: "REMOVEXATTR4args xdec" where
  "dec_REMOVEXATTR4args =
    dthen dString (\<lambda>x1.
      dret \<lparr>REMOVEXATTR4args_Name = x1\<rparr>)"

definition ok_REMOVEXATTR4args :: "REMOVEXATTR4args \<Rightarrow> bool" where
  "ok_REMOVEXATTR4args x \<longleftrightarrow> fits32 (REMOVEXATTR4args_Name x)"

interpretation REMOVEXATTR4argsC: xdr_codec enc_REMOVEXATTR4args dec_REMOVEXATTR4args ok_REMOVEXATTR4args
  by unfold_locales
    (auto simp: enc_REMOVEXATTR4args_def dec_REMOVEXATTR4args_def ok_REMOVEXATTR4args_def dthen_def intro!: framed_intros)

record EXCHANGE_ID4args =
  EXCHANGE_ID4args_ClientOwner :: ClientOwner4
  EXCHANGE_ID4args_Flags :: u32
  EXCHANGE_ID4args_StateProtect :: StateProtect4
  EXCHANGE_ID4args_ClientImplId :: "NfsImplId4 option"

definition zero_EXCHANGE_ID4args :: EXCHANGE_ID4args where
  "zero_EXCHANGE_ID4args = \<lparr>EXCHANGE_ID4args_ClientOwner = zero_ClientOwner4, EXCHANGE_ID4args_Flags = 0,
      EXCHANGE_ID4args_StateProtect = zero_StateProtect4, EXCHANGE_ID4args_ClientImplId = None\<rparr>"

definition enc_EXCHANGE_ID4args :: "EXCHANGE_ID4args \<Rightarrow> xenc" where
  "enc_EXCHANGE_ID4args x = EncodeAll [enc_ClientOwner4 (EXCHANGE_ID4args_ClientOwner x), eUint32 (EXCHANGE_ID4args_Flags x),
      enc_StateProtect4 (EXCHANGE_ID4args_StateProtect x),
      (eOption enc_NfsImplId4) (EXCHANGE_ID4args_ClientImplId x)]"

definition dec_EXCHANGE_ID4args :: "EXCHANGE_ID4args xdec" where
  "dec_EXCHANGE_ID4args =
    dthen dec_ClientOwner4 (\<lambda>x1. dthen dUint32 (\<lambda>x2.
    dthen dec_StateProtect4 (\<lambda>x3. dthen (dOption dec_NfsImplId4) (\<lambda>x4.
      dret \<lparr>EXCHANGE_ID4args_ClientOwner = x1, EXCHANGE_ID4args_Flags = x2,
      EXCHANGE_ID4args_StateProtect = x3, EXCHANGE_ID4args_ClientImplId = x4\<rparr>))))"

definition ok_EXCHANGE_ID4args :: "EXCHANGE_ID4args \<Rightarrow> bool" where
  "ok_EXCHANGE_ID4args x \<longleftrightarrow> ok_ClientOwner4 (EXCHANGE_ID4args_ClientOwner x) \<and>
      ok_StateProtect4 (EXCHANGE_ID4args_StateProtect x) \<and>
      (pred_option ok_NfsImplId4) (EXCHANGE_ID4args_ClientImplId x)"

interpretation EXCHANGE_ID4argsC: xdr_codec enc_EXCHANGE_ID4args dec_EXCHANGE_ID4args ok_EXCHANGE_ID4args
  by unfold_locales
    (auto simp: enc_EXCHANGE_ID4args_def dec_EXCHANGE_ID4args_def ok_EXCHANGE_ID4args_def dthen_def intro!: framed_intros)

text \<open>\<^verbatim>\<open>msg.Creds\<close>, which is not the type of the credentials of package \<^verbatim>\<open>auth\<close>.\<close>

record msg_Creds =
  msg_Creds_ExpirationValue :: u32
  msg_Creds_Hostname :: string
  msg_Creds_UID :: u32
  msg_Creds_GID :: u32
  msg_Creds_AdditionalGroups :: "u32 list"

definition enc_msg_Creds :: "msg_Creds \<Rightarrow> xenc" where
  "enc_msg_Creds x = EncodeAll [eUint32 (msg_Creds_ExpirationValue x), eString (msg_Creds_Hostname x),
      eUint32 (msg_Creds_UID x), eUint32 (msg_Creds_GID x), eUint32s (msg_Creds_AdditionalGroups x)]"

definition dec_msg_Creds :: "msg_Creds xdec" where
  "dec_msg_Creds =
    dthen dUint32 (\<lambda>x1. dthen dString (\<lambda>x2. dthen dUint32 (\<lambda>x3. dthen dUint32 (\<lambda>x4. dthen dUint32s (\<lambda>x5.
      dret \<lparr>msg_Creds_ExpirationValue = x1, msg_Creds_Hostname = x2, msg_Creds_UID = x3, msg_Creds_GID = x4,
        msg_Creds_AdditionalGroups = x5\<rparr>)))))"

definition ok_msg_Creds :: "msg_Creds \<Rightarrow> bool" where
  "ok_msg_Creds x \<longleftrightarrow> fits32 (msg_Creds_Hostname x) \<and> fits32 (msg_Creds_AdditionalGroups x)"

interpretation msg_CredsC: xdr_codec enc_msg_Creds dec_msg_Creds ok_msg_Creds
  by unfold_locales
    (auto simp: enc_msg_Creds_def dec_msg_Creds_def ok_msg_Creds_def dthen_def intro!: framed_intros)

record CREATE_SESSION4args =
  CREATE_SESSION4args_ClientID :: u64
  CREATE_SESSION4args_SequenceID :: u32
  CREATE_SESSION4args_Flags :: u32
  CREATE_SESSION4args_ForeChanAttrs :: ChannelAttrs4
  CREATE_SESSION4args_BackChanAttrs :: ChannelAttrs4
  CREATE_SESSION4args_CbProgram :: u32
  CREATE_SESSION4args_SecParms :: bytes

definition zero_CREATE_SESSION4args :: CREATE_SESSION4args where
  "zero_CREATE_SESSION4args = \<lparr>CREATE_SESSION4args_ClientID = 0, CREATE_SESSION4args_SequenceID = 0,
      CREATE_SESSION4args_Flags = 0, CREATE_SESSION4args_ForeChanAttrs = zero_ChannelAttrs4,
      CREATE_SESSION4args_BackChanAttrs = zero_ChannelAttrs4,
      CREATE_SESSION4args_CbProgram = 0, CREATE_SESSION4args_SecParms = []\<rparr>"

definition enc_CREATE_SESSION4args :: "CREATE_SESSION4args \<Rightarrow> xenc" where
  "enc_CREATE_SESSION4args x = EncodeAll [eUint64 (CREATE_SESSION4args_ClientID x), eUint32 (CREATE_SESSION4args_SequenceID x),
      eUint32 (CREATE_SESSION4args_Flags x),
      enc_ChannelAttrs4 (CREATE_SESSION4args_ForeChanAttrs x),
      enc_ChannelAttrs4 (CREATE_SESSION4args_BackChanAttrs x),
      eUint32 (CREATE_SESSION4args_CbProgram x), eBytes (CREATE_SESSION4args_SecParms x)]"

definition dec_CREATE_SESSION4args :: "CREATE_SESSION4args xdec" where
  "dec_CREATE_SESSION4args =
    dthen dUint64 (\<lambda>x1. dthen dUint32 (\<lambda>x2. dthen dUint32 (\<lambda>x3.
    dthen dec_ChannelAttrs4 (\<lambda>x4. dthen dec_ChannelAttrs4 (\<lambda>x5.
    dthen dUint32 (\<lambda>x6. dthen dBytes (\<lambda>x7.
      dret \<lparr>CREATE_SESSION4args_ClientID = x1, CREATE_SESSION4args_SequenceID = x2,
      CREATE_SESSION4args_Flags = x3, CREATE_SESSION4args_ForeChanAttrs = x4,
      CREATE_SESSION4args_BackChanAttrs = x5, CREATE_SESSION4args_CbProgram = x6,
      CREATE_SESSION4args_SecParms = x7\<rparr>)))))))"

definition ok_CREATE_SESSION4args :: "CREATE_SESSION4args \<Rightarrow> bool" where
  "ok_CREATE_SESSION4args x \<longleftrightarrow> ok_ChannelAttrs4 (CREATE_SESSION4args_ForeChanAttrs x) \<and>
      ok_ChannelAttrs4 (CREATE_SESSION4args_BackChanAttrs x) \<and>
      fits32 (CREATE_SESSION4args_SecParms x)"

interpretation CREATE_SESSION4argsC: xdr_codec enc_CREATE_SESSION4args dec_CREATE_SESSION4args ok_CREATE_SESSION4args
  by unfold_locales
    (auto simp: enc_CREATE_SESSION4args_def dec_CREATE_SESSION4args_def ok_CREATE_SESSION4args_def dthen_def intro!: framed_intros)

record SEQUENCE4args =
  SEQUENCE4args_SessionID :: bytes
  SEQUENCE4args_SequenceID :: u32
  SEQUENCE4args_SlotID :: u32
  SEQUENCE4args_SlotIDHighest :: u32
  SEQUENCE4args_CacheThis :: bool

definition zero_SEQUENCE4args :: SEQUENCE4args where
  "zero_SEQUENCE4args = \<lparr>SEQUENCE4args_SessionID = replicate 16 0, SEQUENCE4args_SequenceID = 0,
      SEQUENCE4args_SlotID = 0, SEQUENCE4args_SlotIDHighest = 0,
      SEQUENCE4args_CacheThis = False\<rparr>"

definition enc_SEQUENCE4args :: "SEQUENCE4args \<Rightarrow> xenc" where
  "enc_SEQUENCE4args x = EncodeAll [eByteArray (SEQUENCE4args_SessionID x), eUint32 (SEQUENCE4args_SequenceID x),
      eUint32 (SEQUENCE4args_SlotID x), eUint32 (SEQUENCE4args_SlotIDHighest x),
      eBool (SEQUENCE4args_CacheThis x)]"

definition dec_SEQUENCE4args :: "SEQUENCE4args xdec" where
  "dec_SEQUENCE4args =
    dthen (dByteArray 16) (\<lambda>x1. dthen dUint32 (\<lambda>x2. dthen dUint32 (\<lambda>x3.
    dthen dUint32 (\<lambda>x4. dthen dBool (\<lambda>x5.
      dret \<lparr>SEQUENCE4args_SessionID = x1, SEQUENCE4args_SequenceID = x2, SEQUENCE4args_SlotID = x3,
      SEQUENCE4args_SlotIDHighest = x4, SEQUENCE4args_CacheThis = x5\<rparr>)))))"

definition ok_SEQUENCE4args :: "SEQUENCE4args \<Rightarrow> bool" where
  "ok_SEQUENCE4args x \<longleftrightarrow> len16 (SEQUENCE4args_SessionID x)"

interpretation SEQUENCE4argsC: xdr_codec enc_SEQUENCE4args dec_SEQUENCE4args ok_SEQUENCE4args
  by unfold_locales
    (auto simp: enc_SEQUENCE4args_def dec_SEQUENCE4args_def ok_SEQUENCE4args_def dthen_def intro!: framed_intros)

record RPCMsgCall =
  RPCMsgCall_Xid :: u32
  RPCMsgCall_MsgType :: u32
  RPCMsgCall_RPCVer :: u32
  RPCMsgCall_Prog :: u32
  RPCMsgCall_Vers :: u32
  RPCMsgCall_Proc :: u32
  RPCMsgCall_Cred :: Auth
  RPCMsgCall_Verf :: Auth

definition zero_RPCMsgCall :: RPCMsgCall where
  "zero_RPCMsgCall = \<lparr>RPCMsgCall_Xid = 0, RPCMsgCall_MsgType = 0, RPCMsgCall_RPCVer = 0, RPCMsgCall_Prog = 0,
      RPCMsgCall_Vers = 0, RPCMsgCall_Proc = 0, RPCMsgCall_Cred = zero_Auth,
      RPCMsgCall_Verf = zero_Auth\<rparr>"

definition enc_RPCMsgCall :: "RPCMsgCall \<Rightarrow> xenc" where
  "enc_RPCMsgCall x = EncodeAll [eUint32 (RPCMsgCall_Xid x), eUint32 (RPCMsgCall_MsgType x),
      eUint32 (RPCMsgCall_RPCVer x), eUint32 (RPCMsgCall_Prog x), eUint32 (RPCMsgCall_Vers x),
      eUint32 (RPCMsgCall_Proc x), enc_Auth (RPCMsgCall_Cred x), enc_Auth (RPCMsgCall_Verf x)]"

definition dec_RPCMsgCall :: "RPCMsgCall xdec" where
  "dec_RPCMsgCall =
    dthen dUint32 (\<lambda>x1. dthen dUint32 (\<lambda>x2. dthen dUint32 (\<lambda>x3.
    dthen dUint32 (\<lambda>x4. dthen dUint32 (\<lambda>x5. dthen dUint32 (\<lambda>x6.
    dthen dec_Auth (\<lambda>x7. dthen dec_Auth (\<lambda>x8.
      dret \<lparr>RPCMsgCall_Xid = x1, RPCMsgCall_MsgType = x2, RPCMsgCall_RPCVer = x3,
      RPCMsgCall_Prog = x4, RPCMsgCall_Vers = x5, RPCMsgCall_Proc = x6, RPCMsgCall_Cred = x7,
      RPCMsgCall_Verf = x8\<rparr>))))))))"

definition ok_RPCMsgCall :: "RPCMsgCall \<Rightarrow> bool" where
  "ok_RPCMsgCall x \<longleftrightarrow> ok_Auth (RPCMsgCall_Cred x) \<and> ok_Auth (RPCMsgCall_Verf x)"

interpretation RPCMsgCallC: xdr_codec enc_RPCMsgCall dec_RPCMsgCall ok_RPCMsgCall
  by unfold_locales
    (auto simp: enc_RPCMsgCall_def dec_RPCMsgCall_def ok_RPCMsgCall_def dthen_def intro!: framed_intros)

section \<open>Properties\<close>

text \<open>The arguments of \<^verbatim>\<open>OPEN\<close>, the largest nested union of the protocol, survive encoding and decoding: the
  decoder returns the value and leaves the bytes that follow untouched, for every value whose lengths fit
  32 bits and whose unused union arms are zero.\<close>

theorem open_args_roundtrip:
  assumes "ok_OPEN4args args"
  shows "snd (enc_OPEN4args args) = None \<and> dec_OPEN4args (fst (enc_OPEN4args args) @ rest) = Inr (args, rest)"
  using assms by simp

text \<open>Create a file \<^verbatim>\<open>a\<close> if it does not exist (guarded), with no attributes.\<close>

definition demo_open :: OPEN4args where
  "demo_open = zero_OPEN4args\<lparr>OPEN4args_SeqID := 3, OPEN4args_ShareAccess := 2,
     OPEN4args_Owner := \<lparr>OpenOwner4_ClientId = 7, OpenOwner4_Owner = ''me''\<rparr>,
     OPEN4args_OpenHow := zero_OpenHow4\<lparr>OpenHow4_How := 1, OpenHow4_Claim := zero_CreateHow4\<lparr>CreateHow4_CreateMode := 1\<rparr>\<rparr>,
     OPEN4args_OpenClaim := zero_OpenClaim4\<lparr>OpenClaim4_File := ''a''\<rparr>\<rparr>"

theorem open_args_roundtrip_witness:
  "ok_OPEN4args demo_open \<and> dec_OPEN4args (fst (enc_OPEN4args demo_open) @ [1, 2]) = Inr (demo_open, [1, 2])"
proof -
  have "ok_OPEN4args demo_open"
    by (simp add: demo_open_def ok_OPEN4args_def zero_OPEN4args_def ok_OpenOwner4_def ok_OpenHow4_def ok_CreateHow4_def
        ok_OpenClaim4_def zero_OpenClaim4_def zero_CreateHow4_def zero_FAttr4_def zero_CreateVerfAttr_def
        ok_FAttr4_def zero_OpenClaimDelegateCur4_def zero_OpenHow4_def)
  then show ?thesis using open_args_roundtrip [of demo_open "[1, 2]"] by simp
qed

end
