(* ===== verification/MsgRes.thy ===== *)
theory MsgRes
  imports MsgBase
begin

text \<open>
  The reply messages of \<^verbatim>\<open>msg/structs.go\<close> and the RPC reply header of \<^verbatim>\<open>msg/rpc.go\<close>, in the layout of
  theory \<open>MsgBase\<close>. The directory listing is the one recursive message: \<^verbatim>\<open>Entry4\<close> is a linked list
  through its \<^verbatim>\<open>Next\<close> pointer.
\<close>

record GETATTR4resok =
  GETATTR4resok_Attr :: FAttr4

definition zero_GETATTR4resok :: GETATTR4resok where
  "zero_GETATTR4resok = \<lparr>GETATTR4resok_Attr = zero_FAttr4\<rparr>"

definition enc_GETATTR4resok :: "GETATTR4resok \<Rightarrow> xenc" where
  "enc_GETATTR4resok x = EncodeAll [enc_FAttr4 (GETATTR4resok_Attr x)]"

definition dec_GETATTR4resok :: "GETATTR4resok xdec" where
  "dec_GETATTR4resok =
    dthen dec_FAttr4 (\<lambda>x1.
      dret \<lparr>GETATTR4resok_Attr = x1\<rparr>)"

definition ok_GETATTR4resok :: "GETATTR4resok \<Rightarrow> bool" where
  "ok_GETATTR4resok x \<longleftrightarrow> ok_FAttr4 (GETATTR4resok_Attr x)"

interpretation GETATTR4resokC: xdr_codec enc_GETATTR4resok dec_GETATTR4resok ok_GETATTR4resok
  by unfold_locales
    (auto simp: enc_GETATTR4resok_def dec_GETATTR4resok_def ok_GETATTR4resok_def dthen_def intro!: framed_intros)

record SETCLIENTID4resok =
  SETCLIENTID4resok_ClientId :: u64
  SETCLIENTID4resok_SetClientIdConfirm :: u64

definition zero_SETCLIENTID4resok :: SETCLIENTID4resok where
  "zero_SETCLIENTID4resok = \<lparr>SETCLIENTID4resok_ClientId = 0, SETCLIENTID4resok_SetClientIdConfirm = 0\<rparr>"

definition enc_SETCLIENTID4resok :: "SETCLIENTID4resok \<Rightarrow> xenc" where
  "enc_SETCLIENTID4resok x = EncodeAll [eUint64 (SETCLIENTID4resok_ClientId x), eUint64 (SETCLIENTID4resok_SetClientIdConfirm x)]"

definition dec_SETCLIENTID4resok :: "SETCLIENTID4resok xdec" where
  "dec_SETCLIENTID4resok =
    dthen dUint64 (\<lambda>x1. dthen dUint64 (\<lambda>x2.
      dret \<lparr>SETCLIENTID4resok_ClientId = x1, SETCLIENTID4resok_SetClientIdConfirm = x2\<rparr>))"

definition ok_SETCLIENTID4resok :: "SETCLIENTID4resok \<Rightarrow> bool" where
  "ok_SETCLIENTID4resok x \<longleftrightarrow> True"

declare ok_SETCLIENTID4resok_def [simp]

interpretation SETCLIENTID4resokC: xdr_codec enc_SETCLIENTID4resok dec_SETCLIENTID4resok ok_SETCLIENTID4resok
  by unfold_locales
    (auto simp: enc_SETCLIENTID4resok_def dec_SETCLIENTID4resok_def dthen_def intro!: framed_intros)

record GETFH4resok =
  GETFH4resok_Fh :: bytes

definition zero_GETFH4resok :: GETFH4resok where
  "zero_GETFH4resok = \<lparr>GETFH4resok_Fh = []\<rparr>"

definition enc_GETFH4resok :: "GETFH4resok \<Rightarrow> xenc" where
  "enc_GETFH4resok x = EncodeAll [eBytes (GETFH4resok_Fh x)]"

definition dec_GETFH4resok :: "GETFH4resok xdec" where
  "dec_GETFH4resok =
    dthen dBytes (\<lambda>x1.
      dret \<lparr>GETFH4resok_Fh = x1\<rparr>)"

definition ok_GETFH4resok :: "GETFH4resok \<Rightarrow> bool" where
  "ok_GETFH4resok x \<longleftrightarrow> fits32 (GETFH4resok_Fh x)"

interpretation GETFH4resokC: xdr_codec enc_GETFH4resok dec_GETFH4resok ok_GETFH4resok
  by unfold_locales
    (auto simp: enc_GETFH4resok_def dec_GETFH4resok_def ok_GETFH4resok_def dthen_def intro!: framed_intros)

record ACCESS4resok =
  ACCESS4resok_Supported :: u32
  ACCESS4resok_Access :: u32

definition zero_ACCESS4resok :: ACCESS4resok where
  "zero_ACCESS4resok = \<lparr>ACCESS4resok_Supported = 0, ACCESS4resok_Access = 0\<rparr>"

definition enc_ACCESS4resok :: "ACCESS4resok \<Rightarrow> xenc" where
  "enc_ACCESS4resok x = EncodeAll [eUint32 (ACCESS4resok_Supported x), eUint32 (ACCESS4resok_Access x)]"

definition dec_ACCESS4resok :: "ACCESS4resok xdec" where
  "dec_ACCESS4resok =
    dthen dUint32 (\<lambda>x1. dthen dUint32 (\<lambda>x2.
      dret \<lparr>ACCESS4resok_Supported = x1, ACCESS4resok_Access = x2\<rparr>))"

definition ok_ACCESS4resok :: "ACCESS4resok \<Rightarrow> bool" where
  "ok_ACCESS4resok x \<longleftrightarrow> True"

declare ok_ACCESS4resok_def [simp]

interpretation ACCESS4resokC: xdr_codec enc_ACCESS4resok dec_ACCESS4resok ok_ACCESS4resok
  by unfold_locales
    (auto simp: enc_ACCESS4resok_def dec_ACCESS4resok_def dthen_def intro!: framed_intros)

record SECINFO4resok =
  SECINFO4resok_Items :: "Secinfo4 list"

definition zero_SECINFO4resok :: SECINFO4resok where
  "zero_SECINFO4resok = \<lparr>SECINFO4resok_Items = []\<rparr>"

definition enc_SECINFO4resok :: "SECINFO4resok \<Rightarrow> xenc" where
  "enc_SECINFO4resok x = EncodeAll [(eSlice enc_Secinfo4) (SECINFO4resok_Items x)]"

definition dec_SECINFO4resok :: "SECINFO4resok xdec" where
  "dec_SECINFO4resok =
    dthen (dSlice dec_Secinfo4) (\<lambda>x1.
      dret \<lparr>SECINFO4resok_Items = x1\<rparr>)"

definition ok_SECINFO4resok :: "SECINFO4resok \<Rightarrow> bool" where
  "ok_SECINFO4resok x \<longleftrightarrow> (ok_slice ok_Secinfo4) (SECINFO4resok_Items x)"

interpretation SECINFO4resokC: xdr_codec enc_SECINFO4resok dec_SECINFO4resok ok_SECINFO4resok
  by unfold_locales
    (auto simp: enc_SECINFO4resok_def dec_SECINFO4resok_def ok_SECINFO4resok_def dthen_def intro!: framed_intros)

record CREATE4resok =
  CREATE4resok_CInfo :: ChangeInfo4
  CREATE4resok_AttrSet :: "u32 list"

definition zero_CREATE4resok :: CREATE4resok where
  "zero_CREATE4resok = \<lparr>CREATE4resok_CInfo = zero_ChangeInfo4, CREATE4resok_AttrSet = []\<rparr>"

definition enc_CREATE4resok :: "CREATE4resok \<Rightarrow> xenc" where
  "enc_CREATE4resok x = EncodeAll [enc_ChangeInfo4 (CREATE4resok_CInfo x), eUint32s (CREATE4resok_AttrSet x)]"

definition dec_CREATE4resok :: "CREATE4resok xdec" where
  "dec_CREATE4resok =
    dthen dec_ChangeInfo4 (\<lambda>x1. dthen dUint32s (\<lambda>x2.
      dret \<lparr>CREATE4resok_CInfo = x1, CREATE4resok_AttrSet = x2\<rparr>))"

definition ok_CREATE4resok :: "CREATE4resok \<Rightarrow> bool" where
  "ok_CREATE4resok x \<longleftrightarrow> ok_ChangeInfo4 (CREATE4resok_CInfo x) \<and> fits32 (CREATE4resok_AttrSet x)"

interpretation CREATE4resokC: xdr_codec enc_CREATE4resok dec_CREATE4resok ok_CREATE4resok
  by unfold_locales
    (auto simp: enc_CREATE4resok_def dec_CREATE4resok_def ok_CREATE4resok_def dthen_def intro!: framed_intros)

record OPEN4resok =
  OPEN4resok_StateId :: StateId4
  OPEN4resok_CInfo :: ChangeInfo4
  OPEN4resok_Rflags :: u32
  OPEN4resok_AttrSet :: "u32 list"
  OPEN4resok_Delegation :: OpenDelegation4

definition zero_OPEN4resok :: OPEN4resok where
  "zero_OPEN4resok = \<lparr>OPEN4resok_StateId = zero_StateId4, OPEN4resok_CInfo = zero_ChangeInfo4,
      OPEN4resok_Rflags = 0, OPEN4resok_AttrSet = [],
      OPEN4resok_Delegation = zero_OpenDelegation4\<rparr>"

definition enc_OPEN4resok :: "OPEN4resok \<Rightarrow> xenc" where
  "enc_OPEN4resok x = EncodeAll [enc_StateId4 (OPEN4resok_StateId x), enc_ChangeInfo4 (OPEN4resok_CInfo x),
      eUint32 (OPEN4resok_Rflags x), eUint32s (OPEN4resok_AttrSet x),
      enc_OpenDelegation4 (OPEN4resok_Delegation x)]"

definition dec_OPEN4resok :: "OPEN4resok xdec" where
  "dec_OPEN4resok =
    dthen dec_StateId4 (\<lambda>x1. dthen dec_ChangeInfo4 (\<lambda>x2.
    dthen dUint32 (\<lambda>x3. dthen dUint32s (\<lambda>x4.
    dthen dec_OpenDelegation4 (\<lambda>x5.
      dret \<lparr>OPEN4resok_StateId = x1, OPEN4resok_CInfo = x2, OPEN4resok_Rflags = x3,
      OPEN4resok_AttrSet = x4, OPEN4resok_Delegation = x5\<rparr>)))))"

definition ok_OPEN4resok :: "OPEN4resok \<Rightarrow> bool" where
  "ok_OPEN4resok x \<longleftrightarrow> ok_StateId4 (OPEN4resok_StateId x) \<and> ok_ChangeInfo4 (OPEN4resok_CInfo x) \<and>
      fits32 (OPEN4resok_AttrSet x) \<and> ok_OpenDelegation4 (OPEN4resok_Delegation x)"

interpretation OPEN4resokC: xdr_codec enc_OPEN4resok dec_OPEN4resok ok_OPEN4resok
  by unfold_locales
    (auto simp: enc_OPEN4resok_def dec_OPEN4resok_def ok_OPEN4resok_def dthen_def intro!: framed_intros)

record REMOVE4resok =
  REMOVE4resok_CInfo :: ChangeInfo4

definition zero_REMOVE4resok :: REMOVE4resok where
  "zero_REMOVE4resok = \<lparr>REMOVE4resok_CInfo = zero_ChangeInfo4\<rparr>"

definition enc_REMOVE4resok :: "REMOVE4resok \<Rightarrow> xenc" where
  "enc_REMOVE4resok x = EncodeAll [enc_ChangeInfo4 (REMOVE4resok_CInfo x)]"

definition dec_REMOVE4resok :: "REMOVE4resok xdec" where
  "dec_REMOVE4resok =
    dthen dec_ChangeInfo4 (\<lambda>x1.
      dret \<lparr>REMOVE4resok_CInfo = x1\<rparr>)"

definition ok_REMOVE4resok :: "REMOVE4resok \<Rightarrow> bool" where
  "ok_REMOVE4resok x \<longleftrightarrow> ok_ChangeInfo4 (REMOVE4resok_CInfo x)"

interpretation REMOVE4resokC: xdr_codec enc_REMOVE4resok dec_REMOVE4resok ok_REMOVE4resok
  by unfold_locales
    (auto simp: enc_REMOVE4resok_def dec_REMOVE4resok_def ok_REMOVE4resok_def dthen_def intro!: framed_intros)

record COMMIT4resok =
  COMMIT4resok_Verifier :: u64

definition zero_COMMIT4resok :: COMMIT4resok where
  "zero_COMMIT4resok = \<lparr>COMMIT4resok_Verifier = 0\<rparr>"

definition enc_COMMIT4resok :: "COMMIT4resok \<Rightarrow> xenc" where
  "enc_COMMIT4resok x = EncodeAll [eUint64 (COMMIT4resok_Verifier x)]"

definition dec_COMMIT4resok :: "COMMIT4resok xdec" where
  "dec_COMMIT4resok =
    dthen dUint64 (\<lambda>x1.
      dret \<lparr>COMMIT4resok_Verifier = x1\<rparr>)"

definition ok_COMMIT4resok :: "COMMIT4resok \<Rightarrow> bool" where
  "ok_COMMIT4resok x \<longleftrightarrow> True"

declare ok_COMMIT4resok_def [simp]

interpretation COMMIT4resokC: xdr_codec enc_COMMIT4resok dec_COMMIT4resok ok_COMMIT4resok
  by unfold_locales
    (auto simp: enc_COMMIT4resok_def dec_COMMIT4resok_def dthen_def intro!: framed_intros)

record WRITE4resok =
  WRITE4resok_Count :: u32
  WRITE4resok_Committed :: u32
  WRITE4resok_WriteVerf :: u64

definition zero_WRITE4resok :: WRITE4resok where
  "zero_WRITE4resok = \<lparr>WRITE4resok_Count = 0, WRITE4resok_Committed = 0, WRITE4resok_WriteVerf = 0\<rparr>"

definition enc_WRITE4resok :: "WRITE4resok \<Rightarrow> xenc" where
  "enc_WRITE4resok x = EncodeAll [eUint32 (WRITE4resok_Count x), eUint32 (WRITE4resok_Committed x),
      eUint64 (WRITE4resok_WriteVerf x)]"

definition dec_WRITE4resok :: "WRITE4resok xdec" where
  "dec_WRITE4resok =
    dthen dUint32 (\<lambda>x1. dthen dUint32 (\<lambda>x2. dthen dUint64 (\<lambda>x3.
      dret \<lparr>WRITE4resok_Count = x1, WRITE4resok_Committed = x2, WRITE4resok_WriteVerf = x3\<rparr>)))"

definition ok_WRITE4resok :: "WRITE4resok \<Rightarrow> bool" where
  "ok_WRITE4resok x \<longleftrightarrow> True"

declare ok_WRITE4resok_def [simp]

interpretation WRITE4resokC: xdr_codec enc_WRITE4resok dec_WRITE4resok ok_WRITE4resok
  by unfold_locales
    (auto simp: enc_WRITE4resok_def dec_WRITE4resok_def dthen_def intro!: framed_intros)

record READ4resok =
  READ4resok_Eof :: bool
  READ4resok_Data :: bytes

definition zero_READ4resok :: READ4resok where
  "zero_READ4resok = \<lparr>READ4resok_Eof = False, READ4resok_Data = []\<rparr>"

definition enc_READ4resok :: "READ4resok \<Rightarrow> xenc" where
  "enc_READ4resok x = EncodeAll [eBool (READ4resok_Eof x), eBytes (READ4resok_Data x)]"

definition dec_READ4resok :: "READ4resok xdec" where
  "dec_READ4resok =
    dthen dBool (\<lambda>x1. dthen dBytes (\<lambda>x2.
      dret \<lparr>READ4resok_Eof = x1, READ4resok_Data = x2\<rparr>))"

definition ok_READ4resok :: "READ4resok \<Rightarrow> bool" where
  "ok_READ4resok x \<longleftrightarrow> fits32 (READ4resok_Data x)"

interpretation READ4resokC: xdr_codec enc_READ4resok dec_READ4resok ok_READ4resok
  by unfold_locales
    (auto simp: enc_READ4resok_def dec_READ4resok_def ok_READ4resok_def dthen_def intro!: framed_intros)

record RENAME4resok =
  RENAME4resok_SourceCInfo :: ChangeInfo4
  RENAME4resok_TargetCInfo :: ChangeInfo4

definition zero_RENAME4resok :: RENAME4resok where
  "zero_RENAME4resok = \<lparr>RENAME4resok_SourceCInfo = zero_ChangeInfo4, RENAME4resok_TargetCInfo = zero_ChangeInfo4\<rparr>"

definition enc_RENAME4resok :: "RENAME4resok \<Rightarrow> xenc" where
  "enc_RENAME4resok x = EncodeAll [enc_ChangeInfo4 (RENAME4resok_SourceCInfo x),
      enc_ChangeInfo4 (RENAME4resok_TargetCInfo x)]"

definition dec_RENAME4resok :: "RENAME4resok xdec" where
  "dec_RENAME4resok =
    dthen dec_ChangeInfo4 (\<lambda>x1. dthen dec_ChangeInfo4 (\<lambda>x2.
      dret \<lparr>RENAME4resok_SourceCInfo = x1, RENAME4resok_TargetCInfo = x2\<rparr>))"

definition ok_RENAME4resok :: "RENAME4resok \<Rightarrow> bool" where
  "ok_RENAME4resok x \<longleftrightarrow> ok_ChangeInfo4 (RENAME4resok_SourceCInfo x) \<and>
      ok_ChangeInfo4 (RENAME4resok_TargetCInfo x)"

interpretation RENAME4resokC: xdr_codec enc_RENAME4resok dec_RENAME4resok ok_RENAME4resok
  by unfold_locales
    (auto simp: enc_RENAME4resok_def dec_RENAME4resok_def ok_RENAME4resok_def dthen_def intro!: framed_intros)

record LINK4resok =
  LINK4resok_CInfo :: ChangeInfo4

definition zero_LINK4resok :: LINK4resok where
  "zero_LINK4resok = \<lparr>LINK4resok_CInfo = zero_ChangeInfo4\<rparr>"

definition enc_LINK4resok :: "LINK4resok \<Rightarrow> xenc" where
  "enc_LINK4resok x = EncodeAll [enc_ChangeInfo4 (LINK4resok_CInfo x)]"

definition dec_LINK4resok :: "LINK4resok xdec" where
  "dec_LINK4resok =
    dthen dec_ChangeInfo4 (\<lambda>x1.
      dret \<lparr>LINK4resok_CInfo = x1\<rparr>)"

definition ok_LINK4resok :: "LINK4resok \<Rightarrow> bool" where
  "ok_LINK4resok x \<longleftrightarrow> ok_ChangeInfo4 (LINK4resok_CInfo x)"

interpretation LINK4resokC: xdr_codec enc_LINK4resok dec_LINK4resok ok_LINK4resok
  by unfold_locales
    (auto simp: enc_LINK4resok_def dec_LINK4resok_def ok_LINK4resok_def dthen_def intro!: framed_intros)

record READLINK4resok =
  READLINK4resok_Link :: string

definition zero_READLINK4resok :: READLINK4resok where
  "zero_READLINK4resok = \<lparr>READLINK4resok_Link = []\<rparr>"

definition enc_READLINK4resok :: "READLINK4resok \<Rightarrow> xenc" where
  "enc_READLINK4resok x = EncodeAll [eString (READLINK4resok_Link x)]"

definition dec_READLINK4resok :: "READLINK4resok xdec" where
  "dec_READLINK4resok =
    dthen dString (\<lambda>x1.
      dret \<lparr>READLINK4resok_Link = x1\<rparr>)"

definition ok_READLINK4resok :: "READLINK4resok \<Rightarrow> bool" where
  "ok_READLINK4resok x \<longleftrightarrow> fits32 (READLINK4resok_Link x)"

interpretation READLINK4resokC: xdr_codec enc_READLINK4resok dec_READLINK4resok ok_READLINK4resok
  by unfold_locales
    (auto simp: enc_READLINK4resok_def dec_READLINK4resok_def ok_READLINK4resok_def dthen_def intro!: framed_intros)

record GETXATTR4resok =
  GETXATTR4resok_Value :: bytes

definition zero_GETXATTR4resok :: GETXATTR4resok where
  "zero_GETXATTR4resok = \<lparr>GETXATTR4resok_Value = []\<rparr>"

definition enc_GETXATTR4resok :: "GETXATTR4resok \<Rightarrow> xenc" where
  "enc_GETXATTR4resok x = EncodeAll [eBytes (GETXATTR4resok_Value x)]"

definition dec_GETXATTR4resok :: "GETXATTR4resok xdec" where
  "dec_GETXATTR4resok =
    dthen dBytes (\<lambda>x1.
      dret \<lparr>GETXATTR4resok_Value = x1\<rparr>)"

definition ok_GETXATTR4resok :: "GETXATTR4resok \<Rightarrow> bool" where
  "ok_GETXATTR4resok x \<longleftrightarrow> fits32 (GETXATTR4resok_Value x)"

interpretation GETXATTR4resokC: xdr_codec enc_GETXATTR4resok dec_GETXATTR4resok ok_GETXATTR4resok
  by unfold_locales
    (auto simp: enc_GETXATTR4resok_def dec_GETXATTR4resok_def ok_GETXATTR4resok_def dthen_def intro!: framed_intros)

record SETXATTR4resok =
  SETXATTR4resok_CInfo :: ChangeInfo4

definition zero_SETXATTR4resok :: SETXATTR4resok where
  "zero_SETXATTR4resok = \<lparr>SETXATTR4resok_CInfo = zero_ChangeInfo4\<rparr>"

definition enc_SETXATTR4resok :: "SETXATTR4resok \<Rightarrow> xenc" where
  "enc_SETXATTR4resok x = EncodeAll [enc_ChangeInfo4 (SETXATTR4resok_CInfo x)]"

definition dec_SETXATTR4resok :: "SETXATTR4resok xdec" where
  "dec_SETXATTR4resok =
    dthen dec_ChangeInfo4 (\<lambda>x1.
      dret \<lparr>SETXATTR4resok_CInfo = x1\<rparr>)"

definition ok_SETXATTR4resok :: "SETXATTR4resok \<Rightarrow> bool" where
  "ok_SETXATTR4resok x \<longleftrightarrow> ok_ChangeInfo4 (SETXATTR4resok_CInfo x)"

interpretation SETXATTR4resokC: xdr_codec enc_SETXATTR4resok dec_SETXATTR4resok ok_SETXATTR4resok
  by unfold_locales
    (auto simp: enc_SETXATTR4resok_def dec_SETXATTR4resok_def ok_SETXATTR4resok_def dthen_def intro!: framed_intros)

record LISTXATTRS4resok =
  LISTXATTRS4resok_Cookie :: u64
  LISTXATTRS4resok_Names :: "string list"
  LISTXATTRS4resok_EOF :: bool

definition zero_LISTXATTRS4resok :: LISTXATTRS4resok where
  "zero_LISTXATTRS4resok = \<lparr>LISTXATTRS4resok_Cookie = 0, LISTXATTRS4resok_Names = [], LISTXATTRS4resok_EOF = False\<rparr>"

definition enc_LISTXATTRS4resok :: "LISTXATTRS4resok \<Rightarrow> xenc" where
  "enc_LISTXATTRS4resok x = EncodeAll [eUint64 (LISTXATTRS4resok_Cookie x), eStrings (LISTXATTRS4resok_Names x),
      eBool (LISTXATTRS4resok_EOF x)]"

definition dec_LISTXATTRS4resok :: "LISTXATTRS4resok xdec" where
  "dec_LISTXATTRS4resok =
    dthen dUint64 (\<lambda>x1. dthen dStrings (\<lambda>x2. dthen dBool (\<lambda>x3.
      dret \<lparr>LISTXATTRS4resok_Cookie = x1, LISTXATTRS4resok_Names = x2, LISTXATTRS4resok_EOF = x3\<rparr>)))"

definition ok_LISTXATTRS4resok :: "LISTXATTRS4resok \<Rightarrow> bool" where
  "ok_LISTXATTRS4resok x \<longleftrightarrow> ok_strings (LISTXATTRS4resok_Names x)"

interpretation LISTXATTRS4resokC: xdr_codec enc_LISTXATTRS4resok dec_LISTXATTRS4resok ok_LISTXATTRS4resok
  by unfold_locales
    (auto simp: enc_LISTXATTRS4resok_def dec_LISTXATTRS4resok_def ok_LISTXATTRS4resok_def dthen_def intro!: framed_intros)

record REMOVEXATTR4resok =
  REMOVEXATTR4resok_CInfo :: ChangeInfo4

definition zero_REMOVEXATTR4resok :: REMOVEXATTR4resok where
  "zero_REMOVEXATTR4resok = \<lparr>REMOVEXATTR4resok_CInfo = zero_ChangeInfo4\<rparr>"

definition enc_REMOVEXATTR4resok :: "REMOVEXATTR4resok \<Rightarrow> xenc" where
  "enc_REMOVEXATTR4resok x = EncodeAll [enc_ChangeInfo4 (REMOVEXATTR4resok_CInfo x)]"

definition dec_REMOVEXATTR4resok :: "REMOVEXATTR4resok xdec" where
  "dec_REMOVEXATTR4resok =
    dthen dec_ChangeInfo4 (\<lambda>x1.
      dret \<lparr>REMOVEXATTR4resok_CInfo = x1\<rparr>)"

definition ok_REMOVEXATTR4resok :: "REMOVEXATTR4resok \<Rightarrow> bool" where
  "ok_REMOVEXATTR4resok x \<longleftrightarrow> ok_ChangeInfo4 (REMOVEXATTR4resok_CInfo x)"

interpretation REMOVEXATTR4resokC: xdr_codec enc_REMOVEXATTR4resok dec_REMOVEXATTR4resok ok_REMOVEXATTR4resok
  by unfold_locales
    (auto simp: enc_REMOVEXATTR4resok_def dec_REMOVEXATTR4resok_def ok_REMOVEXATTR4resok_def dthen_def intro!: framed_intros)

record EXCHANGE_ID4resok =
  EXCHANGE_ID4resok_ClientID :: u64
  EXCHANGE_ID4resok_SequenceID :: u32
  EXCHANGE_ID4resok_Flags :: u32
  EXCHANGE_ID4resok_StateProtect :: StateProtect4
  EXCHANGE_ID4resok_ServerOwner :: ServerOwner4
  EXCHANGE_ID4resok_ServerScope :: bytes
  EXCHANGE_ID4resok_ServerImplId :: "NfsImplId4 option"

definition zero_EXCHANGE_ID4resok :: EXCHANGE_ID4resok where
  "zero_EXCHANGE_ID4resok = \<lparr>EXCHANGE_ID4resok_ClientID = 0, EXCHANGE_ID4resok_SequenceID = 0,
      EXCHANGE_ID4resok_Flags = 0, EXCHANGE_ID4resok_StateProtect = zero_StateProtect4,
      EXCHANGE_ID4resok_ServerOwner = zero_ServerOwner4, EXCHANGE_ID4resok_ServerScope = [],
      EXCHANGE_ID4resok_ServerImplId = None\<rparr>"

definition enc_EXCHANGE_ID4resok :: "EXCHANGE_ID4resok \<Rightarrow> xenc" where
  "enc_EXCHANGE_ID4resok x = EncodeAll [eUint64 (EXCHANGE_ID4resok_ClientID x), eUint32 (EXCHANGE_ID4resok_SequenceID x),
      eUint32 (EXCHANGE_ID4resok_Flags x),
      enc_StateProtect4 (EXCHANGE_ID4resok_StateProtect x),
      enc_ServerOwner4 (EXCHANGE_ID4resok_ServerOwner x),
      eBytes (EXCHANGE_ID4resok_ServerScope x),
      (eOption enc_NfsImplId4) (EXCHANGE_ID4resok_ServerImplId x)]"

definition dec_EXCHANGE_ID4resok :: "EXCHANGE_ID4resok xdec" where
  "dec_EXCHANGE_ID4resok =
    dthen dUint64 (\<lambda>x1. dthen dUint32 (\<lambda>x2. dthen dUint32 (\<lambda>x3.
    dthen dec_StateProtect4 (\<lambda>x4. dthen dec_ServerOwner4 (\<lambda>x5.
    dthen dBytes (\<lambda>x6. dthen (dOption dec_NfsImplId4) (\<lambda>x7.
      dret \<lparr>EXCHANGE_ID4resok_ClientID = x1, EXCHANGE_ID4resok_SequenceID = x2,
      EXCHANGE_ID4resok_Flags = x3, EXCHANGE_ID4resok_StateProtect = x4,
      EXCHANGE_ID4resok_ServerOwner = x5, EXCHANGE_ID4resok_ServerScope = x6,
      EXCHANGE_ID4resok_ServerImplId = x7\<rparr>)))))))"

definition ok_EXCHANGE_ID4resok :: "EXCHANGE_ID4resok \<Rightarrow> bool" where
  "ok_EXCHANGE_ID4resok x \<longleftrightarrow> ok_StateProtect4 (EXCHANGE_ID4resok_StateProtect x) \<and>
      ok_ServerOwner4 (EXCHANGE_ID4resok_ServerOwner x) \<and>
      fits32 (EXCHANGE_ID4resok_ServerScope x) \<and>
      (pred_option ok_NfsImplId4) (EXCHANGE_ID4resok_ServerImplId x)"

interpretation EXCHANGE_ID4resokC: xdr_codec enc_EXCHANGE_ID4resok dec_EXCHANGE_ID4resok ok_EXCHANGE_ID4resok
  by unfold_locales
    (auto simp: enc_EXCHANGE_ID4resok_def dec_EXCHANGE_ID4resok_def ok_EXCHANGE_ID4resok_def dthen_def intro!: framed_intros)

record CREATE_SESSION4resok =
  CREATE_SESSION4resok_SessionID :: bytes
  CREATE_SESSION4resok_SequenceID :: u32
  CREATE_SESSION4resok_Flags :: u32
  CREATE_SESSION4resok_ForeChanAttrs :: ChannelAttrs4
  CREATE_SESSION4resok_BackChanAttrs :: ChannelAttrs4

definition zero_CREATE_SESSION4resok :: CREATE_SESSION4resok where
  "zero_CREATE_SESSION4resok = \<lparr>CREATE_SESSION4resok_SessionID = replicate 16 0, CREATE_SESSION4resok_SequenceID = 0,
      CREATE_SESSION4resok_Flags = 0, CREATE_SESSION4resok_ForeChanAttrs = zero_ChannelAttrs4,
      CREATE_SESSION4resok_BackChanAttrs = zero_ChannelAttrs4\<rparr>"

definition enc_CREATE_SESSION4resok :: "CREATE_SESSION4resok \<Rightarrow> xenc" where
  "enc_CREATE_SESSION4resok x = EncodeAll [eByteArray (CREATE_SESSION4resok_SessionID x),
      eUint32 (CREATE_SESSION4resok_SequenceID x), eUint32 (CREATE_SESSION4resok_Flags x),
      enc_ChannelAttrs4 (CREATE_SESSION4resok_ForeChanAttrs x),
      enc_ChannelAttrs4 (CREATE_SESSION4resok_BackChanAttrs x)]"

definition dec_CREATE_SESSION4resok :: "CREATE_SESSION4resok xdec" where
  "dec_CREATE_SESSION4resok =
    dthen (dByteArray 16) (\<lambda>x1. dthen dUint32 (\<lambda>x2. dthen dUint32 (\<lambda>x3.
    dthen dec_ChannelAttrs4 (\<lambda>x4. dthen dec_ChannelAttrs4 (\<lambda>x5.
      dret \<lparr>CREATE_SESSION4resok_SessionID = x1, CREATE_SESSION4resok_SequenceID = x2,
      CREATE_SESSION4resok_Flags = x3, CREATE_SESSION4resok_ForeChanAttrs = x4,
      CREATE_SESSION4resok_BackChanAttrs = x5\<rparr>)))))"

definition ok_CREATE_SESSION4resok :: "CREATE_SESSION4resok \<Rightarrow> bool" where
  "ok_CREATE_SESSION4resok x \<longleftrightarrow> len16 (CREATE_SESSION4resok_SessionID x) \<and>
      ok_ChannelAttrs4 (CREATE_SESSION4resok_ForeChanAttrs x) \<and>
      ok_ChannelAttrs4 (CREATE_SESSION4resok_BackChanAttrs x)"

interpretation CREATE_SESSION4resokC: xdr_codec enc_CREATE_SESSION4resok dec_CREATE_SESSION4resok ok_CREATE_SESSION4resok
  by unfold_locales
    (auto simp: enc_CREATE_SESSION4resok_def dec_CREATE_SESSION4resok_def ok_CREATE_SESSION4resok_def dthen_def intro!: framed_intros)

record SEQUENCE4resok =
  SEQUENCE4resok_SessionID :: bytes
  SEQUENCE4resok_SequenceID :: u32
  SEQUENCE4resok_SlotID :: u32
  SEQUENCE4resok_SlotIDHighest :: u32
  SEQUENCE4resok_SlotIDHighestTarget :: u32
  SEQUENCE4resok_Flags :: u32

definition zero_SEQUENCE4resok :: SEQUENCE4resok where
  "zero_SEQUENCE4resok = \<lparr>SEQUENCE4resok_SessionID = replicate 16 0, SEQUENCE4resok_SequenceID = 0,
      SEQUENCE4resok_SlotID = 0, SEQUENCE4resok_SlotIDHighest = 0,
      SEQUENCE4resok_SlotIDHighestTarget = 0, SEQUENCE4resok_Flags = 0\<rparr>"

definition enc_SEQUENCE4resok :: "SEQUENCE4resok \<Rightarrow> xenc" where
  "enc_SEQUENCE4resok x = EncodeAll [eByteArray (SEQUENCE4resok_SessionID x), eUint32 (SEQUENCE4resok_SequenceID x),
      eUint32 (SEQUENCE4resok_SlotID x), eUint32 (SEQUENCE4resok_SlotIDHighest x),
      eUint32 (SEQUENCE4resok_SlotIDHighestTarget x), eUint32 (SEQUENCE4resok_Flags x)]"

definition dec_SEQUENCE4resok :: "SEQUENCE4resok xdec" where
  "dec_SEQUENCE4resok =
    dthen (dByteArray 16) (\<lambda>x1. dthen dUint32 (\<lambda>x2. dthen dUint32 (\<lambda>x3.
    dthen dUint32 (\<lambda>x4. dthen dUint32 (\<lambda>x5. dthen dUint32 (\<lambda>x6.
      dret \<lparr>SEQUENCE4resok_SessionID = x1, SEQUENCE4resok_SequenceID = x2,
      SEQUENCE4resok_SlotID = x3, SEQUENCE4resok_SlotIDHighest = x4,
      SEQUENCE4resok_SlotIDHighestTarget = x5, SEQUENCE4resok_Flags = x6\<rparr>))))))"

definition ok_SEQUENCE4resok :: "SEQUENCE4resok \<Rightarrow> bool" where
  "ok_SEQUENCE4resok x \<longleftrightarrow> len16 (SEQUENCE4resok_SessionID x)"

interpretation SEQUENCE4resokC: xdr_codec enc_SEQUENCE4resok dec_SEQUENCE4resok ok_SEQUENCE4resok
  by unfold_locales
    (auto simp: enc_SEQUENCE4resok_def dec_SEQUENCE4resok_def ok_SEQUENCE4resok_def dthen_def intro!: framed_intros)

record RPCMsgReply =
  RPCMsgReply_Xid :: u32
  RPCMsgReply_MsgType :: u32
  RPCMsgReply_ReplyStat :: u32

definition zero_RPCMsgReply :: RPCMsgReply where
  "zero_RPCMsgReply = \<lparr>RPCMsgReply_Xid = 0, RPCMsgReply_MsgType = 0, RPCMsgReply_ReplyStat = 0\<rparr>"

definition enc_RPCMsgReply :: "RPCMsgReply \<Rightarrow> xenc" where
  "enc_RPCMsgReply x = EncodeAll [eUint32 (RPCMsgReply_Xid x), eUint32 (RPCMsgReply_MsgType x),
      eUint32 (RPCMsgReply_ReplyStat x)]"

definition dec_RPCMsgReply :: "RPCMsgReply xdec" where
  "dec_RPCMsgReply =
    dthen dUint32 (\<lambda>x1. dthen dUint32 (\<lambda>x2. dthen dUint32 (\<lambda>x3.
      dret \<lparr>RPCMsgReply_Xid = x1, RPCMsgReply_MsgType = x2, RPCMsgReply_ReplyStat = x3\<rparr>)))"

definition ok_RPCMsgReply :: "RPCMsgReply \<Rightarrow> bool" where
  "ok_RPCMsgReply x \<longleftrightarrow> True"

declare ok_RPCMsgReply_def [simp]

interpretation RPCMsgReplyC: xdr_codec enc_RPCMsgReply dec_RPCMsgReply ok_RPCMsgReply
  by unfold_locales
    (auto simp: enc_RPCMsgReply_def dec_RPCMsgReply_def dthen_def intro!: framed_intros)

record RejectReply =
  RejectReply_RejectStat :: u32
  RejectReply_Lo :: u32
  RejectReply_Hi :: u32

definition zero_RejectReply :: RejectReply where
  "zero_RejectReply = \<lparr>RejectReply_RejectStat = 0, RejectReply_Lo = 0, RejectReply_Hi = 0\<rparr>"

definition enc_RejectReply :: "RejectReply \<Rightarrow> xenc" where
  "enc_RejectReply x = EncodeAll [eUint32 (RejectReply_RejectStat x), eUint32 (RejectReply_Lo x),
      eUint32 (RejectReply_Hi x)]"

definition dec_RejectReply :: "RejectReply xdec" where
  "dec_RejectReply =
    dthen dUint32 (\<lambda>x1. dthen dUint32 (\<lambda>x2. dthen dUint32 (\<lambda>x3.
      dret \<lparr>RejectReply_RejectStat = x1, RejectReply_Lo = x2, RejectReply_Hi = x3\<rparr>)))"

definition ok_RejectReply :: "RejectReply \<Rightarrow> bool" where
  "ok_RejectReply x \<longleftrightarrow> True"

declare ok_RejectReply_def [simp]

interpretation RejectReplyC: xdr_codec enc_RejectReply dec_RejectReply ok_RejectReply
  by unfold_locales
    (auto simp: enc_RejectReply_def dec_RejectReply_def dthen_def intro!: framed_intros)

section \<open>Directory entries\<close>

datatype Entry4 = Entry4
  (Entry4_Cookie: u64) (Entry4_Name: string) (Entry4_Attrs: FAttr4) (Entry4_Next: "Entry4 option")

primrec enc_Entry4 :: "Entry4 \<Rightarrow> xenc" where
  "enc_Entry4 (Entry4 c n a nxt) =
     EncodeAll [eUint64 c, eString n, enc_FAttr4 a,
       case map_option enc_Entry4 nxt of
         None \<Rightarrow> eBool False
       | Some e \<Rightarrow> EncodeAll [eBool True, e]]"

text \<open>The decoder recurses once per list element; every element consumes input, so the loop ends.\<close>

lemma framed_shortens: "framed d \<Longrightarrow> d bs = Inr (x, rest) \<Longrightarrow> length rest \<le> length bs"
  using framedD by fastforce

lemma dUint64_shortens: "dUint64 bs = Inr (x, rest) \<Longrightarrow> length rest < length bs"
  by (auto simp: dUint64_def dthen_def readN_def split: if_splits)

definition dec_Entry4_head :: "(u64 \<times> string \<times> FAttr4 \<times> bool) xdec" where
  "dec_Entry4_head =
     dthen dUint64 (\<lambda>c. dthen dString (\<lambda>n. dthen dec_FAttr4 (\<lambda>a. dthen dBool (\<lambda>nx.
       dret (c, n, a, nx)))))"

lemma framed_dec_Entry4_head [framed_intros]: "framed dec_Entry4_head"
  unfolding dec_Entry4_head_def by (intro framed_intros)

lemma dec_Entry4_head_shortens:
  assumes "dec_Entry4_head bs = Inr (x, rest)"
  shows "length rest < length bs"
proof -
  let ?k = "\<lambda>c. dthen dString (\<lambda>n. dthen dec_FAttr4 (\<lambda>a. dthen dBool (\<lambda>nx. dret (c, n, a, nx))))"
  obtain c mid where c: "dUint64 bs = Inr (c, mid)" and k: "?k c mid = Inr (x, rest)"
    using assms by (auto simp: dec_Entry4_head_def dthen_def [of dUint64] split: sum.splits)
  have "framed (?k c)" by (intro framed_intros)
  then have "length rest \<le> length mid" using k by (rule framed_shortens)
  with dUint64_shortens [OF c] show ?thesis by simp
qed

function dec_Entry4 :: "Entry4 xdec" where
  "dec_Entry4 bs =
     (case dec_Entry4_head bs of
        Inl e \<Rightarrow> Inl e
      | Inr ((c, n, a, nx), rest) \<Rightarrow>
          if nx then
            (case dec_Entry4 rest of
               Inl e \<Rightarrow> Inl e
             | Inr (e, rest') \<Rightarrow> Inr (Entry4 c n a (Some e), rest'))
          else Inr (Entry4 c n a None, rest))"
  by pat_completeness auto
termination
  by (relation "measure length") (auto dest: dec_Entry4_head_shortens)

declare dec_Entry4.simps [simp del]

primrec ok_Entry4 :: "Entry4 \<Rightarrow> bool" where
  "ok_Entry4 (Entry4 c n a nxt) \<longleftrightarrow>
     fits32 n \<and> ok_FAttr4 a \<and> (case map_option ok_Entry4 nxt of None \<Rightarrow> True | Some b \<Rightarrow> b)"

lemma enc_Entry4_parts:
  assumes "ok_Entry4 e"
  shows "snd (enc_Entry4 e) = None \<and> 4 dvd length (fst (enc_Entry4 e))"
  using assms
proof (induction e)
  case (Entry4 c n a nxt)
  then show ?case by (cases nxt) auto
qed

lemma dec_enc_Entry4: "ok_Entry4 e \<Longrightarrow> dec_Entry4 (fst (enc_Entry4 e) @ rest) = Inr (e, rest)"
proof (induction e arbitrary: rest)
  case (Entry4 c n a nxt)
  show ?case
  proof (cases nxt)
    case None
    with Entry4.prems show ?thesis
      by (simp add: dec_Entry4.simps dec_Entry4_head_def dthen_def)
  next
    case (Some e)
    with Entry4.prems have ok: "ok_Entry4 e" by simp
    then have "dec_Entry4 (fst (enc_Entry4 e) @ rest) = Inr (e, rest)"
      using Entry4.IH [of e] Some by simp
    moreover have "snd (enc_Entry4 e) = None" using enc_Entry4_parts [OF ok] by simp
    ultimately show ?thesis
      using Entry4.prems Some
      by (simp add: dec_Entry4.simps [of "fst (eUint64 c) @ y" for y] dec_Entry4_head_def dthen_def)
  qed
qed

lemma framed_dec_Entry4: "framed dec_Entry4"
proof -
  have "dec_Entry4 bs = Inr (x, rest) \<Longrightarrow>
      \<exists>p. bs = p @ rest \<and> (\<forall>r. dec_Entry4 (p @ r) = Inr (x, r))" for bs x rest
  proof (induction bs arbitrary: x rule: dec_Entry4.induct)
    case (1 bs)
    obtain c n a nx mid where hd: "dec_Entry4_head bs = Inr ((c, n, a, nx), mid)"
      using "1.prems" by (auto simp: dec_Entry4.simps [of bs] split: sum.splits)
    obtain p where p: "bs = p @ mid" "\<And>r. dec_Entry4_head (p @ r) = Inr ((c, n, a, nx), r)"
      using framedD [OF framed_dec_Entry4_head hd] by blast
    show ?case
    proof (cases nx)
      case False
      with "1.prems" hd p show ?thesis by (auto simp: dec_Entry4.simps)
    next
      case True
      with "1.prems" hd obtain e where e: "dec_Entry4 mid = Inr (e, rest)"
          and x: "x = Entry4 c n a (Some e)"
        by (auto simp: dec_Entry4.simps [of bs] split: sum.splits)
      from "1.IH" [OF hd refl refl refl refl True e] obtain q where
        q: "mid = q @ rest" "\<And>r. dec_Entry4 (q @ r) = Inr (e, r)" by blast
      have "dec_Entry4 ((p @ q) @ r) = Inr (x, r)" for r
        using p(2) [of "q @ r"] q(2) True x by (simp add: dec_Entry4.simps [of "p @ q @ r"])
      with p(1) q(1) show ?thesis by (intro exI [of _ "p @ q"]) simp
    qed
  qed
  then show ?thesis by (simp add: framed_def)
qed

interpretation Entry4C: xdr_codec enc_Entry4 dec_Entry4 ok_Entry4
  by unfold_locales (auto simp: enc_Entry4_parts dec_enc_Entry4 framed_dec_Entry4)

interpretation Entry4O: xdr_option enc_Entry4 dec_Entry4 ok_Entry4
  by unfold_locales

record DirList4 =
  DirList4_Entries :: "Entry4 option"
  DirList4_Eof :: bool

definition zero_DirList4 :: DirList4 where
  "zero_DirList4 = \<lparr>DirList4_Entries = None, DirList4_Eof = False\<rparr>"

definition enc_DirList4 :: "DirList4 \<Rightarrow> xenc" where
  "enc_DirList4 x = EncodeAll [eOption enc_Entry4 (DirList4_Entries x), eBool (DirList4_Eof x)]"

definition dec_DirList4 :: "DirList4 xdec" where
  "dec_DirList4 =
    dthen (dOption dec_Entry4) (\<lambda>x1. dthen dBool (\<lambda>x2.
      dret \<lparr>DirList4_Entries = x1, DirList4_Eof = x2\<rparr>))"

definition ok_DirList4 :: "DirList4 \<Rightarrow> bool" where
  "ok_DirList4 x \<longleftrightarrow> pred_option ok_Entry4 (DirList4_Entries x)"

interpretation DirList4C: xdr_codec enc_DirList4 dec_DirList4 ok_DirList4
  by unfold_locales
    (auto simp: enc_DirList4_def dec_DirList4_def ok_DirList4_def dthen_def intro!: framed_intros)

record READDIR4resok =
  READDIR4resok_CookieVerf :: u64
  READDIR4resok_Reply :: DirList4

definition zero_READDIR4resok :: READDIR4resok where
  "zero_READDIR4resok = \<lparr>READDIR4resok_CookieVerf = 0, READDIR4resok_Reply = zero_DirList4\<rparr>"

definition enc_READDIR4resok :: "READDIR4resok \<Rightarrow> xenc" where
  "enc_READDIR4resok x = EncodeAll [eUint64 (READDIR4resok_CookieVerf x), enc_DirList4 (READDIR4resok_Reply x)]"

definition dec_READDIR4resok :: "READDIR4resok xdec" where
  "dec_READDIR4resok =
    dthen dUint64 (\<lambda>x1. dthen dec_DirList4 (\<lambda>x2.
      dret \<lparr>READDIR4resok_CookieVerf = x1, READDIR4resok_Reply = x2\<rparr>))"

definition ok_READDIR4resok :: "READDIR4resok \<Rightarrow> bool" where
  "ok_READDIR4resok x \<longleftrightarrow> ok_DirList4 (READDIR4resok_Reply x)"

interpretation READDIR4resokC: xdr_codec enc_READDIR4resok dec_READDIR4resok ok_READDIR4resok
  by unfold_locales
    (auto simp: enc_READDIR4resok_def dec_READDIR4resok_def ok_READDIR4resok_def dthen_def intro!: framed_intros)

section \<open>Properties\<close>

text \<open>C36: A directory listing, a linked list of entries of any length, survives encoding and decoding, and the
  decoder consumes exactly its bytes.\<close>

theorem readdir_reply_roundtrip:
  assumes "ok_READDIR4resok res"
  shows "snd (enc_READDIR4resok res) = None \<and>
    dec_READDIR4resok (fst (enc_READDIR4resok res) @ rest) = Inr (res, rest)"
  using assms by simp

definition demo_listing :: READDIR4resok where
  "demo_listing =
     \<lparr>READDIR4resok_CookieVerf = 1,
      READDIR4resok_Reply =
        \<lparr>DirList4_Entries = Some (Entry4 1001 ''a'' zero_FAttr4 (Some (Entry4 1002 ''b'' zero_FAttr4 None))),
         DirList4_Eof = True\<rparr>\<rparr>"

theorem readdir_reply_roundtrip_witness:
  "ok_READDIR4resok demo_listing \<and>
   dec_READDIR4resok (fst (enc_READDIR4resok demo_listing) @ [5]) = Inr (demo_listing, [5])"
proof -
  have "ok_READDIR4resok demo_listing"
    by (simp add: demo_listing_def ok_READDIR4resok_def ok_DirList4_def ok_FAttr4_def zero_FAttr4_def)
  then show ?thesis using readdir_reply_roundtrip [of demo_listing "[5]"] by simp
qed

end
