(* ===== verification/Compound.thy ===== *)
theory Compound
  imports Server MsgArgs MsgRes
begin

text \<open>
  The state of a running \<^verbatim>\<open>COMPOUND\<close> (\<^verbatim>\<open>mux_v4.go\<close>, type \<^verbatim>\<open>Compound\<close>) and the moves every operation is made
  of: decode arguments from the request buffer, write a response to the reply buffer, call the file
  system, get a worker and give it back. Request and reply buffer are addresses in the buffer pool, as in
  the code. An operation ends with a status or with an \<^verbatim>\<open>error\<close> (which ends the connection but not the
  server, so the state is kept), or it panics or hangs.
\<close>

record FileHandle =
  FileHandle_Handle :: bytes
  FileHandle_Path :: string

record Compound =
  x_AuthResp :: Auth
  x_MinorVer :: u32
  x_Tag :: string
  x_OpsCount :: nat
  x_Creds :: Creds
  x_CurrentHandle :: "FileHandle option"
  x_SavedHandle :: "FileHandle option"
  x_SessionID :: bytes
  x_Slot :: "Slot option"

record 'fs st =
  st_x :: Compound
  st_w :: "'fs World"

type_synonym ('r, 'fs) res = "((go_error + 'r) \<times> 'fs st) go"
type_synonym 'fs reply = "(u32, 'fs) res"

text \<open>\<^verbatim>\<open>v, err := m(); if err != nil { return err }; k(v)\<close>\<close>

definition res_bind :: "('a, 'fs) res \<Rightarrow> ('a \<Rightarrow> 'fs st \<Rightarrow> ('b, 'fs) res) \<Rightarrow> ('b, 'fs) res" where
  "res_bind m k =
     go_bind m (\<lambda>(r, st). case r of Inl e \<Rightarrow> Inr (Inl e, st) | Inr v \<Rightarrow> k v st)"

section \<open>Moves\<close>

definition upd_pool :: "(Pool \<Rightarrow> Pool) \<Rightarrow> 'fs st \<Rightarrow> 'fs st" where
  "upd_pool f st = st\<lparr>st_w := (st_w st)\<lparr>W_pool := f (W_pool (st_w st))\<rparr>\<rparr>"

definition upd_clients :: "(Clients \<Rightarrow> Clients) \<Rightarrow> 'fs st \<Rightarrow> 'fs st" where
  "upd_clients f st = st\<lparr>st_w := (st_w st)\<lparr>W_clients := f (W_clients (st_w st))\<rparr>\<rparr>"

definition upd_wk :: "nat \<Rightarrow> (Worker \<Rightarrow> Worker) \<Rightarrow> 'fs st \<Rightarrow> 'fs st" where
  "upd_wk a f st = st\<lparr>st_w := upd_worker a f (st_w st)\<rparr>"

definition wk :: "nat \<Rightarrow> 'fs st \<Rightarrow> Worker" where
  "wk a st = W_heap (st_w st) ! a"

definition buf_at :: "nat \<Rightarrow> 'fs st \<Rightarrow> Buf" where
  "buf_at b st = Pool_heap (W_pool (st_w st)) b"

definition set_CurrentHandle :: "bytes \<Rightarrow> string \<Rightarrow> 'fs st \<Rightarrow> 'fs st" where
  "set_CurrentHandle h p st =
     st\<lparr>st_x := (st_x st)\<lparr>x_CurrentHandle := Some \<lparr>FileHandle_Handle = h, FileHandle_Path = p\<rparr>\<rparr>\<rparr>"

text \<open>\<^verbatim>\<open>xdr.NewDecoder(in).Decode(&args)\<close>, and what follows when it succeeds. The read offset of the
  request buffer moves past what was decoded.\<close>

definition arg :: "nat \<Rightarrow> 'a xdec \<Rightarrow> ('a \<Rightarrow> 'fs st \<Rightarrow> ('r, 'fs) res) \<Rightarrow> 'fs st \<Rightarrow> ('r, 'fs) res" where
  "arg inb d k st =
     (case on_buf (d (content (buf_at inb st))) of
        Inl (Err e) \<Rightarrow> Inr (Inl e, st)
      | Inl s \<Rightarrow> Inl s
      | Inr (v, rest) \<Rightarrow>
          k v (upd_pool (Pool_update inb (\<lambda>b. b\<lparr>Buf_r := Buf_w b - length rest\<rparr>)) st))"

text \<open>\<^verbatim>\<open>xdr.NewEncoder(out).EncodeAll(...)\<close>; the bytes before an encoding error are written.\<close>

definition write_all :: "nat \<Rightarrow> xenc list \<Rightarrow> 'r \<Rightarrow> 'fs st \<Rightarrow> ('r, 'fs) res" where
  "write_all out vs r st =
     (case EncodeAll vs of (b, err) \<Rightarrow>
        Inr (case err of None \<Rightarrow> Inr r | Some e \<Rightarrow> Inl (go_of_xerr e),
             upd_pool (Pool_update out (Buf_Write b)) st))"

definition OperationResponse :: "nat \<Rightarrow> u32 \<Rightarrow> u32 \<Rightarrow> xenc list \<Rightarrow> 'fs st \<Rightarrow> 'fs reply" where
  "OperationResponse out op status data st = write_all out (eUint32 op # eUint32 status # data) status st"

text \<open>A method of the file system.\<close>

definition fs_call :: "('fs \<Rightarrow> 'r \<times> 'fs) \<Rightarrow> ('r \<Rightarrow> 'fs st \<Rightarrow> 'b) \<Rightarrow> 'fs st \<Rightarrow> 'b" where
  "fs_call f k st =
     (case f (W_fs (st_w st)) of (r, fs') \<Rightarrow> k r (st\<lparr>st_w := (st_w st)\<lparr>W_fs := fs'\<rparr>\<rparr>))"

text \<open>\<^verbatim>\<open>fs := x.FS(x.Creds, x.SessionID); defer fs.Close()\<close>\<close>

definition with_FS :: "'fs Conn \<Rightarrow> (nat \<Rightarrow> 'fs st \<Rightarrow> 'fs reply) \<Rightarrow> 'fs st \<Rightarrow> 'fs reply" where
  "with_FS m k st =
     go_bind (GetWorker m (x_Creds (st_x st)) (x_SessionID (st_x st)) (st_w st)) (\<lambda>(a, w').
       go_bind (k a (st\<lparr>st_w := w'\<rparr>)) (\<lambda>(r, st'). Inr (r, upd_wk a Worker_Close st')))"

definition NonFatalErrors :: "sentinel list" where
  "NonFatalErrors = [ErrNotExist, ErrExist, ErrPermission, ErrInvalid, EISDIR, ENOTDIR, EOPNOTSUPP, EOF]"

definition DiscardOnServerFault :: "nat \<Rightarrow> go_error option \<Rightarrow> 'fs st \<Rightarrow> 'fs st" where
  "DiscardOnServerFault a err st =
     (case err of
        None \<Rightarrow> st
      | Some e \<Rightarrow> if list_ex (errors_is e) NonFatalErrors then st else upd_wk a Worker_Discard st)"

text \<open>The common answer to a failed file system call.\<close>

definition fs_failed :: "nat \<Rightarrow> u32 \<Rightarrow> nat \<Rightarrow> go_error \<Rightarrow> 'fs st \<Rightarrow> 'fs reply" where
  "fs_failed out op a e st =
     OperationResponse out op (Err2Status (Some e)) [] (DiscardOnServerFault a (Some e) st)"

text \<open>A dereference of \<^verbatim>\<open>x.CurrentHandle\<close> that no check protects.\<close>

definition deref_CurrentHandle :: "(FileHandle \<Rightarrow> 'fs st \<Rightarrow> 'fs reply) \<Rightarrow> 'fs st \<Rightarrow> 'fs reply" where
  "deref_CurrentHandle k st =
     (case x_CurrentHandle (st_x st) of None \<Rightarrow> Inl Panic | Some h \<Rightarrow> k h st)"

text \<open>\<^verbatim>\<open>if x.CurrentHandle == nil\<close> answered with \<^verbatim>\<open>NFS4ERR_NOFILEHANDLE\<close>.\<close>

definition need_CurrentHandle :: "nat \<Rightarrow> u32 \<Rightarrow> (FileHandle \<Rightarrow> 'fs st \<Rightarrow> 'fs reply) \<Rightarrow> 'fs st \<Rightarrow> 'fs reply" where
  "need_CurrentHandle out op k st =
     (case x_CurrentHandle (st_x st) of
        None \<Rightarrow> OperationResponse out op NFS4ERR_NOFILEHANDLE [] st
      | Some h \<Rightarrow> k h st)"

definition cache_Invalidate :: "nat \<Rightarrow> bytes \<Rightarrow> 'fs st \<Rightarrow> 'fs st" where
  "cache_Invalidate a h st = upd_wk a (\<lambda>w. w\<lparr>Worker_Cache := Cache_Invalidate h (Worker_Cache w)\<rparr>) st"

definition cache_Put :: "nat \<Rightarrow> bytes \<Rightarrow> string \<Rightarrow> FileInfo \<Rightarrow> 'fs st \<Rightarrow> 'fs st" where
  "cache_Put a h path fi st =
     upd_wk a (\<lambda>w. w\<lparr>Worker_Cache :=
       Cache_Put (W_now (st_w st)) h \<lparr>Entry_Path = path, Entry_FileInfo = fi\<rparr> (Worker_Cache w)\<rparr>) st"

text \<open>The file information of a handle, from the cache or from \<^verbatim>\<open>Lstat\<close>, which fills the cache.\<close>

definition stat_cached ::
  "'fs Conn \<Rightarrow> nat \<Rightarrow> u32 \<Rightarrow> nat \<Rightarrow> FileHandle \<Rightarrow> (FileInfo \<Rightarrow> 'fs st \<Rightarrow> 'fs reply) \<Rightarrow> 'fs st \<Rightarrow> 'fs reply" where
  "stat_cached m out op a h k st =
     (case Cache_Get (W_now (st_w st)) (FileHandle_Handle h) (Worker_Cache (wk a st)) of
        Some entry \<Rightarrow> k (Entry_FileInfo entry) st
      | None \<Rightarrow>
          fs_call (vfs_Lstat (Conn_V m) (Worker_FS (wk a st)) (FileHandle_Path h)) (\<lambda>r st.
            case r of
              Inl e \<Rightarrow> fs_failed out op a e st
            | Inr fi \<Rightarrow> k fi (cache_Put a (FileHandle_Handle h) (FileHandle_Path h) fi st)) st)"

text \<open>The final form of a bitmap: \<^verbatim>\<open>fileInfoToAttrs\<close> on the current state.\<close>

definition attrs_of ::
  "nat \<Rightarrow> bytes \<Rightarrow> FileInfo \<Rightarrow> go_error option \<Rightarrow> attrset \<Rightarrow> (FAttr4 \<Rightarrow> 'fs st \<Rightarrow> 'fs reply) \<Rightarrow>
     'fs st \<Rightarrow> 'fs reply" where
  "attrs_of a h fi err request k st =
     go_bind (fileInfoToAttrs h fi err (Some request) (x_Creds (st_x st)) (Worker_SessionID (wk a st)))
       (\<lambda>attrs. k attrs st)"

end
