(* ===== verification/ClientOps.thy ===== *)
theory ClientOps
  imports Compound
begin

text \<open>
  The operations of \<^verbatim>\<open>mux_v4.go\<close> that deal with clients, sessions and file handles: everything from
  \<^verbatim>\<open>SetClientID\<close> to \<^verbatim>\<open>LookupParent\<close>, and \<^verbatim>\<open>Renew\<close>, \<^verbatim>\<open>Secinfo\<close>, \<^verbatim>\<open>SecinfoNoName\<close>.
\<close>

section \<open>Clients and sessions\<close>

definition call_Clients_Add ::
  "Client \<Rightarrow> (go_error + u64 \<times> u64 \<times> u32 \<Rightarrow> 'fs st \<Rightarrow> 'fs reply) \<Rightarrow> 'fs st \<Rightarrow> 'fs reply" where
  "call_Clients_Add client k st =
     go_bind (Clients_Add client (W_now (st_w st)) (W_clients (st_w st)) (W_draws (st_w st)))
       (\<lambda>(r, cs, ds). k r (st\<lparr>st_w := (st_w st)\<lparr>W_clients := cs, W_draws := ds\<rparr>\<rparr>))"

definition SetClientID :: "nat \<Rightarrow> nat \<Rightarrow> 'fs st \<Rightarrow> 'fs reply" where
  "SetClientID inb out st =
     (if x_MinorVer (st_x st) > 0 then OperationResponse out OP4_SETCLIENTID NFS4ERR_OP_ILLEGAL [] st
      else arg inb dec_SETCLIENTID4args (\<lambda>args st.
        call_Clients_Add
          (new_Client (NfsClientId4_Id (SETCLIENTID4args_Client args))
             (NfsClientId4_Verifier (SETCLIENTID4args_Client args)) (x_Creds (st_x st)))
          (\<lambda>r st. case r of
             Inl e \<Rightarrow> OperationResponse out OP4_SETCLIENTID (Err2Status (Some e)) [] st
           | Inr (clientID, confirmValue, _) \<Rightarrow>
               OperationResponse out OP4_SETCLIENTID NFS4_OK [eUint64 clientID, eUint64 confirmValue] st)
          st) st)"

definition SetClientIDConfirm :: "nat \<Rightarrow> nat \<Rightarrow> 'fs st \<Rightarrow> 'fs reply" where
  "SetClientIDConfirm inb out st =
     (if x_MinorVer (st_x st) > 0
      then OperationResponse out OP4_SETCLIENTID_CONFIRM NFS4ERR_OP_ILLEGAL [] st
      else arg inb dec_SETCLIENTID_CONFIRM4args (\<lambda>args st.
        case Clients_Confirm (SETCLIENTID_CONFIRM4args_ClientId args)
               (SETCLIENTID_CONFIRM4args_Verifier args) (x_Creds (st_x st)) (W_now (st_w st))
               (W_clients (st_w st)) of (r, cs) \<Rightarrow>
          OperationResponse out OP4_SETCLIENTID_CONFIRM
            (Err2Status (case r of Inl e \<Rightarrow> Some e | Inr _ \<Rightarrow> None)) [] (upd_clients (\<lambda>_. cs) st)) st)"

definition exchange_resok :: "u64 \<Rightarrow> u32 \<Rightarrow> u32 \<Rightarrow> EXCHANGE_ID4resok" where
  "exchange_resok clientID seqID flags =
     zero_EXCHANGE_ID4resok\<lparr>EXCHANGE_ID4resok_ClientID := clientID,
       EXCHANGE_ID4resok_SequenceID := seqID, EXCHANGE_ID4resok_Flags := flags,
       EXCHANGE_ID4resok_ServerOwner := zero_ServerOwner4\<lparr>ServerOwner4_MajorId := ''sftp-nfs-4.1''\<rparr>\<rparr>"

definition ExchangeID :: "nat \<Rightarrow> nat \<Rightarrow> 'fs st \<Rightarrow> 'fs reply" where
  "ExchangeID inb out st =
     (if x_MinorVer (st_x st) < 1 then OperationResponse out OP4_EXCHANGE_ID NFS4ERR_OP_ILLEGAL [] st
      else arg inb dec_EXCHANGE_ID4args (\<lambda>args st.
        let owner = EXCHANGE_ID4args_ClientOwner args
        in case Clients_GetByName (ClientOwner4_OwnerId owner) (ClientOwner4_Verifier owner)
                  (x_Creds (st_x st)) (W_now (st_w st)) (W_clients (st_w st)) of
             (Some clientID, cs) \<Rightarrow>
               OperationResponse out OP4_EXCHANGE_ID NFS4_OK
                 [enc_EXCHANGE_ID4resok (exchange_resok clientID 0
                    (EXCHGID4_FLAG_USE_NON_PNFS OR EXCHGID4_FLAG_BIND_PRINC_STATEID OR
                     EXCHGID4_FLAG_CONFIRMED_R))] (upd_clients (\<lambda>_. cs) st)
           | (None, _) \<Rightarrow>
               if EXCHANGE_ID4args_Flags args AND EXCHGID4_FLAG_UPD_CONFIRMED_REC_A \<noteq> 0
               then OperationResponse out OP4_EXCHANGE_ID NFS4ERR_STALE_CLIENTID [] st
               else call_Clients_Add
                 (new_Client (ClientOwner4_OwnerId owner) (ClientOwner4_Verifier owner) (x_Creds (st_x st)))
                 (\<lambda>r st. case r of
                    Inl e \<Rightarrow> OperationResponse out OP4_EXCHANGE_ID (Err2Status (Some e)) [] st
                  | Inr (clientID, _, seqID) \<Rightarrow>
                      OperationResponse out OP4_EXCHANGE_ID NFS4_OK
                        [enc_EXCHANGE_ID4resok (exchange_resok clientID seqID
                           (EXCHGID4_FLAG_USE_NON_PNFS OR EXCHGID4_FLAG_BIND_PRINC_STATEID))] st)
                 st) st)"

text \<open>\<^verbatim>\<open>client.BuildSession(persist)\<close> and \<^verbatim>\<open>client.RemoveSession(sessionID)\<close> on a client of the table.\<close>

definition call_BuildSession ::
  "u64 \<Rightarrow> Client \<Rightarrow> bool \<Rightarrow> (bytes \<Rightarrow> 'fs st \<Rightarrow> 'fs reply) \<Rightarrow> 'fs st \<Rightarrow> 'fs reply" where
  "call_BuildSession clientID client persist k st =
     go_bind (BuildSession persist client (W_pool (st_w st)) (W_draws (st_w st))) (\<lambda>(sessionID, client', p, ds).
       k sessionID (st\<lparr>st_w := (st_w st)\<lparr>W_clients := mput clientID client' (W_clients (st_w st)),
                       W_pool := p, W_draws := ds\<rparr>\<rparr>))"

definition call_RemoveSession ::
  "u64 \<Rightarrow> Client \<Rightarrow> bytes \<Rightarrow> ('fs st \<Rightarrow> 'fs reply) \<Rightarrow> 'fs st \<Rightarrow> 'fs reply" where
  "call_RemoveSession clientID client sessionID k st =
     (case RemoveSession sessionID client (W_pool (st_w st)) of (client', p) \<Rightarrow>
        k (st\<lparr>st_w := (st_w st)\<lparr>W_clients := mput clientID client' (W_clients (st_w st)), W_pool := p\<rparr>\<rparr>))"

definition session_resok :: "CREATE_SESSION4args \<Rightarrow> bytes \<Rightarrow> CREATE_SESSION4resok" where
  "session_resok args sessionID =
     \<lparr>CREATE_SESSION4resok_SessionID = sessionID,
      CREATE_SESSION4resok_SequenceID = CREATE_SESSION4args_SequenceID args,
      CREATE_SESSION4resok_Flags = CREATE_SESSION4args_Flags args AND
        (CREATE_SESSION4_FLAG_CONN_BACK_CHAN OR CREATE_SESSION4_FLAG_PERSIST),
      CREATE_SESSION4resok_ForeChanAttrs = (CREATE_SESSION4args_ForeChanAttrs args)
        \<lparr>ChannelAttrs4_HeaderPadSize := 0, ChannelAttrs4_RdmaIrd := []\<rparr>,
      CREATE_SESSION4resok_BackChanAttrs = (CREATE_SESSION4args_BackChanAttrs args)
        \<lparr>ChannelAttrs4_HeaderPadSize := 0, ChannelAttrs4_RdmaIrd := []\<rparr>\<rparr>"

definition CreateSession :: "nat \<Rightarrow> nat \<Rightarrow> 'fs st \<Rightarrow> 'fs reply" where
  "CreateSession inb out st =
     (if x_MinorVer (st_x st) < 1 then OperationResponse out OP4_CREATE_SESSION NFS4ERR_OP_ILLEGAL [] st
      else arg inb dec_CREATE_SESSION4args (\<lambda>args st.
        case Clients_Confirm41 (CREATE_SESSION4args_ClientID args) (CREATE_SESSION4args_SequenceID args)
               (x_Creds (st_x st)) (W_now (st_w st)) (W_clients (st_w st)) of
          (Inl e, cs) \<Rightarrow>
            OperationResponse out OP4_CREATE_SESSION (Err2Status (Some e)) [] (upd_clients (\<lambda>_. cs) st)
        | (Inr client, cs) \<Rightarrow>
            call_BuildSession (CREATE_SESSION4args_ClientID args) client
              (CREATE_SESSION4args_Flags args AND CREATE_SESSION4_FLAG_PERSIST \<noteq> 0)
              (\<lambda>sessionID st. OperationResponse out OP4_CREATE_SESSION NFS4_OK
                 [enc_CREATE_SESSION4resok (session_resok args sessionID)] st)
              (upd_clients (\<lambda>_. cs) st)) st)"

definition ReclaimComplete :: "nat \<Rightarrow> nat \<Rightarrow> 'fs st \<Rightarrow> 'fs reply" where
  "ReclaimComplete inb out st =
     (if x_MinorVer (st_x st) < 1 then OperationResponse out OP4_RECLAIM_COMPLETE NFS4ERR_OP_ILLEGAL [] st
      else arg inb dBool (\<lambda>_ st. OperationResponse out OP4_RECLAIM_COMPLETE NFS4_OK [] st) st)"

definition DestroySession :: "nat \<Rightarrow> nat \<Rightarrow> 'fs st \<Rightarrow> 'fs reply" where
  "DestroySession inb out st =
     (if x_MinorVer (st_x st) < 1 then OperationResponse out OP4_DESTROY_SESSION NFS4ERR_OP_ILLEGAL [] st
      else arg inb (dByteArray 16) (\<lambda>sessionID st.
        case Clients_Get (ClientIDFromSessionID sessionID) (W_now (st_w st)) (W_clients (st_w st)) of
          (None, cs) \<Rightarrow> OperationResponse out OP4_DESTROY_SESSION NFS4_OK [] (upd_clients (\<lambda>_. cs) st)
        | (Some client, cs) \<Rightarrow>
            call_RemoveSession (ClientIDFromSessionID sessionID) client sessionID
              (\<lambda>st. OperationResponse out OP4_DESTROY_SESSION NFS4_OK [] st)
              (upd_clients (\<lambda>_. cs) st)) st)"

definition DestroyClientID :: "nat \<Rightarrow> nat \<Rightarrow> 'fs st \<Rightarrow> 'fs reply" where
  "DestroyClientID inb out st =
     (if x_MinorVer (st_x st) < 1 then OperationResponse out OP4_DESTROY_CLIENTID NFS4ERR_OP_ILLEGAL [] st
      else arg inb dUint64 (\<lambda>clientID st.
        case Clients_RemoveClient clientID (W_clients (st_w st)) of (err, cs) \<Rightarrow>
          OperationResponse out OP4_DESTROY_CLIENTID (Err2Status err) [] (upd_clients (\<lambda>_. cs) st)) st)"

definition Renew :: "nat \<Rightarrow> nat \<Rightarrow> 'fs st \<Rightarrow> 'fs reply" where
  "Renew inb out st =
     (if x_MinorVer (st_x st) > 0 then OperationResponse out OP4_SETCLIENTID NFS4ERR_OP_ILLEGAL [] st
      else arg inb dec_RENEW4args (\<lambda>args st.
        case Clients_Get (RENEW4args_ClientId args) (W_now (st_w st)) (W_clients (st_w st)) of
          (None, cs) \<Rightarrow> OperationResponse out OP4_RENEW NFS4ERR_EXPIRED [] (upd_clients (\<lambda>_. cs) st)
        | (Some client, cs) \<Rightarrow>
            if \<not> Creds_Equal (Client_Creds client) (x_Creds (st_x st))
            then OperationResponse out OP4_RENEW NFS4ERR_ACCESS [] (upd_clients (\<lambda>_. cs) st)
            else OperationResponse out OP4_RENEW NFS4_OK [] (upd_clients (\<lambda>_. cs) st)) st)"

definition secinfo_resok :: SECINFO4resok where
  "secinfo_resok = \<lparr>SECINFO4resok_Items = [\<lparr>Secinfo4_Flavor = AUTH_FLAVOR_UNIX\<rparr>]\<rparr>"

definition Secinfo :: "nat \<Rightarrow> nat \<Rightarrow> 'fs st \<Rightarrow> 'fs reply" where
  "Secinfo inb out st = OperationResponse out OP4_SECINFO NFS4_OK [enc_SECINFO4resok secinfo_resok] st"

definition SecinfoNoName :: "nat \<Rightarrow> nat \<Rightarrow> 'fs st \<Rightarrow> 'fs reply" where
  "SecinfoNoName inb out st =
     arg inb dUint32 (\<lambda>style st.
       OperationResponse out OP4_SECINFO_NO_NAME NFS4_OK [enc_SECINFO4resok secinfo_resok] st) st"

section \<open>File handles\<close>

definition put_root :: "'fs Conn \<Rightarrow> nat \<Rightarrow> u32 \<Rightarrow> 'fs st \<Rightarrow> 'fs reply" where
  "put_root m out op st =
     with_FS m (\<lambda>a st.
       fs_call (vfs_Handle (Conn_V m) (Worker_FS (wk a st)) ''/'') (\<lambda>r st. case r of
           Inl e \<Rightarrow> OperationResponse out op (Err2Status (Some e)) [] (upd_wk a Worker_Discard st)
         | Inr fh \<Rightarrow> OperationResponse out op NFS4_OK [] (set_CurrentHandle fh ''/'' st)) st) st"

definition PutRootFH :: "'fs Conn \<Rightarrow> nat \<Rightarrow> nat \<Rightarrow> 'fs st \<Rightarrow> 'fs reply" where
  "PutRootFH m inb out st = put_root m out OP4_PUTROOTFH st"

definition PutPubFH :: "'fs Conn \<Rightarrow> nat \<Rightarrow> nat \<Rightarrow> 'fs st \<Rightarrow> 'fs reply" where
  "PutPubFH m inb out st = put_root m out OP4_PUTPUBFH st"

definition PutFH :: "'fs Conn \<Rightarrow> nat \<Rightarrow> nat \<Rightarrow> 'fs st \<Rightarrow> 'fs reply" where
  "PutFH m inb out st =
     arg inb dec_PUTFH4args (\<lambda>args st.
       let fh = PUTFH4args_Fh args
       in with_FS m (\<lambda>a st.
            case Cache_Get (W_now (st_w st)) fh (Worker_Cache (wk a st)) of
              Some entry \<Rightarrow>
                OperationResponse out OP4_PUTFH NFS4_OK [] (set_CurrentHandle fh (Entry_Path entry) st)
            | None \<Rightarrow>
                fs_call (vfs_Path (Conn_V m) (Worker_FS (wk a st)) fh) (\<lambda>r st. case r of
                    Inl e \<Rightarrow>
                      OperationResponse out OP4_PUTFH
                        (Err2Status (Some (if errors_is e EOPNOTSUPP \<or> errors_is e ErrNotExist
                                           then NfsError NFS4ERR_STALE else e)))
                        [] (DiscardOnServerFault a (Some e) st)
                  | Inr path \<Rightarrow>
                      OperationResponse out OP4_PUTFH NFS4_OK [] (set_CurrentHandle fh path st)) st)
            st) st"

definition GetFH :: "nat \<Rightarrow> nat \<Rightarrow> 'fs st \<Rightarrow> 'fs reply" where
  "GetFH inb out st =
     need_CurrentHandle out OP4_GETFH (\<lambda>h st.
       OperationResponse out OP4_GETFH NFS4_OK
         [enc_GETFH4resok \<lparr>GETFH4resok_Fh = FileHandle_Handle h\<rparr>] st) st"

definition SaveFH :: "nat \<Rightarrow> nat \<Rightarrow> 'fs st \<Rightarrow> 'fs reply" where
  "SaveFH inb out st =
     need_CurrentHandle out OP4_SAVEFH (\<lambda>h st.
       OperationResponse out OP4_SAVEFH NFS4_OK [] (st\<lparr>st_x := (st_x st)\<lparr>x_SavedHandle := Some h\<rparr>\<rparr>)) st"

definition RestoreFH :: "nat \<Rightarrow> nat \<Rightarrow> 'fs st \<Rightarrow> 'fs reply" where
  "RestoreFH inb out st =
     (case x_SavedHandle (st_x st) of
        None \<Rightarrow> OperationResponse out OP4_RESTOREFH NFS4ERR_RESTOREFH [] st
      | Some h \<Rightarrow>
          OperationResponse out OP4_RESTOREFH NFS4_OK [] (st\<lparr>st_x := (st_x st)\<lparr>x_CurrentHandle := Some h\<rparr>\<rparr>))"

text \<open>Resolve a path to a handle and make it the current one: the tail of \<^verbatim>\<open>Lookup\<close>, \<^verbatim>\<open>LookupParent\<close>.\<close>

definition move_to :: "'fs Conn \<Rightarrow> nat \<Rightarrow> u32 \<Rightarrow> string \<Rightarrow> 'fs st \<Rightarrow> 'fs reply" where
  "move_to m out op path st =
     with_FS m (\<lambda>a st.
       fs_call (vfs_Handle (Conn_V m) (Worker_FS (wk a st)) path) (\<lambda>r st. case r of
           Inl e \<Rightarrow> fs_failed out op a e st
         | Inr handle \<Rightarrow> OperationResponse out op NFS4_OK [] (set_CurrentHandle handle path st)) st) st"

definition Lookup :: "'fs Conn \<Rightarrow> nat \<Rightarrow> nat \<Rightarrow> 'fs st \<Rightarrow> 'fs reply" where
  "Lookup m inb out st =
     arg inb dec_LOOKUP4args (\<lambda>args st.
       if LOOKUP4args_ObjName args = '''' then OperationResponse out OP4_LOOKUP NFS4ERR_INVAL [] st
       else need_CurrentHandle out OP4_LOOKUP (\<lambda>h st.
         move_to m out OP4_LOOKUP (Join (FileHandle_Path h) (LOOKUP4args_ObjName args)) st) st) st"

definition LookupParent :: "'fs Conn \<Rightarrow> nat \<Rightarrow> nat \<Rightarrow> 'fs st \<Rightarrow> 'fs reply" where
  "LookupParent m inb out st =
     need_CurrentHandle out OP4_LOOKUPP (\<lambda>h st.
       if FileHandle_Path h = ''/'' then OperationResponse out OP4_LOOKUPP NFS4ERR_INVAL [] st
       else move_to m out OP4_LOOKUPP (Base (FileHandle_Path h)) st) st"

end
