(* ===== verification/FileOps.thy ===== *)
theory FileOps
  imports Compound
begin

text \<open>
  The operations of \<^verbatim>\<open>mux_v4.go\<close> on the file system tree and on extended attributes: \<^verbatim>\<open>GetAttr\<close>,
  \<^verbatim>\<open>Access\<close>, \<^verbatim>\<open>ReadDir\<close>, \<^verbatim>\<open>Create\<close>, \<^verbatim>\<open>Rename\<close>, \<^verbatim>\<open>Remove\<close>, \<^verbatim>\<open>Link\<close>, \<^verbatim>\<open>Readlink\<close>, \<^verbatim>\<open>SetAttr\<close>, \<^verbatim>\<open>Verify\<close>,
  \<^verbatim>\<open>NVerify\<close> and the four \<^verbatim>\<open>XAttr\<close> operations.
\<close>

section \<open>Attributes\<close>

definition GetAttr :: "'fs Conn \<Rightarrow> nat \<Rightarrow> nat \<Rightarrow> 'fs st \<Rightarrow> 'fs reply" where
  "GetAttr m inb out st =
     arg inb dec_GETATTR4args (\<lambda>args st.
       let idxReq = bitmap4Decode (GETATTR4args_AttrRequest args)
       in need_CurrentHandle out OP4_GETATTR (\<lambda>h st.
            with_FS m (\<lambda>a st.
              stat_cached m out OP4_GETATTR a h (\<lambda>fi st.
                attrs_of a (FileHandle_Handle h) fi None idxReq (\<lambda>attrs st.
                  OperationResponse out OP4_GETATTR NFS4_OK
                    [enc_GETATTR4resok \<lparr>GETATTR4resok_Attr = attrs\<rparr>] st) st) st) st) st) st"

text \<open>What \<^verbatim>\<open>ACCESS\<close> grants: the bits of the owner's permissions, cut down to the bits asked for.\<close>

definition access_supported :: u32 where
  "access_supported = ACCESS4_READ OR ACCESS4_LOOKUP OR ACCESS4_MODIFY OR ACCESS4_EXTEND OR ACCESS4_DELETE
     OR ACCESS4_EXECUTE OR ACCESS4_XAREAD OR ACCESS4_XAWRITE OR ACCESS4_XALIST"

definition access_granted :: "u32 \<Rightarrow> u32" where
  "access_granted mode =
     (let perm = drop_bit 6 mode AND 7;
          acc0 = (if perm AND push_bit 2 1 > 0
                  then ACCESS4_READ OR ACCESS4_LOOKUP OR ACCESS4_XAREAD OR ACCESS4_XALIST else 0);
          acc1 = (if perm AND push_bit 1 1 > 0
                  then acc0 OR ACCESS4_MODIFY OR ACCESS4_EXTEND OR ACCESS4_DELETE OR ACCESS4_XAWRITE else acc0)
      in if perm AND 1 > 0 then acc1 OR ACCESS4_LOOKUP OR ACCESS4_EXECUTE else acc1)"

definition Access :: "'fs Conn \<Rightarrow> nat \<Rightarrow> nat \<Rightarrow> 'fs st \<Rightarrow> 'fs reply" where
  "Access m inb out st =
     arg inb dec_ACCESS4args (\<lambda>args st.
       need_CurrentHandle out OP4_ACCESS (\<lambda>h st.
         with_FS m (\<lambda>a st.
           stat_cached m out OP4_ACCESS a h (\<lambda>fi st.
             OperationResponse out OP4_ACCESS NFS4_OK
               [enc_ACCESS4resok
                  \<lparr>ACCESS4resok_Supported = access_supported AND ACCESS4args_Access args,
                   ACCESS4resok_Access = access_granted (fi_Mode fi) AND ACCESS4args_Access args\<rparr>] st)
             st) st) st) st"

text \<open>\<^verbatim>\<open>VERIFY\<close> and \<^verbatim>\<open>NVERIFY\<close> differ in the operation number and in which outcome of the comparison is the
  error.\<close>

definition verify_with :: "'fs Conn \<Rightarrow> u32 \<Rightarrow> (bool \<Rightarrow> u32) \<Rightarrow> nat \<Rightarrow> nat \<Rightarrow> 'fs st \<Rightarrow> 'fs reply" where
  "verify_with m op status inb out st =
     arg inb dec_FAttr4 (\<lambda>args st.
       let verifyAttrs = bitmap4Decode (FAttr4_Mask args)
       in if list_ex (\<lambda>(i, on). on \<and> i \<notin> set AttrsSupported) verifyAttrs
          then OperationResponse out op NFS4ERR_ATTRNOTSUPP [] st
          else need_CurrentHandle out op (\<lambda>h st.
            with_FS m (\<lambda>a st.
              stat_cached m out op a h (\<lambda>fi st.
                attrs_of a (FileHandle_Handle h) fi None verifyAttrs (\<lambda>attrs st.
                  OperationResponse out op (status (FAttr4_Vals attrs = FAttr4_Vals args)) [] st) st) st)
              st) st) st"

definition Verify :: "'fs Conn \<Rightarrow> nat \<Rightarrow> nat \<Rightarrow> 'fs st \<Rightarrow> 'fs reply" where
  "Verify m = verify_with m OP4_VERIFY (\<lambda>same. if \<not> same then NFS4ERR_NOT_SAME else NFS4_OK)"

definition NVerify :: "'fs Conn \<Rightarrow> nat \<Rightarrow> nat \<Rightarrow> 'fs st \<Rightarrow> 'fs reply" where
  "NVerify m = verify_with m OP4_NVERIFY (\<lambda>same. if same then NFS4ERR_SAME else NFS4_OK)"

section \<open>Directories\<close>

text \<open>The loop over the batch that builds the reply list: it fills the handle cache and stops early when
  the client's limits are reached. It returns the entries, and whether it stopped early (then the end of
  the directory is not reported).\<close>

definition SizeOf :: "xenc list \<Rightarrow> u32" where
  "SizeOf vs = (case Marshal vs of Inr b \<Rightarrow> of_nat (length b) | Inl _ \<Rightarrow> 0)"

fun readdir_loop ::
  "'fs Conn \<Rightarrow> nat \<Rightarrow> string \<Rightarrow> attrset \<Rightarrow> u64 \<Rightarrow> FileInfo list \<Rightarrow> nat \<Rightarrow> u32 \<Rightarrow> u32 \<Rightarrow> 'fs st \<Rightarrow>
     ((u64 \<times> string \<times> FAttr4) list \<times> bool \<times> 'fs st) go" where
  "readdir_loop m a dir idxReq offset [] i dirCount maxCount st = Inr ([], False, st)"
| "readdir_loop m a dir idxReq offset (fi # fis) i dirCount maxCount st =
     (let path = Join dir (fi_Name fi)
      in case vfs_Handle (Conn_V m) (Worker_FS (wk a st)) path (W_fs (st_w st)) of (r, fs') \<Rightarrow>
        let st1 = st\<lparr>st_w := (st_w st)\<lparr>W_fs := fs'\<rparr>\<rparr>;
            fh = (case r of Inl _ \<Rightarrow> [] | Inr h \<Rightarrow> h);
            handleErr = (case r of Inl e \<Rightarrow> Some e | Inr _ \<Rightarrow> None);
            st2 = (case r of Inl _ \<Rightarrow> st1 | Inr h \<Rightarrow> cache_Put a h path fi st1);
            cookie = offset + 1000 + of_nat i + 1
        in go_bind (fileInfoToAttrs fh fi handleErr (Some idxReq) (x_Creds (st_x st2))
                      (Worker_SessionID (wk a st2))) (\<lambda>attrs.
             let entry = (cookie, fi_Name fi, attrs);
                 size1 = SizeOf [eUint64 cookie, eString (fi_Name fi)];
                 size2 = SizeOf [eUint64 cookie, eString (fi_Name fi), enc_FAttr4 attrs] + 4
             in if dirCount < size1 then Inr ([entry], True, st2)
                else if maxCount < size2 + 128 then Inr ([entry], True, st2)
                else go_bind (readdir_loop m a dir idxReq offset fis (Suc i) (dirCount - size1)
                                (maxCount - size2) st2) (\<lambda>(es, early, st3).
                       Inr (entry # es, early, st3))))"

text \<open>The linked list of the reply.\<close>

fun entry_list :: "(u64 \<times> string \<times> FAttr4) list \<Rightarrow> Entry4 option" where
  "entry_list [] = None"
| "entry_list ((c, n, at) # es) = Some (Entry4 c n at (entry_list es))"

definition readdir_resok :: "u64 \<Rightarrow> Entry4 option \<Rightarrow> bool \<Rightarrow> READDIR4resok" where
  "readdir_resok verf entries eof =
     \<lparr>READDIR4resok_CookieVerf = verf,
      READDIR4resok_Reply = \<lparr>DirList4_Entries = entries, DirList4_Eof = eof\<rparr>\<rparr>"

text \<open>From \<^verbatim>\<open>lister.ListAt\<close> on.\<close>

definition readdir_batch ::
  "'fs Conn \<Rightarrow> nat \<Rightarrow> nat \<Rightarrow> string \<Rightarrow> attrset \<Rightarrow> READDIR4args \<Rightarrow> u64 \<Rightarrow> nat \<Rightarrow> 'fs st \<Rightarrow> 'fs reply" where
  "readdir_batch m out a dir idxReq args verf lister st =
     (let offset = (if READDIR4args_Cookie args = 0 then 0 else READDIR4args_Cookie args - 1000)
      in fs_call (lister_ListAt (Conn_V m) lister 128 offset) (\<lambda>(fis, err) st.
        if (case err of None \<Rightarrow> False | Some e \<Rightarrow> \<not> errors_is e EOF) then
          OperationResponse out OP4_READDIR (Err2Status err) [] (upd_wk a Worker_Discard st)
        else if length fis > 128 then Inl Panic
        else
          go_bind (readdir_loop m a dir idxReq offset fis 0 (READDIR4args_DirCount args)
                     (READDIR4args_MaxCount args) st) (\<lambda>(es, early, st).
            let eof = (err \<noteq> None \<and> \<not> early)
            in if eof then
                 (case CloseLister (Conn_V m) verf (wk a st) (W_fs (st_w st)) of (closeErr, wk', fs') \<Rightarrow>
                    let st' = upd_wk a (\<lambda>_. wk') (st\<lparr>st_w := (st_w st)\<lparr>W_fs := fs'\<rparr>\<rparr>)
                    in if closeErr \<noteq> None
                       then OperationResponse out OP4_READDIR (Err2Status closeErr) [] st'
                       else OperationResponse out OP4_READDIR NFS4_OK
                              [enc_READDIR4resok (readdir_resok EOFLister (entry_list es) True)] st')
               else OperationResponse out OP4_READDIR NFS4_OK
                      [enc_READDIR4resok (readdir_resok verf (entry_list es) False)] st)) st)"

definition ReadDir :: "'fs Conn \<Rightarrow> nat \<Rightarrow> nat \<Rightarrow> 'fs st \<Rightarrow> 'fs reply" where
  "ReadDir m inb out st =
     arg inb dec_READDIR4args (\<lambda>args st.
       let idxReq = bitmap4Decode (READDIR4args_AttrRequest args)
       in need_CurrentHandle out OP4_LOOKUP (\<lambda>h st.
            with_FS m (\<lambda>a st.
              if READDIR4args_Cookie args = 0 then
                fs_call (vfs_List (Conn_V m) (Worker_FS (wk a st)) (FileHandle_Path h)) (\<lambda>r st. case r of
                    Inl e \<Rightarrow> fs_failed out OP4_READDIR a e st
                  | Inr lister \<Rightarrow>
                      go_bind (AddLister lister (W_now (st_w st)) (wk a st) (W_draws (st_w st)))
                        (\<lambda>(index, wk', ds).
                          readdir_batch m out a (FileHandle_Path h) idxReq args index lister
                            (upd_wk a (\<lambda>_. wk') (st\<lparr>st_w := (st_w st)\<lparr>W_draws := ds\<rparr>\<rparr>)))) st
              else if READDIR4args_CookieVerf args = EOFLister then
                OperationResponse out OP4_READDIR NFS4_OK
                  [enc_READDIR4resok (readdir_resok (READDIR4args_CookieVerf args) None True)] st
              else
                (case GetLister (READDIR4args_CookieVerf args) (W_now (st_w st)) (wk a st) of
                   (None, wk') \<Rightarrow> OperationResponse out OP4_READDIR NFS4ERR_NOT_SAME [] st
                 | (Some l, wk') \<Rightarrow>
                     readdir_batch m out a (FileHandle_Path h) idxReq args (READDIR4args_CookieVerf args)
                       (Lister_Lister l) (upd_wk a (\<lambda>_. wk') st))) st) st) st"

section \<open>Creating, renaming, removing\<close>

text \<open>The end of \<^verbatim>\<open>Create\<close>, after the object was made.\<close>

definition create_done :: "'fs Conn \<Rightarrow> nat \<Rightarrow> nat \<Rightarrow> FileHandle \<Rightarrow> string \<Rightarrow> 'fs st \<Rightarrow> 'fs reply" where
  "create_done m out a h path st =
     fs_call (vfs_Handle (Conn_V m) (Worker_FS (wk a st)) path) (\<lambda>r st. case r of
         Inl e \<Rightarrow> fs_failed out OP4_CREATE a e st
       | Inr handle \<Rightarrow>
           OperationResponse out OP4_CREATE NFS4_OK
             [enc_CREATE4resok \<lparr>CREATE4resok_CInfo = zero_ChangeInfo4,
                CREATE4resok_AttrSet = [of_nat A_mode]\<rparr>] (set_CurrentHandle handle path st))
       (cache_Invalidate a (FileHandle_Handle h) st)"

definition Create :: "'fs Conn \<Rightarrow> nat \<Rightarrow> nat \<Rightarrow> 'fs st \<Rightarrow> 'fs reply" where
  "Create m inb out st =
     arg inb dec_CREATE4args (\<lambda>args st.
       if CREATE4args_ObjName args = '''' then OperationResponse out OP4_CREATE NFS4ERR_INVAL [] st
       else need_CurrentHandle out OP4_CREATE (\<lambda>h st.
         let path = Join (FileHandle_Path h) (CREATE4args_ObjName args);
             objType = CREATE4type_ObjType (CREATE4args_Type args)
         in case decodeFAttrs4 (W_now (st_w st)) (CREATE4args_CreateAttrs args) of
              Inl e \<Rightarrow> OperationResponse out OP4_CREATE (Err2Status (Some e)) [] st
            | Inr decAttrs \<Rightarrow>
                with_FS m (\<lambda>a st.
                  if objType = NF4DIR then
                    let mode = (case Attr_Mode decAttrs of None \<Rightarrow> 0x1ED | Some v \<Rightarrow> v) OR ModeDir
                    in fs_call (vfs_Mkdir (Conn_V m) (Worker_FS (wk a st)) path mode) (\<lambda>err st.
                         case err of Some e \<Rightarrow> fs_failed out OP4_CREATE a e st
                         | None \<Rightarrow> create_done m out a h path st) st
                  else if objType = NF4REG then OperationResponse out OP4_CREATE NFS4ERR_OP_ILLEGAL [] st
                  else if objType = NF4LNK then
                    fs_call (vfs_Symlink (Conn_V m) (Worker_FS (wk a st))
                               (CREATE4type_LinkData (CREATE4args_Type args)) path) (\<lambda>err st.
                      case err of Some e \<Rightarrow> fs_failed out OP4_CREATE a e st
                      | None \<Rightarrow> create_done m out a h path st) st
                  else if objType = NF4BLK \<or> objType = NF4CHR \<or> objType = NF4FIFO \<or> objType = NF4SOCK
                  then OperationResponse out OP4_CREATE NFS4ERR_NOTSUPP [] st
                  else OperationResponse out OP4_CREATE NFS4ERR_BADTYPE [] st) st) st) st"

text \<open>\<^verbatim>\<open>RENAME\<close> and \<^verbatim>\<open>LINK\<close> report an unsupported operation as crossing file systems.\<close>

definition xdev_status :: "go_error \<Rightarrow> u32" where
  "xdev_status e =
     (let status = Err2Status (Some e) in if status = NFS4ERR_NOTSUPP then NFS4ERR_XDEV else status)"

definition Rename :: "'fs Conn \<Rightarrow> nat \<Rightarrow> nat \<Rightarrow> 'fs st \<Rightarrow> 'fs reply" where
  "Rename m inb out st =
     arg inb dec_RENAME4args (\<lambda>args st.
       if RENAME4args_OldName args = '''' \<or> RENAME4args_NewName args = ''''
       then OperationResponse out OP4_RENAME NFS4ERR_INVAL [] st
       else need_CurrentHandle out OP4_RENAME (\<lambda>cur st.
         case x_SavedHandle (st_x st) of
           None \<Rightarrow> OperationResponse out OP4_RENAME NFS4ERR_RESTOREFH [] st
         | Some saved \<Rightarrow>
             with_FS m (\<lambda>a st.
               fs_call (vfs_Rename (Conn_V m) (Worker_FS (wk a st))
                          (Join (FileHandle_Path saved) (RENAME4args_OldName args))
                          (Join (FileHandle_Path cur) (RENAME4args_NewName args))) (\<lambda>err st.
                 case err of
                   Some e \<Rightarrow>
                     OperationResponse out OP4_RENAME (xdev_status e) [] (DiscardOnServerFault a (Some e) st)
                 | None \<Rightarrow>
                     OperationResponse out OP4_RENAME NFS4_OK
                       [enc_RENAME4resok \<lparr>RENAME4resok_SourceCInfo = zero_ChangeInfo4,
                          RENAME4resok_TargetCInfo = zero_ChangeInfo4\<rparr>]
                       (cache_Invalidate a (FileHandle_Handle cur)
                         (cache_Invalidate a (FileHandle_Handle saved) st))) st) st) st) st"

text \<open>\<^verbatim>\<open>REMOVE\<close> tries \<^verbatim>\<open>Remove\<close>, then \<^verbatim>\<open>Rmdir\<close>; if both fail the first error is reported.\<close>

definition Remove :: "'fs Conn \<Rightarrow> nat \<Rightarrow> nat \<Rightarrow> 'fs st \<Rightarrow> 'fs reply" where
  "Remove m inb out st =
     arg inb dec_REMOVE4args (\<lambda>args st.
       if REMOVE4args_Target args = '''' then OperationResponse out OP4_REMOVE NFS4ERR_INVAL [] st
       else need_CurrentHandle out OP4_REMOVE (\<lambda>h st.
         let path = Join (FileHandle_Path h) (REMOVE4args_Target args);
             ok = (\<lambda>a st. OperationResponse out OP4_REMOVE NFS4_OK
                     [enc_REMOVE4resok \<lparr>REMOVE4resok_CInfo = zero_ChangeInfo4\<rparr>]
                     (cache_Invalidate a (FileHandle_Handle h) st))
         in with_FS m (\<lambda>a st.
              fs_call (vfs_Remove (Conn_V m) (Worker_FS (wk a st)) path) (\<lambda>err st. case err of
                  None \<Rightarrow> ok a st
                | Some e \<Rightarrow>
                    fs_call (vfs_Rmdir (Conn_V m) (Worker_FS (wk a st)) path) (\<lambda>err2 st. case err2 of
                        None \<Rightarrow> ok a st
                      | Some _ \<Rightarrow> fs_failed out OP4_REMOVE a e st) st) st) st) st) st"

definition Link :: "'fs Conn \<Rightarrow> nat \<Rightarrow> nat \<Rightarrow> 'fs st \<Rightarrow> 'fs reply" where
  "Link m inb out st =
     arg inb dec_LINK4args (\<lambda>args st.
       if LINK4args_NewName args = '''' then OperationResponse out OP4_LINK NFS4ERR_INVAL [] st
       else need_CurrentHandle out OP4_LINK (\<lambda>cur st.
         case x_SavedHandle (st_x st) of
           None \<Rightarrow> OperationResponse out OP4_LINK NFS4ERR_RESTOREFH [] st
         | Some saved \<Rightarrow>
             with_FS m (\<lambda>a st.
               fs_call (vfs_Link (Conn_V m) (Worker_FS (wk a st)) (FileHandle_Path saved)
                          (Join (FileHandle_Path cur) (LINK4args_NewName args))) (\<lambda>err st.
                 case err of
                   Some e \<Rightarrow>
                     OperationResponse out OP4_RENAME (xdev_status e) [] (DiscardOnServerFault a (Some e) st)
                 | None \<Rightarrow>
                     OperationResponse out OP4_RENAME NFS4_OK
                       [enc_LINK4resok \<lparr>LINK4resok_CInfo = zero_ChangeInfo4\<rparr>]
                       (cache_Invalidate a (FileHandle_Handle cur) st)) st) st) st) st"

definition Readlink :: "'fs Conn \<Rightarrow> nat \<Rightarrow> nat \<Rightarrow> 'fs st \<Rightarrow> 'fs reply" where
  "Readlink m inb out st =
     need_CurrentHandle out OP4_READLINK (\<lambda>h st.
       with_FS m (\<lambda>a st.
         fs_call (vfs_Readlink (Conn_V m) (Worker_FS (wk a st)) (FileHandle_Path h)) (\<lambda>r st. case r of
             Inl e \<Rightarrow> fs_failed out OP4_READLINK a e st
           | Inr target \<Rightarrow>
               OperationResponse out OP4_READLINK NFS4_OK
                 [enc_READLINK4resok \<lparr>READLINK4resok_Link = target\<rparr>] st) st) st) st"

section \<open>Setting attributes\<close>

text \<open>A step of \<^verbatim>\<open>SETATTR\<close>: an optional file system call; its failure ends the operation.\<close>

definition set_step ::
  "nat \<Rightarrow> nat \<Rightarrow> bool \<Rightarrow> ('fs \<Rightarrow> go_error option \<times> 'fs) \<Rightarrow> ('fs st \<Rightarrow> 'fs reply) \<Rightarrow> 'fs st \<Rightarrow> 'fs reply" where
  "set_step out a needed f k st =
     (if needed then
        fs_call f (\<lambda>err st. case err of Some e \<Rightarrow> fs_failed out OP4_SETATTR a e st | None \<Rightarrow> k st) st
      else k st)"

text \<open>The owner or group named in the request, or the present one.\<close>

definition parse_id :: "string \<Rightarrow> u32 \<Rightarrow> go_error + u32" where
  "parse_id s dflt = (if s = '''' then Inr dflt else ParseUint32 s)"

text \<open>\<^verbatim>\<open>SETATTR\<close> from the change of owner on.\<close>

definition setattr_owner ::
  "'fs Conn \<Rightarrow> nat \<Rightarrow> nat \<Rightarrow> FileHandle \<Rightarrow> Attr \<Rightarrow> u32 list \<Rightarrow> u32 \<Rightarrow> u32 \<Rightarrow> 'fs st \<Rightarrow> 'fs reply" where
  "setattr_owner m out a h at changed uid0 gid0 st =
     (case parse_id (Attr_Owner at) uid0 of
        Inl e \<Rightarrow> OperationResponse out OP4_SETATTR (Err2Status (Some e)) [] st
      | Inr uid \<Rightarrow>
          let changed1 = changed @ (if Attr_Owner at \<noteq> '''' then [of_nat A_owner] else [])
          in case parse_id (Attr_OwnerGroup at) gid0 of
               Inl e \<Rightarrow> OperationResponse out OP4_SETATTR (Err2Status (Some e)) [] st
             | Inr gid \<Rightarrow>
                 let changed2 = changed1 @ (if Attr_OwnerGroup at \<noteq> '''' then [of_nat A_owner_group] else []);
                     path = FileHandle_Path h
                 in set_step out a (Attr_Owner at \<noteq> '''' \<or> Attr_OwnerGroup at \<noteq> '''')
                      (vfs_Chown (Conn_V m) (Worker_FS (wk a st)) path uid gid) (\<lambda>st.
                        set_step out a (Attr_Size at \<noteq> None)
                          (vfs_Truncate (Conn_V m) (Worker_FS (wk a st)) path (the (Attr_Size at))) (\<lambda>st.
                            let changed3 = changed2 @ (if Attr_Size at \<noteq> None then [of_nat A_size] else []);
                                mtime = (case Attr_TimeMetadata at of
                                    None \<Rightarrow> Clock_MustIncrement (W_now (st_w st)) (W_now (st_w st))
                                  | Some t \<Rightarrow> sint (NfsTime4_Seconds t) * Second + uint (NfsTime4_NSeconds t))
                            in set_step out a True
                                 (vfs_Chtimes (Conn_V m) (Worker_FS (wk a st)) path mtime mtime) (\<lambda>st.
                                   let changed4 = changed3 @ [of_nat A_time_modify]
                                   in if changed4 = []
                                      then OperationResponse out OP4_SETATTR NFS4ERR_ATTRNOTSUPP [] st
                                      else OperationResponse out OP4_SETATTR NFS4_OK [eUint32s changed4] st)
                                 st) st) st)"

definition SetAttr :: "'fs Conn \<Rightarrow> nat \<Rightarrow> nat \<Rightarrow> 'fs st \<Rightarrow> 'fs reply" where
  "SetAttr m inb out st =
     arg inb dec_SETATTR4args (\<lambda>args st.
       need_CurrentHandle out OP4_SETATTR (\<lambda>h st.
         with_FS m (\<lambda>a st.
           let st = cache_Invalidate a (FileHandle_Handle h) st
           in case decodeFAttrs4 (W_now (st_w st)) (SETATTR4args_Attrs args) of
                Inl e \<Rightarrow> OperationResponse out OP4_SETATTR (Err2Status (Some e)) [] st
              | Inr at \<Rightarrow>
                  set_step out a (Attr_Mode at \<noteq> None)
                    (vfs_Chmod (Conn_V m) (Worker_FS (wk a st)) (FileHandle_Path h) (the (Attr_Mode at))) (\<lambda>st.
                      let changed = (if Attr_Mode at \<noteq> None then [of_nat A_mode] else [])
                      in if (Attr_Owner at \<noteq> '''') \<noteq> (Attr_OwnerGroup at \<noteq> '''') then
                           fs_call (vfs_Lstat (Conn_V m) (Worker_FS (wk a st)) (FileHandle_Path h)) (\<lambda>r st.
                             case r of
                               Inl e \<Rightarrow> fs_failed out OP4_SETATTR a e st
                             | Inr fi \<Rightarrow> setattr_owner m out a h at changed (fi_Uid fi) (fi_Gid fi) st) st
                         else setattr_owner m out a h at changed 0 0 st) st) st) st) st"

section \<open>Extended attributes\<close>

definition attrPrefix :: string where
  "attrPrefix = ''user.''"

definition TrimPrefix :: "string \<Rightarrow> string \<Rightarrow> string" where
  "TrimPrefix s prefix = (if take (length prefix) s = prefix then drop (length prefix) s else s)"

definition GetXAttr :: "'fs Conn \<Rightarrow> nat \<Rightarrow> nat \<Rightarrow> 'fs st \<Rightarrow> 'fs reply" where
  "GetXAttr m inb out st =
     arg inb dec_GETXATTR4args (\<lambda>args st.
       with_FS m (\<lambda>a st.
         deref_CurrentHandle (\<lambda>h st.
           stat_cached m out OP4_GETXATTR a h (\<lambda>fi st.
             case fi_Extended fi of
               Inl e \<Rightarrow> OperationResponse out OP4_GETXATTR (Err2Status (Some e)) [] st
             | Inr attrs \<Rightarrow>
                 (case mget attrs (attrPrefix @ GETXATTR4args_Name args) of
                    Some val \<Rightarrow>
                      OperationResponse out OP4_GETXATTR NFS4_OK
                        [enc_GETXATTR4resok \<lparr>GETXATTR4resok_Value = val\<rparr>] st
                  | None \<Rightarrow> OperationResponse out OP4_GETXATTR NFS4ERR_NOXATTR [] st)) st) st) st) st"

definition SetXAttr :: "'fs Conn \<Rightarrow> nat \<Rightarrow> nat \<Rightarrow> 'fs st \<Rightarrow> 'fs reply" where
  "SetXAttr m inb out st =
     arg inb dec_SETXATTR4args (\<lambda>args st.
       with_FS m (\<lambda>a st.
         deref_CurrentHandle (\<lambda>h st.
           fs_call (vfs_Lstat (Conn_V m) (Worker_FS (wk a st)) (FileHandle_Path h)) (\<lambda>r st. case r of
               Inl e \<Rightarrow> fs_failed out OP4_SETXATTR a e st
             | Inr fi \<Rightarrow>
                 fs_call (vfs_SetExtendedAttr (Conn_V m) (Worker_FS (wk a st)) (FileHandle_Path h)
                            (attrPrefix @ SETXATTR4args_Name args) (SETXATTR4args_Value args)) (\<lambda>err st.
                   case err of
                     Some e \<Rightarrow> OperationResponse out OP4_SETXATTR (Err2Status (Some e)) [] st
                   | None \<Rightarrow>
                       let now = Clock_MustIncrement (W_now (st_w st)) (fi_ModTime fi)
                       in fs_call (vfs_Chtimes (Conn_V m) (Worker_FS (wk a st)) (FileHandle_Path h) now now)
                            (\<lambda>_ st. OperationResponse out OP4_SETXATTR NFS4_OK
                               [enc_SETXATTR4resok \<lparr>SETXATTR4resok_CInfo = zero_ChangeInfo4\<rparr>]
                               (cache_Invalidate a (FileHandle_Handle h) st)) st) st) st) st) st) st"

definition listxattrs_resok :: "string list \<Rightarrow> LISTXATTRS4resok" where
  "listxattrs_resok names =
     \<lparr>LISTXATTRS4resok_Cookie = 1, LISTXATTRS4resok_Names = names, LISTXATTRS4resok_EOF = True\<rparr>"

definition ListXAttrs :: "'fs Conn \<Rightarrow> nat \<Rightarrow> nat \<Rightarrow> 'fs st \<Rightarrow> 'fs reply" where
  "ListXAttrs m inb out st =
     arg inb dec_LISTXATTRS4args (\<lambda>args st.
       if LISTXATTRS4args_Cookie args > 0 then
         OperationResponse out OP4_LISTXATTRS NFS4_OK [enc_LISTXATTRS4resok (listxattrs_resok [])] st
       else with_FS m (\<lambda>a st.
         deref_CurrentHandle (\<lambda>h st.
           stat_cached m out OP4_LISTXATTRS a h (\<lambda>fi st.
             case fi_Extended fi of
               Inl e \<Rightarrow> OperationResponse out OP4_LISTXATTRS (Err2Status (Some e)) [] st
             | Inr attrs \<Rightarrow>
                 OperationResponse out OP4_LISTXATTRS NFS4_OK
                   [enc_LISTXATTRS4resok
                      (listxattrs_resok (map (\<lambda>(name, _). TrimPrefix name attrPrefix) attrs))] st) st) st) st) st"

definition RemoveXAttr :: "'fs Conn \<Rightarrow> nat \<Rightarrow> nat \<Rightarrow> 'fs st \<Rightarrow> 'fs reply" where
  "RemoveXAttr m inb out st =
     arg inb dec_REMOVEXATTR4args (\<lambda>args st.
       with_FS m (\<lambda>a st.
         deref_CurrentHandle (\<lambda>h st.
           fs_call (vfs_Lstat (Conn_V m) (Worker_FS (wk a st)) (FileHandle_Path h)) (\<lambda>r st. case r of
               Inl e \<Rightarrow> fs_failed out OP4_REMOVEXATTR a e st
             | Inr fi \<Rightarrow>
                 fs_call (vfs_UnsetExtendedAttr (Conn_V m) (Worker_FS (wk a st)) (FileHandle_Path h)
                            (attrPrefix @ REMOVEXATTR4args_Name args)) (\<lambda>err st.
                   case err of
                     Some e \<Rightarrow> OperationResponse out OP4_REMOVEXATTR (Err2Status (Some e)) [] st
                   | None \<Rightarrow>
                       let now = Clock_MustIncrement (W_now (st_w st)) (fi_ModTime fi)
                       in fs_call (vfs_Chtimes (Conn_V m) (Worker_FS (wk a st)) (FileHandle_Path h) now now)
                            (\<lambda>_ st. OperationResponse out OP4_REMOVEXATTR NFS4_OK
                               [enc_REMOVEXATTR4resok \<lparr>REMOVEXATTR4resok_CInfo = zero_ChangeInfo4\<rparr>]
                               (cache_Invalidate a (FileHandle_Handle h) st)) st) st) st) st) st) st"

section \<open>Properties\<close>

lemma access_granted_cases:
  "access_granted mode =
     (if bit mode 8 then ACCESS4_READ OR ACCESS4_LOOKUP OR ACCESS4_XAREAD OR ACCESS4_XALIST else 0) OR
     (if bit mode 7 then ACCESS4_MODIFY OR ACCESS4_EXTEND OR ACCESS4_DELETE OR ACCESS4_XAWRITE else 0) OR
     (if bit mode 6 then ACCESS4_LOOKUP OR ACCESS4_EXECUTE else 0)"
proof -
  have b: "(drop_bit 6 mode AND 7) AND push_bit k 1 > 0 \<longleftrightarrow> bit mode (6 + k)" if "k < 3" for k
  proof -
    have "(drop_bit 6 mode AND 7) AND push_bit k 1 \<noteq> 0 \<longleftrightarrow> bit (drop_bit 6 mode AND 7) k"
      using and_exp_eq_0_iff_not_bit [of "drop_bit 6 mode AND 7" k] by (simp add: push_bit_eq_mult)
    moreover have "bit (7 :: u32) k" using that by (auto simp: less_Suc_eq numeral_3_eq_3 numeral_2_eq_2)
    ultimately show ?thesis by (simp add: word_gt_0 bit_simps)
  qed
  show ?thesis
    using b [of 0] b [of 1] b [of 2] unfolding access_granted_def Let_def by (simp add: ac_simps)
qed

lemma and_and_same:
  fixes x y z :: u32
  shows "(x AND z) AND (y AND z) = (x AND y) AND z"
  by (simp add: ac_simps)

text \<open>\<^verbatim>\<open>ACCESS\<close> never grants what it does not report as supported or what was not asked for, and grants
  reading, modifying and executing exactly by the owner's read, write and execute permission.\<close>

lemma access_bounds:
  "(access_granted mode AND req) AND (access_supported AND req) = access_granted mode AND req \<and>
   (access_granted mode AND ACCESS4_READ \<noteq> 0 \<longleftrightarrow> bit mode 8) \<and>
   (access_granted mode AND ACCESS4_MODIFY \<noteq> 0 \<longleftrightarrow> bit mode 7) \<and>
   (access_granted mode AND ACCESS4_EXECUTE \<noteq> 0 \<longleftrightarrow> bit mode 6)"
proof -
  have "access_granted mode AND access_supported = access_granted mode"
    by (cases "bit mode 8"; cases "bit mode 7"; cases "bit mode 6")
      (simp_all add: access_granted_cases access_supported_def)
  moreover have "(access_granted mode AND req) AND (access_supported AND req) =
      (access_granted mode AND access_supported) AND req"
    by (rule and_and_same)
  ultimately have "(access_granted mode AND req) AND (access_supported AND req) = access_granted mode AND req"
    by (simp only:)
  moreover have "access_granted mode AND ACCESS4_READ \<noteq> 0 \<longleftrightarrow> bit mode 8"
    by (cases "bit mode 8"; cases "bit mode 7"; cases "bit mode 6") (simp_all add: access_granted_cases)
  moreover have "access_granted mode AND ACCESS4_MODIFY \<noteq> 0 \<longleftrightarrow> bit mode 7"
    by (cases "bit mode 8"; cases "bit mode 7"; cases "bit mode 6") (simp_all add: access_granted_cases)
  moreover have "access_granted mode AND ACCESS4_EXECUTE \<noteq> 0 \<longleftrightarrow> bit mode 6"
    by (cases "bit mode 8"; cases "bit mode 7"; cases "bit mode 6") (simp_all add: access_granted_cases)
  ultimately show ?thesis by (intro conjI)
qed






end
