(* ===== verification/OpenOps.thy ===== *)
theory OpenOps
  imports Compound
begin

text \<open>
  The operations of \<^verbatim>\<open>mux_v4.go\<close> on open files: \<^verbatim>\<open>Open\<close>, \<^verbatim>\<open>OpenDowngrade\<close>, \<^verbatim>\<open>Close\<close>, \<^verbatim>\<open>Read\<close>, \<^verbatim>\<open>Write\<close>,
  \<^verbatim>\<open>Commit\<close>. A state identifier names a file of the worker that serves the request.
\<close>

section \<open>Opening\<close>

abbreviation (input) O_RDONLY :: u32 where "O_RDONLY \<equiv> 0"
abbreviation (input) O_WRONLY :: u32 where "O_WRONLY \<equiv> 1"
abbreviation (input) O_RDWR :: u32 where "O_RDWR \<equiv> 2"
abbreviation (input) O_CREATE :: u32 where "O_CREATE \<equiv> 0x40"
abbreviation (input) O_EXCL :: u32 where "O_EXCL \<equiv> 0x80"
abbreviation (input) O_TRUNC :: u32 where "O_TRUNC \<equiv> 0x200"

definition access_flag :: "u32 \<Rightarrow> u32" where
  "access_flag share =
     (let acc = share AND OPEN4_SHARE_ACCESS_BOTH
      in if acc = OPEN4_SHARE_ACCESS_READ then O_RDONLY
         else if acc = OPEN4_SHARE_ACCESS_WRITE then O_WRONLY
         else if acc = OPEN4_SHARE_ACCESS_BOTH then O_RDWR
         else 0)"

text \<open>\<^verbatim>\<open>*decAttrs.Mode\<close>: a nil pointer panics.\<close>

definition mode_of :: "Attr \<Rightarrow> u32 go" where
  "mode_of at = (case Attr_Mode at of None \<Rightarrow> Inl Panic | Some v \<Rightarrow> Inr (v AND ModePerm))"

text \<open>The flags and the mode of the file to open. An error here is returned as a Go error.\<close>

definition open_flags :: "time \<Rightarrow> OPEN4args \<Rightarrow> (go_error + u32 \<times> u32) go" where
  "open_flags now args =
     (let flag = access_flag (OPEN4args_ShareAccess args);
          claim = OpenHow4_Claim (OPEN4args_OpenHow args);
          mode = 0x1A4
      in if OpenHow4_How (OPEN4args_OpenHow args) \<noteq> OPEN4_CREATE then Inr (Inr (flag, mode))
         else
           let flag1 = flag OR O_CREATE
           in if CreateHow4_CreateMode claim = EXCLUSIVE4 then Inr (Inr (flag1 OR O_EXCL, mode))
              else if CreateHow4_CreateMode claim = GUARDED4 then
                (case decodeFAttrs4 now (CreateHow4_CreateAttrsGuarded claim) of
                   Inl e \<Rightarrow> Inr (Inl e)
                 | Inr at \<Rightarrow>
                     go_bind (mode_of at) (\<lambda>v.
                       Inr (Inr (if Attr_Size at = Some 0 then flag1 OR O_EXCL OR O_TRUNC
                                 else flag1 OR O_EXCL, v))))
              else if CreateHow4_CreateMode claim = UNCHECKED4 then
                (case decodeFAttrs4 now (CreateHow4_CreateAttrsUnchecked claim) of
                   Inl e \<Rightarrow> Inr (Inl e)
                 | Inr at \<Rightarrow> go_bind (mode_of at) (\<lambda>v. Inr (Inr (flag1, v))))
              else if CreateHow4_CreateMode claim = EXCLUSIVE4_1 then
                (case decodeFAttrs4 now (CreateVerfAttr_Attrs (CreateHow4_CreateVerf41 claim)) of
                   Inl e \<Rightarrow> Inr (Inl e)
                 | Inr at \<Rightarrow> go_bind (mode_of at) (\<lambda>v. Inr (Inr (flag1 OR O_EXCL, v))))
              else Inr (Inl (GoErr [])))"

text \<open>The three ways to open the file. The optional \<^verbatim>\<open>Chmod\<close> of a file just created is best effort.\<close>

definition open_file ::
  "'fs Conn \<Rightarrow> nat \<Rightarrow> nat \<Rightarrow> string \<Rightarrow> u32 \<Rightarrow> u32 \<Rightarrow> bool \<Rightarrow> (OpenFile \<Rightarrow> 'fs st \<Rightarrow> 'fs reply) \<Rightarrow>
     'fs st \<Rightarrow> 'fs reply" where
  "open_file m out a path flag mode missing k st =
     (if flag AND O_WRONLY \<noteq> 0 then
        fs_call (vfs_FileWrite (Conn_V m) (Worker_FS (wk a st)) path flag) (\<lambda>r st. case r of
            Inl e \<Rightarrow> fs_failed out OP4_OPEN a e st
          | Inr h \<Rightarrow>
              if missing then
                fs_call (vfs_Chmod (Conn_V m) (Worker_FS (wk a st)) path mode) (\<lambda>_ st. k (NopReaderAt h) st) st
              else k (NopReaderAt h) st) st
      else if flag AND O_RDWR \<noteq> 0 then
        fs_call (vfs_OpenFile (Conn_V m) (Worker_FS (wk a st)) path flag mode) (\<lambda>r st. case r of
            Inl e \<Rightarrow> fs_failed out OP4_OPEN a e st
          | Inr h \<Rightarrow> k (ReadWrite h) st) st
      else
        fs_call (vfs_FileRead (Conn_V m) (Worker_FS (wk a st)) path) (\<lambda>r st. case r of
            Inl e \<Rightarrow> fs_failed out OP4_OPEN a e st
          | Inr h \<Rightarrow> k (NopWriterAt h) st) st)"

definition open_resok :: "u64 \<Rightarrow> u32 \<Rightarrow> u32 \<Rightarrow> OPEN4resok" where
  "open_resok fileID seqID rflags =
     zero_OPEN4resok\<lparr>OPEN4resok_StateId := \<lparr>StateId4_SeqId = 1, StateId4_Other = FileOther fileID seqID\<rparr>,
       OPEN4resok_Rflags := rflags, OPEN4resok_AttrSet := [of_nat A_mode]\<rparr>"

text \<open>\<^verbatim>\<open>Open\<close> once the file is open: find its handle, register it.\<close>

definition open_register ::
  "'fs Conn \<Rightarrow> nat \<Rightarrow> nat \<Rightarrow> FileHandle \<Rightarrow> OPEN4args \<Rightarrow> u64 \<Rightarrow> u32 \<Rightarrow> string \<Rightarrow> u32 \<Rightarrow> OpenFile \<Rightarrow>
     'fs st \<Rightarrow> 'fs reply" where
  "open_register m out a cur args clientID seqID path flag f st =
     (let finish = (\<lambda>handle st.
            let create = OpenHow4_How (OPEN4args_OpenHow args) = OPEN4_CREATE;
                st1 = (if create then cache_Invalidate a (FileHandle_Handle cur) st
                       else if flag AND O_RDWR \<noteq> 0 \<or> flag AND O_WRONLY \<noteq> 0 then cache_Invalidate a handle st
                       else st)
            in go_bind (AddFile \<lparr>File_File = f, File_Handle = handle, File_Client = clientID,
                          File_ClientSeqID = seqID\<rparr> (wk a st1) (W_clients (st_w st1)) (W_draws (st_w st1)))
                 (\<lambda>(fileID, wk', cs', ds').
                   OperationResponse out OP4_OPEN NFS4_OK [enc_OPEN4resok (open_resok fileID seqID 0)]
                     (set_CurrentHandle handle path
                       (upd_wk a (\<lambda>_. wk') (st1\<lparr>st_w := (st_w st1)\<lparr>W_clients := cs', W_draws := ds'\<rparr>\<rparr>)))))
      in if OpenClaim4_Claim (OPEN4args_OpenClaim args) \<noteq> CLAIM_FH then
           fs_call (vfs_Handle (Conn_V m) (Worker_FS (wk a st)) path) (\<lambda>r st. case r of
               Inr handle \<Rightarrow> finish handle st
             | Inl e \<Rightarrow>
                 go_bind (OperationResponse out OP4_OPEN
                    (Err2Status (Some (if errors_is e EOPNOTSUPP then NfsError NFS4ERR_FHEXPIRED else e)))
                    [] (DiscardOnServerFault a (Some e) st)) (\<lambda>(s, st).
                   fs_call (OpenFile_Close (Conn_V m) f) (\<lambda>_ st. Inr (s, st)) st)) st
         else finish (FileHandle_Handle cur) st)"

text \<open>\<^verbatim>\<open>Open\<close> from \<^verbatim>\<open>fs := x.FS(...)\<close> on: a repeated request finds the file it opened before.\<close>

definition open_serve ::
  "'fs Conn \<Rightarrow> nat \<Rightarrow> FileHandle \<Rightarrow> OPEN4args \<Rightarrow> u64 \<Rightarrow> u32 \<Rightarrow> string \<Rightarrow> u32 \<Rightarrow> u32 \<Rightarrow> 'fs st \<Rightarrow> 'fs reply" where
  "open_serve m out cur args clientID seqID path flag mode st =
     with_FS m (\<lambda>a st.
       case GetFileByClientSeqID clientID seqID (wk a st) of
         Some fileID \<Rightarrow>
           OperationResponse out OP4_OPEN NFS4_OK
             [enc_OPEN4resok (open_resok fileID seqID OPEN4_RESULT_PRESERVE_UNLINKED)] st
       | None \<Rightarrow>
           fs_call (vfs_Lstat (Conn_V m) (Worker_FS (wk a st)) path) (\<lambda>stat st.
             if (case stat of Inl _ \<Rightarrow> False | Inr fi \<Rightarrow> fi_IsDir fi)
             then OperationResponse out OP4_OPEN NFS4ERR_ISDIR [] st
             else if (case stat of Inl _ \<Rightarrow> False
                      | Inr fi \<Rightarrow> fi_Mode fi AND ModeSymlink = ModeSymlink)
             then OperationResponse out OP4_OPEN NFS4ERR_SYMLINK [] st
             else open_file m out a path flag mode
                    (case stat of Inl e \<Rightarrow> errors_is e ErrNotExist | Inr _ \<Rightarrow> False)
                    (\<lambda>f st. open_register m out a cur args clientID seqID path flag f st) st) st) st"

definition Open :: "'fs Conn \<Rightarrow> nat \<Rightarrow> nat \<Rightarrow> 'fs st \<Rightarrow> 'fs reply" where
  "Open m inb out st =
     arg inb dec_OPEN4args (\<lambda>args st.
       go_bind (if x_MinorVer (st_x st) > 0 then
                  (case x_Slot (st_x st) of
                     None \<Rightarrow> Inl Panic
                   | Some slot \<Rightarrow> Inr (ClientIDFromSessionID (x_SessionID (st_x st)),
                       Slot_SequenceID slot * MaxSlotID + Slot_SlotID slot))
                else Inr (OpenOwner4_ClientId (OPEN4args_Owner args), OPEN4args_SeqID args))
         (\<lambda>(clientID, seqID).
       go_bind (open_flags (W_now (st_w st)) args) (\<lambda>fm. case fm of
         Inl e \<Rightarrow> Inr (Inl e, st)
       | Inr (flag, mode) \<Rightarrow>
       deref_CurrentHandle (\<lambda>cur st.
         let claim = OpenClaim4_Claim (OPEN4args_OpenClaim args);
             path = (if claim = CLAIM_NULL
                     then Join (FileHandle_Path cur) (OpenClaim4_File (OPEN4args_OpenClaim args))
                     else FileHandle_Path cur)
         in if claim = CLAIM_PREVIOUS \<or> claim = CLAIM_DELEGATE_CUR \<or> claim = CLAIM_DELEGATE_PREV \<or>
               claim = CLAIM_DELEG_CUR_FH
            then OperationResponse out OP4_OPEN NFS4ERR_NOTSUPP [] st
            else if claim \<noteq> CLAIM_NULL \<and> claim \<noteq> CLAIM_FH then Inr (Inl (GoErr []), st)
            else if OPEN4args_ShareDeny args \<noteq> 0
            then OperationResponse out OP4_OPEN NFS4ERR_SHARE_DENIED [] st
            else
              (case Clients_Get clientID (W_now (st_w st)) (W_clients (st_w st)) of
                 (None, cs) \<Rightarrow> OperationResponse out OP4_OPEN NFS4ERR_STALE_CLIENTID [] (upd_clients (\<lambda>_. cs) st)
               | (Some client, cs) \<Rightarrow>
                   open_serve m out cur args clientID seqID path flag mode
                     (upd_clients (\<lambda>_. cs) st))) st))) st"

section \<open>Using and closing\<close>

definition OpenDowngrade :: "'fs Conn \<Rightarrow> nat \<Rightarrow> nat \<Rightarrow> 'fs st \<Rightarrow> 'fs reply" where
  "OpenDowngrade m inb out st =
     arg inb dec_OPENDG4args (\<lambda>args st.
       if StateId4_SeqId (OPENDG4args_OpenStateId args) > 1
       then OperationResponse out OP4_OPEN_DOWNGRADE NFS4ERR_BAD_SEQID [] st
       else with_FS m (\<lambda>a st.
         case GetFile (FileID (StateId4_Other (OPENDG4args_OpenStateId args))) (wk a st) of
           None \<Rightarrow> OperationResponse out OP4_OPEN_DOWNGRADE NFS4ERR_BAD_SEQID [] st
         | Some _ \<Rightarrow> OperationResponse out OP4_OPEN_DOWNGRADE NFS4_OK [] st) st) st"

definition closed_resok :: "u32 \<times> u32 \<times> u32 \<Rightarrow> xenc" where
  "closed_resok other = enc_StateId4 \<lparr>StateId4_SeqId = 2, StateId4_Other = other\<rparr>"

definition Close :: "'fs Conn \<Rightarrow> nat \<Rightarrow> nat \<Rightarrow> 'fs st \<Rightarrow> 'fs reply" where
  "Close m inb out st =
     arg inb dec_CLOSE4args (\<lambda>args st.
       let sid = CLOSE4args_OpenStateId args; index = FileID (StateId4_Other sid)
       in if StateId4_SeqId sid > 1 then OperationResponse out OP4_CLOSE NFS4ERR_BAD_SEQID [] st
          else need_CurrentHandle out OP4_CLOSE (\<lambda>_ st.
            with_FS m (\<lambda>a st.
              if IsRemovedFile index (wk a st)
              then OperationResponse out OP4_CLOSE NFS4_OK [closed_resok (StateId4_Other sid)] st
              else
                (case RemoveFile index (wk a st) (W_clients (st_w st)) of
                   (None, _, _) \<Rightarrow> OperationResponse out OP4_CLOSE NFS4ERR_BAD_SEQID [] st
                 | (Some f, wk', cs') \<Rightarrow>
                     fs_call (OpenFile_Close (Conn_V m) (File_File f)) (\<lambda>err st. case err of
                         Some e \<Rightarrow> OperationResponse out OP4_CLOSE (Err2Status (Some e)) [] st
                       | None \<Rightarrow>
                           OperationResponse out OP4_CLOSE NFS4_OK [closed_resok (StateId4_Other sid)] st)
                       (cache_Invalidate a (File_Handle f)
                         (upd_wk a (\<lambda>_. wk') (upd_clients (\<lambda>_. cs') st))))) st) st) st"

text \<open>The file a state identifier stands for, if it is the current file.\<close>

definition current_file :: "nat \<Rightarrow> FileHandle \<Rightarrow> StateId4 \<Rightarrow> 'fs st \<Rightarrow> File option" where
  "current_file a h sid st =
     (case GetFile (FileID (StateId4_Other sid)) (wk a st) of
        None \<Rightarrow> None
      | Some f \<Rightarrow> if File_Handle f \<noteq> FileHandle_Handle h then None else Some f)"

text \<open>\<^verbatim>\<open>READ\<close> reads into a buffer of its own from the pool, which it gives back at the end. A file that claims
  to have read more than it was given room for would make \<^verbatim>\<open>b[:n]\<close> panic.\<close>

definition Read :: "'fs Conn \<Rightarrow> nat \<Rightarrow> nat \<Rightarrow> 'fs st \<Rightarrow> 'fs reply" where
  "Read m inb out st =
     arg inb dec_READ4args (\<lambda>args st.
       need_CurrentHandle out OP4_READ (\<lambda>h st.
         if StateId4_SeqId (READ4args_StateId args) > 1
         then OperationResponse out OP4_READ NFS4ERR_BAD_SEQID [] st
         else with_FS m (\<lambda>a st.
           case current_file a h (READ4args_StateId args) st of
             None \<Rightarrow> OperationResponse out OP4_READ NFS4ERR_BAD_SEQID [] st
           | Some f \<Rightarrow>
               (case Pool_Get (W_pool (st_w st)) of (buf, p) \<Rightarrow>
                 go_bind (Buf_Allocate (int (unat (READ4args_Count args))) (Pool_heap p buf)) (\<lambda>(b, buf').
                   fs_call (OpenFile_ReadAt (Conn_V m) (File_File f) (length b) (READ4args_Offset args))
                     (\<lambda>(dat, err) st.
                       let st = upd_pool (Pool_update buf (Buf_fill dat)) st
                       in if (case err of None \<Rightarrow> False | Some e \<Rightarrow> \<not> errors_is e EOF) then
                            OperationResponse out OP4_READ (Err2Status err) [] (upd_pool (Pool_Put buf) st)
                          else if length dat > length b then Inl Panic
                          else go_bind
                            (OperationResponse out OP4_READ NFS4_OK
                               [enc_READ4resok \<lparr>READ4resok_Eof = (err \<noteq> None), READ4resok_Data = dat\<rparr>] st)
                            (\<lambda>(s, st). Inr (s, upd_pool (Pool_Put buf) st)))
                     (upd_pool (\<lambda>_. Pool_update buf (\<lambda>_. buf') p) st)))) st) st) st"

definition Write :: "'fs Conn \<Rightarrow> nat \<Rightarrow> nat \<Rightarrow> 'fs st \<Rightarrow> 'fs reply" where
  "Write m inb out st =
     arg inb dec_WRITE4args (\<lambda>args st.
       if StateId4_SeqId (WRITE4args_StateId args) > 1
       then OperationResponse out OP4_WRITE NFS4ERR_BAD_SEQID [] st
       else need_CurrentHandle out OP4_WRITE (\<lambda>h st.
         with_FS m (\<lambda>a st.
           case current_file a h (WRITE4args_StateId args) st of
             None \<Rightarrow> OperationResponse out OP4_WRITE NFS4ERR_BAD_SEQID [] st
           | Some f \<Rightarrow>
               fs_call (OpenFile_WriteAt (Conn_V m) (File_File f) (WRITE4args_Data args) (WRITE4args_Offset args))
                 (\<lambda>(n, err) st. case err of
                     Some e \<Rightarrow> OperationResponse out OP4_WRITE (Err2Status (Some e)) [] st
                   | None \<Rightarrow>
                       let st = (if WRITE4args_Stable args = FILE_SYNC4
                                 then cache_Invalidate a (File_Handle f) st else st)
                       in OperationResponse out OP4_WRITE NFS4_OK
                            [enc_WRITE4resok \<lparr>WRITE4resok_Count = of_nat n,
                               WRITE4resok_Committed = FILE_SYNC4,
                               WRITE4resok_WriteVerf = Worker_SessionID (wk a st)\<rparr>] st) st) st) st) st"

definition Commit :: "'fs Conn \<Rightarrow> nat \<Rightarrow> nat \<Rightarrow> 'fs st \<Rightarrow> 'fs reply" where
  "Commit m inb out st =
     arg inb dec_COMMIT4args (\<lambda>args st.
       with_FS m (\<lambda>a st.
         deref_CurrentHandle (\<lambda>h st.
           OperationResponse out OP4_COMMIT NFS4_OK [] (cache_Invalidate a (FileHandle_Handle h) st)) st) st) st"

end
