(* ===== verification/Mux.thy ===== *)
theory Mux
  imports ClientOps FileOps OpenOps
begin

text \<open>
  Running a \<^verbatim>\<open>COMPOUND\<close> (\<^verbatim>\<open>mux_v4.go\<close>): the dispatch of an operation, \<^verbatim>\<open>Run\<close> and \<^verbatim>\<open>RunSequence\<close>, the reply
  header and its correction at the end.
\<close>

section \<open>Dispatch\<close>

definition AllowedFirstOps41 :: "u32 list" where
  "AllowedFirstOps41 = [OP4_CREATE_SESSION, OP4_DESTROY_SESSION, OP4_SEQUENCE, OP4_BIND_CONN_TO_SESSION,
     OP4_EXCHANGE_ID]"

definition FatalStatuses :: "u32 list" where
  "FatalStatuses = [NFS4ERR_OP_ILLEGAL, NFS4ERR_OP_NOT_IN_SESSION, NFS4ERR_SERVERFAULT, NFS4ERR_NOTSUPP,
     NFS4ERR_FHEXPIRED, NFS4ERR_STALE]"

definition NotImplementedRequiredOps :: "u32 list" where
  "NotImplementedRequiredOps = [OP4_BACKCHANNEL_CTL, OP4_BIND_CONN_TO_SESSION, OP4_FREE_STATEID, OP4_ILLEGAL,
     OP4_LOCK, OP4_LOCKT, OP4_LOCKU, OP4_SET_SSV, OP4_TEST_STATEID]"

definition NotImplementedOptionalOps :: "u32 list" where
  "NotImplementedOptionalOps = [OP4_ALLOCATE, OP4_CLONE, OP4_COPY, OP4_COPY_NOTIFY, OP4_DEALLOCATE,
     OP4_DELEGPURGE, OP4_DELEGRETURN, OP4_GETDEVICEINFO, OP4_GET_DIR_DELEGATION, OP4_IO_ADVISE,
     OP4_LAYOUTCOMMIT, OP4_LAYOUTERROR, OP4_LAYOUTGET, OP4_LAYOUTRETURN, OP4_LAYOUTSTATS,
     OP4_OFFLOAD_CANCEL, OP4_OFFLOAD_STATUS, OP4_OPENATTR, OP4_READ_PLUS, OP4_SEEK, OP4_WANT_DELEGATION,
     OP4_WRITE_SAME]"

definition handlers :: "'fs Conn \<Rightarrow> (u32 \<times> (nat \<Rightarrow> nat \<Rightarrow> 'fs st \<Rightarrow> 'fs reply)) list" where
  "handlers m =
     [(OP4_SETCLIENTID, SetClientID),
      (OP4_SETCLIENTID_CONFIRM, SetClientIDConfirm),
      (OP4_EXCHANGE_ID, ExchangeID),
      (OP4_CREATE_SESSION, CreateSession),
      (OP4_RECLAIM_COMPLETE, ReclaimComplete),
      (OP4_DESTROY_SESSION, DestroySession),
      (OP4_DESTROY_CLIENTID, DestroyClientID),
      (OP4_PUTROOTFH, PutRootFH m),
      (OP4_PUTPUBFH, PutPubFH m),
      (OP4_PUTFH, PutFH m),
      (OP4_GETFH, GetFH),
      (OP4_SAVEFH, SaveFH),
      (OP4_RESTOREFH, RestoreFH),
      (OP4_GETATTR, GetAttr m),
      (OP4_LOOKUP, Lookup m),
      (OP4_LOOKUPP, LookupParent m),
      (OP4_ACCESS, Access m),
      (OP4_READDIR, ReadDir m),
      (OP4_RENEW, Renew),
      (OP4_SECINFO, Secinfo),
      (OP4_SECINFO_NO_NAME, SecinfoNoName),
      (OP4_CREATE, Create m),
      (OP4_RENAME, Rename m),
      (OP4_REMOVE, Remove m),
      (OP4_LINK, Link m),
      (OP4_READLINK, Readlink m),
      (OP4_SETATTR, SetAttr m),
      (OP4_OPEN, Open m),
      (OP4_OPEN_DOWNGRADE, OpenDowngrade m),
      (OP4_CLOSE, Close m),
      (OP4_READ, Read m),
      (OP4_WRITE, Write m),
      (OP4_COMMIT, Commit m),
      (OP4_VERIFY, Verify m),
      (OP4_NVERIFY, NVerify m),
      (OP4_GETXATTR, GetXAttr m),
      (OP4_SETXATTR, SetXAttr m),
      (OP4_LISTXATTRS, ListXAttrs m),
      (OP4_REMOVEXATTR, RemoveXAttr m)]"

definition doOperation :: "'fs Conn \<Rightarrow> nat \<Rightarrow> nat \<Rightarrow> u32 \<Rightarrow> 'fs st \<Rightarrow> 'fs reply" where
  "doOperation m inb out op st =
     (case map_of (handlers m) op of
        Some h \<Rightarrow> h inb out st
      | None \<Rightarrow>
          if op \<in> set NotImplementedOptionalOps then OperationResponse out op NFS4ERR_NOTSUPP [] st
          else if op \<in> set NotImplementedRequiredOps then OperationResponse out op NFS4ERR_SERVERFAULT [] st
          else OperationResponse out op NFS4ERR_OP_ILLEGAL [] st)"

definition Operation :: "'fs Conn \<Rightarrow> nat \<Rightarrow> nat \<Rightarrow> 'fs st \<Rightarrow> 'fs reply" where
  "Operation m inb out st = arg inb dUint32 (\<lambda>op st. doOperation m inb out op st) st"

section \<open>Header\<close>

definition header :: "Compound \<Rightarrow> nat \<Rightarrow> u32 \<Rightarrow> xenc list" where
  "header x opsCount lastStatus =
     [enc_Auth (x_AuthResp x), eUint32 ACCEPT_SUCCESS, eUint32 lastStatus, eString (x_Tag x),
      eUint32 (of_nat opsCount)]"

definition WriteHeader :: "nat \<Rightarrow> nat \<Rightarrow> u32 \<Rightarrow> 'fs st \<Rightarrow> (unit, 'fs) res" where
  "WriteHeader out opsCount lastStatus st = write_all out (header (st_x st) opsCount lastStatus) () st"

definition WriteHeaderAndSingleOperation :: "nat \<Rightarrow> u32 \<Rightarrow> u32 \<Rightarrow> 'fs st \<Rightarrow> (unit, 'fs) res" where
  "WriteHeaderAndSingleOperation out op status st =
     res_bind (WriteHeader out 1 status st) (\<lambda>_ st. write_all out [eUint32 op, eUint32 status] () st)"

definition RewriteHeaderIfNeeded :: "nat \<Rightarrow> nat \<Rightarrow> u32 \<Rightarrow> 'fs st \<Rightarrow> (unit, 'fs) res" where
  "RewriteHeaderIfNeeded out opsCount lastStatus st =
     (if lastStatus = NFS4_OK \<and> opsCount = x_OpsCount (st_x st) then Inr (Inr (), st)
      else
        let offset = fst (Buf_SeekWrite 0 (buf_at out st))
        in res_bind (WriteHeader out opsCount lastStatus
                       (upd_pool (Pool_update out (snd \<circ> Buf_SeekWrite 0)) st)) (\<lambda>_ st.
             Inr (Inr (), upd_pool (Pool_update out (snd \<circ> Buf_SeekWrite offset)) st)))"

section \<open>Running the operations\<close>

text \<open>The loop of \<^verbatim>\<open>Run\<close> and \<^verbatim>\<open>RunSequence\<close>, with \<open>k\<close> operations left: it stops after a fatal status and
  goes on after any other.\<close>

fun run_ops :: "'fs Conn \<Rightarrow> nat \<Rightarrow> nat \<Rightarrow> nat \<Rightarrow> nat \<Rightarrow> u32 \<Rightarrow> 'fs st \<Rightarrow> (nat \<times> u32, 'fs) res" where
  "run_ops m inb out 0 opsExecuted lastStatus st = Inr (Inr (opsExecuted, lastStatus), st)"
| "run_ops m inb out (Suc k) opsExecuted lastStatus st =
     (if lastStatus \<in> set FatalStatuses then Inr (Inr (opsExecuted, lastStatus), st)
      else res_bind (Operation m inb out st) (\<lambda>s st. run_ops m inb out k (Suc opsExecuted) s st))"

text \<open>Writing through the slot pointer.\<close>

definition set_slot :: "bytes \<Rightarrow> u32 \<Rightarrow> Slot \<Rightarrow> 'fs st \<Rightarrow> 'fs st" where
  "set_slot sid slotID slot st =
     upd_clients (modify_client (ClientIDFromSessionID sid) (SetSlot sid slotID slot)) st"

text \<open>\<^verbatim>\<open>from.Copy(to)\<close> between two buffers of the pool.\<close>

definition copy_buf :: "nat \<Rightarrow> nat \<Rightarrow> 'fs st \<Rightarrow> (unit, 'fs) res" where
  "copy_buf from to st =
     go_bind (Buf_Copy (buf_at from st) (buf_at to st)) (\<lambda>b.
       Inr (Inr (), upd_pool (Pool_update to (\<lambda>_. b)) st))"

definition sequence_resok :: "SEQUENCE4args \<Rightarrow> SEQUENCE4resok" where
  "sequence_resok args =
     \<lparr>SEQUENCE4resok_SessionID = SEQUENCE4args_SessionID args,
      SEQUENCE4resok_SequenceID = SEQUENCE4args_SequenceID args,
      SEQUENCE4resok_SlotID = SEQUENCE4args_SlotID args,
      SEQUENCE4resok_SlotIDHighest = MaxSlotID,
      SEQUENCE4resok_SlotIDHighestTarget = MaxSlotID,
      SEQUENCE4resok_Flags = 0\<rparr>"

text \<open>\<^verbatim>\<open>RunSequence\<close> once the slot is accepted.\<close>

definition sequence_body ::
  "'fs Conn \<Rightarrow> nat \<Rightarrow> nat \<Rightarrow> SEQUENCE4args \<Rightarrow> Slot \<Rightarrow> 'fs st \<Rightarrow> (unit, 'fs) res" where
  "sequence_body m inb out args slot st =
     (let sid = SEQUENCE4args_SessionID args;
          slot' = Slot_Accept (SEQUENCE4args_SequenceID args) (SEQUENCE4args_CacheThis args) slot;
          st1 = set_slot sid (SEQUENCE4args_SlotID args) slot' st;
          st2 = st1\<lparr>st_x := (st_x st1)\<lparr>x_SessionID := sid, x_Slot := Some slot'\<rparr>\<rparr>;
          n = x_OpsCount (st_x st2)
      in res_bind (WriteHeader out n NFS4_OK st2) (\<lambda>_ st.
         res_bind (OperationResponse out OP4_SEQUENCE NFS4_OK [enc_SEQUENCE4resok (sequence_resok args)] st)
           (\<lambda>s st.
         res_bind (run_ops m inb out (n - 1) 1 s st) (\<lambda>(opsExecuted, lastStatus) st.
         res_bind (RewriteHeaderIfNeeded out opsExecuted lastStatus st) (\<lambda>_ st.
           case Slot_Buf slot' of
             Some b \<Rightarrow> if Slot_ContainsData slot' then copy_buf out b st else Inr (Inr (), st)
           | None \<Rightarrow> Inr (Inr (), st))))))"

definition RunSequence :: "'fs Conn \<Rightarrow> nat \<Rightarrow> nat \<Rightarrow> 'fs st \<Rightarrow> (unit, 'fs) res" where
  "RunSequence m inb out st =
     arg inb dec_SEQUENCE4args (\<lambda>args st.
       let sid = SEQUENCE4args_SessionID args;
           fail = (\<lambda>status st. WriteHeaderAndSingleOperation out OP4_SEQUENCE status st)
       in case Clients_Get (ClientIDFromSessionID sid) (W_now (st_w st)) (W_clients (st_w st)) of
            (None, cs) \<Rightarrow> fail NFS4ERR_DEADSESSION (upd_clients (\<lambda>_. cs) st)
          | (Some client, cs) \<Rightarrow>
              let st = upd_clients (\<lambda>_. cs) st
              in case GetSlot sid (SEQUENCE4args_SlotID args) client of
                   None \<Rightarrow> fail NFS4ERR_DEADSESSION st
                 | Some slot \<Rightarrow>
                     if Slot_SequenceID slot = SEQUENCE4args_SequenceID args \<and> Slot_ContainsData slot then
                       (case Slot_Buf slot of None \<Rightarrow> Inl Panic | Some b \<Rightarrow> copy_buf b out st)
                     else if Slot_SequenceID slot = SEQUENCE4args_SequenceID args \<and> Slot_Buf slot = None
                     then fail NFS4ERR_RETRY_UNCACHED_REP st
                     else if Slot_SequenceID slot \<noteq> SEQUENCE4args_SequenceID args \<and>
                             Slot_SequenceID slot + 1 \<noteq> SEQUENCE4args_SequenceID args
                     then fail NFS4ERR_SEQ_MISORDERED st
                     else sequence_body m inb out args slot st) st"

definition Run :: "'fs Conn \<Rightarrow> nat \<Rightarrow> nat \<Rightarrow> 'fs st \<Rightarrow> (unit, 'fs) res" where
  "Run m inb out st =
     arg inb dUint32 (\<lambda>op st.
       let minor = x_MinorVer (st_x st); n = x_OpsCount (st_x st)
       in if minor > 0 \<and> op \<notin> set AllowedFirstOps41
          then WriteHeaderAndSingleOperation out op NFS4ERR_OP_NOT_IN_SESSION st
          else if minor > 0 \<and> op \<noteq> OP4_SEQUENCE \<and> n > 1
          then WriteHeaderAndSingleOperation out op NFS4ERR_NOT_ONLY_OP st
          else if minor > 0 \<and> op = OP4_SEQUENCE then RunSequence m inb out st
          else
            res_bind (WriteHeader out n NFS4_OK st) (\<lambda>_ st.
            res_bind (doOperation m inb out op st) (\<lambda>s st.
            res_bind (run_ops m inb out (n - 1) 1 s st) (\<lambda>(opsExecuted, lastStatus) st.
              RewriteHeaderIfNeeded out opsExecuted lastStatus st)))) st"

end
