(* ===== verification/Rpc.thy ===== *)
theory Rpc
  imports Mux
begin

text \<open>
  The remote procedure call layer: \<^verbatim>\<open>HandleProc\<close>, \<^verbatim>\<open>Void\<close> and \<^verbatim>\<open>Compound\<close> of \<^verbatim>\<open>mux_v4.go\<close>, \<^verbatim>\<open>mux_wrong.go\<close>, the
  framing of \<^verbatim>\<open>rpc.go\<close>, and the loop \<^verbatim>\<open>ServeLinear\<close> of \<^verbatim>\<open>conn.go\<close> over a stream of bytes.
\<close>

section \<open>Procedures\<close>

text \<open>The reply message and the buffer with the rest of the reply, or an error; and the new state.\<close>

type_synonym 'fs answer = "((go_error + RPCMsgReply \<times> nat) \<times> 'fs World) go"

definition w_pool :: "(Pool \<Rightarrow> Pool) \<Rightarrow> 'fs World \<Rightarrow> 'fs World" where
  "w_pool f w = w\<lparr>W_pool := f (W_pool w)\<rparr>"

definition reply_msg :: "RPCMsgCall \<Rightarrow> u32 \<Rightarrow> RPCMsgReply" where
  "reply_msg hdr replyStat =
     \<lparr>RPCMsgReply_Xid = RPCMsgCall_Xid hdr, RPCMsgReply_MsgType = RPC_REPLY, RPCMsgReply_ReplyStat = replyStat\<rparr>"

text \<open>Encode a sequence of values into a buffer and answer with it.\<close>

definition answer_with :: "RPCMsgReply \<Rightarrow> nat \<Rightarrow> xenc list \<Rightarrow> 'fs World \<Rightarrow> 'fs answer" where
  "answer_with reply data vs w =
     (case EncodeAll vs of (b, err) \<Rightarrow>
        Inr (case err of None \<Rightarrow> Inr (reply, data) | Some e \<Rightarrow> Inl (go_of_xerr e),
             w_pool (Pool_update data (Buf_Write b)) w))"

definition Muxv4_Void :: "RPCMsgCall \<Rightarrow> nat \<Rightarrow> 'fs World \<Rightarrow> 'fs answer" where
  "Muxv4_Void hdr data w =
     answer_with (reply_msg hdr MSG_ACCEPTED) data
       [enc_Auth \<lparr>Auth_Flavor = AUTH_FLAVOR_NULL, Auth_Body = []\<rparr>, eUint32 ACCEPT_SUCCESS]
       (w_pool (Pool_update data Buf_Reset) w)"

definition MuxMismatch_HandleProc :: "RPCMsgCall \<Rightarrow> nat \<Rightarrow> 'fs World \<Rightarrow> 'fs answer" where
  "MuxMismatch_HandleProc hdr data w =
     answer_with (reply_msg hdr MSG_ACCEPTED) data
       [enc_Auth zero_Auth, eUint32 ACCEPT_PROG_MISMATCH, eUint32 4, eUint32 4]
       (w_pool (Pool_update data Buf_Reset) w)"

definition dec_compound_args :: "(string \<times> u32 \<times> u32) xdec" where
  "dec_compound_args =
     dthen dString (\<lambda>tag. dthen dUint32 (\<lambda>minorVer. dthen dUint32 (\<lambda>opsCnt.
       dret (tag, minorVer, opsCnt))))"

definition new_Compound :: "Auth \<Rightarrow> u32 \<Rightarrow> string \<Rightarrow> nat \<Rightarrow> Creds \<Rightarrow> Compound" where
  "new_Compound resp minorVer tag opsCount creds =
     \<lparr>x_AuthResp = resp, x_MinorVer = minorVer, x_Tag = tag, x_OpsCount = opsCount, x_Creds = creds,
      x_CurrentHandle = None, x_SavedHandle = None, x_SessionID = zero_SessionID, x_Slot = None\<rparr>"

text \<open>The body of \<^verbatim>\<open>Compound\<close> after authentication, before the deferred \<^verbatim>\<open>data.Discard()\<close>.\<close>

definition compound_body ::
  "'fs Conn \<Rightarrow> RPCMsgCall \<Rightarrow> Auth \<Rightarrow> Creds \<Rightarrow> nat \<Rightarrow> 'fs World \<Rightarrow> 'fs answer" where
  "compound_body m hdr resp creds data w =
     go_bind (on_buf (dec_compound_args (content (Pool_heap (W_pool w) data)))) (\<lambda>((tag, minorVer, opsCnt), rest).
       let w = w_pool (Pool_update data (\<lambda>b. b\<lparr>Buf_r := Buf_w b - length rest\<rparr>)) w
       in case Pool_Get (W_pool w) of (dataOut, p) \<Rightarrow>
         let w = w\<lparr>W_pool := p\<rparr>
         in if minorVer > 2 then
              answer_with (reply_msg hdr MSG_ACCEPTED) dataOut
                [enc_Auth resp, eUint32 ACCEPT_SUCCESS, eUint32 NFS4ERR_MINOR_VERS_MISMATCH, eString tag,
                 eUint32 0] w
            else
              go_bind (Run m data dataOut
                         \<lparr>st_x = new_Compound resp minorVer tag (unat opsCnt) creds, st_w = w\<rparr>) (\<lambda>(r, st).
                Inr (case r of Inl e \<Rightarrow> Inl e | Inr () \<Rightarrow> Inr (reply_msg hdr MSG_ACCEPTED, dataOut), st_w st)))"

definition Muxv4_Compound :: "'fs Conn \<Rightarrow> RPCMsgCall \<Rightarrow> nat \<Rightarrow> 'fs World \<Rightarrow> 'fs answer" where
  "Muxv4_Compound m hdr data w =
     (case Authenticate (RPCMsgCall_Cred hdr) (RPCMsgCall_Verf hdr) of
        Inl (AuthError code) \<Rightarrow>
          answer_with (reply_msg hdr MSG_DENIED) data [eUint32 REJECT_AUTH_ERROR, eUint32 code]
            (w_pool (Pool_update data Buf_Reset) w)
      | Inl (AuthOther e) \<Rightarrow> Inr (Inl e, w)
      | Inr (resp, creds) \<Rightarrow>
          go_bind (compound_body m hdr resp creds data w) (\<lambda>(r, w). Inr (r, w_pool (Pool_Put data) w)))"

definition Muxv4_HandleProc :: "'fs Conn \<Rightarrow> RPCMsgCall \<Rightarrow> nat \<Rightarrow> 'fs World \<Rightarrow> 'fs answer" where
  "Muxv4_HandleProc m hdr data w =
     (if RPCMsgCall_Proc hdr = PROC4_VOID then Muxv4_Void hdr data w
      else if RPCMsgCall_Proc hdr = PROC4_COMPOUND then Muxv4_Compound m hdr data w
      else Inr (Inl (GoErr []), w))"

definition Handle :: "'fs Conn \<Rightarrow> RPCMsgCall \<Rightarrow> nat \<Rightarrow> 'fs World \<Rightarrow> 'fs answer" where
  "Handle m hdr data w =
     (if RPCMsgCall_Vers hdr = 4 then Muxv4_HandleProc m hdr data w
      else MuxMismatch_HandleProc hdr data w)"

section \<open>Framing\<close>

text \<open>\<^verbatim>\<open>ReceiveCall\<close> on the bytes the peer sends. Reading past the end is an error here; the buffer the
  request is read into comes from the pool.\<close>

definition ReceiveCall ::
  "bytes \<Rightarrow> Pool \<Rightarrow> ((go_error + RPCMsgCall \<times> nat) \<times> bytes \<times> Pool) go" where
  "ReceiveCall s p =
     (case dUint32 s of
        Inl e \<Rightarrow> Inr (Inl (go_of_xerr e), [], p)
      | Inr (frag, s1) \<Rightarrow>
          if frag AND push_bit 31 1 = 0 then Inr (Inl (GoErr []), s1, p)
          else
            let headerSize = drop_bit 1 (push_bit 1 frag)
            in case dec_RPCMsgCall s1 of
                 Inl e \<Rightarrow> Inr (Inl (GoErr []), [], p)
               | Inr (hdr, s2) \<Rightarrow>
                   let restSize = int (unat headerSize) - int (length s1 - length s2)
                   in if RPCMsgCall_MsgType hdr \<noteq> RPC_CALL then Inr (Inl (GoErr []), s2, p)
                      else
                        (case Pool_Get p of (buf, p1) \<Rightarrow>
                           go_bind (Buf_Allocate restSize (Pool_heap p1 buf)) (\<lambda>(room, b).
                             let got = take (length room) s2;
                                 p2 = Pool_update buf (\<lambda>_. Buf_Commit (length got) (Buf_fill got b)) p1
                             in Inr (if length got < length room
                                     then Inl (GoErr (if got = [] then [EOF] else []))
                                     else Inr (hdr, buf), drop (length room) s2, p2))))"

definition SendReply :: "RPCMsgReply \<Rightarrow> nat \<Rightarrow> Pool \<Rightarrow> (bytes \<times> Pool) go" where
  "SendReply reply data p =
     go_bind (Buf_Bytes (Pool_heap p data)) (\<lambda>payload.
       let frag = of_nat (12 + length payload) OR push_bit 31 1
       in Inr (fst (eUint32 frag) @ fst (enc_RPCMsgReply reply) @ payload, Pool_Put data p))"

text \<open>One turn of \<^verbatim>\<open>ServeLinear\<close>: the bytes sent, the bytes left to read.\<close>

definition serve_one ::
  "'fs Conn \<Rightarrow> bytes \<Rightarrow> 'fs World \<Rightarrow> ((go_error + bytes \<times> bytes) \<times> 'fs World) go" where
  "serve_one m s w =
     go_bind (ReceiveCall s (W_pool w)) (\<lambda>(r, s', p).
       let w = w\<lparr>W_pool := p\<rparr>
       in case r of
            Inl e \<Rightarrow> Inr (Inl e, w)
          | Inr (hdr, data) \<Rightarrow>
              go_bind (Handle m hdr data w) (\<lambda>(r, w). case r of
                  Inl e \<Rightarrow> Inr (Inl e, w)
                | Inr (reply, dataOut) \<Rightarrow>
                    go_bind (SendReply reply dataOut (W_pool w)) (\<lambda>(sent, p).
                      Inr (Inr (sent, s'), w\<lparr>W_pool := p\<rparr>))))"

text \<open>Every turn consumes input, so the loop ends on every finite stream: with an error, the end of the
  stream included.\<close>

lemma ReceiveCall_shortens:
  "ReceiveCall s p = Inr (Inr (hdr, data), s', p') \<Longrightarrow> length s' < length s"
proof -
  assume r: "ReceiveCall s p = Inr (Inr (hdr, data), s', p')"
  then obtain frag s1 where s1: "dUint32 s = Inr (frag, s1)"
    by (auto simp: ReceiveCall_def split: sum.splits)
  obtain hdr' s2 where s2: "dec_RPCMsgCall s1 = Inr (hdr', s2)"
    using r s1 by (auto simp: ReceiveCall_def Let_def split: sum.splits if_splits)
  have "length s' \<le> length s2"
    using r s1 s2
    by (auto simp: ReceiveCall_def Let_def go_bind_eq_Inr split: if_splits prod.splits)
  moreover have "length s2 \<le> length s1" using RPCMsgCallC.dec_shortens [OF s2] .
  moreover have "length s1 < length s"
    using s1 by (auto simp: dUint32_def dthen_def dret_def readN_def split: if_splits)
  ultimately show ?thesis by simp
qed

function ServeLinear :: "'fs Conn \<Rightarrow> bytes \<Rightarrow> 'fs World \<Rightarrow> (go_error \<times> bytes \<times> 'fs World) go" where
  "ServeLinear m s w =
     (case serve_one m s w of
        Inl e \<Rightarrow> Inl e
      | Inr (Inl e, w') \<Rightarrow> Inr (e, [], w')
      | Inr (Inr (sent, s'), w') \<Rightarrow>
          if length s' < length s then
            go_bind (ServeLinear m s' w') (\<lambda>(e, more, w''). Inr (e, sent @ more, w''))
          else Inl Hang)"
  by pat_completeness auto
termination by (relation "measure (\<lambda>(m, s, w). length s)") auto

declare ServeLinear.simps [simp del]

lemma serve_one_shortens:
  assumes "serve_one m s w = Inr (Inr (sent, s'), w')"
  shows "length s' < length s"
proof -
  obtain r s1 p where r: "ReceiveCall s (W_pool w) = Inr (r, s1, p)"
    using assms by (auto simp: serve_one_def go_bind_eq_Inr)
  then obtain hdr data where rr: "r = Inr (hdr, data)"
    using assms by (cases r) (auto simp: serve_one_def Let_def)
  obtain a w1 where a: "Handle m hdr data (w\<lparr>W_pool := p\<rparr>) = Inr (a, w1)"
    using assms r rr by (auto simp: serve_one_def Let_def go_bind_eq_Inr)
  have "s' = s1"
    using assms r rr a by (cases a) (auto simp: serve_one_def Let_def go_bind_eq_Inr)
  then show ?thesis using ReceiveCall_shortens r rr by blast
qed

section \<open>Properties\<close>

lemma bit_drop_push: "bit (drop_bit 1 (push_bit 1 (a :: u32))) k \<longleftrightarrow> k < 31 \<and> bit a k"
  unfolding bit_drop_bit_eq o_def bit_push_bit_iff by auto

lemma frag_bits:
  assumes "n < 2 ^ 31"
  shows "(of_nat n OR push_bit 31 1 :: u32) AND push_bit 31 1 \<noteq> 0"
    and "drop_bit 1 (push_bit 1 (of_nat n OR push_bit 31 1 :: u32)) = of_nat n"
proof -
  have "bit ((of_nat n OR push_bit 31 1 :: u32) AND push_bit 31 1) 31" by (simp add: bit_simps)
  then show "(of_nat n OR push_bit 31 1 :: u32) AND push_bit 31 1 \<noteq> 0" by (metis bit_0_eq bot_apply bot_bool_def)
  have high: "\<not> bit (of_nat n :: u32) 31"
  proof -
    have "(of_nat n :: u32) < 2147483648" using assms by (simp add: word_less_nat_alt unat_of_nat)
    then have "(of_nat n :: u32) div 2147483648 = 0" by (rule div_word_less)
    then show ?thesis by (simp add: bit_iff_odd)
  qed
  show "drop_bit 1 (push_bit 1 (of_nat n OR push_bit 31 1 :: u32)) = of_nat n"
  proof (rule bit_word_eqI)
    fix k assume "k < LENGTH(32)"
    then show "bit (drop_bit 1 (push_bit 1 (of_nat n OR push_bit 31 1 :: u32))) k = bit (of_nat n :: u32) k"
      unfolding bit_drop_push bit_or_iff bit_push_bit_iff using high by (cases "k = 31") (auto simp: bit_1_iff)
  qed
qed

definition frame :: "nat \<Rightarrow> bytes" where
  "frame n = put_u32 (of_nat n OR push_bit 31 1)"

lemma ReceiveCall_frame:
  assumes "ok_RPCMsgCall hdr" and "RPCMsgCall_MsgType hdr = RPC_CALL" and "n < 2 ^ 31"
    and "Pool_Get p = (buf, p1)"
  shows "ReceiveCall (frame n @ fst (enc_RPCMsgCall hdr) @ s2) p =
    go_bind (Buf_Allocate (int n - int (length (fst (enc_RPCMsgCall hdr)))) (Pool_heap p1 buf)) (\<lambda>(room, b).
      let got = take (length room) s2;
          p2 = Pool_update buf (\<lambda>_. Buf_Commit (length got) (Buf_fill got b)) p1
      in Inr (if length got < length room then Inl (GoErr (if got = [] then [EOF] else [])) else Inr (hdr, buf),
              drop (length room) s2, p2))"
proof -
  have n: "unat (of_nat n :: u32) = n" using assms(3) by (simp add: unat_of_nat)
  show ?thesis
    using assms frag_bits [OF assms(3)] n
    by (simp add: ReceiveCall_def frame_def Let_def)
qed

text \<open>A call that arrives in one record is received whole: the header is decoded, the body is in a buffer
  of its own that nobody else holds, and the bytes that follow are left for the next call.\<close>

theorem receive_call:
  assumes "ok_RPCMsgCall hdr" and "RPCMsgCall_MsgType hdr = RPC_CALL"
    and "length (fst (enc_RPCMsgCall hdr)) + length body < 2 ^ 31" and "pool_inv held p"
  shows "\<exists>buf p'. ReceiveCall (frame (length (fst (enc_RPCMsgCall hdr)) + length body) @
      fst (enc_RPCMsgCall hdr) @ body @ rest) p = Inr (Inr (hdr, buf), rest, p') \<and>
    content (Pool_heap p' buf) = body \<and> buf \<notin> held"
proof -
  obtain buf p1 where g: "Pool_Get p = (buf, p1)" by force
  note new = Pool_Get_inv [OF assms(4) g]
  let ?b = "Pool_heap p1 buf"
  have wf: "wf_buf ?b" using new by (simp add: pool_inv_def)
  obtain s where al: "Buf_Allocate (int (length body)) ?b = Inr (s, Buf_Grow (Buf_w ?b + length body) ?b)"
      "length s = length body"
    using Buf_Allocate_ok [OF wf, of "int (length body)"] by auto
  have "content (Buf_Commit (length body) (Buf_fill body (Buf_Grow (Buf_w ?b + length body) ?b))) = body"
    using fill_commit(2) [of "Buf_Grow (Buf_w ?b + length body) ?b" body] wf new by simp
  then show ?thesis
    using ReceiveCall_frame [OF assms(1,2,3) g, of "body @ rest"] al new
    by (simp add: Let_def Pool_update_def)
qed

definition demo_call :: RPCMsgCall where
  "demo_call = zero_RPCMsgCall\<lparr>RPCMsgCall_Xid := 77, RPCMsgCall_RPCVer := 2, RPCMsgCall_Prog := 100003,
     RPCMsgCall_Vers := 4, RPCMsgCall_Proc := 1\<rparr>"

lemma demo_call_ok:
  "ok_RPCMsgCall demo_call" "RPCMsgCall_MsgType demo_call = RPC_CALL" "length (fst (enc_RPCMsgCall demo_call)) = 40"
  by (simp_all add: demo_call_def zero_RPCMsgCall_def ok_RPCMsgCall_def ok_Auth_def zero_Auth_def enc_RPCMsgCall_def
      enc_Auth_def eUint32_def eBytes_def Pad_def)

lemma demo_pool_inv: "pool_inv {} demo_pool"
  by (simp add: demo_pool_def pool_inv_def)

theorem receive_call_witness:
  "\<exists>buf p'. ReceiveCall (frame 42 @ fst (enc_RPCMsgCall demo_call) @ [1, 2] @ [9, 9]) demo_pool =
       Inr (Inr (demo_call, buf), [9, 9], p') \<and> content (Pool_heap p' buf) = [1, 2]"
  using receive_call [OF demo_call_ok(1,2) _ demo_pool_inv, of "[1, 2]" "[9, 9]"] demo_call_ok(3) by auto

text \<open>C31: A record that announces fewer bytes than its call header takes makes the server panic: the rest of the
  record would have a negative length, which \<^verbatim>\<open>Allocate\<close> turns into a slice bound out of range.\<close>

theorem short_record_panics:
  assumes "ok_RPCMsgCall hdr" and "RPCMsgCall_MsgType hdr = RPC_CALL"
    and "n < length (fst (enc_RPCMsgCall hdr))" and "n < 2 ^ 31" and "pool_inv held p"
  shows "ReceiveCall (frame n @ fst (enc_RPCMsgCall hdr) @ rest) p = Inl Panic"
proof -
  obtain buf p1 where g: "Pool_Get p = (buf, p1)" by force
  have "wf_buf (Pool_heap p1 buf)" using Pool_Get_inv [OF assms(5) g] by (simp add: pool_inv_def)
  then have "Buf_Allocate (int n - int (length (fst (enc_RPCMsgCall hdr)))) (Pool_heap p1 buf) = Inl Panic"
    using assms(3) by (intro Buf_Allocate_negative) (simp_all add: wf_buf_def)
  then show ?thesis using ReceiveCall_frame [OF assms(1,2,4) g, of rest] by simp
qed

theorem short_record_panics_witness:
  "ReceiveCall (frame 39 @ fst (enc_RPCMsgCall demo_call) @ []) demo_pool = Inl Panic"
  by (rule short_record_panics [OF demo_call_ok(1,2) _ _ demo_pool_inv]) (simp_all add: demo_call_ok(3))

text \<open>C32: What \<^verbatim>\<open>SendReply\<close> writes is one record that a client can take apart again: the fragment header with the
  length of what follows, the reply message, and the payload; and the buffer goes back to the pool, empty.\<close>

theorem send_reply:
  assumes "wf_buf (Pool_heap p data)" and "12 + length (content (Pool_heap p data)) < 2 ^ 31"
  shows "\<exists>sent p' s1. SendReply reply data p = Inr (sent, p') \<and>
    sent = frame (length s1) @ s1 \<and> dec_RPCMsgReply s1 = Inr (reply, content (Pool_heap p data)) \<and>
    Pool_bufs p' = Pool_bufs p @ [data] \<and> content (Pool_heap p' data) = []"
proof -
  let ?c = "content (Pool_heap p data)"
  have len: "length (fst (enc_RPCMsgReply reply) @ ?c) = 12 + length ?c"
    by (simp add: enc_RPCMsgReply_def)
  have "SendReply reply data p = Inr (frame (12 + length ?c) @ fst (enc_RPCMsgReply reply) @ ?c, Pool_Put data p)"
    by (simp add: SendReply_def Buf_Bytes_content [OF assms(1)] Let_def frame_def eUint32_def)
  then show ?thesis
    using len by (auto simp: Pool_Put_def intro!: exI [of _ "fst (enc_RPCMsgReply reply) @ ?c"])
qed

theorem send_reply_witness:
  "\<exists>sent p' s1. SendReply (reply_msg demo_call MSG_ACCEPTED) 0
      (Pool_update 0 (Buf_Write [5, 6]) demo_pool) = Inr (sent, p') \<and> sent = frame (length s1) @ s1 \<and>
     dec_RPCMsgReply s1 = Inr (reply_msg demo_call MSG_ACCEPTED, [5, 6])"
proof -
  let ?p = "Pool_update 0 (Buf_Write [5, 6]) demo_pool"
  have e: "wf_buf (Pool_heap demo_pool 0)" "content (Pool_heap demo_pool 0) = []"
    by (simp_all add: demo_pool_def wf_buf_def content_def)
  then have "wf_buf (Pool_heap ?p 0)" "content (Pool_heap ?p 0) = [5, 6]" by (simp_all add: Pool_update_def)
  with send_reply [of ?p 0] show ?thesis by fastforce
qed

text \<open>The loop \<^verbatim>\<open>ServeLinear\<close> ends on every finite stream of bytes: every call it serves was consumed from the
  stream, so the loop is well defined by its unguarded equation.\<close>

theorem serve_linear_terminates:
  "ServeLinear m s w =
     (case serve_one m s w of
        Inl e \<Rightarrow> Inl e
      | Inr (Inl e, w') \<Rightarrow> Inr (e, [], w')
      | Inr (Inr (sent, s'), w') \<Rightarrow> go_bind (ServeLinear m s' w') (\<lambda>(e, more, w''). Inr (e, sent @ more, w'')))"
  using serve_one_shortens [of m s w]
  by (subst ServeLinear.simps) (auto split: sum.splits prod.splits)

lemma answer_with_reply: "answer_with reply data vs w = Inr (Inr (reply', out), w') \<Longrightarrow> reply' = reply"
  by (auto simp: answer_with_def split: prod.splits option.splits)

lemma compound_body_reply:
  assumes "compound_body m hdr resp creds data w = Inr (Inr (reply, out), w')"
  shows "reply = reply_msg hdr MSG_ACCEPTED"
proof -
  obtain tag minor n rest where d: "dec_compound_args (content (Pool_heap (W_pool w) data)) = Inr ((tag, minor, n), rest)"
    using assms by (auto simp: compound_body_def go_bind_eq_Inr)
  obtain o' p where g: "Pool_Get (W_pool (w_pool (Pool_update data (\<lambda>b. b\<lparr>Buf_r := Buf_w b - length rest\<rparr>)) w)) = (o', p)"
    by force
  show ?thesis
  proof (cases "minor > 2")
    case True
    let ?w1 = "w_pool (Pool_update data (\<lambda>b. b\<lparr>Buf_r := Buf_w b - length rest\<rparr>)) w"
    have "answer_with (reply_msg hdr MSG_ACCEPTED) o'
        [enc_Auth resp, eUint32 ACCEPT_SUCCESS, eUint32 NFS4ERR_MINOR_VERS_MISMATCH, eString tag, eUint32 0]
        (?w1\<lparr>W_pool := p\<rparr>) = Inr (Inr (reply, out), w')"
      using assms d g True by (simp add: compound_body_def Let_def)
    then show ?thesis by (rule answer_with_reply)
  next
    case False
    let ?st = "\<lparr>st_x = new_Compound resp minor tag (unat n) creds,
      st_w = (w_pool (Pool_update data (\<lambda>b. b\<lparr>Buf_r := Buf_w b - length rest\<rparr>)) w)\<lparr>W_pool := p\<rparr>\<rparr>"
    obtain r1 st' where "Run m data o' ?st = Inr (r1, st')" and w': "w' = st_w st'"
        and rr: "Inr (reply, out) = (case r1 of Inl e \<Rightarrow> Inl e | Inr () \<Rightarrow> Inr (reply_msg hdr MSG_ACCEPTED, o'))"
      using assms d g False by (auto simp: compound_body_def Let_def go_bind_eq_Inr)
    show ?thesis
    proof (cases r1)
      case (Inr u)
      then show ?thesis using rr by (simp split: unit.splits)
    qed (use rr in simp)
  qed
qed

text \<open>Every answered call gets a reply with its own transaction number.\<close>

lemma Handle_xid:
  assumes "Handle m hdr data w = Inr (Inr (reply, out), w')"
  shows "RPCMsgReply_Xid reply = RPCMsgCall_Xid hdr \<and> RPCMsgReply_MsgType reply = RPC_REPLY"
proof -
  have "\<exists>s. reply = reply_msg hdr s"
    using assms answer_with_reply compound_body_reply
    by (fastforce simp: Handle_def Muxv4_HandleProc_def Muxv4_Void_def MuxMismatch_HandleProc_def Muxv4_Compound_def
        go_bind_eq_Inr split: if_splits sum.splits auth_error.splits prod.splits)
  then show ?thesis by (auto simp: reply_msg_def)
qed

text \<open>A call for another version of the program is answered, whatever it holds, with \<^verbatim>\<open>PROG_MISMATCH\<close> and the
  one version the server speaks; nothing but the buffer of the call changes.\<close>

theorem wrong_version_answer:
  assumes "RPCMsgCall_Vers hdr \<noteq> 4"
  shows "\<exists>p'. Handle m hdr data w = Inr (Inr (reply_msg hdr MSG_ACCEPTED, data), w\<lparr>W_pool := p'\<rparr>) \<and>
    content (Pool_heap p' data) = put_u32 0 @ put_u32 0 @ put_u32 ACCEPT_PROG_MISMATCH @ put_u32 4 @ put_u32 4"
proof -
  let ?vs = "[enc_Auth zero_Auth, eUint32 ACCEPT_PROG_MISMATCH, eUint32 4, eUint32 4]"
  have v: "EncodeAll ?vs = (put_u32 0 @ put_u32 0 @ put_u32 ACCEPT_PROG_MISMATCH @ put_u32 4 @ put_u32 4, None)"
    by (simp add: enc_Auth_def zero_Auth_def eUint32_def eBytes_def Pad_def)
  show ?thesis
    using assms
    by (intro exI [of _ "Pool_update data (Buf_Write (fst (EncodeAll ?vs))) (Pool_update data Buf_Reset (W_pool w))"])
      (simp add: Handle_def MuxMismatch_HandleProc_def answer_with_def v w_pool_def Pool_update_def)
qed

theorem wrong_version_answer_witness:
  "\<exists>p'. Handle demo_conn (demo_call\<lparr>RPCMsgCall_Vers := 3\<rparr>) 0 demo_world =
      Inr (Inr (reply_msg (demo_call\<lparr>RPCMsgCall_Vers := 3\<rparr>) MSG_ACCEPTED, 0), demo_world\<lparr>W_pool := p'\<rparr>) \<and>
    length (content (Pool_heap p' 0)) = 20"
  using wrong_version_answer [of "demo_call\<lparr>RPCMsgCall_Vers := 3\<rparr>" demo_conn 0 demo_world] by (auto simp: demo_call_def)

end
