(* ===== verification/Invariant.thy ===== *)
theory Invariant
  imports Rpc
begin

text \<open>
  What holds of the shared state between any two operations, and the rules by which the operations keep
  it. Each move of theory \<open>Compound\<close> has one rule; an operation is covered by chaining them.
\<close>

section \<open>Buffers owned by the client table\<close>

text \<open>The values of a map, concatenated.\<close>

definition cat :: "('v \<Rightarrow> 'a list) \<Rightarrow> ('k, 'v) gomap \<Rightarrow> 'a list" where
  "cat f m = concat (map (f \<circ> snd) m)"

lemma cat_simps [simp]: "cat f [] = []" "cat f ((k, v) # m) = f v @ cat f m"
  by (simp_all add: cat_def)

lemma cat_mput_new: "mget m k = None \<Longrightarrow> cat f (mput k v m) = cat f m @ f v"
  by (induction m) (auto split: if_splits)

lemma cat_mput_same: "mget m k = Some v \<Longrightarrow> f v' = f v \<Longrightarrow> cat f (mput k v' m) = cat f m"
  by (induction m) (auto split: if_splits)

lemma cat_mput: "mget m k = Some v \<Longrightarrow> mset (cat f (mput k v' m)) + mset (f v) = mset (cat f m) + mset (f v')"
  by (induction m) (auto split: if_splits)

lemma mdel_None: "mget m k = None \<Longrightarrow> mdel k m = m"
  by (induction m) (auto split: if_splits)

lemma cat_mdel: "wf_map m \<Longrightarrow> mget m k = Some v \<Longrightarrow> mset (cat f m) = mset (f v) + mset (cat f (mdel k m))"
proof (induction m)
  case (Cons kv m)
  obtain k' v' where kv: "kv = (k', v')" by force
  show ?case
  proof (cases "k' = k")
    case True
    then have "mget m k = None" using Cons.prems kv by (auto simp: wf_map_def mget_None_iff)
    then have "mdel k m = m" by (rule mdel_None)
    with True Cons.prems kv show ?thesis by simp
  next
    case False
    with Cons kv show ?thesis by (auto simp: wf_map_def)
  qed
qed simp

lemma cat_filter: "mset (cat f (filter P m)) \<subseteq># mset (cat f m)"
proof (induction m)
  case (Cons kv m)
  then show ?case
    by (cases kv) (auto intro: subset_mset.add_mono subset_mset.add_increasing)
qed simp

lemma distinct_sub: "mset xs \<subseteq># mset ys \<Longrightarrow> distinct ys \<Longrightarrow> distinct xs \<and> set xs \<subseteq> set ys"
proof
  assume s: "mset xs \<subseteq># mset ys" and d: "distinct ys"
  have "count (mset xs) a \<le> 1" for a
    using mset_subset_eq_count [OF s, of a] d by (metis distinct_count_atmost_1 le_trans count_mset_0_iff
        le_numeral_extra(4) zero_le)
  then show "distinct xs"
    by (metis Suc_leI count_greater_zero_iff distinct_count_atmost_1 le_antisym less_one linorder_not_less
        not_in_iff set_mset_mset One_nat_def)
  show "set xs \<subseteq> set ys" using set_mset_mono [OF s] by simp
qed

definition table_bufs :: "Clients \<Rightarrow> nat list" where
  "table_bufs cs = cat client_bufs cs"

lemma client_bufs_cat: "client_bufs c = cat slot_bufs (Client_sessions c)"
  by (simp add: client_bufs_def cat_def)

text \<open>The buffers of the table are distinct, disjoint from those in use by requests (\<open>io\<close>), and none of
  them is in the pool.\<close>

definition bufs_ok :: "nat set \<Rightarrow> Clients \<Rightarrow> Pool \<Rightarrow> bool" where
  "bufs_ok io cs p \<longleftrightarrow> distinct (table_bufs cs) \<and> set (table_bufs cs) \<inter> io = {} \<and>
     pool_inv (io \<union> set (table_bufs cs)) p"

lemma pool_inv_mono: "pool_inv held p \<Longrightarrow> held' \<subseteq> held \<Longrightarrow> pool_inv held' p"
  by (auto simp: pool_inv_def)

lemma bufs_ok_sub:
  assumes "bufs_ok io cs p" and "mset (table_bufs cs') \<subseteq># mset (table_bufs cs)"
  shows "bufs_ok io cs' p"
  using assms distinct_sub [OF assms(2)] unfolding bufs_ok_def
  by (auto intro: pool_inv_mono)

lemma table_bufs_touch:
  "mget cs i = Some c \<Longrightarrow> Client_sessions c' = Client_sessions c \<Longrightarrow> table_bufs (mput i c' cs) = table_bufs cs"
  by (simp add: table_bufs_def client_bufs_def cat_mput_same)

section \<open>The client table\<close>

text \<open>How many files keep a client busy; a client that is not in the table is not.\<close>

definition busy_of :: "Clients \<Rightarrow> u64 \<Rightarrow> int" where
  "busy_of cs i = (case mget cs i of None \<Rightarrow> 0 | Some c \<Rightarrow> Client_busy c)"

text \<open>Only confirmed clients have open files.\<close>

definition clients_inv :: "Clients \<Rightarrow> bool" where
  "clients_inv cs \<longleftrightarrow> wf_clients cs \<and> one_owner cs \<and>
     (\<forall>i c. mget cs i = Some c \<longrightarrow> Client_busy c \<ge> 0 \<and> (\<not> Client_confirmed c \<longrightarrow> Client_busy c = 0))"

text \<open>A change of the table that no open file notices.\<close>

definition quiet :: "Clients \<Rightarrow> Clients \<Rightarrow> bool" where
  "quiet cs cs' \<longleftrightarrow> clients_inv cs' \<and> (\<forall>i. busy_of cs' i = busy_of cs i) \<and>
     mset (table_bufs cs') \<subseteq># mset (table_bufs cs)"

lemma quiet_refl: "clients_inv cs \<Longrightarrow> quiet cs cs"
  by (simp add: quiet_def)

lemma quiet_touch:
  assumes "clients_inv cs" "mget cs i = Some c" "same_identity c c'" "Client_sessions c' = Client_sessions c"
    "Client_clientID c' = Client_clientID c" "Client_busy c' = Client_busy c"
    "Client_confirmed c' \<or> \<not> Client_confirmed c"
  shows "quiet cs (mput i c' cs)"
proof -
  have wf: "wf_clients cs" and own: "one_owner cs" using assms(1) by (simp_all add: clients_inv_def)
  have "clients_inv (mput i c' cs)"
    using assms touch_ok [OF wf assms(2,3,4,5)] from_table_one_owner [OF _ own]
    by (auto simp: clients_inv_def)
  moreover have "busy_of (mput i c' cs) j = busy_of cs j" for j
    using assms(2,6) by (simp add: busy_of_def)
  ultimately show ?thesis using table_bufs_touch [OF assms(2,4)] by (simp add: quiet_def)
qed

lemma quiet_mdel:
  assumes "clients_inv cs" "mget cs i = Some c" "\<not> Client_busy c > 0"
  shows "quiet cs (mdel i cs)"
proof -
  have wf: "wf_clients cs" "wf_map cs" using assms(1) by (simp_all add: clients_inv_def wf_clients_def)
  have "clients_inv (mdel i cs)"
    using assms(1) wf_clients_mdel [OF wf(1)] from_table_one_owner [OF from_table_mdel]
    by (auto simp: clients_inv_def)
  moreover have "busy_of (mdel i cs) j = busy_of cs j" for j
    using assms by (auto simp: busy_of_def clients_inv_def intro: antisym)
  moreover have "mset (table_bufs (mdel i cs)) \<subseteq># mset (table_bufs cs)"
    using cat_mdel [OF wf(2) assms(2), of client_bufs] by (simp add: table_bufs_def)
  ultimately show ?thesis by (simp add: quiet_def)
qed

lemma quiet_trans: "quiet a b \<Longrightarrow> quiet b c \<Longrightarrow> quiet a c"
  by (auto simp: quiet_def intro: subset_mset.order_trans)

lemma quiet_Get: "clients_inv cs \<Longrightarrow> quiet cs (snd (Clients_Get i now cs))"
  by (auto simp: Clients_Get_def Let_def same_identity_def quiet_refl intro!: quiet_touch split: option.splits)

lemma quiet_GetByName:
  assumes "clients_inv cs"
  shows "quiet cs (snd (Clients_GetByName name verifier creds now cs))"
proof -
  have "mget cs i = Some c" if "find_by_name name verifier creds cs = Some (i, c)" for i c
    using find_by_name_Some [OF that] assms by (simp add: clients_inv_def wf_clients_def mget_in_set)
  with assms show ?thesis
    by (auto simp: Clients_GetByName_def same_identity_def quiet_refl intro!: quiet_touch split: option.splits)
qed

lemma quiet_Confirm: "clients_inv cs \<Longrightarrow> quiet cs (snd (Clients_Confirm i cv creds now cs))"
  by (auto simp: Clients_Confirm_def Let_def same_identity_def quiet_refl intro!: quiet_touch
      split: option.splits)

lemma quiet_Confirm41: "clients_inv cs \<Longrightarrow> quiet cs (snd (Clients_Confirm41 i sq creds now cs))"
  by (auto simp: Clients_Confirm41_def Let_def same_identity_def quiet_refl intro!: quiet_touch
      split: option.splits)

lemma quiet_RemoveClient: "clients_inv cs \<Longrightarrow> quiet cs (snd (Clients_RemoveClient i cs))"
  by (auto simp: Clients_RemoveClient_def quiet_refl intro!: quiet_mdel split: option.splits)

lemma quiet_Add:
  assumes inv: "clients_inv cs" and new: "client = new_Client name verifier creds"
    and add: "Clients_Add client now cs ds = Inr (r, cs', ds')"
  shows "quiet cs cs'"
proof -
  have wf: "wf_clients cs" "wf_map cs" and own: "one_owner cs"
    using inv by (simp_all add: clients_inv_def wf_clients_def)
  have ok: "wf_clients cs'" "one_owner cs'"
    using Clients_Add_wf [OF wf(1) _ add] Clients_Add_one_owner [OF wf(2) own add] new
    by (simp_all add: new_Client_def)
  show ?thesis
    using wf(2) add
  proof (cases rule: Clients_Add_cases)
    case refused
    then show ?thesis using inv by (simp add: quiet_refl)
  next
    case (updated i c cv)
    then show ?thesis using inv by (auto simp: same_identity_def intro!: quiet_touch)
  next
    case (added i cv)
    let ?kept = "filter (\<lambda>(_, c). Client_confirmed c \<or> Client_Name c \<noteq> Client_Name client) cs"
    have kept: "mget ?kept j = Some c \<longleftrightarrow>
        mget cs j = Some c \<and> (Client_confirmed c \<or> Client_Name c \<noteq> Client_Name client)" for j c
      by (auto simp: mget_filter_key [OF wf(2)] split: option.splits)
    have fresh: "mget ?kept i = None" using kept [of i] added(2) by (cases "mget ?kept i") auto
    let ?new = "client\<lparr>Client_clientID := i, Client_confirmValue := cv, Client_seqID := 1, Client_lastSeen := now\<rparr>"
    have new': "Client_busy ?new = 0" "client_bufs ?new = []"
      by (simp_all add: new new_Client_def client_bufs_def)
    have bz: "busy_of cs' j = busy_of cs j" for j
    proof (cases "j = i")
      case True
      then show ?thesis using new'(1) added(2) by (simp add: busy_of_def added(4))
    next
      case False
      then have "mget cs' j = mget ?kept j" by (simp add: added(4))
      moreover have "mget ?kept j = (case mget cs j of None \<Rightarrow> None
          | Some c \<Rightarrow> if Client_confirmed c \<or> Client_Name c \<noteq> Client_Name client then Some c else None)"
        by (rule mget_filter_key [OF wf(2)])
      ultimately show ?thesis using inv by (auto simp: busy_of_def clients_inv_def split: option.splits)
    qed
    have "Client_busy c \<ge> 0 \<and> (\<not> Client_confirmed c \<longrightarrow> Client_busy c = 0)" if "mget cs' j = Some c" for j c
    proof (cases "j = i")
      case True
      then have "c = ?new" using that by (simp add: added(4))
      then show ?thesis using new'(1) by simp
    next
      case False
      then have "mget cs j = Some c" using that kept [of j c] by (simp add: added(4))
      then show ?thesis using inv by (simp add: clients_inv_def)
    qed
    moreover have "mset (table_bufs cs') \<subseteq># mset (table_bufs cs)"
      using cat_mput_new [OF fresh, of client_bufs ?new] cat_filter [of client_bufs _ cs] new'
      by (simp add: table_bufs_def added(4))
    ultimately show ?thesis using ok bz by (auto simp: quiet_def clients_inv_def)
  qed
qed

text \<open>A fresh session takes its reply buffers from the pool; a closed one gives them back.\<close>

lemma BuildSession_keeps:
  assumes inv: "clients_inv cs" and c: "mget cs i = Some c" and b: "bufs_ok io cs p"
    and s: "BuildSession persist c p ds = Inr (sid, c', p', ds')"
  shows "clients_inv (mput i c' cs)" and "busy_of (mput i c' cs) j = busy_of cs j"
    and "bufs_ok io (mput i c' cs) p'"
proof -
  obtain k slots where k: "mget (Client_sessions c) k = None"
      and sl: "build_slots persist 0 16 p = (slots, p')"
      and c': "c' = c\<lparr>Client_sessions := mput k slots (Client_sessions c)\<rparr>"
    using s by (rule BuildSession_cases)
  have wfc: "wf_client i c" using inv c by (auto simp: clients_inv_def intro: wf_clients_get)
  have keep: "wf_client i c'" "same_identity c c'" using BuildSession_wf [OF wfc s] by simp_all
  have wf: "wf_clients cs" and own: "one_owner cs" using inv by (simp_all add: clients_inv_def)
  show "clients_inv (mput i c' cs)"
    using inv c wf_clients_mput [OF wf keep(1)] from_table_one_owner [OF from_table_mput [OF c keep(2)] own]
    by (auto simp: clients_inv_def c')
  show "busy_of (mput i c' cs) j = busy_of cs j" using c by (simp add: busy_of_def c')
  have pool: "pool_inv (io \<union> set (table_bufs cs)) p" using b by (simp add: bufs_ok_def)
  note new = build_slots_pool [OF sl pool]
  have "client_bufs c' = client_bufs c @ slot_bufs slots"
    using cat_mput_new [OF k, of slot_bufs slots] by (simp add: client_bufs_cat c')
  then have m: "mset (table_bufs (mput i c' cs)) = mset (table_bufs cs @ slot_bufs slots)"
    using cat_mput [OF c, of client_bufs c'] by (simp add: table_bufs_def)
  have "distinct (table_bufs cs @ slot_bufs slots)" using b new by (auto simp: bufs_ok_def)
  then have "distinct (table_bufs (mput i c' cs))" by (simp add: mset_eq_imp_distinct_iff [OF m])
  moreover have "set (table_bufs (mput i c' cs)) = set (table_bufs cs) \<union> set (slot_bufs slots)"
    using arg_cong [OF m, of set_mset] by simp
  ultimately show "bufs_ok io (mput i c' cs) p'"
    using b new by (auto simp: bufs_ok_def Un_ac)
qed

lemma RemoveSession_keeps:
  assumes inv: "clients_inv cs" and c: "mget cs i = Some c" and b: "bufs_ok io cs p"
    and s: "RemoveSession sid c p = (c', p')"
  shows "clients_inv (mput i c' cs)" and "busy_of (mput i c' cs) j = busy_of cs j"
    and "bufs_ok io (mput i c' cs) p'"
proof -
  have wf: "wf_clients cs" and own: "one_owner cs" using inv by (simp_all add: clients_inv_def)
  have wfc: "wf_client i c" using wf c by (rule wf_clients_get)
  have keep: "wf_client i c'" using RemoveSession_wf [OF wfc, of sid p] s by simp
  have same: "same_identity c c'" "Client_busy c' = Client_busy c" "Client_confirmed c' = Client_confirmed c"
    using s by (auto simp: RemoveSession_def same_identity_def split: option.splits)
  show "clients_inv (mput i c' cs)"
    using inv c same wf_clients_mput [OF wf keep] from_table_one_owner [OF from_table_mput [OF c same(1)] own]
    by (auto simp: clients_inv_def)
  show "busy_of (mput i c' cs) j = busy_of cs j" using c same by (simp add: busy_of_def)
  show "bufs_ok io (mput i c' cs) p'"
  proof (cases "mget (Client_sessions c) (CacheIDFromSessionID sid)")
    case None
    then have "c' = c" "p' = p" using s by (simp_all add: RemoveSession_def)
    then show ?thesis using b table_bufs_touch [OF c] by (simp add: bufs_ok_def)
  next
    case (Some slots)
    then have c': "c' = c\<lparr>Client_sessions := mdel (CacheIDFromSessionID sid) (Client_sessions c)\<rparr>"
        and p': "p' = put_bufs (slot_bufs slots) p"
      using s by (auto simp: RemoveSession_def)
    have "mset (client_bufs c) = mset (slot_bufs slots) + mset (client_bufs c')"
      using cat_mdel [OF _ Some, of slot_bufs] wfc by (simp add: client_bufs_cat c' wf_client_def)
    then have m: "mset (table_bufs cs) = mset (slot_bufs slots @ table_bufs (mput i c' cs))"
      using cat_mput [OF c, of client_bufs c'] by (simp add: table_bufs_def add.commute)
    have "distinct (slot_bufs slots @ table_bufs (mput i c' cs))"
      using b by (simp add: mset_eq_imp_distinct_iff [OF m, symmetric] bufs_ok_def del: distinct_append)
    moreover have st: "set (table_bufs cs) = set (slot_bufs slots) \<union> set (table_bufs (mput i c' cs))"
      using arg_cong [OF m, of set_mset] by simp
    moreover have "pool_inv (io \<union> set (table_bufs cs) - set (slot_bufs slots)) p'"
      unfolding p' using b calculation by (intro put_bufs_pool) (auto simp: bufs_ok_def)
    moreover have "io \<union> set (table_bufs (mput i c' cs)) \<subseteq> io \<union> set (table_bufs cs) - set (slot_bufs slots)"
      using b calculation by (auto simp: bufs_ok_def)
    ultimately show ?thesis
      using b pool_inv_mono by (auto simp: bufs_ok_def)
  qed
qed

section \<open>The shared state\<close>

definition open_files :: "u64 \<Rightarrow> Worker list \<Rightarrow> nat" where
  "open_files i ws = sum_list (map (files_of i) ws)"

text \<open>\<open>io\<close>: the buffers requests hold; \<open>uses\<close>: how many goroutines hold each worker; \<open>held\<close>: the workers
  this operation holds. The last conjunct is the contract between the worker and the client table: a
  client is busy with exactly its open files.\<close>

definition world_inv :: "nat set \<Rightarrow> (nat \<Rightarrow> int) \<Rightarrow> nat set \<Rightarrow> 'fs World \<Rightarrow> bool" where
  "world_inv io uses held w \<longleftrightarrow>
     clients_inv (W_clients w) \<and> bufs_ok io (W_clients w) (W_pool w) \<and> wf_world w \<and>
     (\<forall>b < length (W_heap w). Worker_inUse (W_heap w ! b) = uses b \<and> wf_map (Worker_Files (W_heap w ! b))) \<and>
     (\<forall>b \<ge> length (W_heap w). uses b = 0) \<and> (\<forall>a \<in> held. a < length (W_heap w)) \<and>
     (\<forall>i. busy_of (W_clients w) i = int (open_files i (W_heap w)))"

lemma open_files_update:
  "a < length ws \<Longrightarrow> open_files i (ws[a := w]) + files_of i (ws ! a) = open_files i ws + files_of i w"
proof (induction ws arbitrary: a)
  case (Cons v ws)
  then show ?case by (cases a) (fastforce simp: open_files_def)+
qed simp

lemma open_files_append [simp]: "open_files i (ws @ [w]) = open_files i ws + files_of i w"
  by (simp add: open_files_def)

text \<open>A change of a worker that leaves its files and its use count alone.\<close>

definition wk_safe :: "(Worker \<Rightarrow> Worker) \<Rightarrow> bool" where
  "wk_safe f \<longleftrightarrow> (\<forall>w. Worker_Files (f w) = Worker_Files w \<and> Worker_inUse (f w) = Worker_inUse w)"

lemma world_inv_worker:
  assumes "world_inv io uses held w" and "Worker_Files w' = Worker_Files (W_heap w ! a)"
    and "Worker_inUse w' = Worker_inUse (W_heap w ! a) + n"
    and "a < length (W_heap w)"
  shows "world_inv io (uses(a := uses a + n)) held (w\<lparr>W_heap := (W_heap w)[a := w']\<rparr>)"
proof -
  have "open_files i ((W_heap w)[a := w']) = open_files i (W_heap w)" for i
    using open_files_update [OF assms(4), of i w'] assms(2) by (simp add: files_of_def)
  then show ?thesis
    using assms by (auto simp: world_inv_def wf_world_def nth_list_update)
qed

lemma world_inv_safe:
  assumes "world_inv io uses held w" and "wk_safe f"
  shows "world_inv io uses held (upd_worker a f w)"
proof (cases "a < length (W_heap w)")
  case True
  then show ?thesis
    using world_inv_worker [OF assms(1), of "f (W_heap w ! a)" a 0] assms(2)
    by (simp add: wk_safe_def upd_worker_def)
next
  case False
  then show ?thesis using assms(1) by (simp add: upd_worker_def list_update_beyond not_less)
qed

lemma wk_safe_simps [simp]:
  "wk_safe Worker_Discard" "wk_safe (\<lambda>w. w\<lparr>Worker_Cache := f w\<rparr>)"
  by (simp_all add: wk_safe_def Worker_Discard_def Let_def)

lemma world_inv_fs [simp]: "world_inv io uses held (w\<lparr>W_fs := fs\<rparr>) = world_inv io uses held w"
  by (simp add: world_inv_def wf_world_def)

lemma world_inv_draws [simp]: "world_inv io uses held (w\<lparr>W_draws := ds\<rparr>) = world_inv io uses held w"
  by (simp add: world_inv_def wf_world_def)

lemma world_inv_quiet:
  assumes "world_inv io uses held w" and "quiet (W_clients w) cs"
  shows "world_inv io uses held (w\<lparr>W_clients := cs\<rparr>)"
  using assms bufs_ok_sub [of io "W_clients w" "W_pool w" cs]
  by (auto simp: world_inv_def wf_world_def quiet_def)

lemma world_inv_pool:
  assumes "world_inv io uses held w" and "a \<in> io" and "wf_buf (f (Pool_heap (W_pool w) a))"
  shows "world_inv io uses held (w\<lparr>W_pool := Pool_update a f (W_pool w)\<rparr>)"
  using assms by (auto simp: world_inv_def wf_world_def bufs_ok_def intro!: Pool_update_inv)

lemma world_inv_new:
  assumes inv: "world_inv io uses held w" and new: "new_worker m creds sid w = Inr (a, w')"
  shows "world_inv io (uses(a := uses a + 1)) (insert a held) w'"
proof -
  have wf: "wf_world w" using inv by (simp add: world_inv_def)
  note s = new_worker_spec [OF wf new]
  have heap: "W_heap w' = W_heap w @ [W_heap w' ! a]"
    using s by (intro nth_equalityI) (auto simp: nth_append less_Suc_eq)
  have "open_files i (W_heap w') = open_files i (W_heap w)" for i
  proof -
    have "Worker_Files (W_heap w' ! a) = []" using s by blast
    then have "files_of i (W_heap w' ! a) = 0" by (simp add: files_of_def)
    then show ?thesis by (subst heap) simp
  qed
  moreover have "uses a = 0" using inv s by (simp add: world_inv_def)
  ultimately show ?thesis
    using inv s by (auto simp: world_inv_def less_Suc_eq)
qed

lemma world_inv_GetWorker:
  assumes inv: "world_inv io uses held w" and g: "GetWorker m creds sid w = Inr (a, w')"
  shows "world_inv io (uses(a := uses a + 1)) (insert a held) w'"
proof (cases "mget (W_workers w) (worker_session m sid, Creds_UID creds)")
  case None
  then show ?thesis using g world_inv_new [OF inv] by (simp add: GetWorker_def)
next
  case (Some b)
  then have b: "b < length (W_heap w)" using inv by (auto simp: world_inv_def wf_world_def)
  show ?thesis
  proof (cases "Creds_Equal (Worker_Creds (W_heap w ! b)) creds \<and> \<not> Worker_discarded (W_heap w ! b)")
    case True
    then have a: "a = b" and w': "w' = w\<lparr>W_heap := (W_heap w)[b := (W_heap w ! b)\<lparr>Worker_inUse :=
        Worker_inUse (W_heap w ! b) + 1, Worker_lastUse := W_now w\<rparr>]\<rparr>"
      using g Some by (auto simp: GetWorker_def Worker_Use_def upd_worker_def)
    then show ?thesis
      using world_inv_worker [OF inv, of "(W_heap w ! b)\<lparr>Worker_inUse :=
        Worker_inUse (W_heap w ! b) + 1, Worker_lastUse := W_now w\<rparr>" b 1] b
      by (auto simp: world_inv_def)
  next
    case False
    then consider "new_worker m creds (worker_session m sid) w = Inr (a, w')"
      | "new_worker m creds (worker_session m sid) (upd_worker b Worker_Discard w) = Inr (a, w')"
      using g Some by (cases "Creds_Equal (Worker_Creds (W_heap w ! b)) creds")
        (auto simp: GetWorker_def Worker_Use_def Let_def split: if_splits)
    then show ?thesis
    proof cases
      case 1
      then show ?thesis by (rule world_inv_new [OF inv])
    next
      case 2
      then show ?thesis by (rule world_inv_new [OF world_inv_safe [OF inv wk_safe_simps(1)]])
    qed
  qed
qed

section \<open>The state of an operation\<close>

record ctx =
  c_in :: nat
  c_out :: nat
  c_io :: "nat set"
  c_uses :: "nat \<Rightarrow> int"
  c_held :: "nat set"
  c_x :: Compound
  c_pre :: bytes
  c_kept :: "nat \<rightharpoonup> Buf"

definition hold :: "nat \<Rightarrow> ctx \<Rightarrow> ctx" where
  "hold a C = C\<lparr>c_uses := (c_uses C)(a := c_uses C a + 1), c_held := insert a (c_held C)\<rparr>"

text \<open>What of a compound the operations never change.\<close>

definition same_call :: "Compound \<Rightarrow> Compound \<Rightarrow> bool" where
  "same_call x y \<longleftrightarrow> x_AuthResp x = x_AuthResp y \<and> x_MinorVer x = x_MinorVer y \<and> x_Tag x = x_Tag y \<and>
     x_OpsCount x = x_OpsCount y \<and> x_Creds x = x_Creds y \<and> x_SessionID x = x_SessionID y \<and> x_Slot x = x_Slot y"

text \<open>The buffers of other calls, as they were: \<open>c_kept\<close>.\<close>

definition untouched :: "ctx \<Rightarrow> 'fs st \<Rightarrow> bool" where
  "untouched C st \<longleftrightarrow> (\<forall>b f. c_kept C b = Some f \<longrightarrow> b \<in> c_io C \<and> b \<noteq> c_in C \<and> b \<noteq> c_out C \<and> buf_at b st = f)"

definition ctx_inv :: "ctx \<Rightarrow> 'fs st \<Rightarrow> bool" where
  "ctx_inv C st \<longleftrightarrow> c_in C \<in> c_io C \<and> c_out C \<in> c_io C \<and> c_in C \<noteq> c_out C \<and> same_call (c_x C) (st_x st) \<and>
     world_inv (c_io C) (c_uses C) (c_held C) (st_w st) \<and> fresh_out (buf_at (c_out C) st) \<and> untouched C st"

text \<open>Before an operation has answered, and after.\<close>

definition pre :: "ctx \<Rightarrow> 'fs st \<Rightarrow> bool" where
  "pre C st \<longleftrightarrow> ctx_inv C st \<and> content (buf_at (c_out C) st) = c_pre C"

definition post :: "ctx \<Rightarrow> go_error + u32 \<Rightarrow> 'fs st \<Rightarrow> bool" where
  "post C r st \<longleftrightarrow> ctx_inv C st \<and>
     (case r of Inl _ \<Rightarrow> True
      | Inr s \<Rightarrow> (\<exists>op d. content (buf_at (c_out C) st) = c_pre C @ put_u32 op @ put_u32 s @ d))"

definition good :: "ctx \<Rightarrow> 'fs reply \<Rightarrow> bool" where
  "good C m \<longleftrightarrow> (\<forall>r st. m = Inr (r, st) \<longrightarrow> post C r st)"

lemma buf_at_simps [simp]:
  "buf_at b (upd_clients f st) = buf_at b st" "buf_at b (upd_wk a g st) = buf_at b st"
  "buf_at b (set_CurrentHandle h p st) = buf_at b st"
  "buf_at b (st\<lparr>st_w := (st_w st)\<lparr>W_fs := fs\<rparr>\<rparr>) = buf_at b st"
  "buf_at b (st\<lparr>st_w := (st_w st)\<lparr>W_draws := ds\<rparr>\<rparr>) = buf_at b st"
  "buf_at b (st\<lparr>st_x := x\<rparr>) = buf_at b st"
  by (simp_all add: buf_at_def upd_clients_def upd_wk_def upd_worker_def set_CurrentHandle_def)

lemma buf_at_update [simp]:
  "buf_at b (upd_pool (Pool_update a f) st) = (if b = a then f (buf_at a st) else buf_at b st)"
  by (simp add: buf_at_def upd_pool_def Pool_update_def)

lemma untouched_simps [simp]:
  "untouched C (upd_clients f st) = untouched C st" "untouched C (upd_wk a g st) = untouched C st"
  "untouched C (st\<lparr>st_w := (st_w st)\<lparr>W_fs := fs\<rparr>\<rparr>) = untouched C st"
  "untouched C (st\<lparr>st_w := (st_w st)\<lparr>W_draws := ds\<rparr>\<rparr>) = untouched C st"
  "untouched C (st\<lparr>st_x := x\<rparr>) = untouched C st"
  "untouched (C\<lparr>c_pre := b\<rparr>) st = untouched C st" "untouched (C\<lparr>c_x := x\<rparr>) st = untouched C st"
  "untouched (hold a C) st = untouched C st"
  by (simp_all add: untouched_def hold_def)

lemma untouched_pool [simp]:
  "untouched C (upd_pool (Pool_update (c_in C) f) st) = untouched C st"
  "untouched C (upd_pool (Pool_update (c_out C) f) st) = untouched C st"
  by (auto simp: untouched_def) (metis not_None_eq)+

lemma untouched_heap:
  "untouched C st \<Longrightarrow> (\<And>b. b \<in> c_io C \<Longrightarrow> b \<noteq> c_in C \<Longrightarrow> b \<noteq> c_out C \<Longrightarrow> buf_at b st' = buf_at b st) \<Longrightarrow> untouched C st'"
  unfolding untouched_def by metis

lemma same_call_refl [simp]: "same_call x x"
  by (simp add: same_call_def)

lemma pre_ctx: "pre C st \<Longrightarrow> ctx_inv C st"
  by (simp add: pre_def)

subsection \<open>State changes before the answer\<close>

named_theorems pre_intros \<open>changes of the state that keep an operation ready to answer\<close>

lemma pre_clients [pre_intros]:
  "pre C st \<Longrightarrow> quiet (W_clients (st_w st)) cs \<Longrightarrow> pre C (upd_clients (\<lambda>_. cs) st)"
  using world_inv_quiet [of "c_io C" "c_uses C" "c_held C" "st_w st" cs]
  by (auto simp: pre_def ctx_inv_def) (simp add: upd_clients_def)+

lemma pre_wk [pre_intros]: "pre C st \<Longrightarrow> wk_safe f \<Longrightarrow> pre C (upd_wk a f st)"
  using world_inv_safe [of "c_io C" "c_uses C" "c_held C" "st_w st" f a]
  by (auto simp: pre_def ctx_inv_def) (simp add: upd_wk_def)+

lemma pre_fs [pre_intros]: "pre C st \<Longrightarrow> pre C (st\<lparr>st_w := (st_w st)\<lparr>W_fs := fs\<rparr>\<rparr>)"
  by (simp add: pre_def ctx_inv_def)

lemma pre_draws [pre_intros]: "pre C st \<Longrightarrow> pre C (st\<lparr>st_w := (st_w st)\<lparr>W_draws := ds\<rparr>\<rparr>)"
  by (simp add: pre_def ctx_inv_def)

lemma pre_x [pre_intros]: "pre C st \<Longrightarrow> same_call (st_x st) x \<Longrightarrow> pre C (st\<lparr>st_x := x\<rparr>)"
  by (auto simp: pre_def ctx_inv_def same_call_def)

lemma pre_set_CurrentHandle [pre_intros]: "pre C st \<Longrightarrow> pre C (set_CurrentHandle h p st)"
  unfolding set_CurrentHandle_def by (rule pre_x) (simp_all add: same_call_def)

lemma pre_cache [pre_intros]:
  "pre C st \<Longrightarrow> pre C (cache_Invalidate a h st)" "pre C st \<Longrightarrow> pre C (cache_Put a h p fi st)"
  unfolding cache_Invalidate_def cache_Put_def by (rule pre_wk; simp)+

lemma pre_Discard [pre_intros]: "pre C st \<Longrightarrow> pre C (DiscardOnServerFault a e st)"
  unfolding DiscardOnServerFault_def by (auto intro: pre_wk split: option.splits)

lemma pre_read: "pre C st \<Longrightarrow> pre C (upd_pool (Pool_update (c_in C) (\<lambda>b. b\<lparr>Buf_r := Buf_w b - n\<rparr>)) st)"
proof -
  assume p: "pre C st"
  then have inv: "world_inv (c_io C) (c_uses C) (c_held C) (st_w st)" and i: "c_in C \<in> c_io C"
    by (simp_all add: pre_def ctx_inv_def)
  then have "wf_buf (Pool_heap (W_pool (st_w st)) (c_in C))"
    by (simp add: world_inv_def bufs_ok_def pool_inv_def)
  then have "world_inv (c_io C) (c_uses C) (c_held C)
      ((st_w st)\<lparr>W_pool := Pool_update (c_in C) (\<lambda>b. b\<lparr>Buf_r := Buf_w b - n\<rparr>) (W_pool (st_w st))\<rparr>)"
    by (intro world_inv_pool [OF inv i]) (auto simp: wf_buf_def)
  then show ?thesis using p by (simp add: pre_def ctx_inv_def) (simp add: upd_pool_def)
qed

subsection \<open>Rules for the moves\<close>

named_theorems good_intros \<open>rules for the moves of an operation\<close>

lemma good_Inl [good_intros]: "good C (Inl s)"
  by (simp add: good_def)

lemma good_err [good_intros]: "pre C st \<Longrightarrow> good C (Inr (Inl e, st))"
  by (simp add: good_def post_def pre_def)

lemma good_bind: "(\<And>v. m = Inr v \<Longrightarrow> good C (k v)) \<Longrightarrow> good C (go_bind m k)"
  by (cases m) (auto simp: good_def)

lemma EncodeAll_two: "EncodeAll (eUint32 a # eUint32 b # d) = (put_u32 a @ put_u32 b @ fst (EncodeAll d), snd (EncodeAll d))"
  by (simp add: eUint32_def split: prod.splits)

lemma ctx_write:
  assumes "ctx_inv C st"
  shows "ctx_inv C (upd_pool (Pool_update (c_out C) (Buf_Write b)) st)"
    and "content (buf_at (c_out C) (upd_pool (Pool_update (c_out C) (Buf_Write b)) st)) =
      content (buf_at (c_out C) st) @ b"
proof -
  have inv: "world_inv (c_io C) (c_uses C) (c_held C) (st_w st)" and o: "c_out C \<in> c_io C"
      and f: "fresh_out (buf_at (c_out C) st)"
    using assms by (simp_all add: ctx_inv_def)
  have "world_inv (c_io C) (c_uses C) (c_held C)
      ((st_w st)\<lparr>W_pool := Pool_update (c_out C) (Buf_Write b) (W_pool (st_w st))\<rparr>)"
    using f by (intro world_inv_pool [OF inv o]) (simp add: fresh_out_def buf_at_def)
  then show "ctx_inv C (upd_pool (Pool_update (c_out C) (Buf_Write b)) st)"
    using assms out_buf.inv_write [OF f] by (simp add: ctx_inv_def) (simp add: upd_pool_def)
  show "content (buf_at (c_out C) (upd_pool (Pool_update (c_out C) (Buf_Write b)) st)) =
      content (buf_at (c_out C) st) @ b"
    using out_buf.view_write [OF f] by simp
qed

lemma good_response [good_intros]:
  assumes "pre C st" and "out = c_out C"
  shows "good C (OperationResponse out op s d st)"
  using ctx_write [OF pre_ctx [OF assms(1)]] assms
  by (auto simp: good_def post_def pre_def OperationResponse_def write_all_def EncodeAll_two
      split: option.splits prod.splits)

lemma good_arg:
  assumes "pre C st" and "inb = c_in C" and "\<And>v st. pre C st \<Longrightarrow> good C (k v st)"
  shows "good C (arg inb d k st)"
  using assms pre_read [OF assms(1)]
  by (auto simp: arg_def intro: good_Inl good_err split: sum.splits stop.splits)

lemma good_fs_call:
  assumes "pre C st" and "\<And>r st. pre C st \<Longrightarrow> good C (k r st)"
  shows "good C (fs_call f k st)"
  using assms by (auto simp: fs_call_def intro!: pre_fs split: prod.splits)

lemma good_fs_failed [good_intros]: "pre C st \<Longrightarrow> out = c_out C \<Longrightarrow> good C (fs_failed out op a e st)"
  by (simp add: fs_failed_def good_response pre_Discard)

lemma good_need:
  assumes "pre C st" and "out = c_out C" and "\<And>h st. pre C st \<Longrightarrow> good C (k h st)"
  shows "good C (need_CurrentHandle out op k st)"
  using assms by (auto simp: need_CurrentHandle_def intro: good_response split: option.splits)

lemma good_deref:
  assumes "pre C st" and "\<And>h st. pre C st \<Longrightarrow> good C (k h st)"
  shows "good C (deref_CurrentHandle k st)"
  using assms by (auto simp: deref_CurrentHandle_def intro: good_Inl split: option.splits)

lemma good_stat_cached:
  assumes "pre C st" and "out = c_out C" and "\<And>fi st. pre C st \<Longrightarrow> good C (k fi st)"
  shows "good C (stat_cached m out op a h k st)"
  unfolding stat_cached_def using assms(1,2)
  by (auto intro!: good_fs_call good_fs_failed pre_cache assms(3) split: option.splits sum.splits)

lemma good_attrs_of:
  assumes "pre C st" and "\<And>at st. pre C st \<Longrightarrow> good C (k at st)"
  shows "good C (attrs_of a h fi e req k st)"
  unfolding attrs_of_def using assms by (auto intro: good_bind)

lemma post_close:
  assumes "post (hold a C) r st"
  shows "post C r (upd_wk a Worker_Close st)"
proof -
  have inv: "world_inv (c_io C) ((c_uses C)(a := c_uses C a + 1)) (insert a (c_held C)) (st_w st)"
    using assms by (simp add: post_def ctx_inv_def hold_def)
  then have a: "a < length (W_heap (st_w st))" by (simp add: world_inv_def)
  let ?w = "W_heap (st_w st) ! a"
  have "Worker_Files (Worker_Close ?w) = Worker_Files ?w" "Worker_inUse (Worker_Close ?w) = Worker_inUse ?w + - 1"
    by (simp_all add: Worker_Close_def Let_def)
  from world_inv_worker [OF inv this a]
  have "world_inv (c_io C) (c_uses C) (c_held C) (upd_worker a Worker_Close (st_w st))"
    by (simp add: world_inv_def upd_worker_def)
  then have "ctx_inv C (upd_wk a Worker_Close st)"
    using assms by (simp add: post_def ctx_inv_def) (simp add: upd_wk_def hold_def)
  then show ?thesis using assms by (simp add: post_def hold_def split: sum.splits)
qed

lemma good_with_FS:
  assumes p: "pre C st" and k: "\<And>a st. pre (hold a C) st \<Longrightarrow> good (hold a C) (k a st)"
  shows "good C (with_FS m k st)"
  unfolding with_FS_def
proof (rule good_bind)
  fix v assume g: "GetWorker m (x_Creds (st_x st)) (x_SessionID (st_x st)) (st_w st) = Inr v"
  obtain a w' where v: "v = (a, w')" by force
  have inv: "world_inv (c_io C) (c_uses C) (c_held C) (st_w st)" using p by (simp add: pre_def ctx_inv_def)
  have "W_pool w' = W_pool (st_w st)" using GetWorker_spec g v inv by (metis world_inv_def)
  then have same: "buf_at b (st\<lparr>st_w := w'\<rparr>) = buf_at b st" for b by (simp add: buf_at_def)
  have "untouched C (st\<lparr>st_w := w'\<rparr>)" using p same by (simp add: pre_def ctx_inv_def untouched_def)
  then have "pre (hold a C) (st\<lparr>st_w := w'\<rparr>)"
    using p world_inv_GetWorker [OF inv, of m _ _ a w'] g v same
    by (simp add: pre_def ctx_inv_def) (simp add: hold_def)
  from k [OF this] show "good C (case v of (a, w') \<Rightarrow>
      go_bind (k a (st\<lparr>st_w := w'\<rparr>)) (\<lambda>(r, st'). Inr (r, upd_wk a Worker_Close st')))"
    by (auto simp: v good_def go_bind_eq_Inr intro!: post_close)
qed

end
