(* ===== verification/OpsInv.thy ===== *)
theory OpsInv
  imports Invariant
begin

text \<open>
  Every operation keeps the shared state in order and answers with exactly one response: its number, the
  status it returns, and the data of the result.
\<close>

definition answers :: "(nat \<Rightarrow> nat \<Rightarrow> 'fs st \<Rightarrow> 'fs reply) \<Rightarrow> bool" where
  "answers h \<longleftrightarrow> (\<forall>C st. pre C st \<longrightarrow> good C (h (c_in C) (c_out C) st))"

lemma hold_simps [simp]:
  "c_in (hold a C) = c_in C" "c_out (hold a C) = c_out C" "c_pre (hold a C) = c_pre C"
  "c_io (hold a C) = c_io C"
  by (simp_all add: hold_def)

lemmas moves = good_arg good_fs_call good_need good_deref good_stat_cached good_attrs_of good_with_FS
  good_bind good_intros

lemma pre_inv: "pre C st \<Longrightarrow> clients_inv (W_clients (st_w st))"
  by (simp add: pre_def ctx_inv_def world_inv_def)

lemma pre_fst_snd:
  "pre C st \<Longrightarrow> (\<And>cs. clients_inv cs \<Longrightarrow> quiet cs (snd (f cs))) \<Longrightarrow> f (W_clients (st_w st)) = (r, cs') \<Longrightarrow>
     pre C (upd_clients (\<lambda>_. cs') st)"
  using pre_clients pre_inv by (metis snd_conv)

lemma pre_table:
  "pre C st \<Longrightarrow> Clients_Get i now (W_clients (st_w st)) = (r, cs) \<Longrightarrow> pre C (upd_clients (\<lambda>_. cs) st)"
  "pre C st \<Longrightarrow> Clients_GetByName n v cr now (W_clients (st_w st)) = (r1, cs) \<Longrightarrow> pre C (upd_clients (\<lambda>_. cs) st)"
  "pre C st \<Longrightarrow> Clients_Confirm i v cr now (W_clients (st_w st)) = (r2, cs) \<Longrightarrow> pre C (upd_clients (\<lambda>_. cs) st)"
  "pre C st \<Longrightarrow> Clients_RemoveClient i (W_clients (st_w st)) = (r3, cs) \<Longrightarrow> pre C (upd_clients (\<lambda>_. cs) st)"
  "pre C st \<Longrightarrow> Clients_Confirm41 i q cr now (W_clients (st_w st)) = (r4, cs) \<Longrightarrow> pre C (upd_clients (\<lambda>_. cs) st)"
  by (erule pre_fst_snd, erule quiet_Get quiet_GetByName quiet_Confirm quiet_RemoveClient quiet_Confirm41, assumption)+

section \<open>File handles\<close>

lemma GetFH_answers: "answers GetFH"
  unfolding answers_def GetFH_def by (auto intro!: moves)

lemma SaveFH_answers: "answers SaveFH"
  unfolding answers_def SaveFH_def by (auto intro!: moves pre_intros simp: same_call_def)

lemma RestoreFH_answers: "answers RestoreFH"
  unfolding answers_def RestoreFH_def
  by (auto intro!: moves pre_intros simp: same_call_def split: option.splits)

lemma put_root_good: "pre C st \<Longrightarrow> good C (put_root m (c_out C) op st)"
  unfolding put_root_def by (auto intro!: moves pre_intros split: sum.splits)

lemma PutRootFH_answers: "answers (PutRootFH m)" "answers (PutPubFH m)"
  by (simp_all add: answers_def PutRootFH_def PutPubFH_def put_root_good)

lemma PutFH_answers: "answers (PutFH m)"
  unfolding answers_def PutFH_def Let_def
  by (auto intro!: moves pre_intros split: sum.splits option.splits)

lemma move_to_good: "pre C st \<Longrightarrow> good C (move_to m (c_out C) op path st)"
  unfolding move_to_def by (auto intro!: moves pre_intros split: sum.splits)

lemma Lookup_answers: "answers (Lookup m)" "answers (LookupParent m)"
  unfolding answers_def Lookup_def LookupParent_def by (auto intro!: moves move_to_good)

section \<open>Clients and sessions\<close>

lemma call_Clients_Add_good:
  assumes "pre C st" and "\<And>r st. pre C st \<Longrightarrow> good C (k r st)"
  shows "good C (call_Clients_Add (new_Client name verifier creds) k st)"
  unfolding call_Clients_Add_def
proof (rule good_bind)
  fix v assume v: "Clients_Add (new_Client name verifier creds) (W_now (st_w st)) (W_clients (st_w st))
      (W_draws (st_w st)) = Inr v"
  obtain r cs ds where rv: "v = (r, cs, ds)" by (cases v) auto
  have "quiet (W_clients (st_w st)) cs" using quiet_Add [OF pre_inv [OF assms(1)] refl] v rv by blast
  then have "pre C ((upd_clients (\<lambda>_. cs) st)\<lparr>st_w := (st_w (upd_clients (\<lambda>_. cs) st))\<lparr>W_draws := ds\<rparr>\<rparr>)"
    by (intro pre_draws pre_clients assms(1))
  moreover have "(upd_clients (\<lambda>_. cs) st)\<lparr>st_w := (st_w (upd_clients (\<lambda>_. cs) st))\<lparr>W_draws := ds\<rparr>\<rparr>
      = st\<lparr>st_w := (st_w st)\<lparr>W_clients := cs, W_draws := ds\<rparr>\<rparr>"
    by (simp add: upd_clients_def)
  ultimately show "good C (case v of (r, cs, ds) \<Rightarrow>
      k r (st\<lparr>st_w := (st_w st)\<lparr>W_clients := cs, W_draws := ds\<rparr>\<rparr>))"
    using assms(2) by (simp add: rv)
qed

lemma SetClientID_answers: "answers SetClientID"
  unfolding answers_def SetClientID_def
  by (auto intro!: moves call_Clients_Add_good split: sum.splits)

lemma SetClientIDConfirm_answers: "answers SetClientIDConfirm"
  unfolding answers_def SetClientIDConfirm_def
  by (auto intro!: moves pre_table(3) split: prod.splits)

lemma ExchangeID_answers: "answers ExchangeID"
  unfolding answers_def ExchangeID_def Let_def
  by (auto intro!: moves call_Clients_Add_good pre_table(2) split: sum.splits prod.splits option.splits)

lemma ReclaimComplete_answers: "answers ReclaimComplete"
  unfolding answers_def ReclaimComplete_def by (auto intro!: moves)

lemma DestroyClientID_answers: "answers DestroyClientID"
  unfolding answers_def DestroyClientID_def by (auto intro!: moves pre_table(4) split: prod.splits)

lemma Renew_answers: "answers Renew"
  unfolding answers_def Renew_def by (auto intro!: moves pre_table(1) split: prod.splits option.splits)

lemma Secinfo_answers: "answers Secinfo" "answers SecinfoNoName"
  unfolding answers_def Secinfo_def SecinfoNoName_def by (auto intro!: moves)

text \<open>The buffers the reply and the request live in are not touched when sessions come and go.\<close>

lemma Pool_Get_other: "Pool_Get p = (a, p') \<Longrightarrow> b \<noteq> a \<Longrightarrow> Pool_heap p' b = Pool_heap p b"
  by (auto simp: Pool_Get_def Pool_New_def split: list.splits)

lemma build_slots_other:
  "build_slots persist i k p = (slots, p') \<Longrightarrow> pool_inv held p \<Longrightarrow> b \<in> held \<Longrightarrow> Pool_heap p' b = Pool_heap p b"
proof (induction persist i k p arbitrary: slots p' held rule: build_slots.induct)
  case (2 persist i k p)
  obtain c p1 where c: "(if persist then (case Pool_Get p of (a, q) \<Rightarrow> (Some a, q)) else (None, p)) = (c, p1)"
    by force
  obtain rest where rest: "build_slots persist (i + 1) k p1 = (rest, p')"
    using 2(2) c by (auto simp: Let_def split: prod.splits)
  show ?case
  proof (cases persist)
    case False
    then show ?thesis using "2.IH" [of "(c, p1)" c p1 rest p' held] c rest 2(3,4) by simp
  next
    case True
    then obtain a where a: "Pool_Get p = (a, p1)" using c by (auto split: prod.splits)
    from Pool_Get_inv [OF 2(3) this] have "pool_inv (insert a held) p1" "a \<notin> held" by auto
    then show ?thesis
      using "2.IH" [of "(c, p1)" c p1 rest p' "insert a held"] c rest 2(4) Pool_Get_other [OF a, of b] by auto
  qed
qed simp

lemma put_bufs_other: "b \<notin> set as \<Longrightarrow> Pool_heap (put_bufs as p) b = Pool_heap p b"
  by (induction as arbitrary: p) (simp_all add: put_bufs_def Pool_Put_def)

lemma pre_swap:
  assumes "pre C st" and "clients_inv cs" and "\<And>j. busy_of cs j = busy_of (W_clients (st_w st)) j"
    and "bufs_ok (c_io C) cs p" and heap: "\<And>b. b \<in> c_io C \<Longrightarrow> Pool_heap p b = Pool_heap (W_pool (st_w st)) b"
  shows "pre C (st\<lparr>st_w := (st_w st)\<lparr>W_clients := cs, W_pool := p\<rparr>\<rparr>)"
proof -
  let ?st = "st\<lparr>st_w := (st_w st)\<lparr>W_clients := cs, W_pool := p\<rparr>\<rparr>"
  have same: "buf_at b ?st = buf_at b st" if "b \<in> c_io C" for b using heap [OF that] by (simp add: buf_at_def)
  moreover have "untouched C ?st" using assms(1) same by (auto simp: pre_def ctx_inv_def intro: untouched_heap)
  ultimately show ?thesis using assms(1-4) by (auto simp: pre_def ctx_inv_def world_inv_def wf_world_def)
qed

lemma call_BuildSession_good:
  assumes p: "pre C st" and c: "mget (W_clients (st_w st)) i = Some c"
    and k: "\<And>sid st. pre C st \<Longrightarrow> good C (k sid st)"
  shows "good C (call_BuildSession i c persist k st)"
  unfolding call_BuildSession_def
proof (rule good_bind)
  fix v assume v: "BuildSession persist c (W_pool (st_w st)) (W_draws (st_w st)) = Inr v"
  obtain sid c' q ds where vv: "v = (sid, c', q, ds)" by (cases v) auto
  let ?cs = "W_clients (st_w st)"
  have inv: "clients_inv ?cs" and b: "bufs_ok (c_io C) ?cs (W_pool (st_w st))"
    using p by (simp_all add: pre_def ctx_inv_def world_inv_def)
  note keeps = BuildSession_keeps [OF inv c b, of persist "W_draws (st_w st)" sid c' q ds]
  obtain k' slots where "build_slots persist 0 16 (W_pool (st_w st)) = (slots, q)"
    using v vv BuildSession_cases by blast
  then have "Pool_heap q a = Pool_heap (W_pool (st_w st)) a" if "a \<in> c_io C" for a
    using build_slots_other b that by (metis UnI1 bufs_ok_def)
  then have "pre C (st\<lparr>st_w := (st_w st)\<lparr>W_clients := mput i c' ?cs, W_pool := q\<rparr>\<rparr>)"
    using keeps v vv by (intro pre_swap [OF p]) simp_all
  from pre_draws [OF this, of ds]
  show "good C (case v of (sid, c', q, ds) \<Rightarrow>
      k sid (st\<lparr>st_w := (st_w st)\<lparr>W_clients := mput i c' (W_clients (st_w st)), W_pool := q, W_draws := ds\<rparr>\<rparr>))"
    using k by (simp add: vv)
qed

lemma call_RemoveSession_good:
  assumes p: "pre C st" and c: "mget (W_clients (st_w st)) i = Some c"
    and k: "\<And>st. pre C st \<Longrightarrow> good C (k st)"
  shows "good C (call_RemoveSession i c sid k st)"
proof -
  obtain c' q where s: "RemoveSession sid c (W_pool (st_w st)) = (c', q)" by force
  let ?cs = "W_clients (st_w st)"
  have inv: "clients_inv ?cs" and b: "bufs_ok (c_io C) ?cs (W_pool (st_w st))"
    using p by (simp_all add: pre_def ctx_inv_def world_inv_def)
  have "set (client_bufs c) \<subseteq> set (table_bufs ?cs)"
    using c by (auto simp: table_bufs_def cat_def dest: map_of_SomeD)
  moreover have "set (slot_bufs slots) \<subseteq> set (client_bufs c)"
    if "mget (Client_sessions c) j = Some slots" for slots j
    using that by (auto simp: client_bufs_def dest: map_of_SomeD)
  ultimately have "a \<notin> set (slot_bufs slots)" if "mget (Client_sessions c) j = Some slots" "a \<in> c_io C" for slots j a
    using b that by (fastforce simp: bufs_ok_def)
  then have "Pool_heap q a = Pool_heap (W_pool (st_w st)) a" if "a \<in> c_io C" for a
    using s that by (auto simp: RemoveSession_def intro!: put_bufs_other split: option.splits)
  then have "pre C (st\<lparr>st_w := (st_w st)\<lparr>W_clients := mput i c' ?cs, W_pool := q\<rparr>\<rparr>)"
    using RemoveSession_keeps [OF inv c b s] by (intro pre_swap [OF p]) simp_all
  then show ?thesis using k by (simp add: call_RemoveSession_def s)
qed

lemma Confirm41_Inr: "Clients_Confirm41 i sq creds now cs = (Inr c, cs') \<Longrightarrow> mget cs' i = Some c"
  by (auto simp: Clients_Confirm41_def Let_def split: option.splits if_splits)

lemma Get_Some: "Clients_Get i now cs = (Some c, cs') \<Longrightarrow> mget cs' i = Some c \<and> Client_confirmed c"
  by (auto simp: Clients_Get_def Let_def split: option.splits if_splits)

lemma W_clients_upd [simp]: "W_clients (st_w (upd_clients f st)) = f (W_clients (st_w st))"
  by (simp add: upd_clients_def)

lemma CreateSession_answers: "answers CreateSession"
  unfolding answers_def CreateSession_def
  by (auto intro!: moves call_BuildSession_good pre_table(5)
      split: prod.splits sum.splits) (assumption | erule Confirm41_Inr)+

lemma DestroySession_answers: "answers DestroySession"
  unfolding answers_def DestroySession_def
  by (auto intro!: moves call_RemoveSession_good pre_table(1)
      split: prod.splits option.splits) (assumption | erule Get_Some [THEN conjunct1])+

section \<open>The file system tree\<close>

lemma wk_simps [simp]:
  "wk a (st\<lparr>st_w := (st_w st)\<lparr>W_fs := fs\<rparr>\<rparr>) = wk a st"
  "wk a (st\<lparr>st_w := (st_w st)\<lparr>W_draws := ds\<rparr>\<rparr>) = wk a st"
  "wk a (st\<lparr>st_w := (st_w st)\<lparr>W_clients := cs\<rparr>\<rparr>) = wk a st"
  "wk a (upd_clients f st) = wk a st"
  by (simp_all add: wk_def upd_clients_def)

lemma pre_set_wk:
  assumes p: "pre C st" and f: "Worker_Files w = Worker_Files (wk a st)" "Worker_inUse w = Worker_inUse (wk a st)"
  shows "pre C (upd_wk a (\<lambda>_. w) st)"
proof (cases "a < length (W_heap (st_w st))")
  case True
  have inv: "world_inv (c_io C) (c_uses C) (c_held C) (st_w st)" using p by (simp add: pre_def ctx_inv_def)
  have "world_inv (c_io C) (c_uses C) (c_held C) (upd_worker a (\<lambda>_. w) (st_w st))"
    using world_inv_worker [OF inv, of w a 0] f True by (simp add: wk_def upd_worker_def)
  then show ?thesis using p by (simp add: pre_def ctx_inv_def) (simp add: upd_wk_def)
next
  case False
  then have "upd_wk a (\<lambda>_. w) st = st"
    by (simp add: upd_wk_def upd_worker_def list_update_beyond not_less)
  then show ?thesis using p by simp
qed

lemma GetAttr_answers: "answers (GetAttr m)"
  unfolding answers_def GetAttr_def Let_def by (auto intro!: moves)

lemma Access_answers: "answers (Access m)"
  unfolding answers_def Access_def by (auto intro!: moves)

lemma verify_with_good: "pre C st \<Longrightarrow> good C (verify_with m op status (c_in C) (c_out C) st)"
  unfolding verify_with_def Let_def by (auto intro!: moves)

lemma Verify_answers: "answers (Verify m)" "answers (NVerify m)"
  by (simp_all add: answers_def Verify_def NVerify_def verify_with_good)

lemma readdir_loop_pre:
  "readdir_loop m a dir idxReq offset fis i dc mc st = Inr (es, early, st') \<Longrightarrow> pre C st \<Longrightarrow> pre C st'"
proof (induction fis arbitrary: i dc mc st es)
  case (Cons fi fis)
  obtain r fs' where v: "vfs_Handle (Conn_V m) (Worker_FS (wk a st)) (Join dir (fi_Name fi)) (W_fs (st_w st)) = (r, fs')"
    by force
  let ?st1 = "st\<lparr>st_w := (st_w st)\<lparr>W_fs := fs'\<rparr>\<rparr>"
  let ?st2 = "case r of Inl _ \<Rightarrow> ?st1 | Inr h \<Rightarrow> cache_Put a h (Join dir (fi_Name fi)) fi ?st1"
  have "pre C ?st2" using Cons.prems(2) by (auto intro!: pre_intros split: sum.splits)
  then show ?case
    using Cons.prems(1) Cons.IH [of _ _ _ ?st2]
    by (auto simp: v go_bind_eq_Inr Let_def split: if_splits)
qed simp

lemma CloseLister_keeps:
  "CloseLister V i w fs = (e, w', fs') \<Longrightarrow> Worker_Files w' = Worker_Files w \<and> Worker_inUse w' = Worker_inUse w"
  by (auto simp: CloseLister_def split: option.splits prod.splits)

lemma pre_CloseLister:
  assumes "CloseLister V i (wk a st) (W_fs (st_w st)) = (e, w', fs')" and "pre C st"
  shows "pre C (upd_wk a (\<lambda>_. w') (st\<lparr>st_w := (st_w st)\<lparr>W_fs := fs'\<rparr>\<rparr>))"
  using CloseLister_keeps [OF assms(1)] by (intro pre_set_wk pre_fs assms(2)) simp_all

lemma readdir_batch_good:
  assumes "pre C st"
  shows "good C (readdir_batch m (c_out C) a dir idxReq args verf lister st)"
proof -
  note rules = good_fs_call good_bind good_response good_Inl pre_CloseLister pre_wk [OF _ wk_safe_simps(1)]
  show ?thesis
    unfolding readdir_batch_def Let_def using assms
    by (auto intro!: rules elim!: readdir_loop_pre split: prod.splits)
qed

lemma pre_AddLister:
  assumes "AddLister l now (wk a st) (W_draws (st_w st)) = Inr (i, w', ds)" and "pre C st"
  shows "pre C (upd_wk a (\<lambda>_. w') (st\<lparr>st_w := (st_w st)\<lparr>W_draws := ds\<rparr>\<rparr>))"
proof -
  have "Worker_Files w' = Worker_Files (wk a st) \<and> Worker_inUse w' = Worker_inUse (wk a st)"
    using assms(1) by (auto simp: AddLister_def go_bind_eq_Inr split: if_splits)
  then show ?thesis by (intro pre_set_wk pre_draws assms(2)) simp_all
qed

lemma pre_GetLister:
  assumes "GetLister i now (wk a st) = (r, w')" and "pre C st"
  shows "pre C (upd_wk a (\<lambda>_. w') st)"
proof -
  have "Worker_Files w' = Worker_Files (wk a st) \<and> Worker_inUse w' = Worker_inUse (wk a st)"
    using assms(1) by (auto simp: GetLister_def Let_def split: option.splits)
  then show ?thesis by (intro pre_set_wk assms(2)) simp_all
qed

lemma ReadDir_answers: "answers (ReadDir m)"
  unfolding answers_def ReadDir_def Let_def
  by (auto intro!: moves readdir_batch_good [of "hold _ _", simplified] pre_GetLister pre_AddLister
      split: prod.splits sum.splits option.splits)

lemma create_done_good: "pre C st \<Longrightarrow> good C (create_done m (c_out C) a h path st)"
  unfolding create_done_def by (auto intro!: moves pre_intros split: sum.splits)

lemma Create_answers: "answers (Create m)"
  unfolding answers_def Create_def Let_def
  by (auto intro!: moves create_done_good [of "hold _ _", simplified] split: sum.splits option.splits)

lemma Rename_answers: "answers (Rename m)"
  unfolding answers_def Rename_def by (auto intro!: moves pre_intros split: option.splits)

lemma Remove_answers: "answers (Remove m)"
  unfolding answers_def Remove_def Let_def by (auto intro!: moves pre_intros split: option.splits)

lemma Link_answers: "answers (Link m)"
  unfolding answers_def Link_def by (auto intro!: moves pre_intros split: option.splits)

lemma Readlink_answers: "answers (Readlink m)"
  unfolding answers_def Readlink_def by (auto intro!: moves split: sum.splits)

lemma good_set_step:
  "pre C st \<Longrightarrow> out = c_out C \<Longrightarrow> (\<And>st. pre C st \<Longrightarrow> good C (k st)) \<Longrightarrow> good C (set_step out a needed f k st)"
  unfolding set_step_def by (auto intro!: good_fs_call good_fs_failed split: option.splits)

lemma setattr_owner_good: "pre C st \<Longrightarrow> good C (setattr_owner m (c_out C) a h at changed u g st)"
  unfolding setattr_owner_def Let_def by (auto intro!: moves good_set_step split: sum.splits)

lemma SetAttr_answers: "answers (SetAttr m)"
  unfolding answers_def SetAttr_def Let_def
  by (auto intro!: moves good_set_step setattr_owner_good [of "hold _ _", simplified] pre_intros
      split: sum.splits)

lemma XAttr_answers:
  "answers (GetXAttr m)" "answers (SetXAttr m)" "answers (ListXAttrs m)" "answers (RemoveXAttr m)"
  unfolding answers_def GetXAttr_def SetXAttr_def ListXAttrs_def RemoveXAttr_def Let_def
  by (auto intro!: moves pre_intros split: sum.splits option.splits)

end
