(* ===== verification/OpenInv.thy ===== *)
theory OpenInv
  imports OpsInv
begin

text \<open>
  The operations on open files answer as the others do and keep the books between the workers and the
  client table: a client is busy with exactly the files it has open. With them, every operation of the
  dispatch table is covered.
\<close>

section \<open>Buffers of an operation's own\<close>

definition with_buf :: "nat \<Rightarrow> ctx \<Rightarrow> ctx" where
  "with_buf b C = C\<lparr>c_io := insert b (c_io C)\<rparr>"

lemma with_buf_simps [simp]:
  "c_in (with_buf b C) = c_in C" "c_out (with_buf b C) = c_out C" "c_pre (with_buf b C) = c_pre C"
  "c_uses (with_buf b C) = c_uses C" "c_held (with_buf b C) = c_held C" "c_x (with_buf b C) = c_x C"
  "c_io (with_buf b C) = insert b (c_io C)" "c_kept (with_buf b C) = c_kept C"
  by (simp_all add: with_buf_def)

lemma pre_out: "pre C st \<Longrightarrow> c_in C \<in> c_io C \<and> c_out C \<in> c_io C"
  by (simp add: pre_def ctx_inv_def)

lemma pre_Pool_Get:
  assumes p: "pre C st" and g: "Pool_Get (W_pool (st_w st)) = (b, q)" and f: "wf_buf f"
  shows "pre (with_buf b C) (upd_pool (\<lambda>_. Pool_update b (\<lambda>_. f) q) st)" and "b \<notin> c_io C"
    and "wf_buf (Pool_heap q b)"
proof -
  let ?cs = "W_clients (st_w st)"
  have w: "world_inv (c_io C) (c_uses C) (c_held C) (st_w st)" using p by (simp add: pre_def ctx_inv_def)
  then have "pool_inv (c_io C \<union> set (table_bufs ?cs)) (W_pool (st_w st))"
    by (simp add: world_inv_def bufs_ok_def)
  from Pool_Get_inv [OF this g]
  have q: "pool_inv (insert b (c_io C \<union> set (table_bufs ?cs))) q" and b: "b \<notin> c_io C \<union> set (table_bufs ?cs)"
    by simp_all
  show "b \<notin> c_io C" using b by simp
  show "wf_buf (Pool_heap q b)" using q by (simp add: pool_inv_def)
  have "pool_inv (insert b (c_io C \<union> set (table_bufs ?cs))) (Pool_update b (\<lambda>_. f) q)"
    using q f by (intro Pool_update_inv) simp_all
  then have "world_inv (insert b (c_io C)) (c_uses C) (c_held C)
      ((st_w st)\<lparr>W_pool := Pool_update b (\<lambda>_. f) q\<rparr>)"
    using w b by (auto simp: world_inv_def bufs_ok_def wf_world_def)
  moreover have same: "buf_at a (upd_pool (\<lambda>_. Pool_update b (\<lambda>_. f) q) st) = buf_at a st" if "a \<in> c_io C" for a
    using Pool_Get_other [OF g, of a] b that by (auto simp: Pool_update_def buf_at_def upd_pool_def)
  moreover have "untouched (with_buf b C) (upd_pool (\<lambda>_. Pool_update b (\<lambda>_. f) q) st)"
    using p same by (auto simp: pre_def ctx_inv_def untouched_def)
  ultimately show "pre (with_buf b C) (upd_pool (\<lambda>_. Pool_update b (\<lambda>_. f) q) st)"
    using p by (auto simp: pre_def ctx_inv_def) (simp_all add: upd_pool_def)
qed

lemma ctx_Pool_Put:
  assumes p: "ctx_inv (with_buf b C) st" and b: "b \<notin> c_io C" "c_kept C b = None"
    and io: "c_in C \<in> c_io C \<and> c_out C \<in> c_io C"
  shows "ctx_inv C (upd_pool (Pool_Put b) st)"
    and "content (buf_at (c_out C) (upd_pool (Pool_Put b) st)) = content (buf_at (c_out C) st)"
proof -
  let ?cs = "W_clients (st_w st)"
  have w: "world_inv (insert b (c_io C)) (c_uses C) (c_held C) (st_w st)" using p by (simp add: ctx_inv_def)
  then have "pool_inv (insert b (c_io C) \<union> set (table_bufs ?cs)) (W_pool (st_w st))"
      and d: "b \<notin> set (table_bufs ?cs)"
    by (simp_all add: world_inv_def bufs_ok_def)
  from Pool_Put_inv [OF this(1), of b]
  have "pool_inv (c_io C \<union> set (table_bufs ?cs)) (Pool_Put b (W_pool (st_w st)))"
    by (rule pool_inv_mono) (use b d in auto)
  then have "world_inv (c_io C) (c_uses C) (c_held C) ((st_w st)\<lparr>W_pool := Pool_Put b (W_pool (st_w st))\<rparr>)"
    using w by (auto simp: world_inv_def bufs_ok_def wf_world_def)
  moreover have "buf_at (c_out C) (upd_pool (Pool_Put b) st) = buf_at (c_out C) st"
    using b io by (auto simp: buf_at_def upd_pool_def Pool_Put_def)
  moreover have "untouched C (upd_pool (Pool_Put b) st)"
    using p b by (auto simp: ctx_inv_def untouched_def buf_at_def upd_pool_def Pool_Put_def)
  ultimately show "ctx_inv C (upd_pool (Pool_Put b) st)"
      "content (buf_at (c_out C) (upd_pool (Pool_Put b) st)) = content (buf_at (c_out C) st)"
    using p io by (simp_all add: ctx_inv_def) (simp add: upd_pool_def)
qed

lemma pre_Pool_Put:
  "pre (with_buf b C) st \<Longrightarrow> b \<notin> c_io C \<Longrightarrow> c_kept C b = None \<Longrightarrow> c_in C \<in> c_io C \<and> c_out C \<in> c_io C \<Longrightarrow> pre C (upd_pool (Pool_Put b) st)"
  using ctx_Pool_Put [of b C st] by (simp add: pre_def)

lemma post_Pool_Put:
  assumes "post (with_buf b C) r st" and "b \<notin> c_io C" "c_kept C b = None" and "c_in C \<in> c_io C \<and> c_out C \<in> c_io C"
  shows "post C r (upd_pool (Pool_Put b) st)"
proof -
  have c: "ctx_inv (with_buf b C) st" using assms(1) by (simp add: post_def)
  show ?thesis using assms(1) ctx_Pool_Put [OF c assms(2-4)] by (simp add: post_def split: sum.splits)
qed

lemma pre_fill:
  assumes p: "pre C st" and b: "b \<in> c_io C" "b \<noteq> c_out C" "c_kept C b = None" and f: "wf_buf (f (buf_at b st))"
  shows "pre C (upd_pool (Pool_update b f) st)"
proof -
  have w: "world_inv (c_io C) (c_uses C) (c_held C) (st_w st)" using p by (simp add: pre_def ctx_inv_def)
  have "world_inv (c_io C) (c_uses C) (c_held C) ((st_w st)\<lparr>W_pool := Pool_update b f (W_pool (st_w st))\<rparr>)"
    using f by (intro world_inv_pool [OF w b(1)]) (simp add: buf_at_def)
  moreover have "untouched C (upd_pool (Pool_update b f) st)"
    using p b by (auto simp: pre_def ctx_inv_def untouched_def)
  ultimately show ?thesis using p b by (simp add: pre_def ctx_inv_def) (simp add: upd_pool_def)
qed

lemma wf_Buf_fill: "wf_buf b \<Longrightarrow> wf_buf (Buf_fill d b)"
  by (auto simp: wf_buf_def Buf_fill_def overwrite_def)

lemma Buf_Allocate_wf: "Buf_Allocate n b = Inr (s, b') \<Longrightarrow> wf_buf b \<Longrightarrow> wf_buf b'"
  by (auto simp: Buf_Allocate_def Let_def go_bind_eq_Inr split: if_splits)

lemma pre_buf_wf: "pre C st \<Longrightarrow> b \<in> c_io C \<Longrightarrow> wf_buf (buf_at b st)"
  by (simp add: pre_def ctx_inv_def world_inv_def bufs_ok_def pool_inv_def buf_at_def)

section \<open>Files and their clients\<close>

lemma busy_modify:
  assumes "mget cs i = Some c"
  shows "busy_of (modify_client i (Client_Add n) cs) j = busy_of cs j + (if j = i then n else 0)"
  using assms by (simp add: busy_of_def mget_modify_client Client_Add_def)

lemma Client_Done_Add: "Client_Done = Client_Add (- 1)"
  by (auto simp: Client_Done_def Client_Add_def)

lemma clients_inv_modify:
  assumes inv: "clients_inv cs" and c: "mget cs i = Some c" "Client_confirmed c" "Client_busy c + n \<ge> 0"
  shows "clients_inv (modify_client i (Client_Add n) cs)"
    and "table_bufs (modify_client i (Client_Add n) cs) = table_bufs cs"
proof -
  have wf: "wf_clients cs" and own: "one_owner cs" using inv by (simp_all add: clients_inv_def)
  have same: "same_identity c (Client_Add n c)" "Client_sessions (Client_Add n c) = Client_sessions c"
      "Client_clientID (Client_Add n c) = Client_clientID c" for c
    by (simp_all add: Client_Add_def same_identity_def)
  note ok = modify_client_ok [OF wf same, of i]
  have "Client_busy d \<ge> 0 \<and> (\<not> Client_confirmed d \<longrightarrow> Client_busy d = 0)"
    if "mget (modify_client i (Client_Add n) cs) j = Some d" for j d
    using that inv c by (auto simp: mget_modify_client Client_Add_def clients_inv_def split: if_splits)
  then show "clients_inv (modify_client i (Client_Add n) cs)"
    using ok(1) from_table_one_owner [OF ok(2) own] by (simp add: clients_inv_def)
  show "table_bufs (modify_client i (Client_Add n) cs) = table_bufs cs"
    using c by (simp add: modify_client_def table_bufs_touch Client_Add_def)
qed

lemma world_inv_files:
  assumes inv: "world_inv io uses held w" and a: "a < length (W_heap w)"
    and w': "Worker_inUse w' = Worker_inUse (W_heap w ! a)" "wf_map (Worker_Files w')"
    and cs: "clients_inv cs" "table_bufs cs = table_bufs (W_clients w)"
    and busy: "\<And>i. busy_of cs i = busy_of (W_clients w) i + int (files_of i w') - int (files_of i (W_heap w ! a))"
  shows "world_inv io uses held (w\<lparr>W_clients := cs, W_heap := (W_heap w)[a := w']\<rparr>)"
proof -
  have "busy_of cs i = int (open_files i ((W_heap w)[a := w']))" for i
    using busy [of i] open_files_update [OF a, of i w'] inv by (simp add: world_inv_def)
  then show ?thesis using inv a w' cs
    by (auto simp: world_inv_def wf_world_def bufs_ok_def nth_list_update)
qed

lemma pre_files:
  assumes p: "pre C st" and a: "a \<in> c_held C"
    and w': "Worker_inUse w' = Worker_inUse (wk a st)" "wf_map (Worker_Files w')"
    and cs: "clients_inv cs" "table_bufs cs = table_bufs (W_clients (st_w st))"
    and busy: "\<And>i. busy_of cs i = busy_of (W_clients (st_w st)) i + int (files_of i w') - int (files_of i (wk a st))"
  shows "pre C (upd_wk a (\<lambda>_. w') (upd_clients (\<lambda>_. cs) st))"
proof -
  have inv: "world_inv (c_io C) (c_uses C) (c_held C) (st_w st)" using p by (simp add: pre_def ctx_inv_def)
  then have "a < length (W_heap (st_w st))" using a by (simp add: world_inv_def)
  from world_inv_files [OF inv this] w' cs busy
  have "world_inv (c_io C) (c_uses C) (c_held C)
      ((st_w st)\<lparr>W_clients := cs, W_heap := (W_heap (st_w st))[a := w']\<rparr>)"
    by (simp add: wk_def)
  then show ?thesis using p
    by (simp add: pre_def ctx_inv_def) (simp add: upd_wk_def upd_clients_def upd_worker_def)
qed

lemma pre_worker: "pre C st \<Longrightarrow> a \<in> c_held C \<Longrightarrow> wf_map (Worker_Files (wk a st))"
  by (simp add: pre_def ctx_inv_def world_inv_def wk_def)

text \<open>\<^verbatim>\<open>AddFile\<close> for a confirmed client; \<^verbatim>\<open>RemoveFile\<close> for any file.\<close>

lemma pre_AddFile:
  assumes p: "pre C st" and a: "a \<in> c_held C"
    and c: "mget (W_clients (st_w st)) (File_Client f) = Some c" "Client_confirmed c"
    and add: "AddFile f (wk a st) (W_clients (st_w st)) ds = Inr (i, w', cs', ds')"
  shows "pre C (upd_wk a (\<lambda>_. w') (upd_clients (\<lambda>_. cs') st))"
proof -
  have inv: "clients_inv (W_clients (st_w st))" using p by (rule pre_inv)
  then have "Client_busy c + 1 \<ge> 0" using c by (fastforce simp: clients_inv_def)
  note keep = clients_inv_modify [OF inv c this] and files = files_of_AddFile [OF add]
  have "wf_map (Worker_Files w')"
    using add pre_worker [OF p a] by (auto simp: AddFile_def go_bind_eq_Inr)
  then show ?thesis
    using keep files busy_modify [OF c(1)] by (intro pre_files [OF p a]) auto
qed

lemma pre_RemoveFile:
  assumes p: "pre C st" and a: "a \<in> c_held C"
    and rem: "RemoveFile i (wk a st) (W_clients (st_w st)) = (Some f, w', cs')"
  shows "pre C (upd_wk a (\<lambda>_. w') (upd_clients (\<lambda>_. cs') st))"
proof -
  let ?cs = "W_clients (st_w st)"
  have inv: "clients_inv ?cs" using p by (rule pre_inv)
  have w: "world_inv (c_io C) (c_uses C) (c_held C) (st_w st)" using p by (simp add: pre_def ctx_inv_def)
  then have len: "a < length (W_heap (st_w st))" using a by (simp add: world_inv_def)
  note files = files_of_RemoveFile [OF rem pre_worker [OF p a]]
  have "files_of (File_Client f) (wk a st) \<le> open_files (File_Client f) (W_heap (st_w st))"
    using open_files_update [OF len, of "File_Client f" "(wk a st)\<lparr>Worker_Files := []\<rparr>"]
    by (simp add: wk_def files_of_def)
  moreover have "files_of (File_Client f) (wk a st) \<ge> 1" using files(1) [of "File_Client f"] by simp
  moreover have "busy_of ?cs (File_Client f) = int (open_files (File_Client f) (W_heap (st_w st)))"
    using w by (simp add: world_inv_def)
  ultimately have "busy_of ?cs (File_Client f) \<ge> 1" by linarith
  then obtain c where c: "mget ?cs (File_Client f) = Some c" and b: "Client_busy c \<ge> 1"
    by (auto simp: busy_of_def split: option.splits)
  then have conf: "Client_confirmed c" using inv by (fastforce simp: clients_inv_def)
  have "Client_busy c + - 1 \<ge> 0" using b by simp
  note keep = clients_inv_modify [OF inv c conf this]
  have "wf_map (Worker_Files w')" "Worker_inUse w' = Worker_inUse (wk a st)"
    using rem pre_worker [OF p a] by (auto simp: RemoveFile_def split: option.splits)
  then show ?thesis
    using keep files(1,2) busy_modify [OF c] by (intro pre_files [OF p a]) (auto simp: Client_Done_Add)
qed

section \<open>Opening\<close>

text \<open>\<^verbatim>\<open>OPEN\<close> looks its client up once; the calls that follow leave the client table alone.\<close>

definition registered :: "u64 \<Rightarrow> ctx \<Rightarrow> 'fs st \<Rightarrow> bool" where
  "registered i C st \<longleftrightarrow> pre C st \<and> (\<exists>c. mget (W_clients (st_w st)) i = Some c \<and> Client_confirmed c)"

lemma registered_pre: "registered i C st \<Longrightarrow> pre C st"
  by (simp add: registered_def)

lemma registered_keep:
  "registered i C st \<Longrightarrow> registered i C (cache_Invalidate a h st)"
  "registered i C st \<Longrightarrow> registered i C (st\<lparr>st_w := (st_w st)\<lparr>W_fs := fs\<rparr>\<rparr>)"
  using pre_cache(1) [of C st a h] pre_fs [of C st]
  by (auto simp: registered_def cache_Invalidate_def upd_wk_def upd_worker_def)

lemma good_fs_call_registered:
  assumes "registered i C st" and "\<And>r st. registered i C st \<Longrightarrow> good C (k r st)"
  shows "good C (fs_call f k st)"
  using assms by (auto simp: fs_call_def intro!: registered_keep split: prod.splits)

lemma good_with_FS_registered:
  assumes p: "registered i C st" and k: "\<And>a st. registered i (hold a C) st \<Longrightarrow> good (hold a C) (k a st)"
  shows "good C (with_FS m k st)"
  unfolding with_FS_def
proof (rule good_bind)
  fix v assume g: "GetWorker m (x_Creds (st_x st)) (x_SessionID (st_x st)) (st_w st) = Inr v"
  obtain a w' where v: "v = (a, w')" by force
  have inv: "world_inv (c_io C) (c_uses C) (c_held C) (st_w st)"
    using p by (simp add: registered_def pre_def ctx_inv_def)
  have "W_pool w' = W_pool (st_w st)" "W_clients w' = W_clients (st_w st)"
    using GetWorker_spec g v inv by (metis world_inv_def)+
  then have same: "buf_at b (st\<lparr>st_w := w'\<rparr>) = buf_at b st" "W_clients w' = W_clients (st_w st)" for b
    by (simp_all add: buf_at_def)
  have "untouched C (st\<lparr>st_w := w'\<rparr>)" using p same by (simp add: registered_def pre_def ctx_inv_def untouched_def)
  then have "registered i (hold a C) (st\<lparr>st_w := w'\<rparr>)"
    using p world_inv_GetWorker [OF inv, of m _ _ a w'] g v same
    by (simp add: registered_def pre_def ctx_inv_def) (simp add: hold_def)
  from k [OF this] show "good C (case v of (a, w') \<Rightarrow>
      go_bind (k a (st\<lparr>st_w := w'\<rparr>)) (\<lambda>(r, st'). Inr (r, upd_wk a Worker_Close st')))"
    by (auto simp: v good_def go_bind_eq_Inr intro!: post_close)
qed

lemma open_file_good:
  assumes "registered i C st" and "\<And>f st. registered i C st \<Longrightarrow> good C (k f st)"
  shows "good C (open_file m (c_out C) a path flag mode missing k st)"
  unfolding open_file_def using assms(1)
  by (auto intro!: good_fs_call_registered assms(2) good_fs_failed registered_pre split: sum.splits)

lemma post_fs: "post C r st \<Longrightarrow> post C r (st\<lparr>st_w := (st_w st)\<lparr>W_fs := fs\<rparr>\<rparr>)"
  by (simp add: post_def ctx_inv_def split: sum.splits)

lemma registered_AddFile:
  assumes p: "registered i C st" and a: "a \<in> c_held C"
    and add: "AddFile \<lparr>File_File = f, File_Handle = h, File_Client = i, File_ClientSeqID = s\<rparr> (wk a st)
      (W_clients (st_w st)) (W_draws (st_w st)) = Inr (n, w', cs', ds')"
  shows "pre C (upd_wk a (\<lambda>_. w') (st\<lparr>st_w := (st_w st)\<lparr>W_clients := cs', W_draws := ds'\<rparr>\<rparr>))"
proof -
  obtain c where c: "mget (W_clients (st_w st)) i = Some c" "Client_confirmed c"
    using p by (auto simp: registered_def)
  have "pre C (upd_wk a (\<lambda>_. w') (upd_clients (\<lambda>_. cs') st))"
    using c by (intro pre_AddFile [OF registered_pre [OF p] a _ _ add]) auto
  from pre_draws [OF this, of ds'] show ?thesis
    by (cases "st_w st") (simp add: upd_wk_def upd_clients_def upd_worker_def)
qed

lemma open_register_good:
  fixes st :: "'fs st"
  assumes p: "registered i C st" and a: "a \<in> c_held C"
  shows "good C (open_register m (c_out C) a cur args i seqID path flag f st)"
proof -
  have found: "good C (go_bind (AddFile \<lparr>File_File = f, File_Handle = h, File_Client = i, File_ClientSeqID = seqID\<rparr> (wk a st)
      (W_clients (st_w st)) (W_draws (st_w st))) (\<lambda>(fileID, wk', cs', ds').
         OperationResponse (c_out C) OP4_OPEN NFS4_OK [enc_OPEN4resok (open_resok fileID seqID 0)]
           (set_CurrentHandle h path
             (upd_wk a (\<lambda>_. wk') (st\<lparr>st_w := (st_w st)\<lparr>W_clients := cs', W_draws := ds'\<rparr>\<rparr>)))))"
    if "registered i C st" for h and st :: "'fs st"
    by (auto intro!: good_bind good_response pre_set_CurrentHandle registered_AddFile [OF that a])
  have failed: "good C (go_bind (OperationResponse (c_out C) OP4_OPEN s [] (DiscardOnServerFault a e st))
      (\<lambda>(r, st). fs_call g (\<lambda>_ st. Inr (r, st)) st))"
    if "registered i C st" for s e and g :: "'fs \<Rightarrow> go_error option \<times> 'fs" and st :: "'fs st"
    using good_response [OF pre_Discard [OF registered_pre [OF that], of a e], of "c_out C" OP4_OPEN s "[]"]
    by (auto simp: good_def go_bind_eq_Inr fs_call_def post_fs case_prod_beta)
  show ?thesis
    using p unfolding open_register_def Let_def
    by (auto intro!: good_fs_call_registered found failed registered_keep split: sum.splits)
qed

lemma registered_Get:
  assumes "pre C st" and "Clients_Get i now (W_clients (st_w st)) = (Some c, cs)"
  shows "registered i C (upd_clients (\<lambda>_. cs) st)"
  using pre_table(1) [OF assms] Get_Some [OF assms(2)] by (simp add: registered_def)

lemma held_hold [simp]: "a \<in> c_held (hold a C)"
  by (simp add: hold_def)

lemma open_serve_good:
  assumes "registered i C st"
  shows "good C (open_serve m (c_out C) cur args i seqID path flag mode st)"
  unfolding open_serve_def
proof (rule good_with_FS_registered [OF assms], goal_cases)
  case (1 a st)
  note opened = open_file_good [OF _ open_register_good [OF _ held_hold], simplified]
  show ?case
    using 1 by (auto intro!: good_fs_call_registered good_response opened dest: registered_pre
        split: option.splits sum.splits)
qed

lemma Open_answers: "answers (Open m)"
  unfolding answers_def Open_def Let_def
  by (auto intro!: good_arg good_bind good_deref good_response good_Inl good_err pre_table(1) open_serve_good
      registered_Get split: sum.splits option.splits prod.splits)

section \<open>Using and closing\<close>

lemma OpenDowngrade_answers: "answers (OpenDowngrade m)"
  unfolding answers_def OpenDowngrade_def by (auto intro!: moves split: option.splits)

lemma Close_answers: "answers (Close m)"
  unfolding answers_def Close_def Let_def
  by (auto intro!: good_arg good_need good_with_FS good_response good_fs_call pre_cache(1) pre_RemoveFile
      split: option.splits prod.splits)

lemma Write_answers: "answers (Write m)"
  unfolding answers_def Write_def Let_def
  by (auto intro!: moves pre_cache(1) split: option.splits)

lemma Commit_answers: "answers (Commit m)"
  unfolding answers_def Commit_def by (auto intro!: moves pre_cache(1))

text \<open>\<^verbatim>\<open>READ\<close> gives its buffer back whatever the outcome.\<close>

lemma read_into_good:
  assumes p: "pre C st" and g: "Pool_Get (W_pool (st_w st)) = (b, q)"
    and al: "Buf_Allocate n (Pool_heap q b) = Inr (s, f)" and out: "out = c_out C"
  shows "good C (fs_call rd (\<lambda>(dat, err) st.
     let st = upd_pool (Pool_update b (Buf_fill dat)) st
     in if fails err then OperationResponse out op (status err) [] (upd_pool (Pool_Put b) st)
        else if too_long dat then Inl Panic
        else go_bind (OperationResponse out op NFS4_OK (res dat err) st)
               (\<lambda>(s, st). Inr (s, upd_pool (Pool_Put b) st)))
     (upd_pool (\<lambda>_. Pool_update b (\<lambda>_. f) q) st))"
proof -
  have io: "c_in C \<in> c_io C \<and> c_out C \<in> c_io C" using p by (rule pre_out)
  have wf: "wf_buf (Pool_heap q b)" by (rule pre_Pool_Get(3) [OF p g content_Buf_Reset(2)])
  have f: "wf_buf f" using al wf by (rule Buf_Allocate_wf)
  note start = pre_Pool_Get [OF p g f]
  have kept: "c_kept C b = None" using p start(2) by (cases "c_kept C b") (auto simp: pre_def ctx_inv_def untouched_def)
  have fill: "pre (with_buf b C) (upd_pool (Pool_update b (Buf_fill dat)) st)" if "pre (with_buf b C) st"
    for dat and st :: "'a st"
    using that start(2) io kept pre_buf_wf [OF that, of b] by (intro pre_fill wf_Buf_fill) auto
  have answer: "good C (go_bind (OperationResponse (c_out C) op s d st) (\<lambda>(s, st). Inr (s, upd_pool (Pool_Put b) st)))"
    if "pre (with_buf b C) st" for s d and st :: "'a st"
    using good_response [OF that] start(2) io kept
    by (auto simp: good_def go_bind_eq_Inr intro!: post_Pool_Put)
  show ?thesis
    using start(2) io kept fill pre_fs [OF start(1)] answer
    by (auto simp: fs_call_def Let_def out intro!: good_response good_Inl pre_Pool_Put answer split: prod.splits)
qed

lemma Read_answers: "answers (Read m)"
  unfolding answers_def Read_def
  by (auto intro!: good_arg good_need good_with_FS good_response good_bind
      read_into_good split: option.splits prod.splits)

section \<open>Dispatch\<close>

lemmas handler_answers = SetClientID_answers SetClientIDConfirm_answers ExchangeID_answers
  CreateSession_answers ReclaimComplete_answers DestroySession_answers DestroyClientID_answers
  PutRootFH_answers PutFH_answers GetFH_answers SaveFH_answers RestoreFH_answers GetAttr_answers
  Lookup_answers Access_answers ReadDir_answers Renew_answers Secinfo_answers Create_answers
  Rename_answers Remove_answers Link_answers Readlink_answers SetAttr_answers Open_answers
  OpenDowngrade_answers Close_answers Read_answers Write_answers Commit_answers Verify_answers XAttr_answers

lemma handlers_answer: "\<forall>(op, h) \<in> set (handlers m). answers h"
  unfolding handlers_def by (simp add: handler_answers)

lemma doOperation_good: "pre C st \<Longrightarrow> good C (doOperation m (c_in C) (c_out C) op st)"
proof -
  assume p: "pre C st"
  show ?thesis
  proof (cases "map_of (handlers m) op")
    case None
    then show ?thesis using p by (auto simp: doOperation_def intro!: good_response)
  next
    case (Some h)
    then have "answers h" using handlers_answer [of m] by (auto dest: map_of_SomeD)
    then show ?thesis using p Some by (simp add: doOperation_def answers_def)
  qed
qed

lemma Operation_answers: "answers (Operation m)"
  unfolding answers_def Operation_def by (auto intro!: good_arg doOperation_good)

end
