(* ===== verification/RunInv.thy ===== *)
theory RunInv
  imports OpenInv
begin

text \<open>
  What a \<^verbatim>\<open>COMPOUND\<close> sends back: a header that counts the responses and carries the last status, then the
  responses in the order of the operations. And what running one keeps of the shared state.
\<close>

section \<open>Replies\<close>

type_synonym response = "u32 \<times> u32 \<times> bytes"

definition resp_bytes :: "response \<Rightarrow> bytes" where
  "resp_bytes = (\<lambda>(op, s, d). put_u32 op @ put_u32 s @ d)"

definition body_bytes :: "response list \<Rightarrow> bytes" where
  "body_bytes rs = concat (map resp_bytes rs)"

abbreviation status_of :: "response \<Rightarrow> u32" where
  "status_of r \<equiv> fst (snd r)"

definition header_bytes :: "Compound \<Rightarrow> nat \<Rightarrow> u32 \<Rightarrow> bytes" where
  "header_bytes x n s = fst (EncodeAll (header x n s))"

text \<open>Execution went on exactly until the first fatal status, or the end of the request.\<close>

definition ran_until_fatal :: "nat \<Rightarrow> response list \<Rightarrow> bool" where
  "ran_until_fatal n rs \<longleftrightarrow> length rs \<le> n \<and> (\<forall>r \<in> set (butlast rs). status_of r \<notin> set FatalStatuses) \<and>
     (length rs = n \<or> rs \<noteq> [] \<and> status_of (last rs) \<in> set FatalStatuses)"

lemma body_bytes_simps [simp]:
  "body_bytes [] = []" "body_bytes (r # rs) = resp_bytes r @ body_bytes rs"
  "body_bytes (rs @ rs') = body_bytes rs @ body_bytes rs'"
  by (simp_all add: body_bytes_def)

lemma header_total: "EncodeAll (header x n s) = (header_bytes x n s, None)"
  by (simp add: header_bytes_def header_def enc_Auth_def eUint32_def eString_def eBytes_def)

lemma length_header: "length (header_bytes x n s) = length (header_bytes x n' s')"
  by (simp add: header_bytes_def header_def enc_Auth_def eUint32_def eString_def eBytes_def)

lemma header_same_call: "same_call x y \<Longrightarrow> header_bytes x n s = header_bytes y n s"
  by (simp add: header_bytes_def header_def same_call_def)

section \<open>The loop\<close>

lemma post_next:
  assumes "post C (Inr s) st"
  shows "\<exists>op d. pre (C\<lparr>c_pre := c_pre C @ resp_bytes (op, s, d)\<rparr>) st"
  using assms by (auto simp: post_def pre_def ctx_inv_def resp_bytes_def)

lemma ctx_inv_pre [simp]: "ctx_inv (C\<lparr>c_pre := b\<rparr>) st = ctx_inv C st"
  by (simp add: ctx_inv_def)

text \<open>The loop keeps the state in order and appends the responses it counts. \<open>b\<close>: the reply so far, \<open>n\<close>: the
  operations executed so far, \<open>r0\<close>: the last response, \<open>k\<close>: the operations left.\<close>

definition loop_post :: "ctx \<Rightarrow> bytes \<Rightarrow> nat \<Rightarrow> nat \<Rightarrow> response \<Rightarrow> go_error + nat \<times> u32 \<Rightarrow> 'fs st \<Rightarrow> bool" where
  "loop_post C b k n r0 r st \<longleftrightarrow> ctx_inv C st \<and> (\<forall>n' s'. r = Inr (n', s') \<longrightarrow>
     (\<exists>rs. content (buf_at (c_out C) st) = b @ body_bytes rs \<and> n' = n + length rs \<and>
       s' = status_of (last (r0 # rs)) \<and> ran_until_fatal (Suc k) (r0 # rs)))"

lemma ran_until_fatal_Cons:
  "rs \<noteq> [] \<Longrightarrow> ran_until_fatal (Suc k) (r # rs) \<longleftrightarrow> status_of r \<notin> set FatalStatuses \<and> ran_until_fatal k rs"
  by (auto simp: ran_until_fatal_def)

lemma run_ops_reply:
  assumes "pre C st" and "run_ops m (c_in C) (c_out C) k n (status_of r0) st = Inr (r, st')"
  shows "loop_post C (c_pre C) k n r0 r st'"
  using assms
proof (induction k arbitrary: C st n r0)
  case 0
  then show ?case
    by (auto simp: pre_def loop_post_def ran_until_fatal_def intro!: exI [of _ "[]"])
next
  case (Suc k)
  show ?case
  proof (cases "status_of r0 \<in> set FatalStatuses")
    case True
    then show ?thesis
      using Suc.prems by (auto simp: pre_def loop_post_def ran_until_fatal_def intro!: exI [of _ "[]"])
  next
    case False
    obtain r1 st1 where op: "Operation m (c_in C) (c_out C) st = Inr (r1, st1)"
      using Suc.prems False by (auto simp: res_bind_def go_bind_eq_Inr)
    then have p1: "post C r1 st1"
      using Operation_answers [of m] Suc.prems(1) unfolding answers_def good_def by blast
    show ?thesis
    proof (cases r1)
      case (Inl e)
      then show ?thesis using Suc.prems op p1 False by (auto simp: res_bind_def post_def loop_post_def)
    next
      case (Inr s)
      then obtain code d where p2: "pre (C\<lparr>c_pre := c_pre C @ resp_bytes (code, s, d)\<rparr>) st1"
        using p1 post_next by blast
      have "run_ops m (c_in C) (c_out C) k (Suc n) s st1 = Inr (r, st')"
        using Suc.prems op Inr False by (simp add: res_bind_def)
      with Suc.IH [OF p2, of "Suc n" "(code, s, d)"]
      have ih: "loop_post C (c_pre C @ resp_bytes (code, s, d)) k (Suc n) (code, s, d) r st'"
        by (simp add: loop_post_def)
      have "\<exists>rs. content (buf_at (c_out C) st') = c_pre C @ body_bytes rs \<and> n' = n + length rs \<and>
          s' = status_of (last (r0 # rs)) \<and> ran_until_fatal (Suc (Suc k)) (r0 # rs)" if "r = Inr (n', s')" for n' s'
      proof -
        from ih that obtain rs where "content (buf_at (c_out C) st') = c_pre C @ body_bytes ((code, s, d) # rs)"
            "n' = n + length ((code, s, d) # rs)" "s' = status_of (last (r0 # (code, s, d) # rs))"
            "ran_until_fatal (Suc k) ((code, s, d) # rs)"
          by (auto simp: loop_post_def)
        with False show ?thesis
          using ran_until_fatal_Cons [of "(code, s, d) # rs" "Suc k" r0] by blast
      qed
      then show ?thesis using ih by (simp add: loop_post_def)
    qed
  qed
qed

section \<open>The header\<close>

lemma upd_pool_comp:
  "upd_pool (Pool_update b f) (upd_pool (Pool_update b g) st) = upd_pool (Pool_update b (f \<circ> g)) st"
  by (simp add: upd_pool_def Pool_update_def)

lemma WriteHeader_eq:
  "WriteHeader out n s st = Inr (Inr (), upd_pool (Pool_update out (Buf_Write (header_bytes (st_x st) n s))) st)"
  by (simp add: WriteHeader_def write_all_def header_total)

lemma x_upd_pool [simp]: "st_x (upd_pool f st) = st_x st"
  by (simp add: upd_pool_def)

lemma Rewrite_eq:
  "RewriteHeaderIfNeeded out n s st = Inr (Inr (),
     if s = NFS4_OK \<and> n = x_OpsCount (st_x st) then st
     else upd_pool (Pool_update out (\<lambda>b. snd (Buf_SeekWrite (Buf_w (buf_at out st))
            (Buf_Write (header_bytes (st_x st) n s) (snd (Buf_SeekWrite 0 b)))))) st)"
  by (simp add: RewriteHeaderIfNeeded_def Let_def res_bind_def WriteHeader_eq upd_pool_comp out_buf.seek_old
      o_def)

lemma ctx_update:
  assumes c: "ctx_inv C st" and f: "fresh_out (f (buf_at (c_out C) st))"
  shows "ctx_inv C (upd_pool (Pool_update (c_out C) f) st)"
proof -
  have inv: "world_inv (c_io C) (c_uses C) (c_held C) (st_w st)" and o: "c_out C \<in> c_io C"
    using c by (simp_all add: ctx_inv_def)
  have "world_inv (c_io C) (c_uses C) (c_held C) ((st_w st)\<lparr>W_pool := Pool_update (c_out C) f (W_pool (st_w st))\<rparr>)"
    using f by (intro world_inv_pool [OF inv o]) (simp add: fresh_out_def buf_at_def)
  then show ?thesis using c f by (simp add: ctx_inv_def) (simp add: upd_pool_def)
qed

lemma Rewrite_reply:
  assumes c: "ctx_inv C st" and h: "content (buf_at (c_out C) st) = header_bytes (c_x C) n0 NFS4_OK @ body"
    and n0: "n0 = x_OpsCount (c_x C)"
  shows "\<exists>st'. RewriteHeaderIfNeeded (c_out C) n s st = Inr (Inr (), st') \<and> ctx_inv C st' \<and>
    content (buf_at (c_out C) st') = header_bytes (c_x C) n s @ body \<and> st_x st' = st_x st"
proof -
  have x: "same_call (c_x C) (st_x st)" and f: "fresh_out (buf_at (c_out C) st)"
    using c by (simp_all add: ctx_inv_def)
  let ?b = "buf_at (c_out C) st" and ?h = "header_bytes (st_x st) n s"
  have len: "length ?h = length (header_bytes (c_x C) n0 NFS4_OK)"
    unfolding header_same_call [OF x] by (rule length_header)
  then have "length ?h \<le> Buf_w ?b" using h out_buf.pos_view [OF f] by simp
  note ov = out_buf.overwrite_head [OF f this]
  let ?f = "\<lambda>b. snd (Buf_SeekWrite (Buf_w ?b) (Buf_Write ?h (snd (Buf_SeekWrite 0 b))))"
  have "ctx_inv C (upd_pool (Pool_update (c_out C) ?f) st)" using c ov by (intro ctx_update) simp_all
  moreover have "content (buf_at (c_out C) (upd_pool (Pool_update (c_out C) ?f) st)) = header_bytes (c_x C) n s @ body"
    using ov h len by (simp add: header_same_call [OF x])
  moreover have "n0 = x_OpsCount (st_x st)" using x n0 by (simp add: same_call_def)
  ultimately show ?thesis using c h by (auto simp: Rewrite_eq)
qed

section \<open>A compound outside a session\<close>

text \<open>The reply of \<^verbatim>\<open>Run\<close>, from the header to the last response.\<close>

definition reply_bytes :: "Compound \<Rightarrow> response list \<Rightarrow> bytes" where
  "reply_bytes x rs = header_bytes x (length rs) (status_of (last rs)) @ body_bytes rs"

lemma single_reply:
  assumes p: "pre C st"
  shows "\<exists>st'. WriteHeaderAndSingleOperation (c_out C) op s st = Inr (Inr (), st') \<and> ctx_inv C st' \<and>
    content (buf_at (c_out C) st') = c_pre C @ reply_bytes (c_x C) [(op, s, [])]"
proof -
  have xx: "same_call (c_x C) (st_x st)" using p by (simp add: pre_def ctx_inv_def)
  let ?h = "header_bytes (st_x st) 1 s"
  let ?st1 = "upd_pool (Pool_update (c_out C) (Buf_Write ?h)) st"
  let ?st2 = "upd_pool (Pool_update (c_out C) (Buf_Write (put_u32 op @ put_u32 s))) ?st1"
  note w1 = ctx_write [OF pre_ctx [OF p], of ?h] and w2 = ctx_write [OF w1(1), of "put_u32 op @ put_u32 s"]
  have "WriteHeaderAndSingleOperation (c_out C) op s st = Inr (Inr (), ?st2)"
    by (simp add: WriteHeaderAndSingleOperation_def res_bind_def WriteHeader_eq write_all_def eUint32_def)
  moreover have "content (buf_at (c_out C) ?st2) = c_pre C @ reply_bytes (c_x C) [(op, s, [])]"
    using w1(2) w2(2) p by (simp add: pre_def reply_bytes_def resp_bytes_def header_same_call [OF xx])
  ultimately show ?thesis using w2(1) by blast
qed

text \<open>Header, first operation, the other operations, correction of the header.\<close>

lemma run_plain:
  assumes p: "pre C st" and n: "n = x_OpsCount (c_x C)" and first: "\<And>C' st. pre C' st \<Longrightarrow> c_in C' = c_in C \<Longrightarrow> good C' (f (c_out C') st)"
    and io: "c_pre C = []"
    and run: "res_bind (WriteHeader (c_out C) n NFS4_OK st) (\<lambda>_ st.
      res_bind (f (c_out C) st) (\<lambda>s st.
      res_bind (run_ops m (c_in C) (c_out C) (n - 1) 1 s st) (\<lambda>(opsExecuted, lastStatus) st.
        RewriteHeaderIfNeeded (c_out C) opsExecuted lastStatus st))) = Inr (r, st')"
  shows "ctx_inv C st' \<and> (case r of Inl _ \<Rightarrow> True | Inr _ \<Rightarrow>
    \<exists>rs. rs \<noteq> [] \<and> ran_until_fatal (max 1 n) rs \<and> content (buf_at (c_out C) st') = reply_bytes (c_x C) rs)"
proof -
  have x: "same_call (c_x C) (st_x st)" using p by (simp add: pre_def ctx_inv_def)
  let ?h = "header_bytes (c_x C) n NFS4_OK"
  let ?st1 = "upd_pool (Pool_update (c_out C) (Buf_Write ?h)) st"
  let ?C1 = "C\<lparr>c_pre := ?h\<rparr>"
  have p1: "pre ?C1 ?st1"
    using ctx_write [OF pre_ctx [OF p], of ?h] p io by (simp add: pre_def)
  have run1: "res_bind (f (c_out C) ?st1) (\<lambda>s st.
      res_bind (run_ops m (c_in C) (c_out C) (n - 1) 1 s st) (\<lambda>(opsExecuted, lastStatus) st.
        RewriteHeaderIfNeeded (c_out C) opsExecuted lastStatus st)) = Inr (r, st')"
    using run by (simp add: WriteHeader_eq res_bind_def header_same_call [OF x])
  obtain r1 st2 where f1: "f (c_out C) ?st1 = Inr (r1, st2)"
    using run1 by (auto simp: res_bind_def go_bind_eq_Inr)
  have q1: "post ?C1 r1 st2" using first [OF p1] f1 by (simp add: good_def)
  show ?thesis
  proof (cases r1)
    case (Inl e)
    then show ?thesis using run1 f1 q1 by (auto simp: res_bind_def post_def)
  next
    case (Inr s)
    then obtain op d where p2: "pre (?C1\<lparr>c_pre := ?h @ resp_bytes (op, s, d)\<rparr>) st2"
      using q1 post_next [of ?C1 s st2] by auto
    let ?r0 = "(op, s, d)"
    obtain r2 st3 where ops: "run_ops m (c_in C) (c_out C) (n - 1) 1 s st2 = Inr (r2, st3)"
      using run1 f1 Inr by (auto simp: res_bind_def go_bind_eq_Inr)
    have loop: "loop_post C (?h @ resp_bytes ?r0) (n - 1) 1 ?r0 r2 st3"
      using run_ops_reply [OF p2, of m "n - 1" 1 ?r0 r2 st3] ops by (simp add: loop_post_def)
    show ?thesis
    proof (cases r2)
      case (Inl e)
      then show ?thesis using run1 f1 Inr ops loop \<open>r1 = Inr s\<close> by (auto simp: res_bind_def loop_post_def)
    next
      case (Inr ns)
      obtain n' s' where ns: "ns = (n', s')" by force
      obtain rs where rs: "content (buf_at (c_out C) st3) = ?h @ resp_bytes ?r0 @ body_bytes rs"
          "n' = Suc (length rs)" "s' = status_of (last (?r0 # rs))" "ran_until_fatal (Suc (n - 1)) (?r0 # rs)"
        using loop Inr ns by (auto simp: loop_post_def)
      have c3: "ctx_inv C st3" using loop by (simp add: loop_post_def)
      from Rewrite_reply [OF c3 rs(1) n, of n' s'] obtain st4 where
          "RewriteHeaderIfNeeded (c_out C) n' s' st3 = Inr (Inr (), st4)" "ctx_inv C st4"
          "content (buf_at (c_out C) st4) = header_bytes (c_x C) n' s' @ resp_bytes ?r0 @ body_bytes rs"
        by auto
      moreover have "Suc (n - 1) = max 1 n" by (cases n) auto
      ultimately show ?thesis
        using run1 f1 \<open>r1 = Inr s\<close> ops Inr ns rs
        by (auto simp: res_bind_def reply_bytes_def intro!: exI [of _ "?r0 # rs"])
    qed
  qed
qed

section \<open>Sessions\<close>

lemma slot_bufs_update:
  "k < length slots \<Longrightarrow> Slot_Buf sl = Slot_Buf (slots ! k) \<Longrightarrow> slot_bufs (slots[k := sl]) = slot_bufs slots"
proof (induction slots arbitrary: k)
  case (Cons s ss)
  then show ?case by (cases k) (auto split: option.splits)
qed simp

lemma quiet_SetSlot:
  assumes inv: "clients_inv cs" and c: "mget cs i = Some c" and old: "GetSlot sid k c = Some old"
    and sl: "Slot_SlotID sl = Slot_SlotID old" "Slot_Buf sl = Slot_Buf old" "wf_slot sl"
  shows "quiet cs (modify_client i (SetSlot sid k sl) cs)"
proof -
  let ?c = "SetSlot sid k sl c"
  have wf: "wf_clients cs" and own: "one_owner cs" using inv by (simp_all add: clients_inv_def)
  obtain slots where slots: "mget (Client_sessions c) (CacheIDFromSessionID sid) = Some slots"
      and k: "unat k < length slots" "old = slots ! unat k"
    using old by (auto simp: GetSlot_def split: option.splits if_splits)
  have same: "same_identity c ?c" "Client_busy ?c = Client_busy c" "Client_confirmed ?c = Client_confirmed c"
    by (auto simp: SetSlot_def same_identity_def slots)
  have m: "modify_client i (SetSlot sid k sl) cs = mput i ?c cs" using c by (simp add: modify_client_def)
  have "wf_client i ?c" using SetSlot_wf [OF wf_clients_get [OF wf c] old sl(1,3)] .
  then have "clients_inv (mput i ?c cs)"
    using inv c same wf_clients_mput [OF wf] from_table_one_owner [OF from_table_mput [OF c same(1)] own]
    by (auto simp: clients_inv_def)
  moreover have "busy_of (mput i ?c cs) j = busy_of cs j" for j using c same by (simp add: busy_of_def)
  moreover have "client_bufs ?c = client_bufs c"
    using slots k sl by (simp add: client_bufs_cat SetSlot_def cat_mput_same slot_bufs_update)
  then have "table_bufs (mput i ?c cs) = table_bufs cs"
    using c by (simp add: table_bufs_def cat_mput_same)
  ultimately show ?thesis by (simp add: quiet_def m)
qed

lemma pre_clients_map: "pre C st \<Longrightarrow> quiet (W_clients (st_w st)) (f (W_clients (st_w st))) \<Longrightarrow> pre C (upd_clients f st)"
  using pre_clients [of C st "f (W_clients (st_w st))"] by (simp add: upd_clients_def)

text \<open>The buffer of a slot belongs to the table.\<close>

lemma slot_buf_owned:
  assumes "mget cs i = Some c" and "GetSlot sid k c = Some slot" and "Slot_Buf slot = Some b"
  shows "b \<in> set (table_bufs cs)"
proof -
  obtain slots where slots: "mget (Client_sessions c) (CacheIDFromSessionID sid) = Some slots"
      and k: "slot \<in> set slots"
    using assms(2) by (auto simp: GetSlot_def split: option.splits if_splits)
  have "b \<in> set (slot_bufs slots)" using k assms(3) by (auto simp: slot_bufs_def map_filter_def intro!: image_eqI)
  then have "b \<in> set (client_bufs c)" using map_of_SomeD [OF slots] by (force simp: client_bufs_def)
  then show ?thesis using map_of_SomeD [OF assms(1)] by (force simp: table_bufs_def cat_def)
qed

lemma copy_to_out:
  assumes p: "pre C st" and b: "b \<in> set (table_bufs (W_clients (st_w st)))"
  shows "\<exists>st'. copy_buf b (c_out C) st = Inr (Inr (), st') \<and> ctx_inv C st' \<and>
    content (buf_at (c_out C) st') = c_pre C @ content (buf_at b st) \<and>
    W_fs (st_w st') = W_fs (st_w st) \<and> W_heap (st_w st') = W_heap (st_w st)"
proof -
  have c: "ctx_inv C st" and cont: "content (buf_at (c_out C) st) = c_pre C" using p by (simp_all add: pre_def)
  then have f: "fresh_out (buf_at (c_out C) st)" by (simp add: ctx_inv_def)
  have "wf_buf (buf_at b st)"
    using c b by (simp add: ctx_inv_def world_inv_def bufs_ok_def pool_inv_def buf_at_def)
  from Buf_Copy_ok [OF this, of "buf_at (c_out C) st"] f obtain t where
      t: "Buf_Copy (buf_at b st) (buf_at (c_out C) st) = Inr t" "wf_buf t"
        "content t = content (buf_at (c_out C) st) @ content (buf_at b st)"
    by (auto simp: fresh_out_def)
  have "Buf_r t = Buf_r (buf_at (c_out C) st)"
    using t(1) by (auto simp: Buf_Copy_def Buf_Allocate_def Let_def go_bind_eq_Inr Buf_Commit_def Buf_fill_def
        split: if_splits)
  then have "fresh_out t" using t(2) f by (simp add: fresh_out_def)
  then have "ctx_inv C (upd_pool (Pool_update (c_out C) (\<lambda>_. t)) st)" by (intro ctx_update [OF c]) simp
  then show ?thesis using t cont by (simp add: copy_buf_def) (simp add: upd_pool_def)
qed

lemma pool_inv_other:
  "pool_inv held p \<Longrightarrow> b \<notin> set (Pool_bufs p) \<Longrightarrow> (b \<in> held \<Longrightarrow> wf_buf (f (Pool_heap p b))) \<Longrightarrow>
     pool_inv held (Pool_update b f p)"
  by (auto simp: pool_inv_def Pool_update_def)

text \<open>Keeping a reply in a slot's buffer is safe while the buffer is not back in the pool.\<close>

lemma copy_from_out:
  assumes c: "ctx_inv C st" and b: "b \<notin> c_io C" "b \<notin> set (Pool_bufs (W_pool (st_w st)))"
    and r: "copy_buf (c_out C) b st = Inr (r, st')"
  shows "ctx_inv C st' \<and> buf_at (c_out C) st' = buf_at (c_out C) st \<and> r = Inr ()"
proof -
  obtain t where t: "Buf_Copy (buf_at (c_out C) st) (buf_at b st) = Inr t"
      and st': "st' = upd_pool (Pool_update b (\<lambda>_. t)) st" and rr: "r = Inr ()"
    using r by (auto simp: copy_buf_def go_bind_eq_Inr)
  have o: "c_out C \<in> c_io C" and f: "fresh_out (buf_at (c_out C) st)" using c by (simp_all add: ctx_inv_def)
  have same: "buf_at (c_out C) st' = buf_at (c_out C) st" using o b by (auto simp: st')
  have wf: "wf_buf t" if "wf_buf (buf_at b st)"
    using Buf_Copy_ok [OF _ that] f t by (fastforce simp: fresh_out_def)
  let ?cs = "W_clients (st_w st)"
  have inv: "world_inv (c_io C) (c_uses C) (c_held C) (st_w st)" using c by (simp add: ctx_inv_def)
  then have "pool_inv (c_io C \<union> set (table_bufs ?cs)) (W_pool (st_w st))"
    by (simp add: world_inv_def bufs_ok_def)
  then have "pool_inv (c_io C \<union> set (table_bufs ?cs)) (Pool_update b (\<lambda>_. t) (W_pool (st_w st)))"
    using b wf by (intro pool_inv_other) (auto simp: pool_inv_def buf_at_def)
  then have "world_inv (c_io C) (c_uses C) (c_held C) ((st_w st)\<lparr>W_pool := Pool_update b (\<lambda>_. t) (W_pool (st_w st))\<rparr>)"
    using inv by (auto simp: world_inv_def bufs_ok_def wf_world_def)
  moreover have "untouched C st'" using c b by (auto simp: ctx_inv_def st' intro: untouched_heap)
  ultimately have "ctx_inv C st'" using c same by (simp add: ctx_inv_def) (simp add: st' upd_pool_def)
  then show ?thesis using same rr by simp
qed

lemma res_bind_assoc: "res_bind (res_bind m f) g = res_bind m (\<lambda>v st. res_bind (f v st) g)"
  by (auto simp: res_bind_def go_bind_def split: sum.splits prod.splits)

text \<open>What running a compound leaves behind: the shared state in order, and in the reply buffer a header
  that counts the responses, followed by them; or, for a repeated request, the reply kept in its slot.\<close>

definition replied :: "ctx \<Rightarrow> 'fs st \<Rightarrow> bool" where
  "replied C st \<longleftrightarrow> (\<exists>rs. rs \<noteq> [] \<and> ran_until_fatal (max 1 (x_OpsCount (c_x C))) rs \<and>
     content (buf_at (c_out C) st) = reply_bytes (c_x C) rs)"

definition settled :: "ctx \<Rightarrow> 'fs st \<Rightarrow> bool" where
  "settled C st \<longleftrightarrow> world_inv (c_io C) (c_uses C) (c_held C) (st_w st) \<and> fresh_out (buf_at (c_out C) st) \<and>
     untouched C st"

lemma ctx_settled: "ctx_inv C st \<Longrightarrow> settled C st"
  by (simp add: ctx_inv_def settled_def)

lemma header_session [simp]:
  "header_bytes (x\<lparr>x_SessionID := sid, x_Slot := sl\<rparr>) n s = header_bytes x n s"
  by (simp add: header_bytes_def header_def)

definition plain_run :: "(nat \<Rightarrow> 'fs st \<Rightarrow> 'fs reply) \<Rightarrow> 'fs Conn \<Rightarrow> nat \<Rightarrow> nat \<Rightarrow> nat \<Rightarrow> 'fs st \<Rightarrow> (unit, 'fs) res" where
  "plain_run f m inb out n st = res_bind (WriteHeader out n NFS4_OK st) (\<lambda>_ st.
      res_bind (f out st) (\<lambda>s st.
      res_bind (run_ops m inb out (n - 1) 1 s st) (\<lambda>(opsExecuted, lastStatus) st.
        RewriteHeaderIfNeeded out opsExecuted lastStatus st)))"

lemma plain_run_replied:
  assumes "pre C st" and "c_pre C = []" and "\<And>C' st. pre C' st \<Longrightarrow> c_in C' = c_in C \<Longrightarrow> good C' (f (c_out C') st)"
    and "plain_run f m (c_in C) (c_out C) (x_OpsCount (c_x C)) st = Inr (r, st')"
  shows "ctx_inv C st' \<and> (r = Inr () \<longrightarrow> replied C st')"
  using run_plain [where f = f and m = m and r = r and st' = st', OF assms(1) refl assms(3,2)] assms(4)
  by (auto simp: plain_run_def replied_def split: sum.splits)

text \<open>The request was accepted: the slot advances, the compound remembers session and slot.\<close>

definition accepted :: "SEQUENCE4args \<Rightarrow> Slot \<Rightarrow> Slot" where
  "accepted args slot = Slot_Accept (SEQUENCE4args_SequenceID args) (SEQUENCE4args_CacheThis args) slot"

definition accept_slot :: "SEQUENCE4args \<Rightarrow> Slot \<Rightarrow> 'fs st \<Rightarrow> 'fs st" where
  "accept_slot args slot st =
     (set_slot (SEQUENCE4args_SessionID args) (SEQUENCE4args_SlotID args) (accepted args slot) st)
       \<lparr>st_x := (st_x st)\<lparr>x_SessionID := SEQUENCE4args_SessionID args, x_Slot := Some (accepted args slot)\<rparr>\<rparr>"

abbreviation sequence_response :: "SEQUENCE4args \<Rightarrow> nat \<Rightarrow> 'fs st \<Rightarrow> 'fs reply" where
  "sequence_response args out \<equiv> OperationResponse out OP4_SEQUENCE NFS4_OK [enc_SEQUENCE4resok (sequence_resok args)]"

lemma x_set_slot [simp]: "st_x (set_slot sid k sl st) = st_x st"
  by (simp add: set_slot_def upd_clients_def)

lemma sequence_body_eq:
  "sequence_body m inb out args slot st =
     res_bind (plain_run (sequence_response args) m inb out (x_OpsCount (st_x st)) (accept_slot args slot st)) (\<lambda>_ st.
       case Slot_Buf slot of
         Some b \<Rightarrow> if SEQUENCE4args_CacheThis args then copy_buf out b st else Inr (Inr (), st)
       | None \<Rightarrow> Inr (Inr (), st))"
  by (simp add: sequence_body_def plain_run_def res_bind_assoc Let_def case_prod_unfold accept_slot_def accepted_def
      cong: option.case_cong)

lemma accept_pre:
  assumes p: "pre C st" and c: "mget (W_clients (st_w st)) (ClientIDFromSessionID (SEQUENCE4args_SessionID args)) = Some c"
    and sl: "GetSlot (SEQUENCE4args_SessionID args) (SEQUENCE4args_SlotID args) c = Some slot"
  shows "pre (C\<lparr>c_x := st_x (accept_slot args slot st)\<rparr>) (accept_slot args slot st)"
    and "header_bytes (st_x (accept_slot args slot st)) = header_bytes (c_x C)"
    and "x_OpsCount (st_x (accept_slot args slot st)) = x_OpsCount (c_x C)" "x_OpsCount (st_x st) = x_OpsCount (c_x C)"
proof -
  have "pre C (set_slot (SEQUENCE4args_SessionID args) (SEQUENCE4args_SlotID args) (accepted args slot) st)"
    unfolding set_slot_def using quiet_SetSlot [OF pre_inv [OF p] c sl, of "accepted args slot"] p
    by (intro pre_clients_map) (auto simp: wf_slot_def accepted_def)
  then show "pre (C\<lparr>c_x := st_x (accept_slot args slot st)\<rparr>) (accept_slot args slot st)"
    by (simp add: pre_def ctx_inv_def accept_slot_def same_call_def)
  have "same_call (c_x C) (st_x st)" using p by (simp add: pre_def ctx_inv_def)
  then show "header_bytes (st_x (accept_slot args slot st)) = header_bytes (c_x C)"
      "x_OpsCount (st_x (accept_slot args slot st)) = x_OpsCount (c_x C)" "x_OpsCount (st_x st) = x_OpsCount (c_x C)"
    by (auto simp: accept_slot_def same_call_def header_bytes_def header_def fun_eq_iff)
qed

lemma Clients_Get_Some:
  "Clients_Get i now cs = (Some c, cs') \<Longrightarrow> mget cs' i = Some c"
  using Get_Some by blast

section \<open>Running a compound\<close>

text \<open>The first operation of the request is \<^verbatim>\<open>SEQUENCE\<close>, in a minor version that has it.\<close>

definition in_session :: "nat \<Rightarrow> 'fs st \<Rightarrow> bool" where
  "in_session inb st \<longleftrightarrow> x_MinorVer (st_x st) > 0 \<and>
     (\<exists>rest. dUint32 (content (buf_at inb st)) = Inr (OP4_SEQUENCE, rest))"

text \<open>\<^verbatim>\<open>Run\<close> after decoding the first operation number, as a case distinction.\<close>

lemma Run_cases:
  assumes p: "pre C st" and run: "Run m (c_in C) (c_out C) st = Inr (r, st')"
  obtains (undecoded) "st' = st" "r \<noteq> Inr ()"
  | (refused) st1 op s where "pre C st1" "WriteHeaderAndSingleOperation (c_out C) op s st1 = Inr (r, st')"
      "s = NFS4ERR_OP_NOT_IN_SESSION \<or> s = NFS4ERR_NOT_ONLY_OP \<and> x_OpsCount (c_x C) > 1"
  | (session) st1 n where "st1 = upd_pool (Pool_update (c_in C) (\<lambda>b. b\<lparr>Buf_r := Buf_w b - n\<rparr>)) st" "pre C st1"
      "in_session (c_in C) st" "RunSequence m (c_in C) (c_out C) st1 = Inr (r, st')"
  | (plain) st1 op where "pre C st1"
      "plain_run (\<lambda>out. doOperation m (c_in C) out op) m (c_in C) (c_out C) (x_OpsCount (c_x C)) st1 = Inr (r, st')"
proof (cases "on_buf (dUint32 (content (buf_at (c_in C) st)))")
  case (Inl s)
  then have "st' = st" "r \<noteq> Inr ()" using run by (cases s; auto simp: Run_def arg_def)+
  then show thesis by (rule undecoded)
next
  case (Inr v)
  obtain op rest where v: "v = (op, rest)" by force
  define st1 where "st1 = upd_pool (Pool_update (c_in C) (\<lambda>b. b\<lparr>Buf_r := Buf_w b - length rest\<rparr>)) st"
  have p1: "pre C st1" unfolding st1_def by (rule pre_read [OF p])
  have x: "st_x st1 = st_x st" by (simp add: st1_def)
  have n: "x_OpsCount (st_x st) = x_OpsCount (c_x C)"
    using p by (simp add: pre_def ctx_inv_def same_call_def)
  note run1 = run [unfolded Run_def arg_def Inr v, simplified, folded st1_def, simplified, unfolded x Let_def n]
  have dec: "dUint32 (content (buf_at (c_in C) st)) = Inr (op, rest)" using Inr v by auto
  show thesis
    using run1 refused [OF p1] session [OF st1_def p1] plain [OF p1] dec
    by (auto simp: plain_run_def in_session_def split: if_splits)
qed

section \<open>Properties\<close>

text \<open>C9: Outside a session, the reply of \<^verbatim>\<open>Run\<close> is a header followed by responses: the header counts exactly the
  responses that follow and carries the status of the last; the operations were executed in order until the
  first fatal status or the end of the request. The one exception is an operation that must be alone and is
  not, which is the only one answered.\<close>

theorem compound_reply:
  assumes "pre C st" and "c_pre C = []" and "\<not> in_session (c_in C) st"
    and "Run m (c_in C) (c_out C) st = Inr (Inr (), st')"
  shows "\<exists>rs. rs \<noteq> [] \<and>
    content (buf_at (c_out C) st') = header_bytes (c_x C) (length rs) (status_of (last rs)) @ concat (map resp_bytes rs) \<and>
    (ran_until_fatal (max 1 (x_OpsCount (c_x C))) rs \<or>
     (\<exists>op. rs = [(op, NFS4ERR_NOT_ONLY_OP, [])]) \<and> x_OpsCount (c_x C) > 1)"
  using assms(1,4)
proof (cases rule: Run_cases)
  case (refused st1 op s)
  have "content (buf_at (c_out C) st') = reply_bytes (c_x C) [(op, s, [])]"
    using single_reply [OF refused(1), of op s] refused(2) assms(2) by auto
  moreover have "ran_until_fatal (max 1 (x_OpsCount (c_x C))) [(op, NFS4ERR_OP_NOT_IN_SESSION, [])]"
    by (simp add: ran_until_fatal_def FatalStatuses_def)
  ultimately show ?thesis
    using refused(3) by (auto simp: reply_bytes_def body_bytes_def intro!: exI [of _ "[(op, s, [])]"])
next
  case (plain st1 op)
  have "good C' (doOperation m (c_in C) (c_out C') op st'')" if "pre C' st''" "c_in C' = c_in C" for C' and st'' :: "'a st"
    using doOperation_good [OF that(1), of m op] that(2) by simp
  from plain_run_replied [OF plain(1) assms(2) this plain(2)] show ?thesis
    by (auto simp: replied_def reply_bytes_def body_bytes_def)
qed (use assms(3) in simp_all)

text \<open>Three operations: \<^verbatim>\<open>SAVEFH\<close> without a file handle (an error, but not a fatal one), a number that is no
  operation (fatal), and one that is never reached.\<close>

definition filled :: "bytes \<Rightarrow> Buf" where
  "filled d = \<lparr>Buf_buf = d, Buf_r = 0, Buf_w = length d\<rparr>"

lemma filled_simps [simp]: "content (filled d) = d" "wf_buf (filled d)" "fresh_out (filled d)"
  by (simp_all add: filled_def content_def wf_buf_def fresh_out_def)

definition demo_compound :: "bytes st" where
  "demo_compound =
     \<lparr>st_x = new_Compound zero_Auth 0 ''t'' 3 demo_creds,
      st_w = demo_world
        \<lparr>W_pool := \<lparr>Pool_heap = (\<lambda>_. filled [])(1 := filled (put_u32 32 @ put_u32 9999 @ put_u32 10)),
                   Pool_next = 3, Pool_bufs = []\<rparr>\<rparr>\<rparr>"

definition demo_compound_ctx :: ctx where
  "demo_compound_ctx = \<lparr>c_in = 1, c_out = 2, c_io = {1, 2}, c_uses = (\<lambda>_. 0), c_held = {},
     c_x = new_Compound zero_Auth 0 ''t'' 3 demo_creds, c_pre = [], c_kept = Map.empty\<rparr>"

lemma demo_compound_pre: "pre demo_compound_ctx demo_compound"
proof -
  have "world_inv {1, 2} (\<lambda>_. 0) {} (st_w demo_compound)"
    by (simp add: world_inv_def demo_compound_def demo_world_def wf_world_def wf_map_def busy_of_def open_files_def
        clients_inv_def wf_clients_def one_owner_def bufs_ok_def table_bufs_def pool_inv_def)
  then show ?thesis
    by (simp add: pre_def ctx_inv_def demo_compound_ctx_def same_call_def untouched_def) (simp add: demo_compound_def buf_at_def)
qed

theorem compound_reply_witness:
  "\<exists>st' rs. Run demo_conn 1 2 demo_compound = Inr (Inr (), st') \<and> rs \<noteq> [] \<and>
     content (buf_at 2 st') = header_bytes (new_Compound zero_Auth 0 ''t'' 3 demo_creds) (length rs) (status_of (last rs)) @
       concat (map resp_bytes rs)"
proof -
  have "(case Run demo_conn 1 2 demo_compound of Inr (Inr (), st') \<Rightarrow> True | _ \<Rightarrow> False)" by code_simp
  then obtain st' where r: "Run demo_conn 1 2 demo_compound = Inr (Inr (), st')"
    by (auto split: sum.splits prod.splits)
  have c: "c_in demo_compound_ctx = 1" "c_out demo_compound_ctx = 2" "c_pre demo_compound_ctx = []"
      "c_x demo_compound_ctx = new_Compound zero_Auth 0 ''t'' 3 demo_creds"
    by (simp_all add: demo_compound_ctx_def)
  have "\<not> in_session 1 demo_compound" by (simp add: in_session_def demo_compound_def new_Compound_def)
  then show ?thesis
    using compound_reply [OF demo_compound_pre c(3), of demo_conn st', unfolded c] r by blast
qed

end
