(* ===== verification/Sequence.thy ===== *)
theory Sequence
  imports RunInv
begin

text \<open>
  Exactly-once execution of requests in a session (\<^verbatim>\<open>RunSequence\<close>). The abstract slot is what the protocol
  talks about: the last sequence number, the reply that is kept, and whether replies can be kept at all.
  The abstract verdict on a request depends on nothing else; \<^verbatim>\<open>RunSequence\<close>, with its table of clients, its
  slot pointers and its pooled buffers, implements it.
\<close>

section \<open>The abstract slot\<close>

record abs_slot =
  last_seq :: u32
  kept :: "bytes option"
  can_keep :: bool

datatype verdict = Refuse u32 | Replay bytes | Execute

definition verdict_of :: "u32 \<Rightarrow> abs_slot option \<Rightarrow> verdict" where
  "verdict_of seq s =
     (case s of
        None \<Rightarrow> Refuse NFS4ERR_DEADSESSION
      | Some a \<Rightarrow>
          if seq = last_seq a then
            (case kept a of
               Some reply \<Rightarrow> Replay reply
             | None \<Rightarrow> if can_keep a then Execute else Refuse NFS4ERR_RETRY_UNCACHED_REP)
          else if seq = last_seq a + 1 then Execute
          else Refuse NFS4ERR_SEQ_MISORDERED)"

text \<open>The slot a request names: the session identifier leads to a confirmed client and one of its sessions.\<close>

definition slot_at :: "bytes \<Rightarrow> u32 \<Rightarrow> Clients \<Rightarrow> Slot option" where
  "slot_at sid k cs =
     (case mget cs (ClientIDFromSessionID sid) of
        None \<Rightarrow> None
      | Some c \<Rightarrow> if Client_confirmed c then GetSlot sid k c else None)"

definition abs_of :: "(nat \<Rightarrow> Buf) \<Rightarrow> Slot \<Rightarrow> abs_slot" where
  "abs_of bufs s =
     \<lparr>last_seq = Slot_SequenceID s,
      kept = (if Slot_ContainsData s then map_option (content \<circ> bufs) (Slot_Buf s) else None),
      can_keep = (Slot_Buf s \<noteq> None)\<rparr>"

definition abs_at :: "bytes \<Rightarrow> u32 \<Rightarrow> 'fs st \<Rightarrow> abs_slot option" where
  "abs_at sid k st = map_option (abs_of (\<lambda>b. buf_at b st)) (slot_at sid k (W_clients (st_w st)))"

text \<open>Nothing was executed: the file system, the workers and the random source are as they were, and so is
  every slot of every session.\<close>

definition no_effect :: "'fs st \<Rightarrow> 'fs st \<Rightarrow> bool" where
  "no_effect st st' \<longleftrightarrow> W_fs (st_w st') = W_fs (st_w st) \<and> W_heap (st_w st') = W_heap (st_w st) \<and>
     W_workers (st_w st') = W_workers (st_w st) \<and> W_draws (st_w st') = W_draws (st_w st) \<and>
     (\<forall>sid k. abs_at sid k st' = abs_at sid k st)"

lemma no_effect_trans: "no_effect a b \<Longrightarrow> no_effect b c \<Longrightarrow> no_effect a c"
  by (simp add: no_effect_def)

lemma slot_at_owned: "slot_at sid k cs = Some s \<Longrightarrow> Slot_Buf s = Some b \<Longrightarrow> b \<in> set (table_bufs cs)"
  by (auto simp: slot_at_def split: option.splits if_splits intro: slot_buf_owned)

text \<open>The buffers of a request are not the table's.\<close>

lemma no_effect_io:
  assumes "pre C st" and "a \<in> c_io C"
  shows "no_effect st (upd_pool (Pool_update a f) st)"
proof -
  have "a \<notin> set (table_bufs (W_clients (st_w st)))"
    using assms by (auto simp: pre_def ctx_inv_def world_inv_def bufs_ok_def)
  then have "abs_of (\<lambda>b. buf_at b (upd_pool (Pool_update a f) st)) s = abs_of (\<lambda>b. buf_at b st) s"
    if "slot_at sid k (W_clients (st_w st)) = Some s" for sid k s
    using slot_at_owned [OF that] by (cases "Slot_Buf s") (auto simp: abs_of_def)
  moreover have "W_clients (st_w (upd_pool (Pool_update a f) st)) = W_clients (st_w st)" by (simp add: upd_pool_def)
  ultimately have "abs_at sid k (upd_pool (Pool_update a f) st) = abs_at sid k st" for sid k
    by (cases "slot_at sid k (W_clients (st_w st))") (simp_all add: abs_at_def)
  then show ?thesis by (simp add: no_effect_def) (simp add: upd_pool_def)
qed

text \<open>Seeing a client again only moves its time stamp.\<close>

lemma slot_at_Get: "slot_at sid k (snd (Clients_Get i now cs)) = slot_at sid k cs"
  by (auto simp: slot_at_def Clients_Get_def Let_def GetSlot_def split: option.splits)

lemma no_effect_Get:
  "no_effect st (upd_clients (\<lambda>_. snd (Clients_Get i now (W_clients (st_w st)))) st)"
  by (simp add: no_effect_def abs_at_def slot_at_Get) (simp add: upd_clients_def)

lemma Get_slot:
  "Clients_Get (ClientIDFromSessionID sid) now cs = (r, cs') \<Longrightarrow>
     slot_at sid k cs = (case r of None \<Rightarrow> None | Some c \<Rightarrow> GetSlot sid k c)"
  by (auto simp: slot_at_def Clients_Get_def Let_def GetSlot_def split: option.splits if_splits)

lemma slot_at_wf: "clients_inv cs \<Longrightarrow> slot_at sid k cs = Some s \<Longrightarrow> wf_slot s"
  by (fastforce simp: slot_at_def clients_inv_def wf_clients_def wf_client_def wf_session_def GetSlot_def
      split: option.splits if_splits)

section \<open>The implementation\<close>

text \<open>The state in which the verdict is taken: the arguments are read, the client is marked as seen.\<close>

definition seen :: "nat \<Rightarrow> nat \<Rightarrow> bytes \<Rightarrow> 'fs st \<Rightarrow> 'fs st" where
  "seen inb n sid st =
     (let st1 = upd_pool (Pool_update inb (\<lambda>b. b\<lparr>Buf_r := Buf_w b - n\<rparr>)) st
      in upd_clients (\<lambda>_. snd (Clients_Get (ClientIDFromSessionID sid) (W_now (st_w st1)) (W_clients (st_w st1)))) st1)"

lemma seen_pre:
  assumes p: "pre C st"
  shows "pre C (seen (c_in C) n sid st)" and "no_effect st (seen (c_in C) n sid st)"
proof -
  let ?st1 = "upd_pool (Pool_update (c_in C) (\<lambda>b. b\<lparr>Buf_r := Buf_w b - n\<rparr>)) st"
  let ?g = "Clients_Get (ClientIDFromSessionID sid) (W_now (st_w ?st1)) (W_clients (st_w ?st1))"
  have p1: "pre C ?st1" by (rule pre_read [OF p])
  then show "pre C (seen (c_in C) n sid st)"
    unfolding seen_def Let_def by (rule pre_table(1) [where r = "fst ?g"]) simp
  have "no_effect st ?st1" using pre_out [OF p] by (intro no_effect_io [OF p]) simp
  then show "no_effect st (seen (c_in C) n sid st)"
    unfolding seen_def Let_def by (rule no_effect_trans) (rule no_effect_Get)
qed

lemma slot_at_seen [simp]: "slot_at sid k (W_clients (st_w (seen inb n sid' st))) = slot_at sid k (W_clients (st_w st))"
  by (simp add: seen_def Let_def slot_at_Get) (simp add: upd_pool_def slot_at_Get)

lemma seen_slot_buf:
  assumes "pre C st" and "slot_at sid k (W_clients (st_w st)) = Some slot" and "Slot_Buf slot = Some b"
  shows "buf_at b (seen (c_in C) n sid' st) = buf_at b st"
  using slot_at_owned [OF assms(2,3)] assms(1)
  by (auto simp: seen_def Let_def pre_def ctx_inv_def world_inv_def bufs_ok_def)

text \<open>\<^verbatim>\<open>RunSequence\<close> after decoding, as a case distinction on the slot.\<close>

lemma RunSequence_cases:
  assumes "dec_SEQUENCE4args (content (buf_at inb st)) = Inr (args, rest)"
  shows "RunSequence m inb out st =
    (let sid = SEQUENCE4args_SessionID args; seq = SEQUENCE4args_SequenceID args;
         st' = seen inb (length rest) sid st;
         fail = (\<lambda>s. WriteHeaderAndSingleOperation out OP4_SEQUENCE s st')
     in case slot_at sid (SEQUENCE4args_SlotID args) (W_clients (st_w st)) of
          None \<Rightarrow> fail NFS4ERR_DEADSESSION
        | Some slot \<Rightarrow>
            if Slot_SequenceID slot = seq \<and> Slot_ContainsData slot
            then (case Slot_Buf slot of None \<Rightarrow> Inl Panic | Some b \<Rightarrow> copy_buf b out st')
            else if Slot_SequenceID slot = seq \<and> Slot_Buf slot = None then fail NFS4ERR_RETRY_UNCACHED_REP
            else if Slot_SequenceID slot \<noteq> seq \<and> Slot_SequenceID slot + 1 \<noteq> seq then fail NFS4ERR_SEQ_MISORDERED
            else sequence_body m inb out args slot st')"
proof -
  let ?sid = "SEQUENCE4args_SessionID args"
  obtain g cs where get: "Clients_Get (ClientIDFromSessionID ?sid) (W_now (st_w st)) (W_clients (st_w st)) = (g, cs)"
    by force
  have w: "W_clients (st_w (upd_pool f st)) = W_clients (st_w st)" "W_now (st_w (upd_pool f st)) = W_now (st_w st)" for f
    by (simp_all add: upd_pool_def)
  show ?thesis
    using Get_slot [OF get, of "SEQUENCE4args_SlotID args"]
    by (cases g) (simp_all add: assms get RunSequence_def arg_def seen_def Let_def w split: option.split)
qed

text \<open>Writing to the reply buffer is not an effect.\<close>

lemma refusal:
  assumes p: "pre C st" and e: "c_pre C = []"
  shows "\<exists>st'. WriteHeaderAndSingleOperation (c_out C) op s st = Inr (Inr (), st') \<and>
    content (buf_at (c_out C) st') = reply_bytes (c_x C) [(op, s, [])] \<and> no_effect st st'"
proof -
  obtain st' where w: "WriteHeaderAndSingleOperation (c_out C) op s st = Inr (Inr (), st')"
      "content (buf_at (c_out C) st') = reply_bytes (c_x C) [(op, s, [])]"
    using single_reply [OF p, of op s] e by auto
  have "\<exists>f. st' = upd_pool (Pool_update (c_out C) f) st"
    using w(1) by (auto simp: WriteHeaderAndSingleOperation_def res_bind_def WriteHeader_eq write_all_def eUint32_def
        upd_pool_comp)
  then show ?thesis using w no_effect_io [OF p] pre_out [OF p] by auto
qed

lemma replay:
  assumes p: "pre C st" and e: "c_pre C = []" and b: "b \<in> set (table_bufs (W_clients (st_w st)))"
  shows "\<exists>st'. copy_buf b (c_out C) st = Inr (Inr (), st') \<and>
    content (buf_at (c_out C) st') = content (buf_at b st) \<and> no_effect st st'"
proof -
  obtain st' where w: "copy_buf b (c_out C) st = Inr (Inr (), st')"
      "content (buf_at (c_out C) st') = content (buf_at b st)"
    using copy_to_out [OF p b] e by auto
  have "\<exists>f. st' = upd_pool (Pool_update (c_out C) f) st" using w(1) by (auto simp: copy_buf_def go_bind_eq_Inr)
  then show ?thesis using w no_effect_io [OF p] pre_out [OF p] by auto
qed

lemma slot_at_set_slot:
  assumes "slot_at sid k cs = Some old"
  shows "slot_at sid' k' (modify_client (ClientIDFromSessionID sid) (SetSlot sid k sl) cs) =
    (if ClientIDFromSessionID sid' = ClientIDFromSessionID sid \<and>
        CacheIDFromSessionID sid' = CacheIDFromSessionID sid \<and> k' = k
     then Some sl else slot_at sid' k' cs)"
proof -
  obtain c where c: "mget cs (ClientIDFromSessionID sid) = Some c" "Client_confirmed c" "GetSlot sid k c = Some old"
    using assms by (auto simp: slot_at_def split: option.splits if_splits)
  have conf: "Client_confirmed (SetSlot sid k sl c)"
    using c(2) by (auto simp: SetSlot_def split: option.splits)
  have same: "GetSlot sid' k (SetSlot sid k sl c) = GetSlot sid k (SetSlot sid k sl c)"
    if "CacheIDFromSessionID sid' = CacheIDFromSessionID sid" using that by (simp add: GetSlot_def)
  show ?thesis
    using c conf same GetSlot_SetSlot [OF c(3), of sl] GetSlot_SetSlot_other [of sid' sid k' k sl c]
    by (auto simp: slot_at_def modify_client_def)
qed

text \<open>A \<^verbatim>\<open>SEQUENCE\<close> on its own (a client renewing its lease): what the slot holds afterwards.\<close>

lemma lone_plain_run:
  assumes p: "pre C st" and e: "c_pre C = []" and h: "header_bytes (st_x st) = header_bytes (c_x C)"
    and n: "x_OpsCount (st_x st) = Suc 0"
  shows "\<exists>f. plain_run (sequence_response args) m inb (c_out C) (Suc 0) st =
      Inr (Inr (), upd_pool (Pool_update (c_out C) f) st) \<and>
    ctx_inv C (upd_pool (Pool_update (c_out C) f) st) \<and>
    content (buf_at (c_out C) (upd_pool (Pool_update (c_out C) f) st)) =
      reply_bytes (c_x C) [(OP4_SEQUENCE, NFS4_OK, fst (enc_SEQUENCE4resok (sequence_resok args)))]"
proof -
  let ?h = "header_bytes (c_x C) 1 NFS4_OK"
  let ?r = "put_u32 OP4_SEQUENCE @ put_u32 NFS4_OK @ fst (enc_SEQUENCE4resok (sequence_resok args))"
  have enc: "EncodeAll [eUint32 OP4_SEQUENCE, eUint32 NFS4_OK, enc_SEQUENCE4resok (sequence_resok args)] = (?r, None)"
    by (simp add: eUint32_def enc_SEQUENCE4resok_def eByteArray_def)
  note w1 = ctx_write [OF pre_ctx [OF p], of ?h] and w2 = ctx_write [OF w1(1), of ?r]
  have "plain_run (sequence_response args) m inb (c_out C) (Suc 0) st =
      Inr (Inr (), upd_pool (Pool_update (c_out C) (Buf_Write ?r)) (upd_pool (Pool_update (c_out C) (Buf_Write ?h)) st))"
    by (simp add: plain_run_def res_bind_def WriteHeader_eq OperationResponse_def write_all_def enc h n
        Rewrite_eq)
  then show ?thesis
    using w1(2) w2 p e by (auto simp: pre_def upd_pool_comp reply_bytes_def resp_bytes_def)
qed

lemma copy_kept:
  assumes c: "ctx_inv C st" and b: "b \<in> set (table_bufs (W_clients (st_w st)))"
  shows "\<exists>st'. copy_buf (c_out C) b st = Inr (Inr (), st') \<and> W_clients (st_w st') = W_clients (st_w st) \<and>
    content (buf_at (c_out C) st') = content (buf_at (c_out C) st) \<and>
    content (buf_at b st') = content (buf_at b st) @ content (buf_at (c_out C) st)"
proof -
  have wf: "wf_buf (buf_at b st)" "wf_buf (buf_at (c_out C) st)" "b \<noteq> c_out C"
    using c b by (auto simp: ctx_inv_def world_inv_def bufs_ok_def pool_inv_def buf_at_def)
  obtain t where "Buf_Copy (buf_at (c_out C) st) (buf_at b st) = Inr t"
      "content t = content (buf_at b st) @ content (buf_at (c_out C) st)"
    using Buf_Copy_ok [OF wf(2,1)] by auto
  then show ?thesis using wf(3) by (simp add: copy_buf_def) (simp add: upd_pool_def)
qed

section \<open>Properties\<close>

text \<open>A client with one session, in whose first slot the reply to request 1 is kept, in buffer 5; a request for
  that slot is in buffer 1, and buffer 2 is to take the reply.\<close>

definition demo_slots :: Session where
  "demo_slots = \<lparr>Slot_SlotID = 0, Slot_SequenceID = 1, Slot_ContainsData = True, Slot_Buf = Some 5\<rparr> #
     map (\<lambda>j. \<lparr>Slot_SlotID = of_nat j, Slot_SequenceID = 0, Slot_ContainsData = False, Slot_Buf = None\<rparr>) [1..<16]"

definition demo_args :: "u32 \<Rightarrow> SEQUENCE4args" where
  "demo_args seq = \<lparr>SEQUENCE4args_SessionID = put_u64 7 @ put_u64 3, SEQUENCE4args_SequenceID = seq,
     SEQUENCE4args_SlotID = 0, SEQUENCE4args_SlotIDHighest = 15, SEQUENCE4args_CacheThis = True\<rparr>"

definition demo_x :: Compound where
  "demo_x = new_Compound zero_Auth 1 ''t'' 1 demo_creds"

definition demo_st :: "u32 \<Rightarrow> bytes st" where
  "demo_st seq =
     \<lparr>st_x = demo_x,
      st_w = demo_world
        \<lparr>W_clients := [(7, demo_client\<lparr>Client_sessions := [(3, demo_slots)]\<rparr>)],
         W_pool := \<lparr>Pool_heap = (\<lambda>_. filled [])(1 := filled (fst (enc_SEQUENCE4args (demo_args seq))), 5 := filled [42]),
                    Pool_next = 6, Pool_bufs = []\<rparr>\<rparr>\<rparr>"

definition demo_ctx :: ctx where
  "demo_ctx = \<lparr>c_in = 1, c_out = 2, c_io = {1, 2}, c_uses = (\<lambda>_. 0), c_held = {}, c_x = demo_x,
     c_pre = [], c_kept = Map.empty\<rparr>"

lemma demo_decoded: "dec_SEQUENCE4args (content (buf_at 1 (demo_st seq))) = Inr (demo_args seq, [])"
proof -
  have "ok_SEQUENCE4args (demo_args seq)" by (simp add: ok_SEQUENCE4args_def demo_args_def)
  from SEQUENCE4argsC.dec_enc [OF this, of "[]"] show ?thesis by (simp add: demo_st_def buf_at_def)
qed

lemma demo_slot0:
  "slot_at (put_u64 7 @ put_u64 3) 0 (W_clients (st_w (demo_st seq))) =
     Some \<lparr>Slot_SlotID = 0, Slot_SequenceID = 1, Slot_ContainsData = True, Slot_Buf = Some 5\<rparr>"
  by (simp add: slot_at_def demo_st_def GetSlot_def demo_slots_def demo_client_def)

lemma demo_table_bufs: "table_bufs [(7, demo_client\<lparr>Client_sessions := [(3, demo_slots)]\<rparr>)] = [5]"
  by (simp add: table_bufs_def client_bufs_cat demo_slots_def slot_bufs_def map_filter_def)

lemma demo_pre: "pre demo_ctx (demo_st seq)"
proof -
  let ?c = "demo_client\<lparr>Client_sessions := [(3, demo_slots)]\<rparr>"
  have "wf_session demo_slots"
    by (auto simp: wf_session_def demo_slots_def wf_slot_def upt_rec)
  then have "clients_inv [(7, ?c)]"
    by (auto simp: clients_inv_def wf_clients_def wf_client_def wf_map_def one_owner_def demo_client_def new_Client_def
        Creds_Equal_def split: if_splits)
  moreover have "bufs_ok {1, 2} [(7, ?c)] (W_pool (st_w (demo_st seq)))"
    by (auto simp: bufs_ok_def demo_table_bufs demo_st_def pool_inv_def)
  ultimately have "world_inv {1, 2} (\<lambda>_. 0) {} (st_w (demo_st seq))"
    by (auto simp: world_inv_def demo_st_def demo_world_def wf_world_def wf_map_def busy_of_def open_files_def
        demo_client_def new_Client_def)
  then show ?thesis
    by (simp add: pre_def ctx_inv_def demo_ctx_def same_call_def untouched_def) (simp add: demo_st_def buf_at_def)
qed

text \<open>C1: \<^verbatim>\<open>RunSequence\<close> implements the abstract slot. A request on a dead session, a repetition of one whose reply
  was not kept, and one out of order are refused with the status the verdict names, as the only result; a
  repetition whose reply was kept is answered with that reply, byte for byte; neither executes anything or
  changes any slot. Every other request is executed, once, on the slot it names.\<close>

theorem sequence_refines_slot:
  assumes "pre C st" and "c_pre C = []"
    and "dec_SEQUENCE4args (content (buf_at (c_in C) st)) = Inr (args, rest)"
  shows "case verdict_of (SEQUENCE4args_SequenceID args) (abs_at (SEQUENCE4args_SessionID args) (SEQUENCE4args_SlotID args) st) of
    Refuse s \<Rightarrow> \<exists>st'. RunSequence m (c_in C) (c_out C) st = Inr (Inr (), st') \<and>
      content (buf_at (c_out C) st') = reply_bytes (c_x C) [(OP4_SEQUENCE, s, [])] \<and> no_effect st st'
  | Replay reply \<Rightarrow> \<exists>st'. RunSequence m (c_in C) (c_out C) st = Inr (Inr (), st') \<and>
      content (buf_at (c_out C) st') = reply \<and> no_effect st st'
  | Execute \<Rightarrow> \<exists>slot st1. slot_at (SEQUENCE4args_SessionID args) (SEQUENCE4args_SlotID args) (W_clients (st_w st)) = Some slot \<and>
      no_effect st st1 \<and> RunSequence m (c_in C) (c_out C) st = sequence_body m (c_in C) (c_out C) args slot st1"
proof -
  let ?sid = "SEQUENCE4args_SessionID args" and ?k = "SEQUENCE4args_SlotID args" and ?seq = "SEQUENCE4args_SequenceID args"
  let ?st1 = "seen (c_in C) (length rest) ?sid st"
  have p1: "pre C ?st1" and n1: "no_effect st ?st1" by (rule seen_pre [OF assms(1)])+
  note run = RunSequence_cases [OF assms(3), of m "c_out C", unfolded Let_def]
  have refuse: "\<exists>st'. WriteHeaderAndSingleOperation (c_out C) OP4_SEQUENCE s ?st1 = Inr (Inr (), st') \<and>
      content (buf_at (c_out C) st') = reply_bytes (c_x C) [(OP4_SEQUENCE, s, [])] \<and> no_effect st st'" for s
    using refusal [OF p1 assms(2), of OP4_SEQUENCE s] no_effect_trans [OF n1] by blast
  show ?thesis
  proof (cases "slot_at ?sid ?k (W_clients (st_w st))")
    case None
    then show ?thesis using refuse by (simp add: abs_at_def verdict_of_def run)
  next
    case (Some slot)
    have wf: "Slot_ContainsData slot \<Longrightarrow> Slot_Buf slot \<noteq> None"
      using slot_at_wf [OF pre_inv [OF assms(1)] Some] by (simp add: wf_slot_def)
    have "slot_at ?sid ?k (W_clients (st_w ?st1)) = Some slot" using Some by simp
    note own = slot_at_owned [OF this]
    note same = seen_slot_buf [OF assms(1) Some]
    show ?thesis
    proof (cases "Slot_SequenceID slot = ?seq \<and> Slot_ContainsData slot")
      case True
      then obtain b where b: "Slot_Buf slot = Some b" using wf by auto
      have "\<exists>st'. copy_buf b (c_out C) ?st1 = Inr (Inr (), st') \<and>
          content (buf_at (c_out C) st') = content (buf_at b st) \<and> no_effect st st'"
        using replay [OF p1 assms(2) own [OF b]] no_effect_trans [OF n1] same [OF b] by auto
      then show ?thesis using True Some b by (simp add: abs_at_def abs_of_def verdict_of_def run)
    next
      case False
      then show ?thesis
        using Some refuse n1 by (auto simp: abs_at_def abs_of_def verdict_of_def run)
    qed
  qed
qed

theorem sequence_refines_slot_witness:
  "\<exists>st'. RunSequence demo_conn 1 2 (demo_st 1) = Inr (Inr (), st') \<and> content (buf_at 2 st') = [42] \<and>
     no_effect (demo_st 1) st'"
proof -
  have c: "c_in demo_ctx = 1" "c_out demo_ctx = 2" "c_pre demo_ctx = []" by (simp_all add: demo_ctx_def)
  have a: "SEQUENCE4args_SessionID (demo_args 1) = put_u64 7 @ put_u64 3" "SEQUENCE4args_SlotID (demo_args 1) = 0"
      "SEQUENCE4args_SequenceID (demo_args 1) = 1"
    by (simp_all add: demo_args_def)
  have v: "verdict_of 1 (abs_at (put_u64 7 @ put_u64 3) 0 (demo_st 1)) = Replay [42]"
    by (simp add: abs_at_def demo_slot0 abs_of_def verdict_of_def) (simp add: demo_st_def buf_at_def)
  show ?thesis
    using sequence_refines_slot [OF demo_pre c(3), of 1 "demo_args 1" "[]" demo_conn, unfolded c a v] demo_decoded
    by simp
qed

text \<open>An accepted \<^verbatim>\<open>SEQUENCE\<close> on its own, up to the point where the reply may be kept.\<close>

lemma lone_sequence_run:
  assumes "pre C st" and "c_pre C = []" and "x_OpsCount (c_x C) = 1"
    and "dec_SEQUENCE4args (content (buf_at (c_in C) st)) = Inr (args, rest)"
    and "slot_at (SEQUENCE4args_SessionID args) (SEQUENCE4args_SlotID args) (W_clients (st_w st)) = Some slot"
    and "SEQUENCE4args_SequenceID args = Slot_SequenceID slot + 1"
  obtains C' st3 where "RunSequence m (c_in C) (c_out C) st = (case Slot_Buf slot of
         Some b \<Rightarrow> if SEQUENCE4args_CacheThis args then copy_buf (c_out C) b st3 else Inr (Inr (), st3)
       | None \<Rightarrow> Inr (Inr (), st3))"
    and "ctx_inv C' st3" and "c_out C' = c_out C"
    and "content (buf_at (c_out C) st3) =
      reply_bytes (c_x C) [(OP4_SEQUENCE, NFS4_OK, fst (enc_SEQUENCE4resok (sequence_resok args)))]"
    and "\<And>sid k. slot_at sid k (W_clients (st_w st3)) =
      (if ClientIDFromSessionID sid = ClientIDFromSessionID (SEQUENCE4args_SessionID args) \<and>
          CacheIDFromSessionID sid = CacheIDFromSessionID (SEQUENCE4args_SessionID args) \<and> k = SEQUENCE4args_SlotID args
       then Some (accepted args slot) else slot_at sid k (W_clients (st_w st)))"
    and "\<And>b. Slot_Buf slot = Some b \<Longrightarrow> b \<noteq> c_out C \<Longrightarrow> buf_at b st3 = buf_at b st"
proof -
  let ?sid = "SEQUENCE4args_SessionID args" and ?k = "SEQUENCE4args_SlotID args"
  let ?st1 = "seen (c_in C) (length rest) ?sid st"
  let ?st2 = "accept_slot args slot ?st1"
  let ?reply = "reply_bytes (c_x C) [(OP4_SEQUENCE, NFS4_OK, fst (enc_SEQUENCE4resok (sequence_resok args)))]"
  have p1: "pre C ?st1" by (rule seen_pre [OF assms(1)])
  have s1: "slot_at ?sid ?k (W_clients (st_w ?st1)) = Some slot" using assms(5) by simp
  then obtain c where c: "mget (W_clients (st_w ?st1)) (ClientIDFromSessionID ?sid) = Some c" "GetSlot ?sid ?k c = Some slot"
    by (auto simp: slot_at_def split: option.splits if_splits)
  note acc = accept_pre [OF p1 c]
  obtain f where f: "plain_run (sequence_response args) m (c_in C) (c_out C) (Suc 0) ?st2 =
      Inr (Inr (), upd_pool (Pool_update (c_out C) f) ?st2)"
      "ctx_inv (C\<lparr>c_x := st_x ?st2\<rparr>) (upd_pool (Pool_update (c_out C) f) ?st2)"
      "content (buf_at (c_out C) (upd_pool (Pool_update (c_out C) f) ?st2)) = ?reply"
    using lone_plain_run [OF acc(1), of args m "c_in C"] assms(2,3) acc(2,3) by (auto simp: reply_bytes_def)
  let ?st3 = "upd_pool (Pool_update (c_out C) f) ?st2"
  have cs: "W_clients (st_w ?st3) = modify_client (ClientIDFromSessionID ?sid) (SetSlot ?sid ?k (accepted args slot))
      (W_clients (st_w ?st1))"
    by (simp add: accept_slot_def set_slot_def) (simp add: upd_clients_def upd_pool_def)
  show thesis
  proof (rule that [OF _ f(2) _ f(3)])
    show "RunSequence m (c_in C) (c_out C) st = (case Slot_Buf slot of
         Some b \<Rightarrow> if SEQUENCE4args_CacheThis args then copy_buf (c_out C) b ?st3 else Inr (Inr (), ?st3)
       | None \<Rightarrow> Inr (Inr (), ?st3))"
      using RunSequence_cases [OF assms(4), of m "c_out C"] assms(3,5,6) acc(4) f(1)
      by (simp add: Let_def sequence_body_eq res_bind_def)
  next
    fix sid k
    show "slot_at sid k (W_clients (st_w ?st3)) = (if ClientIDFromSessionID sid = ClientIDFromSessionID ?sid \<and>
        CacheIDFromSessionID sid = CacheIDFromSessionID ?sid \<and> k = ?k
       then Some (accepted args slot) else slot_at sid k (W_clients (st_w st)))"
      using slot_at_set_slot [OF s1, of sid k "accepted args slot"] cs by simp
  next
    fix b assume "Slot_Buf slot = Some b" and "b \<noteq> c_out C"
    then show "buf_at b ?st3 = buf_at b st"
      using seen_slot_buf [OF assms(1,5)] by (simp add: accept_slot_def set_slot_def)
  qed simp
qed

text \<open>C28: After a \<^verbatim>\<open>SEQUENCE\<close> on its own the slot has advanced, no other slot has changed, and, if the reply was to
  be kept, the slot's buffer holds what it held before followed by the reply: the buffer is not emptied
  first, so the second reply kept in a slot is replayed together with the first.\<close>

theorem lone_sequence_keeps:
  assumes "pre C st" and "c_pre C = []" and "x_OpsCount (c_x C) = 1"
    and "dec_SEQUENCE4args (content (buf_at (c_in C) st)) = Inr (args, rest)"
    and "slot_at (SEQUENCE4args_SessionID args) (SEQUENCE4args_SlotID args) (W_clients (st_w st)) = Some slot"
    and "SEQUENCE4args_SequenceID args = Slot_SequenceID slot + 1"
  shows "\<exists>st' reply. RunSequence m (c_in C) (c_out C) st = Inr (Inr (), st') \<and> content (buf_at (c_out C) st') = reply \<and>
    reply = reply_bytes (c_x C) [(OP4_SEQUENCE, NFS4_OK, fst (enc_SEQUENCE4resok (sequence_resok args)))] \<and>
    abs_at (SEQUENCE4args_SessionID args) (SEQUENCE4args_SlotID args) st' = Some
      \<lparr>last_seq = SEQUENCE4args_SequenceID args,
       kept = (if SEQUENCE4args_CacheThis args then map_option (\<lambda>b. content (buf_at b st) @ reply) (Slot_Buf slot) else None),
       can_keep = (Slot_Buf slot \<noteq> None)\<rparr> \<and>
    (\<forall>sid k. ClientIDFromSessionID sid \<noteq> ClientIDFromSessionID (SEQUENCE4args_SessionID args) \<or>
        CacheIDFromSessionID sid \<noteq> CacheIDFromSessionID (SEQUENCE4args_SessionID args) \<or> k \<noteq> SEQUENCE4args_SlotID args \<longrightarrow>
      slot_at sid k (W_clients (st_w st')) = slot_at sid k (W_clients (st_w st)))"
proof -
  let ?sid = "SEQUENCE4args_SessionID args" and ?k = "SEQUENCE4args_SlotID args"
  let ?reply = "reply_bytes (c_x C) [(OP4_SEQUENCE, NFS4_OK, fst (enc_SEQUENCE4resok (sequence_resok args)))]"
  obtain C' st3 where run: "RunSequence m (c_in C) (c_out C) st = (case Slot_Buf slot of
         Some b \<Rightarrow> if SEQUENCE4args_CacheThis args then copy_buf (c_out C) b st3 else Inr (Inr (), st3)
       | None \<Rightarrow> Inr (Inr (), st3))"
      and ctx: "ctx_inv C' st3" "c_out C' = c_out C" and reply: "content (buf_at (c_out C) st3) = ?reply"
      and slots: "\<And>sid k. slot_at sid k (W_clients (st_w st3)) = (if ClientIDFromSessionID sid = ClientIDFromSessionID ?sid \<and>
        CacheIDFromSessionID sid = CacheIDFromSessionID ?sid \<and> k = ?k
       then Some (accepted args slot) else slot_at sid k (W_clients (st_w st)))"
      and old: "\<And>b. Slot_Buf slot = Some b \<Longrightarrow> b \<noteq> c_out C \<Longrightarrow> buf_at b st3 = buf_at b st"
    using lone_sequence_run [OF assms, of m] by metis
  show ?thesis
  proof (cases "\<exists>b. Slot_Buf slot = Some b \<and> SEQUENCE4args_CacheThis args")
    case False
    then have "RunSequence m (c_in C) (c_out C) st = Inr (Inr (), st3)" using run by (auto split: option.splits)
    then show ?thesis using reply False by (auto simp: abs_at_def slots abs_of_def accepted_def)
  next
    case True
    then obtain b where b: "Slot_Buf slot = Some b" "SEQUENCE4args_CacheThis args" by blast
    have "slot_at ?sid ?k (W_clients (st_w st3)) = Some (accepted args slot)" by (simp add: slots)
    from slot_at_owned [OF this, of b] b have own: "b \<in> set (table_bufs (W_clients (st_w st3)))" by (simp add: accepted_def)
    then have "b \<noteq> c_out C" using ctx by (auto simp: ctx_inv_def world_inv_def bufs_ok_def)
    note keep = old [OF b(1) this] copy_kept [OF ctx(1), of b, unfolded ctx(2), OF own]
    then obtain st' where "copy_buf (c_out C) b st3 = Inr (Inr (), st')"
        "W_clients (st_w st') = W_clients (st_w st3)" "content (buf_at (c_out C) st') = ?reply"
        "content (buf_at b st') = content (buf_at b st) @ ?reply"
      using reply by auto
    then show ?thesis using run b by (auto simp: abs_at_def slots abs_of_def accepted_def)
  qed
qed

theorem lone_sequence_keeps_witness:
  "\<exists>st' reply. RunSequence demo_conn 1 2 (demo_st 2) = Inr (Inr (), st') \<and> content (buf_at 2 st') = reply \<and>
     abs_at (put_u64 7 @ put_u64 3) 0 st' = Some \<lparr>last_seq = 2, kept = Some ([42] @ reply), can_keep = True\<rparr>"
proof -
  let ?slot = "\<lparr>Slot_SlotID = 0, Slot_SequenceID = 1, Slot_ContainsData = True, Slot_Buf = Some 5\<rparr>"
  have c: "c_in demo_ctx = 1" "c_out demo_ctx = 2" "c_pre demo_ctx = []" "x_OpsCount (c_x demo_ctx) = 1"
    by (simp_all add: demo_ctx_def demo_x_def new_Compound_def)
  have a: "SEQUENCE4args_SessionID (demo_args 2) = put_u64 7 @ put_u64 3" "SEQUENCE4args_SlotID (demo_args 2) = 0"
      "SEQUENCE4args_SequenceID (demo_args 2) = 2" "SEQUENCE4args_CacheThis (demo_args 2)"
    by (simp_all add: demo_args_def)
  have b: "content (buf_at 5 (demo_st 2)) = [42]" by (simp add: demo_st_def buf_at_def)
  have d: "dec_SEQUENCE4args (content (buf_at (c_in demo_ctx) (demo_st 2))) = Inr (demo_args 2, [])"
    by (simp only: c demo_decoded)
  have s: "slot_at (SEQUENCE4args_SessionID (demo_args 2)) (SEQUENCE4args_SlotID (demo_args 2))
      (W_clients (st_w (demo_st 2))) = Some ?slot"
    by (simp only: a demo_slot0)
  have q: "SEQUENCE4args_SequenceID (demo_args 2) = Slot_SequenceID ?slot + 1" by (simp add: a)
  obtain st' where r: "RunSequence demo_conn 1 2 (demo_st 2) = Inr (Inr (), st')" and
      "abs_at (put_u64 7 @ put_u64 3) 0 st' = Some \<lparr>last_seq = 2,
        kept = (if SEQUENCE4args_CacheThis (demo_args 2)
                then map_option (\<lambda>b. content (buf_at b (demo_st 2)) @ content (buf_at 2 st')) (Slot_Buf ?slot) else None),
        can_keep = (Slot_Buf ?slot \<noteq> None)\<rparr>"
    using lone_sequence_keeps [OF demo_pre c(3,4) d s q, of demo_conn, unfolded c a(1-3)] by blast
  then have "abs_at (put_u64 7 @ put_u64 3) 0 st' =
      Some \<lparr>last_seq = 2, kept = Some ([42] @ content (buf_at 2 st')), can_keep = True\<rparr>"
    by (simp add: a(4) b)
  with r show ?thesis by blast
qed

end
