(* ===== verification/Reflect.thy ===== *)
theory Reflect
  imports MsgArgs Bufpool
begin

text \<open>
  The reflective half of the XDR coder (\<^verbatim>\<open>decodeReflect\<close>, \<^verbatim>\<open>readUnion\<close>, \<^verbatim>\<open>encodeReflect\<close>, \<^verbatim>\<open>writeUnion\<close>), which
  codes a value of any Go type by walking its type. A type is a value of \<open>rtype\<close>, one constructor per
  \<^verbatim>\<open>reflect.Kind\<close> the coder knows (floats apart, which no message has); a decoded value is a value of \<open>rval\<close>.
  The target of a decode is the zero value of its type, as it is at every call.
\<close>

section \<open>Types and values\<close>

text \<open>\<open>RUint w\<close>, \<open>RInt w\<close>: the integer types of at most \<open>w\<close> bits that are coded in 32 bits (\<^verbatim>\<open>uint\<close> and \<^verbatim>\<open>int\<close>
  have 64); \<open>RWide signed\<close>: \<^verbatim>\<open>int64\<close> and \<^verbatim>\<open>uint64\<close>; \<open>RUnion\<close>: a struct whose first field is tagged as the
  discriminant of a union, by the types of its other fields.\<close>

datatype rtype =
    RBool | RUint nat | RInt nat | RWide bool | RString
  | RArray nat rtype | RSlice rtype | RPtr rtype
  | RStruct "rtype list" | RUnion "rtype list"

abbreviation RUint8 :: rtype where "RUint8 \<equiv> RUint 8"
abbreviation RUint32 :: rtype where "RUint32 \<equiv> RUint 32"
abbreviation RUint64 :: rtype where "RUint64 \<equiv> RWide False"

datatype rval =
    VBool bool | VInt int | VString string | VBytes bytes
  | VList "rval list" | VPtr "rval option" | VUnion u32 "rval list"

primrec zero_of :: "rtype \<Rightarrow> rval" where
  "zero_of RBool = VBool False"
| "zero_of (RUint w) = VInt 0"
| "zero_of (RInt w) = VInt 0"
| "zero_of (RWide s) = VInt 0"
| "zero_of RString = VString ''''"
| "zero_of (RArray n t) = (if t = RUint8 then VBytes (replicate n 0) else VList (replicate n (zero_of t)))"
| "zero_of (RSlice t) = (if t = RUint8 then VBytes [] else VList [])"
| "zero_of (RPtr t) = VPtr None"
| "zero_of (RStruct ts) = VList (map zero_of ts)"
| "zero_of (RUnion ts) = VUnion 0 (map zero_of ts)"

section \<open>Decoding\<close>

text \<open>\<^verbatim>\<open>SetInt\<close> on a signed type of \<open>w\<close> bits keeps the low \<open>w\<close> bits.\<close>

definition wrap_int :: "nat \<Rightarrow> int \<Rightarrow> int" where
  "wrap_int w i = (let m = i mod 2 ^ w in if m < 2 ^ (w - 1) then m else m - 2 ^ w)"

abbreviation dmap :: "('a \<Rightarrow> 'b) \<Rightarrow> 'a xdec \<Rightarrow> 'b xdec" where
  "dmap f d \<equiv> dthen d (\<lambda>x. dret (f x))"

text \<open>The loop over the fields of a struct; the error of a field is wrapped with \<^verbatim>\<open>%v\<close>.\<close>

fun dfields :: "'a xdec list \<Rightarrow> 'a list xdec" where
  "dfields [] = dret []"
| "dfields (d # ds) = dthen (dreflect d) (\<lambda>x. dthen (dfields ds) (\<lambda>xs. dret (x # xs)))"

primrec decodeReflect :: "rtype \<Rightarrow> rval xdec" where
  "decodeReflect RBool = dmap VBool dBool"
| "decodeReflect (RUint w) = dmap (\<lambda>v. VInt (uint v mod 2 ^ w)) dUint32"
| "decodeReflect (RInt w) = dmap (\<lambda>v. VInt (wrap_int w (uint v))) dUint32"
| "decodeReflect (RWide s) = dmap (\<lambda>v. VInt (if s then sint v else uint v)) dUint64"
| "decodeReflect RString = dmap VString dString"
| "decodeReflect (RArray n t) =
     (if t = RUint8 then dmap VBytes (dByteArray n) else dmap VList (drepeat n (decodeReflect t)))"
| "decodeReflect (RSlice t) =
     (if t = RUint8 then dmap VBytes dBytes else dmap VList (dSlice (decodeReflect t)))"
| "decodeReflect (RPtr t) =
     dthen dBool (\<lambda>hasValue. if hasValue then dmap (VPtr \<circ> Some) (decodeReflect t) else dret (VPtr None))"
| "decodeReflect (RStruct ts) = dmap VList (dfields (map decodeReflect ts))"
| "decodeReflect (RUnion ts) =
     dthen dUint32 (\<lambda>mode.
       if length ts \<le> unat mode then dfail (BadUnionMode mode)
       else dmap (\<lambda>v. VUnion mode ((map zero_of ts)[unat mode := v])) (map decodeReflect ts ! unat mode))"

section \<open>Encoding\<close>

text \<open>A value is always of the type it is encoded at; the last case of each distinction does not occur.\<close>

primrec encodeReflect :: "rtype \<Rightarrow> rval \<Rightarrow> xenc" where
  "encodeReflect RBool v = (case v of VBool b \<Rightarrow> eBool b | _ \<Rightarrow> ([], None))"
| "encodeReflect (RUint w) v = (case v of VInt i \<Rightarrow> eUint32 (of_int i) | _ \<Rightarrow> ([], None))"
| "encodeReflect (RInt w) v = (case v of VInt i \<Rightarrow> eUint32 (of_int i) | _ \<Rightarrow> ([], None))"
| "encodeReflect (RWide s) v = (case v of VInt i \<Rightarrow> eUint64 (of_int i) | _ \<Rightarrow> ([], None))"
| "encodeReflect RString v = (case v of VString x \<Rightarrow> eString x | _ \<Rightarrow> ([], None))"
| "encodeReflect (RArray n t) v =
     (case v of VBytes b \<Rightarrow> eByteArray b | VList vs \<Rightarrow> EncodeAll (map (encodeReflect t) vs) | _ \<Rightarrow> ([], None))"
| "encodeReflect (RSlice t) v =
     (case v of VBytes b \<Rightarrow> eBytes b | VList vs \<Rightarrow> eSlice (encodeReflect t) vs | _ \<Rightarrow> ([], None))"
| "encodeReflect (RPtr t) v =
     (case v of VPtr p \<Rightarrow> eOption (encodeReflect t) p | _ \<Rightarrow> ([], None))"
| "encodeReflect (RStruct ts) v =
     (case v of VList vs \<Rightarrow> EncodeAll (map (\<lambda>(f, x). f x) (zip (map encodeReflect ts) vs)) | _ \<Rightarrow> ([], None))"
| "encodeReflect (RUnion ts) v =
     (case v of
        VUnion mode vs \<Rightarrow>
          if length ts \<le> unat mode then (put_u32 mode, Some (BadUnionMode mode))
          else EncodeAll [eUint32 mode, (map encodeReflect ts ! unat mode) (vs ! unat mode)]
      | _ \<Rightarrow> ([], None))"

section \<open>Round trip\<close>

text \<open>The values of a type that survive coding: lengths fit their 32-bit counter; an \<^verbatim>\<open>int\<close> or \<^verbatim>\<open>uint\<close> fits 32
  bits, and an \<^verbatim>\<open>int\<close> is not negative (the decoder does not extend the sign); the arms of a union other than
  the one in use are zero.\<close>

primrec codable :: "rtype \<Rightarrow> rval \<Rightarrow> bool" where
  "codable RBool v = (case v of VBool _ \<Rightarrow> True | _ \<Rightarrow> False)"
| "codable (RUint w) v = (case v of VInt i \<Rightarrow> 0 \<le> i \<and> i < 2 ^ w \<and> i < 2 ^ 32 | _ \<Rightarrow> False)"
| "codable (RInt w) v = (case v of VInt i \<Rightarrow> w > 0 \<and> - (2 ^ (w - 1)) \<le> i \<and> i < 2 ^ (w - 1) \<and>
       (w \<le> 32 \<or> 0 \<le> i \<and> i < 2 ^ 32) | _ \<Rightarrow> False)"
| "codable (RWide s) v = (case v of VInt i \<Rightarrow>
       (if s then - (2 ^ 63) \<le> i \<and> i < 2 ^ 63 else 0 \<le> i \<and> i < 2 ^ 64) | _ \<Rightarrow> False)"
| "codable RString v = (case v of VString x \<Rightarrow> fits32 x | _ \<Rightarrow> False)"
| "codable (RArray n t) v =
     (case v of VBytes b \<Rightarrow> t = RUint8 \<and> length b = n
      | VList vs \<Rightarrow> t \<noteq> RUint8 \<and> length vs = n \<and> list_all (codable t) vs | _ \<Rightarrow> False)"
| "codable (RSlice t) v =
     (case v of VBytes b \<Rightarrow> t = RUint8 \<and> fits32 b
      | VList vs \<Rightarrow> t \<noteq> RUint8 \<and> fits32 vs \<and> list_all (codable t) vs | _ \<Rightarrow> False)"
| "codable (RPtr t) v =
     (case v of VPtr p \<Rightarrow> (case p of None \<Rightarrow> True | Some x \<Rightarrow> codable t x) | _ \<Rightarrow> False)"
| "codable (RStruct ts) v =
     (case v of VList vs \<Rightarrow> length vs = length ts \<and> list_all (\<lambda>(f, x). f x) (zip (map codable ts) vs) | _ \<Rightarrow> False)"
| "codable (RUnion ts) v =
     (case v of
        VUnion mode vs \<Rightarrow> unat mode < length ts \<and> length vs = length ts \<and>
          vs = (map zero_of ts)[unat mode := vs ! unat mode] \<and> (map codable ts ! unat mode) (vs ! unat mode)
      | _ \<Rightarrow> False)"


text \<open>A value is coded back to itself.\<close>

definition recodes :: "('a \<Rightarrow> xenc) \<Rightarrow> 'a xdec \<Rightarrow> 'a \<Rightarrow> bool" where
  "recodes f d x \<longleftrightarrow> snd (f x) = None \<and> (\<forall>rest. d (fst (f x) @ rest) = Inr (x, rest))"

lemma EncodeAll_ok:
  "snd x = None \<Longrightarrow> EncodeAll (x # xs) = (fst x @ fst (EncodeAll xs), snd (EncodeAll xs))"
  by (cases x) (auto split: prod.splits)

lemma repeat_recodes:
  "list_all (recodes f d) vs \<Longrightarrow> snd (EncodeAll (map f vs)) = None \<and>
     drepeat (length vs) d (fst (EncodeAll (map f vs)) @ rest) = Inr (vs, rest)"
  by (induction vs arbitrary: rest) (auto simp: recodes_def EncodeAll_ok)

lemma fields_recode:
  assumes "\<And>t v. t \<in> set ts \<Longrightarrow> codable t v \<Longrightarrow> recodes (encodeReflect t) (decodeReflect t) v"
    and "length vs = length ts" and "list_all (\<lambda>(f, x). f x) (zip (map codable ts) vs)"
  shows "snd (EncodeAll (map (\<lambda>(f, x). f x) (zip (map encodeReflect ts) vs))) = None \<and>
    dfields (map decodeReflect ts) (fst (EncodeAll (map (\<lambda>(f, x). f x) (zip (map encodeReflect ts) vs))) @ rest) =
      Inr (vs, rest)"
  using assms(2,1,3)
proof (induction vs ts arbitrary: rest rule: list_induct2)
  case (Cons v vs t ts)
  then have "recodes (encodeReflect t) (decodeReflect t) v" by simp
  with Cons show ?case by (simp add: recodes_def EncodeAll_ok dreflect_def)
qed simp

lemma wrap_int_id:
  assumes "w > 0" "- (2 ^ (w - 1)) \<le> i" "i < 2 ^ (w - 1)" "w \<le> 32 \<or> 0 \<le> i \<and> i < 2 ^ 32"
  shows "wrap_int w (uint (of_int i :: u32)) = i"
proof (cases "w \<le> 32")
  case False
  then have "0 \<le> i" "i < 2 ^ 32" using assms(4) by auto
  then have "uint (of_int i :: u32) = i" by (simp add: uint_word_of_int)
  moreover have "i mod 2 ^ w = i"
    using \<open>0 \<le> i\<close> less_le_trans [OF assms(3), of "2 ^ w"] by (intro mod_pos_pos_trivial) auto
  ultimately show ?thesis using assms(3) by (simp add: wrap_int_def)
next
  case True
  have w: "2 ^ w = (2 :: int) * 2 ^ (w - 1)" using assms(1) by (cases w) simp_all
  have "uint (of_int i :: u32) mod 2 ^ w = i mod 2 ^ w"
    using mod_mod_cancel [OF le_imp_power_dvd [OF True, of "2 :: int"], of i] by (simp add: uint_word_of_int)
  moreover have "i mod 2 ^ w = (if i < 0 then i + 2 ^ w else i)"
  proof (cases "i < 0")
    case True
    have "(i + 2 ^ w) mod 2 ^ w = i + 2 ^ w" using True assms(2) w by (intro mod_pos_pos_trivial) auto
    then show ?thesis using True by simp
  next
    case False
    then show ?thesis using assms(3) w by (simp add: mod_pos_pos_trivial)
  qed
  ultimately show ?thesis using assms(2,3) w by (simp add: wrap_int_def Let_def)
qed

lemma reflect_recodes: "codable t v \<Longrightarrow> recodes (encodeReflect t) (decodeReflect t) v"
proof (induction t arbitrary: v)
  case (RUint w)
  then show ?case by (auto simp: recodes_def uint_word_of_int split: rval.splits)
next
  case (RInt w)
  then show ?case by (auto simp: recodes_def wrap_int_id split: rval.splits)
next
  case (RWide s)
  have "sint (word_of_int i :: u64) = i" if "- (2 ^ 63) \<le> i" "i < 2 ^ 63" for i
    using that by (simp add: sint_sbintrunc' signed_take_bit_int_eq_self)
  with RWide show ?case by (auto simp: recodes_def uint_word_of_int split: rval.splits if_splits)
next
  case (RArray n t)
  show ?case
  proof (cases v)
    case (VBytes b)
    then show ?thesis using RArray.prems by (simp add: recodes_def)
  next
    case (VList vs)
    then have "list_all (recodes (encodeReflect t) (decodeReflect t)) vs" "t \<noteq> RUint8" "length vs = n"
      using RArray by (auto simp: list_all_iff)
    then show ?thesis using repeat_recodes [of "encodeReflect t" "decodeReflect t" vs] VList by (simp add: recodes_def)
  qed (use RArray.prems in simp_all)
next
  case (RSlice t)
  show ?case
  proof (cases v)
    case (VBytes b)
    then show ?thesis using RSlice.prems by (simp add: recodes_def)
  next
    case (VList vs)
    then have "list_all (recodes (encodeReflect t) (decodeReflect t)) vs" "t \<noteq> RUint8" "fits32 vs"
      using RSlice by (auto simp: list_all_iff)
    then show ?thesis using repeat_recodes [of "encodeReflect t" "decodeReflect t" vs] VList
      by (simp add: recodes_def eSlice_def dSlice_def EncodeAll_ok unat_of_nat)
  qed (use RSlice.prems in simp_all)
next
  case (RPtr t)
  then show ?case by (auto simp: recodes_def eOption_def EncodeAll_ok dthen_def split: rval.splits option.splits)
next
  case (RStruct ts)
  then obtain vs where v: "v = VList vs" "length vs = length ts" "list_all (\<lambda>(f, x). f x) (zip (map codable ts) vs)"
    by (auto split: rval.splits)
  show ?case using fields_recode [OF RStruct.IH v(2,3)] by (simp add: recodes_def v(1))
next
  case (RUnion ts)
  then obtain mode vs where v: "v = VUnion mode vs" "unat mode < length ts" "length vs = length ts"
      "vs = (map zero_of ts)[unat mode := vs ! unat mode]" "codable (ts ! unat mode) (vs ! unat mode)"
    by (auto split: rval.splits)
  have "recodes (encodeReflect (ts ! unat mode)) (decodeReflect (ts ! unat mode)) (vs ! unat mode)"
    using RUnion.IH [of "ts ! unat mode"] v by simp
  then show ?case using v(1-3) v(4) [symmetric] by (simp add: recodes_def EncodeAll_ok)
qed (auto simp: recodes_def split: rval.splits)

section \<open>Reflection and the generated coders\<close>

text \<open>Two decoders that read the same from the server's buffers: one is the other with its values represented.
  What happens at the end of the data is up to the buffer (it does not return), so the two kinds of
  end-of-file count as one.\<close>

fun same_result :: "('b \<Rightarrow> 'a) \<Rightarrow> xerr + 'a \<times> bytes \<Rightarrow> xerr + 'b \<times> bytes \<Rightarrow> bool" where
  "same_result g (Inr (y, r)) (Inr (x, r')) \<longleftrightarrow> y = g x \<and> r = r'"
| "same_result g (Inl (BadUnionMode m)) (Inl (BadUnionMode m')) \<longleftrightarrow> m = m'"
| "same_result g (Inl (BadUnionMode m)) _ \<longleftrightarrow> False"
| "same_result g _ (Inl (BadUnionMode m)) \<longleftrightarrow> False"
| "same_result g (Inl _) (Inl _) \<longleftrightarrow> True"
| "same_result g _ _ \<longleftrightarrow> False"

lemma same_result_on_buf:
  "same_result g r r' \<Longrightarrow> on_buf r = (case on_buf r' of Inl s \<Rightarrow> Inl s | Inr (x, rest) \<Rightarrow> Inr (g x, rest))"
  by (induction g r r' rule: same_result.induct) (auto simp: on_buf_def)

definition represents :: "('b \<Rightarrow> 'a) \<Rightarrow> 'a xdec \<Rightarrow> 'b xdec \<Rightarrow> bool" where
  "represents g d d' \<longleftrightarrow> (\<forall>b. same_result g (d b) (d' b))"

lemma represents_prim: "represents g (dmap g d) d"
  unfolding represents_def
proof
  fix b show "same_result g (dmap g d b) (d b)"
  proof (cases "d b")
    case (Inl e)
    then show ?thesis by (cases e) simp_all
  qed (auto simp: dthen_def)
qed

lemma represents_bind:
  assumes "represents g d d'" and "\<And>x. represents h (f (g x)) (f' x)"
  shows "represents h (dthen d f) (dthen d' f')"
  unfolding represents_def
proof
  fix b
  have "same_result g (d b) (d' b)" using assms(1) by (simp add: represents_def)
  then show "same_result h (dthen d f b) (dthen d' f' b)"
    using assms(2) by (cases "(g, d b, d' b)" rule: same_result.cases) (auto simp: represents_def dthen_def)
qed

lemma represents_dreflect: "represents g d d' \<Longrightarrow> represents g (dreflect d) d'"
  unfolding represents_def
proof
  fix b assume "\<forall>b. same_result g (d b) (d' b)"
  then have "same_result g (d b) (d' b)" by blast
  then show "same_result g (dreflect d b) (d' b)"
    by (cases "(g, d b, d' b)" rule: same_result.cases) (auto simp: dreflect_def)
qed

lemma represents_dret: "y = g x \<Longrightarrow> represents g (dret y) (dret x)"
  by (simp add: represents_def)

text \<open>A struct, field by field.\<close>

lemma represents_fields:
  "represents g d d' \<Longrightarrow> (\<And>x. represents h (dmap (\<lambda>vs. f (g x # vs)) (dfields ds)) (k x)) \<Longrightarrow>
     represents h (dmap f (dfields (d # ds))) (dthen d' k)"
proof -
  assume d: "represents g d d'" and k: "\<And>x. represents h (dmap (\<lambda>vs. f (g x # vs)) (dfields ds)) (k x)"
  have "dmap f (dfields (d # ds)) = dthen (dreflect d) (\<lambda>x. dmap (\<lambda>vs. f (x # vs)) (dfields ds))"
    by (rule ext) (auto simp: dthen_def split: sum.splits)
  then show ?thesis using represents_bind [OF represents_dreflect [OF d], of h _ k] k by simp
qed

lemma represents_no_fields: "f [] = h x \<Longrightarrow> represents h (dmap f (dfields [])) (dret x)"
  by (simp add: represents_def dthen_def)

text \<open>The types of the messages that the server decodes by reflection: \<^verbatim>\<open>SETCLIENTID\<close> and
  \<^verbatim>\<open>SETCLIENTID_CONFIRM\<close> have anonymous argument structs, and an access control list is a slice of structs.\<close>

definition type_NfsClientId4 :: rtype where "type_NfsClientId4 = RStruct [RUint64, RSlice RUint8]"
definition type_ClientAddr4 :: rtype where "type_ClientAddr4 = RStruct [RString, RString]"
definition type_CbClient4 :: rtype where "type_CbClient4 = RStruct [RUint32, type_ClientAddr4]"
definition type_SETCLIENTID4args :: rtype where
  "type_SETCLIENTID4args = RStruct [type_NfsClientId4, type_CbClient4, RUint32]"
definition type_SETCLIENTID_CONFIRM4args :: rtype where
  "type_SETCLIENTID_CONFIRM4args = RStruct [RUint64, RUint64]"
definition type_NfsAce4 :: rtype where "type_NfsAce4 = RStruct [RUint32, RUint32, RUint32, RString]"

definition val_NfsClientId4 :: "NfsClientId4 \<Rightarrow> rval" where
  "val_NfsClientId4 x = VList [VInt (uint (NfsClientId4_Verifier x)), VBytes (NfsClientId4_Id x)]"
definition val_ClientAddr4 :: "ClientAddr4 \<Rightarrow> rval" where
  "val_ClientAddr4 x = VList [VString (ClientAddr4_NetId x), VString (ClientAddr4_Addr x)]"
definition val_CbClient4 :: "CbClient4 \<Rightarrow> rval" where
  "val_CbClient4 x = VList [VInt (uint (CbClient4_CbProgram x)), val_ClientAddr4 (CbClient4_CbLocation x)]"
definition val_SETCLIENTID4args :: "SETCLIENTID4args \<Rightarrow> rval" where
  "val_SETCLIENTID4args x = VList [val_NfsClientId4 (SETCLIENTID4args_Client x),
     val_CbClient4 (SETCLIENTID4args_Callback x), VInt (uint (SETCLIENTID4args_CallbackIdent x))]"
definition val_SETCLIENTID_CONFIRM4args :: "SETCLIENTID_CONFIRM4args \<Rightarrow> rval" where
  "val_SETCLIENTID_CONFIRM4args x = VList [VInt (uint (SETCLIENTID_CONFIRM4args_ClientId x)),
     VInt (uint (SETCLIENTID_CONFIRM4args_Verifier x))]"
definition val_NfsAce4 :: "NfsAce4 \<Rightarrow> rval" where
  "val_NfsAce4 x = VList [VInt (uint (NfsAce4_Type x)), VInt (uint (NfsAce4_Flag x)),
     VInt (uint (NfsAce4_AccessMask x)), VString (NfsAce4_Who x)]"

lemma uint32_mod [simp]: "uint (v :: u32) mod 4294967296 = uint v"
  using uint_bounded [of v] by (intro mod_pos_pos_trivial) simp_all

lemma represents_RUint32: "represents (\<lambda>v. VInt (uint v)) (decodeReflect RUint32) dUint32"
  using represents_prim [of "\<lambda>v. VInt (uint v)" dUint32] by simp

lemma represents_RUint64: "represents (\<lambda>v. VInt (uint v)) (decodeReflect RUint64) dUint64"
  using represents_prim [of "\<lambda>v. VInt (uint v)" dUint64] by simp

lemma represents_RString: "represents VString (decodeReflect RString) dString"
  using represents_prim [of VString dString] by simp

lemma represents_RBytes: "represents VBytes (decodeReflect (RSlice RUint8)) dBytes"
  using represents_prim [of VBytes dBytes] by simp

lemmas represents_prims = represents_RUint32 represents_RUint64 represents_RString represents_RBytes

lemmas represents_struct = represents_fields represents_no_fields represents_prims

lemma represents_NfsClientId4: "represents val_NfsClientId4 (decodeReflect type_NfsClientId4) dec_NfsClientId4"
  unfolding type_NfsClientId4_def dec_NfsClientId4_def decodeReflect.simps(9) list.map
  by (rule represents_struct)+ (simp add: val_NfsClientId4_def)

lemma represents_ClientAddr4: "represents val_ClientAddr4 (decodeReflect type_ClientAddr4) dec_ClientAddr4"
  unfolding type_ClientAddr4_def dec_ClientAddr4_def decodeReflect.simps(9) list.map
  by (rule represents_struct)+ (simp add: val_ClientAddr4_def)

lemma represents_CbClient4: "represents val_CbClient4 (decodeReflect type_CbClient4) dec_CbClient4"
  unfolding type_CbClient4_def dec_CbClient4_def decodeReflect.simps(9) list.map
  by (rule represents_struct represents_ClientAddr4)+ (simp add: val_CbClient4_def)

lemma represents_SETCLIENTID4args:
  "represents val_SETCLIENTID4args (decodeReflect type_SETCLIENTID4args) dec_SETCLIENTID4args"
  unfolding type_SETCLIENTID4args_def dec_SETCLIENTID4args_def decodeReflect.simps(9) list.map
  by (rule represents_struct represents_NfsClientId4 represents_CbClient4)+ (simp add: val_SETCLIENTID4args_def)

lemma represents_SETCLIENTID_CONFIRM4args:
  "represents val_SETCLIENTID_CONFIRM4args (decodeReflect type_SETCLIENTID_CONFIRM4args) dec_SETCLIENTID_CONFIRM4args"
  unfolding type_SETCLIENTID_CONFIRM4args_def dec_SETCLIENTID_CONFIRM4args_def decodeReflect.simps(9) list.map
  by (rule represents_struct)+ (simp add: val_SETCLIENTID_CONFIRM4args_def)

lemma represents_NfsAce4: "represents val_NfsAce4 (decodeReflect type_NfsAce4) dec_NfsAce4"
  unfolding type_NfsAce4_def dec_NfsAce4_def decodeReflect.simps(9) list.map
  by (rule represents_struct)+ (simp add: val_NfsAce4_def)

section \<open>Properties\<close>

text \<open>What the reflective encoder writes, the reflective decoder reads back, for every type built from the kinds it
  knows and every value of the type that fits: the same value, whatever bytes follow.\<close>

theorem reflect_roundtrip:
  assumes "codable t v"
  shows "snd (encodeReflect t v) = None \<and> decodeReflect t (fst (encodeReflect t v) @ rest) = Inr (v, rest)"
  using reflect_recodes [OF assms] by (simp add: recodes_def)

theorem reflect_roundtrip_witness:
  "decodeReflect (RStruct [RInt 16, RUnion [RBool, RSlice RString], RPtr RUint64])
     (fst (encodeReflect (RStruct [RInt 16, RUnion [RBool, RSlice RString], RPtr RUint64])
        (VList [VInt (- 2), VUnion 1 [VBool False, VList [VString ''a'', VString ''bc'']], VPtr (Some (VInt 7))])) @ [9]) =
   Inr (VList [VInt (- 2), VUnion 1 [VBool False, VList [VString ''a'', VString ''bc'']], VPtr (Some (VInt 7))], [9])"
proof -
  have "codable (RStruct [RInt 16, RUnion [RBool, RSlice RString], RPtr RUint64])
      (VList [VInt (- 2), VUnion 1 [VBool False, VList [VString ''a'', VString ''bc'']], VPtr (Some (VInt 7))])"
    by simp
  from reflect_roundtrip [OF this, of "[9]"] show ?thesis by blast
qed

text \<open>The two messages the server decodes by reflection, because their arguments are anonymous structs, are read
  from a request exactly as the generated decoders of the message package would read them: same fields, same
  bytes consumed, same failures.\<close>

theorem reflect_agrees:
  "on_buf (decodeReflect type_SETCLIENTID4args b) =
     (case on_buf (dec_SETCLIENTID4args b) of Inl s \<Rightarrow> Inl s | Inr (x, rest) \<Rightarrow> Inr (val_SETCLIENTID4args x, rest)) \<and>
   on_buf (decodeReflect type_SETCLIENTID_CONFIRM4args b) =
     (case on_buf (dec_SETCLIENTID_CONFIRM4args b) of Inl s \<Rightarrow> Inl s
      | Inr (x, rest) \<Rightarrow> Inr (val_SETCLIENTID_CONFIRM4args x, rest))"
  using represents_SETCLIENTID4args represents_SETCLIENTID_CONFIRM4args
  unfolding represents_def by (blast intro: same_result_on_buf)
end
