(* ===== verification/Generate.thy ===== *)
theory Generate
  imports Reflect
begin

text \<open>
  The generator of the coders of the message structs (\<^verbatim>\<open>xdr/generate/generate.go\<close>). It reads the struct declarations
  of a file, as \<^verbatim>\<open>go/parser\<close> returns them, and prints a \<^verbatim>\<open>Decode\<close> and an \<^verbatim>\<open>Encode\<close> method for those it knows how to code.
\<close>

section \<open>Syntax trees\<close>

text \<open>The type expressions of fields: a name, a pointer, an array or (without a length) a slice, a struct in place. The
  tag of a field by its keys and values.\<close>

datatype expr = Ident string | StarExpr expr | ArrayType "nat option" expr | StructLit

type_synonym tag = "(string \<times> string) list"

datatype ast_field = Field (Names: "string list") (Type: expr) (Tag: tag)

datatype type_spec = StructType "ast_field list" | OtherType

datatype ast_decl = TypeDecl "(string \<times> type_spec) list" | OtherDecl

fun is_star :: "expr \<Rightarrow> bool" where
  "is_star (StarExpr _) = True"
| "is_star _ = False"

text \<open>The text of a tag, and the test for a union in it.\<close>

definition tag_text :: "tag \<Rightarrow> string" where
  "tag_text tag = ''`'' @ concat (map (\<lambda>(k, v). k @ [CHR 0x3A, CHR 0x22] @ v @ [CHR 0x22]) tag) @ ''`''"

fun contains :: "string \<Rightarrow> string \<Rightarrow> bool" where
  "contains [] sub = (sub = [])"
| "contains (c # s) sub = (take (length sub) (c # s) = sub \<or> contains s sub)"

definition union_tag :: string where
  "union_tag = ''xdr:'' @ [CHR 0x22] @ ''union'' @ [CHR 0x22]"

section \<open>What is printed\<close>

text \<open>A use of one of the templates, with its arguments.\<close>

datatype code =
    Empty string
  | Definition string "string list" "string list"
  | DefinitionStar string "string list" string expr "string list"
  | StarDefinition string string expr "string list" "string list"
  | Union string "string list" "string list"

fun collect :: "ast_field list \<Rightarrow> (string list \<times> string list) option go" where
  "collect [] = Inr (Some ([], []))"
| "collect (f # fs) =
     (case Names f of
        [] \<Rightarrow> Inl Panic
      | fieldName # _ \<Rightarrow>
          if is_star (Type f) then Inr None
          else go_bind (collect fs) (\<lambda>r. Inr (map_option (\<lambda>(ds, es). ((''&x.'' @ fieldName) # ds, (''x.'' @ fieldName) # es)) r)))"

definition collectFields :: "ast_field list \<Rightarrow> (string list \<times> string list) option go" where
  "collectFields fs = go_bind (collect fs) (\<lambda>r. Inr (if fs = [] then None else r))"

definition first_name :: "ast_field \<Rightarrow> string go" where
  "first_name f = (case Names f of [] \<Rightarrow> Inl Panic | n # _ \<Rightarrow> Inr n)"

text \<open>The template is used if the fields could be collected.\<close>

definition when_ok :: "ast_field list \<Rightarrow> (string list \<Rightarrow> string list \<Rightarrow> code) \<Rightarrow> code list go" where
  "when_ok fs t = go_bind (collectFields fs) (\<lambda>r. Inr (case r of None \<Rightarrow> [] | Some (ds, es) \<Rightarrow> [t ds es]))"

definition addStruct :: "string \<Rightarrow> ast_field list \<Rightarrow> code list go" where
  "addStruct name fs = when_ok fs (Definition name)"

definition addUnion :: "string \<Rightarrow> ast_field list \<Rightarrow> code list go" where
  "addUnion name fs = when_ok fs (Union name)"

definition addStructStar :: "string \<Rightarrow> ast_field list \<Rightarrow> expr \<Rightarrow> code list go" where
  "addStructStar name fs x = go_bind (first_name (last fs)) (\<lambda>fieldName.
     when_ok (butlast fs) (\<lambda>ds es. DefinitionStar name ds (''x.'' @ fieldName) x es))"

definition addStarStruct :: "string \<Rightarrow> ast_field list \<Rightarrow> expr \<Rightarrow> code list go" where
  "addStarStruct name fs x = go_bind (first_name (hd fs)) (\<lambda>fieldName.
     when_ok (tl fs) (\<lambda>ds es. StarDefinition name (''x.'' @ fieldName) x ds es))"

definition addDefinition :: "string \<Rightarrow> ast_field list \<Rightarrow> code list go" where
  "addDefinition name fs =
     (if fs = [] then Inr [Empty name]
      else if contains (tag_text (Tag (hd fs))) union_tag then addUnion name fs
      else
        go_bind (case Type (hd fs) of StarExpr x \<Rightarrow> addStarStruct name fs x | _ \<Rightarrow> Inr []) (\<lambda>a.
        go_bind (case Type (last fs) of StarExpr x \<Rightarrow> addStructStar name fs x | _ \<Rightarrow> Inr []) (\<lambda>b.
        go_bind (addStruct name fs) (\<lambda>c. Inr (a @ b @ c)))))"

section \<open>The text\<close>

definition join :: "string \<Rightarrow> string list \<Rightarrow> string" where
  "join sep xs = concat (case xs of [] \<Rightarrow> [] | x # ys \<Rightarrow> x # map (\<lambda>y. sep @ y) ys)"

abbreviation (input) nl :: string where "nl \<equiv> [CHR 0x0A]"
abbreviation (input) tab :: string where "tab \<equiv> [CHR 0x09]"

text \<open>The methods, by the lines of their bodies.\<close>

definition methods :: "string \<Rightarrow> string list \<Rightarrow> string list \<Rightarrow> string" where
  "methods name dec enc = join nl
     ([''func (x *'' @ name @ '') Decode(decoder *xdr.Decoder) error {''] @ map (\<lambda>l. if l = [] then [] else tab @ l) dec @ [''}'', tab] @
      [''func (x '' @ name @ '') Encode(encoder *xdr.Encoder) error {''] @ map (\<lambda>l. if l = [] then [] else tab @ l) enc @ [''}''])"

fun ident :: "expr \<Rightarrow> string option" where
  "ident (Ident n) = Some n"
| "ident _ = None"

text \<open>\<open>None\<close> for a pointer to a type without a name, of which \<^verbatim>\<open>%s\<close> would print the syntax tree.\<close>

fun render :: "code \<Rightarrow> string option" where
  "render (Empty name) = Some (methods name [''return nil // Empty struct''] [''return nil // Empty struct''])"
| "render (Definition name ds es) = Some (methods name
     [''return decoder.DecodeAll('' @ join '', '' ds @ '')''] [''return encoder.EncodeAll('' @ join '', '' es @ '')''])"
| "render (Union name ds es) = Some (methods name
     [''return decoder.Union('' @ join '', '' ds @ '')''] [''return encoder.Union('' @ join '', '' es @ '')''])"
| "render (DefinitionStar name ds f x es) = map_option (\<lambda>ty. methods name
     [''if err := decoder.DecodeAll('' @ join '', '' ds @ ''); err != nil {'', tab @ ''return err'', ''}'', [],
      ''if ok, err := decoder.Bool(); err != nil || !ok {'', tab @ ''return err'', ''}'', [],
      f @ '' = new('' @ ty @ '')'', [],
      ''return decoder.Decode('' @ f @ '')'']
     [''if err := encoder.EncodeAll('' @ join '', '' es @ ''); err != nil {'', tab @ ''return err'', ''}'', [],
      ''if '' @ f @ '' == nil {'', tab @ ''return encoder.Bool(false)'', ''}'', [],
      ''if err := encoder.Bool(true); err != nil {'', tab @ ''return err'', ''}'', [],
      ''return encoder.Encode(*'' @ f @ '')'']) (ident x)"
| "render (StarDefinition name f x ds es) = map_option (\<lambda>ty. methods name
     [''if ok, err := decoder.Bool(); err != nil {'', tab @ ''return err'', ''} else if ok {'',
      '' '' @ tab @ f @ '' = new('' @ ty @ '')'', [],
      tab @ ''if err := decoder.Decode('' @ f @ ''); err != nil {'', tab @ tab @ ''return err'', tab @ ''}'', ''}'', [],
      ''return decoder.DecodeAll('' @ join '', '' ds @ '')'']
     [''ok := '' @ f @ '' != nil'', [],
      ''if err := encoder.Bool(ok); err != nil {'', tab @ ''return err'', ''}'', [],
      ''if ok {'', tab @ ''if err := encoder.Encode(*'' @ f @ ''); err != nil {'', tab @ tab @ ''return err'', tab @ ''}'', ''}'', [],
      ''return encoder.EncodeAll('' @ join '', '' es @ '')'']) (ident x)"

text \<open>\<^verbatim>\<open>parse\<close>: the header, then every struct declaration of the file, in order. The name of the file to write has
  \<^verbatim>\<open>_xdr\<close> before its extension.\<close>

definition file_header :: "string \<Rightarrow> string" where
  "file_header pkg = join nl
     [''// This file was automatically generated by go generate; DO NOT EDIT'',
      ''package '' @ pkg, [],
      ''// This file contains specialed Decode and Encode functions'',
      ''// to avoid the use of the reflect package while encoding.'',
      ''// In principal, everything should work when commenting out'',
      ''// this file.'', [],
      ''import '' @ [CHR 0x22] @ ''github.com/kuleuven/nfs4go/xdr'' @ [CHR 0x22]]"

definition struct_decls :: "ast_decl list \<Rightarrow> (string \<times> ast_field list) list" where
  "struct_decls decls = concat (map (\<lambda>d. case d of OtherDecl \<Rightarrow> []
     | TypeDecl specs \<Rightarrow> concat (map (\<lambda>(n, s). case s of StructType fs \<Rightarrow> [(n, fs)] | OtherType \<Rightarrow> []) specs)) decls)"

fun definitions :: "(string \<times> ast_field list) list \<Rightarrow> string option go" where
  "definitions [] = Inr (Some [])"
| "definitions ((n, fs) # ds) =
     go_bind (addDefinition n fs) (\<lambda>cs. go_bind (definitions ds) (\<lambda>rest.
       Inr (case (those (map render cs), rest) of
              (Some ts, Some r) \<Rightarrow> Some (nl @ nl @ concat ts @ r)
            | _ \<Rightarrow> None)))"

definition parse :: "string \<Rightarrow> ast_decl list \<Rightarrow> string option go" where
  "parse pkg decls = go_bind (definitions (struct_decls decls)) (\<lambda>t. Inr (map_option (\<lambda>t. file_header pkg @ t) t))"

definition target_name :: "string \<Rightarrow> string go" where
  "target_name filename = (if length filename < 3 then Inl Panic else Inr (take (length filename - 3) filename @ ''_xdr.go''))"

text \<open>The methods of \<^verbatim>\<open>DirList4\<close>, as they are in \<^verbatim>\<open>msg/structs_xdr.go\<close>.\<close>

lemma generated_DirList4:
  "parse ''msg'' [TypeDecl [(''DirList4'', StructType [Field [''Entries''] (StarExpr (Ident ''Entry4'')) [],
     Field [''Eof''] (Ident ''bool'') []])]] = Inr (Some (file_header ''msg'' @ nl @ nl @ join nl
   [''func (x *DirList4) Decode(decoder *xdr.Decoder) error {'',
    tab @ ''if ok, err := decoder.Bool(); err != nil {'',
    tab @ tab @ ''return err'',
    tab @ ''} else if ok {'',
    tab @ '' '' @ tab @ ''x.Entries = new(Entry4)'',
    [],
    tab @ tab @ ''if err := decoder.Decode(x.Entries); err != nil {'',
    tab @ tab @ tab @ ''return err'',
    tab @ tab @ ''}'',
    tab @ ''}'',
    [],
    tab @ ''return decoder.DecodeAll(&x.Eof)'',
    ''}'',
    tab,
    ''func (x DirList4) Encode(encoder *xdr.Encoder) error {'',
    tab @ ''ok := x.Entries != nil'',
    [],
    tab @ ''if err := encoder.Bool(ok); err != nil {'',
    tab @ tab @ ''return err'',
    tab @ ''}'',
    [],
    tab @ ''if ok {'',
    tab @ tab @ ''if err := encoder.Encode(*x.Entries); err != nil {'',
    tab @ tab @ tab @ ''return err'',
    tab @ tab @ ''}'',
    tab @ ''}'',
    [],
    tab @ ''return encoder.EncodeAll(x.Eof)'',
    ''}'']))"
  by code_simp

section \<open>One definition per struct\<close>

abbreviation field_name :: "ast_field \<Rightarrow> string" where "field_name f \<equiv> hd (Names f)"
abbreviation dec_args :: "ast_field list \<Rightarrow> string list" where "dec_args fs \<equiv> map (\<lambda>f. ''&x.'' @ field_name f) fs"
abbreviation enc_args :: "ast_field list \<Rightarrow> string list" where "enc_args fs \<equiv> map (\<lambda>f. ''x.'' @ field_name f) fs"
abbreviation star_field :: "ast_field \<Rightarrow> bool" where "star_field f \<equiv> is_star (Type f)"

lemma collect_simple:
  "\<forall>f \<in> set fs. Names f \<noteq> [] \<Longrightarrow>
     collect fs = Inr (if list_ex star_field fs then None else Some (dec_args fs, enc_args fs))"
  by (induction fs) (auto simp: neq_Nil_conv)

lemma when_ok_simple:
  "\<forall>f \<in> set fs. Names f \<noteq> [] \<Longrightarrow>
     when_ok fs t = Inr (if fs = [] \<or> list_ex star_field fs then [] else [t (dec_args fs) (enc_args fs)])"
  by (simp add: when_ok_def collectFields_def collect_simple)

lemma contains_empty_tag: "\<not> contains (tag_text []) union_tag"
  by code_simp

text \<open>What is printed for a struct: at most one template is used.\<close>

definition union_struct :: "ast_field list \<Rightarrow> bool" where
  "union_struct fs \<longleftrightarrow> fs \<noteq> [] \<and> contains (tag_text (Tag (hd fs))) union_tag"

definition printed :: "string \<Rightarrow> ast_field list \<Rightarrow> code list" where
  "printed name fs =
     (if fs = [] then [Empty name]
      else if union_struct fs then if list_ex star_field fs then [] else [Union name (dec_args fs) (enc_args fs)]
      else if \<not> list_ex star_field fs then [Definition name (dec_args fs) (enc_args fs)]
      else if star_field (hd fs) \<and> tl fs \<noteq> [] \<and> \<not> list_ex star_field (tl fs)
      then (case Type (hd fs) of StarExpr x \<Rightarrow>
              [StarDefinition name (''x.'' @ field_name (hd fs)) x (dec_args (tl fs)) (enc_args (tl fs))] | _ \<Rightarrow> [])
      else if star_field (last fs) \<and> butlast fs \<noteq> [] \<and> \<not> list_ex star_field (butlast fs)
      then (case Type (last fs) of StarExpr x \<Rightarrow>
              [DefinitionStar name (dec_args (butlast fs)) (''x.'' @ field_name (last fs)) x (enc_args (butlast fs))] | _ \<Rightarrow> [])
      else [])"

lemma is_star_def: "is_star e \<longleftrightarrow> (\<exists>x. e = StarExpr x)"
  by (cases e) simp_all

lemma addDefinition_printed:
  assumes "\<forall>f \<in> set fs. Names f \<noteq> []"
  shows "addDefinition name fs = Inr (printed name fs)"
proof (cases "fs = [] \<or> union_struct fs")
  case True
  then show ?thesis
    using assms by (auto simp: addDefinition_def printed_def union_struct_def addUnion_def when_ok_simple)
next
  case False
  then have ne: "fs \<noteq> []" and nu: "\<not> contains (tag_text (Tag (hd fs))) union_tag" by (auto simp: union_struct_def)
  have n: "first_name f = Inr (field_name f)" if "f \<in> set fs" for f
    using assms that by (cases "Names f") (auto simp: first_name_def)
  have tl: "\<forall>f \<in> set (tl fs). Names f \<noteq> []" and bl: "\<forall>f \<in> set (butlast fs). Names f \<noteq> []"
    using assms by (auto dest: list.set_sel(2) [OF ne] in_set_butlastD)
  have hd: "list_ex star_field fs \<longleftrightarrow> star_field (hd fs) \<or> list_ex star_field (tl fs)" using ne by (cases fs) auto
  have la: "list_ex star_field fs \<longleftrightarrow> star_field (last fs) \<or> list_ex star_field (butlast fs)"
    by (subst append_butlast_last_id [OF ne, symmetric], subst list_ex_append) auto
  have one: "tl fs = [] \<longleftrightarrow> butlast fs = []" by (metis length_0_conv length_butlast length_tl)
  have last: "tl fs \<noteq> [] \<Longrightarrow> star_field (last fs) \<Longrightarrow> list_ex star_field (tl fs)"
    using ne by (cases fs) (auto simp: list_ex_iff split: if_splits)
  have first: "butlast fs \<noteq> [] \<Longrightarrow> star_field (hd fs) \<Longrightarrow> list_ex star_field (butlast fs)"
    using ne by (cases fs) (auto split: if_splits)
  have a: "(case Type (hd fs) of StarExpr x \<Rightarrow> addStarStruct name fs x | _ \<Rightarrow> Inr []) =
      Inr (case Type (hd fs) of StarExpr x \<Rightarrow> if tl fs = [] \<or> list_ex star_field (tl fs) then []
        else [StarDefinition name (''x.'' @ field_name (hd fs)) x (dec_args (tl fs)) (enc_args (tl fs))] | _ \<Rightarrow> [])"
    using n [of "hd fs"] ne by (simp add: addStarStruct_def when_ok_simple [OF tl] split: expr.split)
  have b: "(case Type (last fs) of StarExpr x \<Rightarrow> addStructStar name fs x | _ \<Rightarrow> Inr []) =
      Inr (case Type (last fs) of StarExpr x \<Rightarrow> if butlast fs = [] \<or> list_ex star_field (butlast fs) then []
        else [DefinitionStar name (dec_args (butlast fs)) (''x.'' @ field_name (last fs)) x (enc_args (butlast fs))] | _ \<Rightarrow> [])"
    using n [of "last fs"] ne by (simp add: addStructStar_def when_ok_simple [OF bl] split: expr.split)
  have c: "addStruct name fs = Inr (if list_ex star_field fs then [] else [Definition name (dec_args fs) (enc_args fs)])"
    using ne by (simp add: addStruct_def when_ok_simple [OF assms])
  show ?thesis
  proof (cases "list_ex star_field fs")
    case False
    then have "\<not> star_field (hd fs)" "\<not> star_field (last fs)" using hd la by simp_all
    then show ?thesis using False ne nu a b c by (auto simp: addDefinition_def printed_def union_struct_def split: expr.splits)
  next
    case True
    then show ?thesis using ne nu a b c one last first
      by (cases "star_field (hd fs)"; cases "star_field (last fs)")
        (auto simp: addDefinition_def printed_def union_struct_def is_star_def split: expr.splits)
  qed
qed

text \<open>The fields that the methods code, in order.\<close>

fun decoded :: "code \<Rightarrow> string list" where
  "decoded (Empty _) = []"
| "decoded (Definition _ ds _) = map (drop 3) ds"
| "decoded (DefinitionStar _ ds f _ _) = map (drop 3) ds @ [drop 2 f]"
| "decoded (StarDefinition _ f _ ds _) = drop 2 f # map (drop 3) ds"
| "decoded (Union _ ds _) = map (drop 3) ds"

fun encoded :: "code \<Rightarrow> string list" where
  "encoded (Empty _) = []"
| "encoded (Definition _ _ es) = map (drop 2) es"
| "encoded (DefinitionStar _ _ f _ es) = map (drop 2) es @ [drop 2 f]"
| "encoded (StarDefinition _ f _ _ es) = drop 2 f # map (drop 2) es"
| "encoded (Union _ _ es) = map (drop 2) es"

lemma printed_fields:
  assumes "c \<in> set (printed name fs)"
  shows "decoded c = map field_name fs \<and> encoded c = map field_name fs"
proof (cases "fs = []")
  case True
  then show ?thesis using assms by (simp add: printed_def)
next
  case False
  then have hd: "field_name (hd fs) # map field_name (tl fs) = map field_name fs" by (cases fs) simp_all
  have la: "map field_name (butlast fs) @ [field_name (last fs)] = map field_name fs"
    using arg_cong [OF append_butlast_last_id [OF False], of "map field_name"] by simp
  have args: "map (drop 3) (dec_args gs) = map field_name gs" "map (drop 2) (enc_args gs) = map field_name gs"
      "drop 2 (''x.'' @ s) = s" for gs s
    by (simp_all add: o_def)
  have "c = Definition name (dec_args fs) (enc_args fs) \<or> c = Union name (dec_args fs) (enc_args fs) \<or>
      (\<exists>x. c = StarDefinition name (''x.'' @ field_name (hd fs)) x (dec_args (tl fs)) (enc_args (tl fs))) \<or>
      (\<exists>x. c = DefinitionStar name (dec_args (butlast fs)) (''x.'' @ field_name (last fs)) x (enc_args (butlast fs)))"
    using assms False unfolding printed_def if_distrib [of "\<lambda>xs. c \<in> set xs"] if_bool_eq_disj
    by (cases "Type (hd fs)"; cases "Type (last fs)") auto
  then show ?thesis
    by (elim disjE exE) (hypsubst, simp only: decoded.simps encoded.simps args hd la simp_thms)+
qed

lemma printed_none:
  "printed name fs = [] \<longleftrightarrow> list_ex star_field fs \<and>
     (union_struct fs \<or> length fs = 1 \<or> list_ex star_field (butlast (tl fs)) \<or> star_field (hd fs) \<and> star_field (last fs))"
proof (cases fs)
  case (Cons f gs)
  show ?thesis
  proof (cases gs rule: rev_cases)
    case Nil
    then show ?thesis by (auto simp: Cons printed_def is_star_def)
  next
    case (snoc hs l)
    then show ?thesis by (auto simp: Cons printed_def is_star_def butlast_append split: expr.splits)
  qed
qed (simp add: printed_def)

section \<open>Properties\<close>

text \<open>C22: The generator prints at most one pair of methods for a struct, and these code every field of the struct (by the first of its names), in the
  order of the declaration. It prints none exactly if the struct has a pointer field and is a union, or the pointer is
  its only field, is neither first nor last, or the first and the last field are both pointers.\<close>

theorem generated_once:
  assumes "\<forall>f \<in> set fs. Names f \<noteq> []"
  shows "\<exists>cs. addDefinition name fs = Inr cs \<and> length cs \<le> 1 \<and>
    (\<forall>c \<in> set cs. decoded c = map field_name fs \<and> encoded c = map field_name fs) \<and>
    (cs = [] \<longleftrightarrow> list_ex star_field fs \<and>
      (union_struct fs \<or> length fs = 1 \<or> list_ex star_field (butlast (tl fs)) \<or> star_field (hd fs) \<and> star_field (last fs)))"
proof (intro exI conjI ballI)
  show "addDefinition name fs = Inr (printed name fs)" by (rule addDefinition_printed [OF assms])
  show "length (printed name fs) \<le> 1" by (auto simp: printed_def split: expr.split)
qed (simp_all add: printed_none printed_fields)

theorem generated_once_witness:
  "\<exists>c. addDefinition ''DirList4'' [Field [''Entries''] (StarExpr (Ident ''Entry4'')) [], Field [''Eof''] (Ident ''bool'') []] = Inr [c] \<and>
     decoded c = [''Entries'', ''Eof''] \<and> encoded c = [''Entries'', ''Eof'']"
  using generated_once [of "[Field [''Entries''] (StarExpr (Ident ''Entry4'')) [], Field [''Eof''] (Ident ''bool'') []]" "''DirList4''"]
  by (auto simp: union_struct_def contains_empty_tag le_Suc_eq length_Suc_conv)

end
