(* ===== verification/Coder.thy ===== *)
theory Coder
  imports Generate
begin

text \<open>
  What the coder does with a value of any Go type: the type switches of \<^verbatim>\<open>Decode\<close> and \<^verbatim>\<open>Encode\<close>
  (\<^verbatim>\<open>xdr/decoder.go\<close>, \<^verbatim>\<open>xdr/encoder.go\<close>), which take the types they know directly, call the generated methods of the structs
  that have them, and leave the rest to reflection. The generated file says of itself that everything should work
  without it; this is shown here.
\<close>

section \<open>Types\<close>

text \<open>The types the switches name, the other kinds of reflection, and those built from them. A struct has a name
  if it is declared in a file that the generator reads. (Types that refer to themselves, of which the messages have one,
  \<^verbatim>\<open>Entry4\<close>, are not trees; its coders are in \<open>MsgRes\<close>.)\<close>

datatype gtype =
    GInt | GUint32 | GUint64 | GString | GBool | GByte | GOther rtype
  | GSlice gtype | GArray nat gtype | GPtr gtype
  | GStruct "string option" "gfield list"
and gfield = GField "string list" gtype tag

text \<open>The syntax of a field, as the generator sees it.\<close>

primrec ast_of :: "gtype \<Rightarrow> expr" where
  "ast_of GInt = Ident ''int''"
| "ast_of GUint32 = Ident ''uint32''"
| "ast_of GUint64 = Ident ''uint64''"
| "ast_of GString = Ident ''string''"
| "ast_of GBool = Ident ''bool''"
| "ast_of GByte = Ident ''byte''"
| "ast_of (GOther r) = Ident ''other''"
| "ast_of (GSlice t) = ArrayType None (ast_of t)"
| "ast_of (GArray n t) = ArrayType (Some n) (ast_of t)"
| "ast_of (GPtr t) = StarExpr (ast_of t)"
| "ast_of (GStruct name fs) = (case name of Some n \<Rightarrow> Ident n | None \<Rightarrow> StructLit)"

fun field_ast :: "gfield \<Rightarrow> ast_field" where
  "field_ast (GField ns t tag) = Field ns (ast_of t) tag"

text \<open>The type as reflection sees it; a field may declare several names.\<close>

fun tag_of :: "gfield \<Rightarrow> tag" where
  "tag_of (GField ns t tag) = tag"

definition reflect_union :: "gfield list \<Rightarrow> bool" where
  "reflect_union fs \<longleftrightarrow> fs \<noteq> [] \<and> map_of (tag_of (hd fs)) ''xdr'' = Some ''union''"

primrec type_of :: "gtype \<Rightarrow> rtype" and field_types :: "gfield \<Rightarrow> rtype list" where
  "type_of GInt = RInt 64"
| "type_of GUint32 = RUint32"
| "type_of GUint64 = RUint64"
| "type_of GString = RString"
| "type_of GBool = RBool"
| "type_of GByte = RUint8"
| "type_of (GOther r) = r"
| "type_of (GSlice t) = RSlice (type_of t)"
| "type_of (GArray n t) = RArray n (type_of t)"
| "type_of (GPtr t) = RPtr (type_of t)"
| "type_of (GStruct name fs) =
     (let ts = concat (map field_types fs) in if reflect_union fs then RUnion (tl ts) else RStruct ts)"
| "field_types (GField ns t tag) = replicate (max 1 (length ns)) (type_of t)"

section \<open>Decoding\<close>

text \<open>\<^verbatim>\<open>DecodeAll\<close> on fields of \<^verbatim>\<open>x\<close>: the values and the fields they are stored in. \<open>D f\<close> is \<^verbatim>\<open>Decode(&x.f)\<close>.\<close>

primrec dec_all :: "(string \<Rightarrow> rval xdec) \<Rightarrow> string list \<Rightarrow> (string \<times> rval) list xdec" where
  "dec_all D [] = dret []"
| "dec_all D (a # as) = dthen (D (drop 3 a)) (\<lambda>v. dthen (dec_all D as) (\<lambda>vs. dret ((drop 3 a, v) # vs)))"

text \<open>The fields of \<^verbatim>\<open>x\<close> afterwards; what is not stored is zero.\<close>

definition stored :: "(string \<times> rval) list \<Rightarrow> (string \<times> rval) list \<Rightarrow> rval list" where
  "stored zs vs = map (\<lambda>(n, z). case map_of vs n of Some v \<Rightarrow> v | None \<Rightarrow> z) zs"

text \<open>The generated \<^verbatim>\<open>Decode\<close> methods. \<open>P f\<close> is \<^verbatim>\<open>Decode(x.f)\<close> for a pointer just made.\<close>

fun run_decode :: "code \<Rightarrow> (string \<times> rval) list \<Rightarrow> (string \<Rightarrow> rval xdec) \<Rightarrow> (string \<Rightarrow> rval xdec) \<Rightarrow> rval xdec" where
  "run_decode (Empty _) zs D P = dret (VList (stored zs []))"
| "run_decode (Definition _ ds _) zs D P = dmap (\<lambda>vs. VList (stored zs vs)) (dec_all D ds)"
| "run_decode (DefinitionStar _ ds f _ _) zs D P =
     dthen (dec_all D ds) (\<lambda>vs. dthen dBool (\<lambda>ok.
       if ok then dmap (\<lambda>v. VList (stored zs ((drop 2 f, VPtr (Some v)) # vs))) (P (drop 2 f))
       else dret (VList (stored zs vs))))"
| "run_decode (StarDefinition _ f _ ds _) zs D P =
     dthen dBool (\<lambda>ok.
     dthen (if ok then dmap (\<lambda>v. [(drop 2 f, VPtr (Some v))]) (P (drop 2 f)) else dret []) (\<lambda>p.
     dmap (\<lambda>vs. VList (stored zs (p @ vs))) (dec_all D ds)))"
| "run_decode (Union _ ds _) zs D P =
     dthen dUint32 (\<lambda>mode.
       let args = map (drop 3) (tl ds)
       in if length args \<le> unat mode then dfail (BadUnionMode mode)
          else dmap (\<lambda>v. VUnion mode (stored (tl zs) [(args ! unat mode, v)])) (D (args ! unat mode)))"

text \<open>\<^verbatim>\<open>Decode\<close> into a variable of a type, and into what a variable of a pointer type points to.\<close>

definition dec_struct :: "string option \<Rightarrow> gfield list \<Rightarrow> (string \<times> rval \<times> rval xdec \<times> rval xdec) list \<Rightarrow> rval xdec" where
  "dec_struct name fs ms =
     (case name of
        None \<Rightarrow> decodeReflect (type_of (GStruct name fs))
      | Some n \<Rightarrow>
          (case addDefinition n (map field_ast fs) of
             Inr [c] \<Rightarrow> run_decode c (map (\<lambda>(n, z, _, _). (n, z)) ms)
               (\<lambda>f. case map_of ms f of Some (z, d, p) \<Rightarrow> d | None \<Rightarrow> dfail Eof)
               (\<lambda>f. case map_of ms f of Some (z, d, p) \<Rightarrow> p | None \<Rightarrow> dfail Eof)
           | _ \<Rightarrow> decodeReflect (type_of (GStruct name fs))))"

primrec decoders :: "gtype \<Rightarrow> rval xdec \<times> rval xdec" and
  field_decoders :: "gfield \<Rightarrow> (string \<times> rval \<times> rval xdec \<times> rval xdec) list" where
  "decoders GInt = (dmap (\<lambda>i. VInt (uint i)) dUint32, dfail Eof)"
| "decoders GUint32 = (dmap (\<lambda>i. VInt (uint i)) dUint32, dfail Eof)"
| "decoders GUint64 = (dmap (\<lambda>i. VInt (uint i)) dUint64, dfail Eof)"
| "decoders GString = (dmap VString dString, dfail Eof)"
| "decoders GBool = (dmap VBool dBool, dfail Eof)"
| "decoders GByte = (decodeReflect (type_of GByte), dfail Eof)"
| "decoders (GOther r) = (decodeReflect r, dfail Eof)"
| "decoders (GSlice t) =
     (if t = GByte then dmap VBytes dBytes
      else if t = GUint32 then dmap (\<lambda>vs. VList (map (\<lambda>i. VInt (uint i)) vs)) dUint32s
      else if t = GString then dmap (\<lambda>vs. VList (map VString vs)) dStrings
      else decodeReflect (type_of (GSlice t)), dfail Eof)"
| "decoders (GArray n t) =
     (if n = 16 \<and> t = GByte then dmap VBytes (dByteArray 16)
      else if n = 3 \<and> t = GUint32 then dmap (\<lambda>(a, b, c). VList (map (\<lambda>i. VInt (uint i)) [a, b, c])) dArr3
      else decodeReflect (type_of (GArray n t)), dfail Eof)"
| "decoders (GPtr t) = (decodeReflect (type_of (GPtr t)), fst (decoders t))"
| "decoders (GStruct name fs) = (dec_struct name fs (concat (map field_decoders fs)), dfail Eof)"
| "field_decoders (GField ns t tag) = map (\<lambda>n. (n, zero_of (type_of t), decoders t)) ns"

definition Decode :: "gtype \<Rightarrow> rval xdec" where
  "Decode t = fst (decoders t)"

section \<open>Encoding\<close>

text \<open>The fields of a struct, or of a union with its discriminant first.\<close>

fun members :: "string list \<Rightarrow> rval \<Rightarrow> (string \<times> rval) list" where
  "members ns (VList vs) = zip ns vs"
| "members ns (VUnion mode vs) = zip ns (VInt (uint mode) # vs)"
| "members ns _ = []"

definition member :: "(string \<times> rval) list \<Rightarrow> string \<Rightarrow> rval" where
  "member xs n = (case map_of xs n of Some v \<Rightarrow> v | None \<Rightarrow> VPtr None)"

text \<open>The generated \<^verbatim>\<open>Encode\<close> methods, on the fields \<open>xs\<close>. \<open>E f\<close> is \<^verbatim>\<open>Encode\<close> at the type of the field, \<open>P f\<close> at the type it
  points to.\<close>

definition enc_arg :: "(string \<times> rval) list \<Rightarrow> (string \<Rightarrow> rval \<Rightarrow> xenc) \<Rightarrow> string \<Rightarrow> xenc" where
  "enc_arg xs E a = E (drop 2 a) (member xs (drop 2 a))"

fun run_encode :: "code \<Rightarrow> (string \<times> rval) list \<Rightarrow> (string \<Rightarrow> rval \<Rightarrow> xenc) \<Rightarrow> (string \<Rightarrow> rval \<Rightarrow> xenc) \<Rightarrow> xenc" where
  "run_encode (Empty _) xs E P = ([], None)"
| "run_encode (Definition _ _ es) xs E P = EncodeAll (map (enc_arg xs E) es)"
| "run_encode (DefinitionStar _ _ f _ es) xs E P =
     EncodeAll [EncodeAll (map (enc_arg xs E) es),
       case member xs (drop 2 f) of
         VPtr (Some v) \<Rightarrow> EncodeAll [eBool True, P (drop 2 f) v]
       | _ \<Rightarrow> eBool False]"
| "run_encode (StarDefinition _ f _ _ es) xs E P =
     EncodeAll
       [EncodeAll (case member xs (drop 2 f) of
                     VPtr (Some v) \<Rightarrow> [eBool True, P (drop 2 f) v]
                   | _ \<Rightarrow> [eBool False]),
        EncodeAll (map (enc_arg xs E) es)]"
| "run_encode (Union _ _ es) xs E P =
     (case member xs (drop 2 (hd es)) of
        VInt mode \<Rightarrow> eUnion (of_int mode) (map (enc_arg xs E) (tl es))
      | _ \<Rightarrow> ([], None))"

text \<open>For each type: \<^verbatim>\<open>Encode\<close>, \<^verbatim>\<open>encodeReflect\<close>, and \<^verbatim>\<open>Encode\<close> of what a value of the type points to. Reflection goes back to
  \<^verbatim>\<open>Encode\<close> behind a pointer. \<^verbatim>\<open>Encode\<close> is never called with a pointer itself.\<close>

type_synonym encs = "(rval \<Rightarrow> xenc) \<times> (rval \<Rightarrow> xenc) \<times> (rval \<Rightarrow> xenc)"

definition enc_fields :: "gfield list \<Rightarrow> (rval \<Rightarrow> xenc) list \<Rightarrow> rval \<Rightarrow> xenc" where
  "enc_fields fs rs v =
     (if reflect_union fs then
        (case v of
           VUnion mode vs \<Rightarrow>
             if length (tl rs) \<le> unat mode then (put_u32 mode, Some (BadUnionMode mode))
             else EncodeAll [eUint32 mode, (tl rs ! unat mode) (vs ! unat mode)]
         | _ \<Rightarrow> ([], None))
      else (case v of VList vs \<Rightarrow> EncodeAll (map (\<lambda>(f, x). f x) (zip rs vs)) | _ \<Rightarrow> ([], None)))"

definition enc_struct :: "string option \<Rightarrow> gfield list \<Rightarrow> (string \<times> encs) list \<Rightarrow> (rval \<Rightarrow> xenc) \<Rightarrow> rval \<Rightarrow> xenc" where
  "enc_struct name fs ms reflect v =
     (case name of
        None \<Rightarrow> reflect v
      | Some n \<Rightarrow>
          (case addDefinition n (map field_ast fs) of
             Inr [c] \<Rightarrow> run_encode c (members (map fst ms) v)
               (\<lambda>f. case map_of ms f of Some (e, r, p) \<Rightarrow> e | None \<Rightarrow> (\<lambda>_. ([], None)))
               (\<lambda>f. case map_of ms f of Some (e, r, p) \<Rightarrow> p | None \<Rightarrow> (\<lambda>_. ([], None)))
           | _ \<Rightarrow> reflect v))"

abbreviation (input) enc_int :: "rval \<Rightarrow> xenc" where
  "enc_int \<equiv> (\<lambda>v. case v of VInt i \<Rightarrow> eUint32 (of_int i) | _ \<Rightarrow> ([], None))"

abbreviation (input) no_enc :: "rval \<Rightarrow> xenc" where "no_enc \<equiv> (\<lambda>_. ([], None))"

fun int_of :: "rval \<Rightarrow> int" where
  "int_of (VInt i) = i"
| "int_of _ = 0"

fun string_of :: "rval \<Rightarrow> string" where
  "string_of (VString s) = s"
| "string_of _ = []"

primrec encoders :: "gtype \<Rightarrow> encs" and field_encoders :: "gfield \<Rightarrow> string list \<times> encs" where
  "encoders GInt = (enc_int, encodeReflect (type_of GInt), no_enc)"
| "encoders GUint32 = (enc_int, encodeReflect (type_of GUint32), no_enc)"
| "encoders GUint64 = ((\<lambda>v. case v of VInt i \<Rightarrow> eUint64 (of_int i) | _ \<Rightarrow> ([], None)), encodeReflect (type_of GUint64), no_enc)"
| "encoders GString = ((\<lambda>v. case v of VString s \<Rightarrow> eString s | _ \<Rightarrow> ([], None)), encodeReflect (type_of GString), no_enc)"
| "encoders GBool = ((\<lambda>v. case v of VBool b \<Rightarrow> eBool b | _ \<Rightarrow> ([], None)), encodeReflect (type_of GBool), no_enc)"
| "encoders GByte = (encodeReflect (type_of GByte), encodeReflect (type_of GByte), no_enc)"
| "encoders (GOther r) = (encodeReflect r, encodeReflect r, no_enc)"
| "encoders (GSlice t) =
     (let reflect = (\<lambda>v. case v of VBytes b \<Rightarrow> eBytes b | VList vs \<Rightarrow> eSlice (fst (snd (encoders t))) vs | _ \<Rightarrow> ([], None))
      in (if t = GByte then (\<lambda>v. case v of VBytes b \<Rightarrow> eBytes b | _ \<Rightarrow> ([], None))
          else if t = GUint32 then (\<lambda>v. case v of VList vs \<Rightarrow> eUint32s (map (of_int \<circ> int_of) vs) | _ \<Rightarrow> ([], None))
          else if t = GString then (\<lambda>v. case v of VList vs \<Rightarrow> eStrings (map string_of vs) | _ \<Rightarrow> ([], None))
          else reflect, reflect, no_enc))"
| "encoders (GArray n t) =
     (let reflect = (\<lambda>v. case v of VBytes b \<Rightarrow> eByteArray b | VList vs \<Rightarrow> EncodeAll (map (fst (snd (encoders t))) vs) | _ \<Rightarrow> ([], None))
      in (if n = 16 \<and> t = GByte then (\<lambda>v. case v of VBytes b \<Rightarrow> eByteArray b | _ \<Rightarrow> ([], None))
          else if n = 3 \<and> t = GUint32
          then (\<lambda>v. case v of VList vs \<Rightarrow> EncodeAll [enc_int (vs ! 0), enc_int (vs ! 1), enc_int (vs ! 2)] | _ \<Rightarrow> ([], None))
          else reflect, reflect, no_enc))"
| "encoders (GPtr t) =
     (let reflect = (\<lambda>v. case v of VPtr p \<Rightarrow> eOption (fst (encoders t)) p | _ \<Rightarrow> ([], None))
      in (reflect, reflect, fst (encoders t)))"
| "encoders (GStruct name fs) =
     (let ms = map field_encoders fs;
          reflect = enc_fields fs (concat (map (\<lambda>(ns, e, r, p). replicate (max 1 (length ns)) r) ms))
      in (enc_struct name fs (concat (map (\<lambda>(ns, e). map (\<lambda>n. (n, e)) ns) ms)) reflect, reflect, no_enc))"
| "field_encoders (GField ns t tag) = (ns, encoders t)"

definition Encode :: "gtype \<Rightarrow> rval \<Rightarrow> xenc" where
  "Encode t = fst (encoders t)"

section \<open>Counts, and several values\<close>

text \<open>\<^verbatim>\<open>Decoder.Read\<close> and \<^verbatim>\<open>Encoder.Write\<close> return the number of bytes that pass the \<^verbatim>\<open>CountReader\<close> or \<^verbatim>\<open>CountWriter\<close>. (The count of a
  read that fails is not modelled; no caller uses it.)\<close>

definition Decoder_Read :: "gtype \<Rightarrow> bytes \<Rightarrow> xerr + rval \<times> nat" where
  "Decoder_Read t b = (case Decode t b of Inl e \<Rightarrow> Inl e | Inr (v, rest) \<Rightarrow> Inr (v, length b - length rest))"

definition Encoder_Write :: "gtype \<Rightarrow> rval \<Rightarrow> nat \<times> xerr option" where
  "Encoder_Write t v = (length (fst (Encode t v)), snd (Encode t v))"

text \<open>\<^verbatim>\<open>Unmarshal\<close>: the values read, the bytes that are left, and the error.\<close>

fun unmarshal :: "bytes \<Rightarrow> gtype list \<Rightarrow> nat \<Rightarrow> rval list \<times> bytes \<times> xerr option" where
  "unmarshal data [] consumed = ([], drop consumed data, None)"
| "unmarshal data (t # dst) consumed =
     (case Decoder_Read t (drop consumed data) of
        Inl e \<Rightarrow> ([], drop consumed data, Some e)
      | Inr (v, n) \<Rightarrow> (case unmarshal data dst (consumed + n) of (vs, rest, e) \<Rightarrow> (v # vs, rest, e)))"

definition Unmarshal :: "bytes \<Rightarrow> gtype list \<Rightarrow> rval list \<times> bytes \<times> xerr option" where
  "Unmarshal data dst = unmarshal data dst 0"

section \<open>Types of messages\<close>

text \<open>Every field declares one name, no two the same; a tag marks the first field of a union, a \<^verbatim>\<open>uint32\<close>; no pointers to
  pointers.\<close>

fun is_ptr :: "gtype \<Rightarrow> bool" where
  "is_ptr (GPtr t) = True"
| "is_ptr _ = False"

fun fnames :: "gfield \<Rightarrow> string list" where "fnames (GField ns t tag) = ns"
fun ftype :: "gfield \<Rightarrow> gtype" where "ftype (GField ns t tag) = t"

primrec wf_type :: "gtype \<Rightarrow> bool" and wf_field :: "gfield \<Rightarrow> bool" where
  "wf_type GInt = True"
| "wf_type GUint32 = True"
| "wf_type GUint64 = True"
| "wf_type GString = True"
| "wf_type GBool = True"
| "wf_type GByte = True"
| "wf_type (GOther r) = True"
| "wf_type (GSlice t) = wf_type t"
| "wf_type (GArray n t) = wf_type t"
| "wf_type (GPtr t) = (wf_type t \<and> \<not> is_ptr t)"
| "wf_type (GStruct name fs) =
     (list_all wf_field fs \<and> distinct (concat (map fnames fs)) \<and> (reflect_union fs \<longrightarrow> ftype (hd fs) = GUint32))"
| "wf_field (GField ns t tag) = (length ns = 1 \<and> wf_type t \<and> (tag = [] \<or> tag = [(''xdr'', ''union'')]))"

end
