(* ===== verification/CoderEq.thy ===== *)
theory CoderEq
  imports Coder
begin

text \<open>
  The generated coders do what reflection does, for every type of a message.
\<close>

section \<open>Structs of messages\<close>

abbreviation fname :: "gfield \<Rightarrow> string" where "fname f \<equiv> hd (fnames f)"

lemma wf_fieldE:
  assumes "wf_field f"
  obtains n t tag where "f = GField [n] t tag" "wf_type t" "tag = [] \<or> tag = [(''xdr'', ''union'')]"
  using assms by (cases f) (auto simp: length_Suc_conv)

lemma wf_fields:
  assumes "list_all wf_field fs"
  shows "concat (map field_types fs) = map (\<lambda>f. type_of (ftype f)) fs"
    and "concat (map fnames fs) = map fname fs"
    and "concat (map field_decoders fs) = map (\<lambda>f. (fname f, zero_of (type_of (ftype f)), decoders (ftype f))) fs"
    and "concat (map (\<lambda>(ns, e). map (\<lambda>n. (n, e)) ns) (map field_encoders fs)) = map (\<lambda>f. (fname f, encoders (ftype f))) fs"
    and "concat (map (\<lambda>(ns, e, r, p). replicate (max 1 (length ns)) r) (map field_encoders fs)) =
      map (\<lambda>f. fst (snd (encoders (ftype f)))) fs"
    and "\<forall>f \<in> set (map field_ast fs). Names f \<noteq> []"
    and "map (\<lambda>f. Names (field_ast f)) fs = map (\<lambda>f. [fname f]) fs"
    and "map (\<lambda>f. Type (field_ast f)) fs = map (\<lambda>f. ast_of (ftype f)) fs"
  using assms by (induction fs) (auto elim!: wf_fieldE simp: case_prod_unfold)

lemma is_star_ast [simp]: "is_star (ast_of t) = is_ptr t"
  by (cases t) (auto split: option.split)

lemma contains_union: "contains (tag_text [(''xdr'', ''union'')]) union_tag" "\<not> contains (tag_text []) union_tag"
  by code_simp+

lemma union_ast: "list_all wf_field fs \<Longrightarrow> union_struct (map field_ast fs) = reflect_union fs"
  using contains_union by (cases fs) (auto simp: union_struct_def reflect_union_def elim!: wf_fieldE)

text \<open>The templates, with the fields of the struct.\<close>

abbreviation ptr_field :: "gfield \<Rightarrow> bool" where "ptr_field f \<equiv> is_ptr (ftype f)"

definition gdec :: "gfield list \<Rightarrow> string list" where "gdec fs = map (\<lambda>f. ''&x.'' @ fname f) fs"
definition genc :: "gfield list \<Rightarrow> string list" where "genc fs = map (\<lambda>f. ''x.'' @ fname f) fs"

lemma ast_wf: "wf_field f \<Longrightarrow> Names (field_ast f) = [fname f] \<and> Type (field_ast f) = ast_of (ftype f)"
  by (auto elim!: wf_fieldE)

lemma printed_args:
  assumes "list_all wf_field fs"
  shows "dec_args (map field_ast fs) = gdec fs" "enc_args (map field_ast fs) = genc fs"
    "list_ex star_field (map field_ast fs) = list_ex ptr_field fs"
  using assms by (induction fs) (auto simp: gdec_def genc_def ast_wf)

fun pointee :: "gtype \<Rightarrow> gtype" where
  "pointee (GPtr t) = t"
| "pointee t = t"

definition gen_code :: "string \<Rightarrow> gfield list \<Rightarrow> code list" where
  "gen_code n fs =
     (if fs = [] then [Empty n]
      else if reflect_union fs then if list_ex ptr_field fs then [] else [Union n (gdec fs) (genc fs)]
      else if \<not> list_ex ptr_field fs then [Definition n (gdec fs) (genc fs)]
      else if ptr_field (hd fs) \<and> tl fs \<noteq> [] \<and> \<not> list_ex ptr_field (tl fs)
      then [StarDefinition n (''x.'' @ fname (hd fs)) (ast_of (pointee (ftype (hd fs)))) (gdec (tl fs)) (genc (tl fs))]
      else if ptr_field (last fs) \<and> butlast fs \<noteq> [] \<and> \<not> list_ex ptr_field (butlast fs)
      then [DefinitionStar n (gdec (butlast fs)) (''x.'' @ fname (last fs)) (ast_of (pointee (ftype (last fs)))) (genc (butlast fs))]
      else [])"

lemma star_case: "is_ptr t \<Longrightarrow> (case ast_of t of StarExpr x \<Rightarrow> f x | _ \<Rightarrow> z) = f (ast_of (pointee t))"
  by (cases t) simp_all

lemma addDefinition_gen_code:
  assumes wf: "list_all wf_field fs"
  shows "addDefinition n (map field_ast fs) = Inr (gen_code n fs)"
proof (cases "fs = []")
  case True
  then show ?thesis by (simp add: addDefinition_def gen_code_def)
next
  case False
  have tl: "list_all wf_field (tl fs)" using wf False by (cases fs) simp_all
  have bl: "list_all wf_field (butlast fs)" using wf by (auto simp: list_all_iff dest: in_set_butlastD)
  have hd: "wf_field (hd fs)" "wf_field (last fs)" using wf False by (simp_all add: list_all_iff)
  note args = printed_args [OF wf] printed_args [OF tl] printed_args [OF bl]
  have "printed n (map field_ast fs) = gen_code n fs"
    unfolding printed_def gen_code_def union_ast [OF wf] hd_map [OF False] last_map [OF False] map_tl [symmetric]
      map_butlast [symmetric] args ast_wf [OF hd(1), THEN conjunct1] ast_wf [OF hd(1), THEN conjunct2]
      ast_wf [OF hd(2), THEN conjunct1] ast_wf [OF hd(2), THEN conjunct2] is_star_ast
    by (simp add: star_case cong: if_cong)
  then show ?thesis using addDefinition_printed [OF wf_fields(6) [OF wf]] by simp
qed

lemma gen_code_cases:
  assumes c: "gen_code n fs = [c]"
  obtains (empty) "fs = []" "c = Empty n"
    | (union) f gs where "fs = f # gs" "reflect_union fs" "c = Union n (gdec fs) (genc fs)" "\<not> list_ex ptr_field fs"
    | (plain) "\<not> reflect_union fs" "c = Definition n (gdec fs) (genc fs)" "\<not> list_ex ptr_field fs"
    | (star) f gs where "\<not> reflect_union fs" "fs = f # gs" "ptr_field f"
        "c = StarDefinition n (''x.'' @ fname f) (ast_of (pointee (ftype f))) (gdec gs) (genc gs)" "\<not> list_ex ptr_field gs"
    | (last) gs f where "\<not> reflect_union fs" "fs = gs @ [f]" "ptr_field f"
        "c = DefinitionStar n (gdec gs) (''x.'' @ fname f) (ast_of (pointee (ftype f))) (genc gs)" "\<not> list_ex ptr_field gs"
proof -
  have hd: "fs = hd fs # tl fs" "fs = butlast fs @ [last fs]" if "fs \<noteq> []" using that by simp_all
  show thesis
    using c empty plain union [OF hd(1)] star [OF _ hd(1)] last [OF _ hd(2)] unfolding gen_code_def by (auto split: if_split_asm)
qed

lemma ptr_pointee: "is_ptr t \<Longrightarrow> t = GPtr (pointee t)"
  by (cases t) simp_all

section \<open>Decoding\<close>

lemma represents_id: "represents (\<lambda>x. x) d d"
  unfolding represents_def
proof
  fix b show "same_result (\<lambda>x. x) (d b) (d b)"
  proof (cases "d b")
    case (Inl e)
    then show ?thesis by (cases e) simp_all
  next
    case (Inr v)
    then show ?thesis by (cases v) simp
  qed
qed

lemma same_result_Inr: "same_result g (Inr y) r \<Longrightarrow> \<exists>x rest. r = Inr (x, rest) \<and> y = (g x, rest)"
  by (cases "(g, Inr y :: xerr + _, r)" rule: same_result.cases) auto

lemma represents_bind_post:
  assumes "represents g d d'" and "\<And>b x r. d' b = Inr (x, r) \<Longrightarrow> Q x" and "\<And>x. Q x \<Longrightarrow> represents h (f (g x)) (f' x)"
  shows "represents h (dthen d f) (dthen d' f')"
  unfolding represents_def
proof
  fix b
  have "same_result g (d b) (d' b)" using assms(1) by (simp add: represents_def)
  then show "same_result h (dthen d f b) (dthen d' f' b)"
    using assms(2,3) by (cases "(g, d b, d' b)" rule: same_result.cases) (auto simp: represents_def dthen_def)
qed

lemma represents_dmap: "represents g d d' \<Longrightarrow> (\<And>x. k (g x) = h (k' x)) \<Longrightarrow> represents h (dmap k d) (dmap k' d')"
  by (rule represents_bind) (auto intro: represents_dret)

lemma gdec_simps: "gdec [] = []" "gdec (f # fs) = (''&x.'' @ fname f) # gdec fs" "map (drop 3) (gdec fs) = map fname fs"
  by (simp_all add: gdec_def o_def)

lemma dec_all_names: "dec_all D as b = Inr (vs, r) \<Longrightarrow> map fst vs = map (drop 3) as"
  by (induction as arbitrary: b vs r) (auto simp: dthen_def dret_def split: sum.splits)

lemma represents_dec_all:
  "(\<And>f. f \<in> set fs \<Longrightarrow> represents (\<lambda>x. x) (decodeReflect (type_of (ftype f))) (D (fname f))) \<Longrightarrow>
     represents (map snd) (dfields (map (\<lambda>f. decodeReflect (type_of (ftype f))) fs)) (dec_all D (gdec fs))"
proof (induction fs)
  case (Cons f fs)
  have f: "represents (\<lambda>x. x) (dreflect (decodeReflect (type_of (ftype f)))) (D (fname f))"
    by (rule represents_dreflect) (rule Cons.prems, simp)
  have fs: "represents (map snd) (dfields (map (\<lambda>f. decodeReflect (type_of (ftype f))) fs)) (dec_all D (gdec fs))"
    by (rule Cons.IH) (rule Cons.prems, simp)
  have name: "drop 3 (''&x.'' @ fname f) = fname f" by simp
  show ?case
    unfolding gdec_simps list.map dfields.simps dec_all.simps name
    by (rule represents_bind [OF f], rule represents_dmap [OF fs]) simp
qed (simp add: gdec_simps represents_dret)

lemma stored_all:
  "map fst vs = map fst zs \<Longrightarrow> distinct (map fst zs) \<Longrightarrow> stored zs vs = map snd vs"
proof -
  assume a: "map fst vs = map fst zs" and d: "distinct (map fst zs)"
  have l: "length vs = length zs" using arg_cong [OF a, of length] by simp
  show ?thesis
  proof (rule nth_equalityI)
    fix i assume "i < length (stored zs vs)"
    then have i: "i < length zs" by (simp add: stored_def)
    then have n: "fst (zs ! i) = fst (vs ! i)" using arg_cong [OF a, of "\<lambda>xs. xs ! i"] l by simp
    have "(fst (vs ! i), snd (vs ! i)) \<in> set vs" using i l by simp
    then have "map_of vs (fst (zs ! i)) = Some (snd (vs ! i))" unfolding n using d a by (intro map_of_is_SomeI) simp_all
    then show "stored zs vs ! i = map snd vs ! i" using i l by (simp add: stored_def case_prod_unfold)
  qed (simp add: stored_def l)
qed

text \<open>Sequencing of decoders is associative.\<close>

lemma dthen_assoc: "dthen (dthen d f) g = dthen d (\<lambda>x. dthen (f x) g)"
  by (rule ext) (simp add: dthen_def split: sum.split)

lemma dthen_dret: "dthen (dret x) f = f x"
  by (rule ext) (simp add: dthen_def dret_def)

lemma if_dthen: "dthen (if c then a else b) f = (if c then dthen a f else dthen b f)"
  by simp

lemma dthen_ret: "dthen d (\<lambda>x. dret x) = d"
  by (rule ext) (simp add: dthen_def split: sum.split)

lemmas dthen_laws = dthen_assoc dthen_dret if_dthen dthen_ret

lemma dfields_append: "dfields (xs @ ys) = dthen (dfields xs) (\<lambda>a. dthen (dfields ys) (\<lambda>b. dret (a @ b)))"
  by (induction xs) (simp_all only: append.simps dfields.simps dthen_laws)

text \<open>A pointer field.\<close>

abbreviation dptr :: "rval xdec \<Rightarrow> rval xdec" where
  "dptr d \<equiv> dthen dBool (\<lambda>ok. if ok then dmap (VPtr \<circ> Some) d else dret (VPtr None))"

lemma represents_ptr: "represents (\<lambda>x. x) d d' \<Longrightarrow> represents (\<lambda>x. x) (dreflect (dptr d)) (dptr d')"
  by (intro represents_dreflect represents_bind [OF represents_id]) (auto intro: represents_dret represents_dmap)

text \<open>The templates, one by one. \<open>R f\<close> is reflection at the type of a field.\<close>

abbreviation R :: "gfield \<Rightarrow> rval xdec" where "R f \<equiv> decodeReflect (type_of (ftype f))"

definition agree :: "gfield list \<Rightarrow> (string \<Rightarrow> rval xdec) \<Rightarrow> bool" where
  "agree fs D \<longleftrightarrow> (\<forall>f \<in> set fs. represents (\<lambda>x. x) (R f) (D (fname f)))"

lemma represents_fields_then:
  assumes "agree fs D" and "\<And>vs. map fst vs = map fname fs \<Longrightarrow> represents h (k (map snd vs)) (k' vs)"
  shows "represents h (dthen (dfields (map R fs)) k) (dthen (dec_all D (gdec fs)) k')"
proof (rule represents_bind_post [where g = "map snd" and Q = "\<lambda>vs. map fst vs = map fname fs"])
  show "represents (map snd) (dfields (map R fs)) (dec_all D (gdec fs))"
    using assms(1) by (intro represents_dec_all) (simp add: agree_def)
  show "map fst vs = map fname fs" if "dec_all D (gdec fs) b = Inr (vs, r)" for b vs r
    using dec_all_names [OF that] by (simp only: gdec_simps)
qed (rule assms(2))

lemma plain_decode:
  assumes "agree fs D" and "distinct (map fname fs)" and "map fst zs = map fname fs"
  shows "represents (\<lambda>x. x) (dmap VList (dfields (map R fs))) (run_decode (Definition n (gdec fs) es) zs D P)"
  unfolding run_decode.simps
  by (rule represents_fields_then [OF assms(1)], rule represents_dret) (use assms(2,3) in \<open>simp add: stored_all\<close>)

lemma stored_append: "stored (xs @ ys) vs = stored xs vs @ stored ys vs"
  by (simp add: stored_def)

lemma stored_other: "n \<notin> fst ` set zs \<Longrightarrow> stored zs ((n, v) # vs) = stored zs vs"
  unfolding stored_def by (rule map_cong) (auto simp: image_iff)

lemma last_decode:
  assumes gs: "agree gs D" and f: "represents (\<lambda>x. x) (decodeReflect t) (P n)"
    and d: "distinct (map fname gs @ [n])" and zs: "map fst zs = map fname gs"
  shows "represents (\<lambda>x. x) (dmap VList (dfields (map R gs @ [decodeReflect (RPtr t)])))
    (run_decode (DefinitionStar m (gdec gs) (''x.'' @ n) e es) (zs @ [(n, VPtr None)]) D P)"
proof -
  have n: "drop 2 (''x.'' @ n) = n" by simp
  show ?thesis
    unfolding dfields_append dthen_assoc run_decode.simps n
  proof (rule represents_fields_then [OF gs])
    fix vs :: "(string \<times> rval) list" assume vs: "map fst vs = map fname gs"
    have all: "stored zs vs = map snd vs" using vs zs d by (intro stored_all) simp_all
    have "n \<notin> fst ` set zs" "map_of vs n = None"
      using d arg_cong [OF zs, of set] arg_cong [OF vs, of set] by (auto simp: map_of_eq_None_iff)
    then have "stored (zs @ [(n, VPtr None)]) ((n, VPtr (Some v)) # vs) = map snd vs @ [VPtr (Some v)]"
        "stored (zs @ [(n, VPtr None)]) vs = map snd vs @ [VPtr None]" for v
      using all by (simp_all add: stored_append stored_other) (simp_all add: stored_def)
    then have "dthen dBool (\<lambda>ok. if ok then dmap (\<lambda>v. VList (stored (zs @ [(n, VPtr None)]) ((n, VPtr (Some v)) # vs))) (P n)
          else dret (VList (stored (zs @ [(n, VPtr None)]) vs))) =
        dthen (dptr (P n)) (\<lambda>x. dret (VList (map snd vs @ [x])))"
      by (simp only: dthen_laws o_apply cong: if_cong)
    moreover have "represents (\<lambda>x. x) (dmap (\<lambda>x. VList (map snd vs @ [x])) (dreflect (dptr (decodeReflect t))))
        (dthen (dptr (P n)) (\<lambda>x. dret (VList (map snd vs @ [x]))))"
      by (rule represents_bind [OF represents_ptr [OF f]]) (rule represents_id)
    ultimately show "represents (\<lambda>x. x)
        (dthen (dfields [decodeReflect (RPtr t)]) (\<lambda>b. dmap VList (dret (map snd vs @ b))))
        (dthen dBool (\<lambda>ok. if ok then dmap (\<lambda>v. VList (stored (zs @ [(n, VPtr None)]) ((n, VPtr (Some v)) # vs))) (P n)
          else dret (VList (stored (zs @ [(n, VPtr None)]) vs))))"
      by (simp only: dthen_laws dfields.simps decodeReflect.simps append.simps)
  qed
qed

lemma star_decode:
  assumes gs: "agree gs D" and f: "represents (\<lambda>x. x) (decodeReflect t) (P n)"
    and d: "distinct (n # map fname gs)" and zs: "map fst zs = map fname gs"
  shows "represents (\<lambda>x. x) (dmap VList (dfields (decodeReflect (RPtr t) # map R gs)))
    (run_decode (StarDefinition m (''x.'' @ n) e (gdec gs) es) ((n, VPtr None) # zs) D P)"
proof -
  have n: "drop 2 (''x.'' @ n) = n" by simp
  let ?zs = "(n, VPtr None) # zs"
  let ?fst = "\<lambda>p. case p of VPtr None \<Rightarrow> [] | _ \<Rightarrow> [(n, p)]"
  have eq: "dthen (dptr (P n)) (\<lambda>p. dmap (\<lambda>vs. VList (stored ?zs (?fst p @ vs))) (dec_all D (gdec gs))) =
      run_decode (StarDefinition m (''x.'' @ n) e (gdec gs) es) ?zs D P"
    unfolding run_decode.simps n by (simp only: dthen_laws o_apply rval.case option.case append.simps cong: if_cong)
  have "represents (\<lambda>x. x) (dthen (dreflect (dptr (decodeReflect t))) (\<lambda>p. dthen (dfields (map R gs)) (\<lambda>vs. dret (VList (p # vs)))))
      (dthen (dptr (P n)) (\<lambda>p. dmap (\<lambda>vs. VList (stored ?zs (?fst p @ vs))) (dec_all D (gdec gs))))"
  proof (rule represents_bind_post [OF represents_ptr [OF f], where Q = "\<lambda>p. \<exists>q. p = VPtr q"])
    show "\<exists>q. p = VPtr q" if "dptr (P n) b = Inr (p, r)" for b p r
      using that by (auto simp: dthen_def split: sum.splits if_splits)
    fix p assume "\<exists>q. p = VPtr q"
    then obtain q where p: "p = VPtr q" by blast
    show "represents (\<lambda>x. x) (dthen (dfields (map R gs)) (\<lambda>vs. dret (VList (p # vs))))
        (dmap (\<lambda>vs. VList (stored ?zs (?fst p @ vs))) (dec_all D (gdec gs)))"
    proof (rule represents_fields_then [OF gs], rule represents_dret)
      fix vs :: "(string \<times> rval) list" assume vs: "map fst vs = map fname gs"
      have all: "stored zs vs = map snd vs" using vs zs d by (intro stored_all) simp_all
      have "n \<notin> fst ` set zs" "map_of vs n = None"
        using d arg_cong [OF zs, of set] arg_cong [OF vs, of set] by (auto simp: map_of_eq_None_iff)
      then show "VList (p # map snd vs) = VList (stored ?zs (?fst p @ vs))"
        using all stored_other [of n zs p vs] stored_append [of "[(n, VPtr None)]" zs]
        by (cases q) (simp_all add: p, simp_all add: stored_def)
    qed
  qed
  then show ?thesis unfolding eq by (simp only: dthen_laws dfields.simps decodeReflect.simps)
qed

lemma union_decode:
  assumes gs: "agree gs D" and d: "distinct (map fname gs)"
    and zs: "zs = map (\<lambda>f. (fname f, zero_of (type_of (ftype f)))) gs"
  shows "represents (\<lambda>x. x) (decodeReflect (RUnion (map (\<lambda>f. type_of (ftype f)) gs)))
    (run_decode (Union m (gdec (f # gs)) es) (z # zs) D P)"
  unfolding decodeReflect.simps run_decode.simps gdec_simps list.sel Let_def length_map
proof (rule represents_bind [OF represents_id])
  fix mode :: u32
  let ?i = "unat mode"
  show "represents (\<lambda>x. x)
      (if length gs \<le> ?i then dfail (BadUnionMode mode)
       else dmap (\<lambda>v. VUnion mode ((map zero_of (map (\<lambda>f. type_of (ftype f)) gs))[?i := v]))
         (map decodeReflect (map (\<lambda>f. type_of (ftype f)) gs) ! ?i))
      (if length gs \<le> ?i then dfail (BadUnionMode mode)
       else dmap (\<lambda>v. VUnion mode (stored zs [(map fname gs ! ?i, v)])) (D (map fname gs ! ?i)))"
  proof (cases "length gs \<le> ?i")
    case False
    then have i: "?i < length gs" by simp
    have r: "represents (\<lambda>x. x) (map decodeReflect (map (\<lambda>f. type_of (ftype f)) gs) ! ?i) (D (map fname gs ! ?i))"
      using gs i by (simp add: agree_def)
    have "stored zs [(map fname gs ! ?i, v)] = (map zero_of (map (\<lambda>f. type_of (ftype f)) gs))[?i := v]" for v
      using i d by (intro nth_equalityI) (auto simp: stored_def zs nth_list_update nth_eq_iff_index_eq distinct_conv_nth)
    then have "represents (\<lambda>x. x)
        (dmap (\<lambda>v. VUnion mode ((map zero_of (map (\<lambda>f. type_of (ftype f)) gs))[?i := v])) (map decodeReflect (map (\<lambda>f. type_of (ftype f)) gs) ! ?i))
        (dmap (\<lambda>v. VUnion mode (stored zs [(map fname gs ! ?i, v)])) (D (map fname gs ! ?i)))"
      by (intro represents_dmap [OF r]) simp
    then show ?thesis using False by simp
  qed (simp add: represents_id)
qed

text \<open>A struct, whatever template its methods come from.\<close>

lemma map_of_fields:
  "f \<in> set fs \<Longrightarrow> distinct (map fname fs) \<Longrightarrow> map_of (map (\<lambda>f. (fname f, g f)) fs) (fname f) = Some (g f)"
  by (rule map_of_is_SomeI) (auto simp: o_def)

lemma struct_decode:
  assumes wf: "wf_type (GStruct name fs)"
    and IH: "\<And>f. f \<in> set fs \<Longrightarrow> represents (\<lambda>x. x) (R f) (fst (decoders (ftype f)))"
    and IH': "\<And>f. f \<in> set fs \<Longrightarrow> is_ptr (ftype f) \<Longrightarrow>
      represents (\<lambda>x. x) (decodeReflect (type_of (pointee (ftype f)))) (snd (decoders (ftype f)))"
  shows "represents (\<lambda>x. x) (decodeReflect (type_of (GStruct name fs)))
    (dec_struct name fs (concat (map field_decoders fs)))"
proof (cases "\<exists>n c. name = Some n \<and> gen_code n fs = [c]")
  case False
  have w: "list_all wf_field fs" using wf by simp
  have "dec_struct name fs ms = decodeReflect (type_of (GStruct name fs))" for ms
    using False addDefinition_gen_code [OF w]
    by (auto simp: dec_struct_def simp del: type_of.simps split: option.split list.split)
  then show ?thesis by (simp only: represents_id)
next
  case True
  then obtain n c where name: "name = Some n" and c: "gen_code n fs = [c]" by blast
  have w: "list_all wf_field fs" and d: "distinct (map fname fs)" and u: "reflect_union fs \<Longrightarrow> ftype (hd fs) = GUint32"
    using wf wf_fields(2) [of fs] by auto
  define ms where "ms = map (\<lambda>f. (fname f, zero_of (type_of (ftype f)), decoders (ftype f))) fs"
  define zs where "zs = map (\<lambda>f. (fname f, zero_of (type_of (ftype f)))) fs"
  define D where "D = (\<lambda>f. case map_of ms f of Some (z, d, p) \<Rightarrow> d | None \<Rightarrow> dfail Eof)"
  define P where "P = (\<lambda>f. case map_of ms f of Some (z, d, p) \<Rightarrow> p | None \<Rightarrow> dfail Eof)"
  have look: "D (fname f) = fst (decoders (ftype f))" "P (fname f) = snd (decoders (ftype f))" if "f \<in> set fs" for f
    using map_of_fields [OF that d, of "\<lambda>f. (zero_of (type_of (ftype f)), decoders (ftype f))"]
    by (simp_all add: D_def P_def ms_def case_prod_unfold)
  have agree: "agree fs D" using IH look by (simp add: agree_def)
  have run: "dec_struct name fs (concat (map field_decoders fs)) = run_decode c zs D P"
    using addDefinition_gen_code [OF w, of n] c
    by (simp add: dec_struct_def name wf_fields(3) [OF w] ms_def [symmetric] D_def P_def, simp add: ms_def zs_def o_def)
  have ty: "type_of (GStruct name fs) = (if reflect_union fs then RUnion (tl (map (\<lambda>f. type_of (ftype f)) fs))
      else RStruct (map (\<lambda>f. type_of (ftype f)) fs))"
    by (simp add: wf_fields(1) [OF w])
  have R: "decodeReflect (RStruct (map (\<lambda>f. type_of (ftype f)) gs)) = dmap VList (dfields (map R gs))" for gs
    by (simp add: o_def)
  note ptr = ptr_pointee
  from c show ?thesis
  proof (cases rule: gen_code_cases)
    case empty
    then show ?thesis unfolding run ty by (simp add: zs_def stored_def reflect_union_def represents_def dthen_def)
  next
    case (union f gs)
    then have zs': "zs = (fname f, zero_of (type_of (ftype f))) # map (\<lambda>f. (fname f, zero_of (type_of (ftype f)))) gs"
      by (simp add: zs_def)
    show ?thesis
      unfolding run ty zs' union(3) using union d agree union_decode [of gs D _ n f] by (simp add: agree_def)
  next
    case plain
    then show ?thesis
      unfolding run ty plain(2) using plain_decode [OF agree d, of zs] R by (simp add: zs_def o_def)
  next
    case (star f gs)
    let ?t = "type_of (pointee (ftype f))"
    have f: "represents (\<lambda>x. x) (decodeReflect ?t) (P (fname f))" using IH' [of f] star look by simp
    have "agree gs D" using agree star(2) by (simp add: agree_def)
    note sd = star_decode [where P = P and n = "fname f", OF this f, of "map (\<lambda>f. (fname f, zero_of (type_of (ftype f)))) gs"]
    have zs': "zs = (fname f, VPtr None) # map (\<lambda>f. (fname f, zero_of (type_of (ftype f)))) gs"
      using star(2) arg_cong [OF ptr [OF star(3)], of "\<lambda>t. zero_of (type_of t)"] by (simp add: zs_def)
    have "R f = decodeReflect (RPtr ?t)" using arg_cong [OF ptr [OF star(3)], of "\<lambda>t. decodeReflect (type_of t)"] by simp
    then show ?thesis
      unfolding run ty zs' star(4) using star(1,2) sd d R [of fs] by (simp add: o_def del: decodeReflect.simps)
  next
    case (last gs f)
    let ?t = "type_of (pointee (ftype f))"
    have f: "represents (\<lambda>x. x) (decodeReflect ?t) (P (fname f))" using IH' [of f] last look by simp
    have "agree gs D" using agree last(2) by (simp add: agree_def)
    note ld = last_decode [where P = P and n = "fname f", OF this f, of "map (\<lambda>f. (fname f, zero_of (type_of (ftype f)))) gs"]
    have zs': "zs = map (\<lambda>f. (fname f, zero_of (type_of (ftype f)))) gs @ [(fname f, VPtr None)]"
      using last(2) arg_cong [OF ptr [OF last(3)], of "\<lambda>t. zero_of (type_of t)"] by (simp add: zs_def)
    have "R f = decodeReflect (RPtr ?t)" using arg_cong [OF ptr [OF last(3)], of "\<lambda>t. decodeReflect (type_of t)"] by simp
    then show ?thesis
      unfolding run ty zs' last(4) using last(1,2) ld d R [of fs] by (simp add: o_def del: decodeReflect.simps)
  qed
qed

lemma wrap_int_64: "wrap_int 64 (uint (v :: u32)) = uint v"
proof -
  have "uint v < 2 ^ 32" using uint_bounded [of v] by simp
  moreover from this have "uint v mod 2 ^ 64 = uint v" by (intro mod_pos_pos_trivial) simp_all
  ultimately show ?thesis by (simp add: wrap_int_def Let_def)
qed

lemma drepeat_map: "drepeat n (dmap f d) = dmap (map f) (drepeat n d)"
  by (induction n) (simp_all only: drepeat.simps dthen_laws list.map)

lemma slice_map: "dmap VList (dSlice (dmap f d)) = dmap (\<lambda>vs. VList (map f vs)) (dSlice d)"
  by (simp only: dSlice_def drepeat_map dthen_laws)

lemma arr3_map: "dmap VList (drepeat 3 (dmap f dUint32)) = dmap (\<lambda>(a, b, c). VList (map f [a, b, c])) dArr3"
  by (simp only: dArr3_def numeral_3_eq_3 drepeat.simps dthen_laws list.map prod.case)

lemma uint32_reflect: "decodeReflect RUint32 = dmap (\<lambda>i. VInt (uint i)) dUint32"
  by simp

lemma decoders_represent:
  shows "wf_type t \<Longrightarrow> represents (\<lambda>x. x) (decodeReflect (type_of t)) (fst (decoders t)) \<and>
      (is_ptr t \<longrightarrow> represents (\<lambda>x. x) (decodeReflect (type_of (pointee t))) (snd (decoders t)))"
    and "wf_field f \<Longrightarrow> represents (\<lambda>x. x) (R f) (fst (decoders (ftype f))) \<and>
      (is_ptr (ftype f) \<longrightarrow> represents (\<lambda>x. x) (decodeReflect (type_of (pointee (ftype f)))) (snd (decoders (ftype f))))"
proof (induction t and f)
  case GInt
  then show ?case by (simp add: wrap_int_64 represents_id)
next
  case (GSlice t)
  have "decodeReflect (type_of (GSlice t)) = fst (decoders (GSlice t))"
    using slice_map [where f = "\<lambda>i. VInt (uint i)" and d = dUint32] slice_map [where f = VString and d = dString]
    by (simp add: uint32_reflect dUint32s_def dStrings_def del: decodeReflect.simps(2))
  then show ?case by (simp add: represents_id del: decoders.simps type_of.simps)
next
  case (GArray n t)
  have "decodeReflect (type_of (GArray n t)) = fst (decoders (GArray n t))"
    using arr3_map [of "\<lambda>i. VInt (uint i)"] by (auto simp: numeral_3_eq_3)
  then show ?case by (simp add: represents_id del: decoders.simps type_of.simps)
next
  case (GStruct name fs)
  have "list_all wf_field fs" using GStruct.prems by simp
  then have "represents (\<lambda>x. x) (decodeReflect (type_of (GStruct name fs))) (dec_struct name fs (concat (map field_decoders fs)))"
    using GStruct.IH by (intro struct_decode [OF GStruct.prems]) (auto simp: list_all_iff)
  then show ?case by (simp add: decoders.simps(11) del: type_of.simps)
qed (auto simp: represents_id)

section \<open>Encoding\<close>

text \<open>The values of a type, whatever their size.\<close>

primrec of_type :: "rtype \<Rightarrow> rval \<Rightarrow> bool" where
  "of_type RBool v = (case v of VBool _ \<Rightarrow> True | _ \<Rightarrow> False)"
| "of_type (RUint w) v = (case v of VInt i \<Rightarrow> True | _ \<Rightarrow> False)"
| "of_type (RInt w) v = (case v of VInt i \<Rightarrow> True | _ \<Rightarrow> False)"
| "of_type (RWide s) v = (case v of VInt i \<Rightarrow> True | _ \<Rightarrow> False)"
| "of_type RString v = (case v of VString x \<Rightarrow> True | _ \<Rightarrow> False)"
| "of_type (RArray n t) v =
     (case v of VBytes b \<Rightarrow> t = RUint8 \<and> length b = n
      | VList vs \<Rightarrow> t \<noteq> RUint8 \<and> length vs = n \<and> list_all (of_type t) vs | _ \<Rightarrow> False)"
| "of_type (RSlice t) v =
     (case v of VBytes b \<Rightarrow> t = RUint8 | VList vs \<Rightarrow> t \<noteq> RUint8 \<and> list_all (of_type t) vs | _ \<Rightarrow> False)"
| "of_type (RPtr t) v = (case v of VPtr p \<Rightarrow> (case p of None \<Rightarrow> True | Some x \<Rightarrow> of_type t x) | _ \<Rightarrow> False)"
| "of_type (RStruct ts) v =
     (case v of VList vs \<Rightarrow> length vs = length ts \<and> list_all (\<lambda>(f, x). f x) (zip (map of_type ts) vs) | _ \<Rightarrow> False)"
| "of_type (RUnion ts) v =
     (case v of VUnion mode vs \<Rightarrow> length vs = length ts \<and> list_all (\<lambda>(f, x). f x) (zip (map of_type ts) vs) | _ \<Rightarrow> False)"

declare EncodeAll_single [simp]

lemma EncodeAll_pair: "EncodeAll (x # xs) = EncodeAll [x, EncodeAll xs]"
  by (cases x; cases "snd x") (auto split: prod.split)

lemma EncodeAll_append: "EncodeAll (xs @ ys) = EncodeAll [EncodeAll xs, EncodeAll ys]"
proof (induction xs)
  case Nil
  then show ?case by (cases "EncodeAll ys"; cases "snd (EncodeAll ys)") auto
next
  case (Cons x xs)
  obtain b e where x: "x = (b, e)" by force
  show ?case
  proof (cases e)
    case None
    obtain c d where "EncodeAll xs = (c, d)" by force
    then show ?thesis using Cons x None by (cases d) (auto split: prod.split)
  qed (simp add: x)
qed

text \<open>Fields by name, and in order.\<close>

lemma member_nth:
  "distinct ns \<Longrightarrow> length ns = length vs \<Longrightarrow> i < length ns \<Longrightarrow> member (zip ns vs) (ns ! i) = vs ! i"
  by (simp add: member_def map_of_zip_nth)

abbreviation RE :: "gfield \<Rightarrow> rval \<Rightarrow> xenc" where "RE f \<equiv> encodeReflect (type_of (ftype f))"

lemma enc_args_eq:
  assumes "length us = length gs" and "\<And>i. i < length gs \<Longrightarrow> E (fname (gs ! i)) (member xs (fname (gs ! i))) = RE (gs ! i) (us ! i)"
  shows "map (enc_arg xs E) (genc gs) = map (\<lambda>(f, x). f x) (zip (map RE gs) us)"
  using assms by (intro nth_equalityI) (simp_all add: genc_def enc_arg_def)

lemma of_type_fields:
  "length vs = length fs \<Longrightarrow> list_all (\<lambda>(f, x). f x) (zip (map of_type (map (\<lambda>f. type_of (ftype f)) fs)) vs) \<longleftrightarrow>
     (\<forall>i < length fs. of_type (type_of (ftype (fs ! i))) (vs ! i))"
  by (simp add: list_all_length)

text \<open>A struct, with the fields of its value.\<close>

definition enc_agree :: "gfield list \<Rightarrow> rval list \<Rightarrow> (string \<Rightarrow> rval \<Rightarrow> xenc) \<Rightarrow> bool" where
  "enc_agree fs vs E \<longleftrightarrow> length vs = length fs \<and> distinct (map fname fs) \<and>
     (\<forall>i < length fs. \<not> ptr_field (fs ! i) \<longrightarrow> E (fname (fs ! i)) (vs ! i) = RE (fs ! i) (vs ! i))"

lemma enc_agree_args:
  assumes a: "enc_agree fs vs E" and fs: "fs = as @ gs @ bs" and vs: "vs = us @ ws @ xs" "length us = length as" "length ws = length gs"
    and np: "\<not> list_ex ptr_field gs"
  shows "map (enc_arg (zip (map fname fs) vs) E) (genc gs) = map (\<lambda>(f, x). f x) (zip (map RE gs) ws)"
proof (rule enc_args_eq)
  fix i assume i: "i < length gs"
  let ?j = "length as + i"
  have j: "?j < length fs" "fs ! ?j = gs ! i" "vs ! ?j = ws ! i" using i fs vs by (simp_all add: nth_append)
  have "member (zip (map fname fs) vs) (map fname fs ! ?j) = vs ! ?j"
    using a j(1) by (intro member_nth) (simp_all add: enc_agree_def)
  moreover have "\<not> ptr_field (gs ! i)" using np i by (auto simp: list_ex_iff)
  ultimately show "E (fname (gs ! i)) (member (zip (map fname fs) vs) (fname (gs ! i))) = RE (gs ! i) (ws ! i)"
    using a j by (auto simp: enc_agree_def)
qed (rule vs(3))

lemma plain_encode:
  assumes "enc_agree fs vs E" and "\<not> list_ex ptr_field fs"
  shows "run_encode (Definition n ds (genc fs)) (zip (map fname fs) vs) E P = EncodeAll (map (\<lambda>(f, x). f x) (zip (map RE fs) vs))"
  using enc_agree_args [of fs vs E "[]" fs "[]" "[]" vs "[]"] assms by (simp add: enc_agree_def)

lemma last_encode:
  assumes a: "enc_agree (gs @ [f]) (ws @ [VPtr p]) E" and np: "\<not> list_ex ptr_field gs" and f: "ftype f = GPtr t"
    and P: "\<And>u. p = Some u \<Longrightarrow> P (fname f) u = encodeReflect (type_of t) u"
  shows "run_encode (DefinitionStar n ds (''x.'' @ fname f) e (genc gs)) (zip (map fname (gs @ [f])) (ws @ [VPtr p])) E P =
    EncodeAll (map (\<lambda>(f, x). f x) (zip (map RE (gs @ [f])) (ws @ [VPtr p])))"
proof -
  have l: "length ws = length gs" using a by (simp add: enc_agree_def)
  have args: "map (enc_arg (zip (map fname (gs @ [f])) (ws @ [VPtr p])) E) (genc gs) = map (\<lambda>(f, x). f x) (zip (map RE gs) ws)"
    using enc_agree_args [OF a, of "[]" gs "[f]" "[]" ws "[VPtr p]"] np l by simp
  have m: "member (zip (map fname (gs @ [f])) (ws @ [VPtr p])) (fname f) = VPtr p"
    using member_nth [of "map fname (gs @ [f])" "ws @ [VPtr p]" "length gs"] a l by (simp add: enc_agree_def nth_append)
  have n: "drop 2 (''x.'' @ fname f) = fname f" by simp
  have "EncodeAll (map (\<lambda>(f, x). f x) (zip (map RE (gs @ [f])) (ws @ [VPtr p]))) =
      EncodeAll [EncodeAll (map (\<lambda>(f, x). f x) (zip (map RE gs) ws)), eOption (encodeReflect (type_of t)) p]"
    using l by (simp add: f EncodeAll_append [of _ "[_]"])
  then show ?thesis
    unfolding run_encode.simps n m args using P by (cases p) (simp_all add: eOption_def)
qed

lemma star_encode:
  assumes a: "enc_agree (f # gs) (VPtr p # ws) E" and np: "\<not> list_ex ptr_field gs" and f: "ftype f = GPtr t"
    and P: "\<And>u. p = Some u \<Longrightarrow> P (fname f) u = encodeReflect (type_of t) u"
  shows "run_encode (StarDefinition n (''x.'' @ fname f) e ds (genc gs)) (zip (map fname (f # gs)) (VPtr p # ws)) E P =
    EncodeAll (map (\<lambda>(f, x). f x) (zip (map RE (f # gs)) (VPtr p # ws)))"
proof -
  have l: "length ws = length gs" using a by (simp add: enc_agree_def)
  have args: "map (enc_arg (zip (map fname (f # gs)) (VPtr p # ws)) E) (genc gs) = map (\<lambda>(f, x). f x) (zip (map RE gs) ws)"
    using enc_agree_args [OF a, of "[f]" gs "[]" "[VPtr p]" ws "[]"] np l by simp
  have m: "member (zip (map fname (f # gs)) (VPtr p # ws)) (fname f) = VPtr p" by (simp add: member_def)
  have n: "drop 2 (''x.'' @ fname f) = fname f" by simp
  have "EncodeAll (map (\<lambda>(f, x). f x) (zip (map RE (f # gs)) (VPtr p # ws))) =
      EncodeAll [eOption (encodeReflect (type_of t)) p, EncodeAll (map (\<lambda>(f, x). f x) (zip (map RE gs) ws))]"
    by (simp add: f EncodeAll_pair [of _ "map _ _"])
  then show ?thesis
    unfolding run_encode.simps n m args using P by (cases p) (simp_all add: eOption_def)
qed

lemma union_encode:
  assumes gs: "enc_agree gs vs E" and np: "\<not> list_ex ptr_field gs" and d: "distinct (map fname (f # gs))"
  shows "run_encode (Union n ds (genc (f # gs))) (members (map fname (f # gs)) (VUnion mode vs)) E P =
    (if length gs \<le> unat mode then (put_u32 mode, Some (BadUnionMode mode))
     else EncodeAll [eUint32 mode, RE (gs ! unat mode) (vs ! unat mode)])"
proof -
  let ?xs = "zip (map fname (f # gs)) (VInt (uint mode) # vs)"
  have l: "length vs = length gs" using gs by (simp add: enc_agree_def)
  have m: "member ?xs (fname f) = VInt (uint mode)" by (simp add: member_def)
  have "member ?xs (fname (gs ! i)) = vs ! i" if "i < length gs" for i
    using member_nth [of "map fname (f # gs)" "VInt (uint mode) # vs" "Suc i"] d l that by simp
  then have args: "map (enc_arg ?xs E) (genc gs) = map (\<lambda>(f, x). f x) (zip (map RE gs) vs)"
    using gs np by (intro enc_args_eq) (auto simp: enc_agree_def list_ex_iff)
  have n: "drop 2 (hd (genc (f # gs))) = fname f" "tl (genc (f # gs)) = genc gs" by (simp_all add: genc_def)
  show ?thesis
    unfolding run_encode.simps members.simps n m rval.case args by (simp add: eUnion_def l)
qed

lemma struct_reflect:
  assumes w: "list_all wf_field fs" and t: "of_type (type_of (GStruct name fs)) v"
    and IH: "\<And>f v. f \<in> set fs \<Longrightarrow> of_type (type_of (ftype f)) v \<Longrightarrow> fst (snd (encoders (ftype f))) v = RE f v"
  shows "enc_fields fs (map (\<lambda>f. fst (snd (encoders (ftype f)))) fs) v = encodeReflect (type_of (GStruct name fs)) v"
proof (cases "reflect_union fs")
  case True
  then obtain f gs where fs: "fs = f # gs" by (cases fs) (auto simp: reflect_union_def)
  obtain mode vs where v: "v = VUnion mode vs" "length vs = length gs"
      "list_all (\<lambda>(f, x). f x) (zip (map of_type (map (\<lambda>f. type_of (ftype f)) gs)) vs)"
    using t True wf_fields(1) [OF w] fs by (auto split: rval.splits simp: o_def)
  then have "of_type (type_of (ftype (gs ! i))) (vs ! i)" if "i < length gs" for i
    using of_type_fields [of vs gs] that by simp
  then show ?thesis
    using True IH wf_fields(1) [OF w] v(1,2) fs by (auto simp: enc_fields_def not_le o_def)
next
  case False
  then obtain vs where v: "v = VList vs" "length vs = length fs"
      "list_all (\<lambda>(f, x). f x) (zip (map of_type (map (\<lambda>f. type_of (ftype f)) fs)) vs)"
    using t wf_fields(1) [OF w] by (auto split: rval.splits simp: o_def)
  then have o: "of_type (type_of (ftype (fs ! i))) (vs ! i)" if "i < length fs" for i
    using of_type_fields [of vs fs] that by simp
  have "map (\<lambda>(f, x). f x) (zip (map (\<lambda>f. fst (snd (encoders (ftype f)))) fs) vs) = map (\<lambda>(f, x). f x) (zip (map RE fs) vs)"
    using o IH v(2) by (intro nth_equalityI) simp_all
  then show ?thesis using False wf_fields(1) [OF w] v(1) by (simp add: enc_fields_def o_def)
qed

lemma struct_encode:
  assumes wf: "wf_type (GStruct name fs)" and t: "of_type (type_of (GStruct name fs)) v"
    and IH: "\<And>f v. f \<in> set fs \<Longrightarrow> of_type (type_of (ftype f)) v \<Longrightarrow> \<not> ptr_field f \<Longrightarrow> fst (encoders (ftype f)) v = RE f v"
    and IH': "\<And>f v. f \<in> set fs \<Longrightarrow> ptr_field f \<Longrightarrow> of_type (type_of (pointee (ftype f))) v \<Longrightarrow>
      snd (snd (encoders (ftype f))) v = encodeReflect (type_of (pointee (ftype f))) v"
    and rest: "reflect v = encodeReflect (type_of (GStruct name fs)) v"
  shows "enc_struct name fs (map (\<lambda>f. (fname f, encoders (ftype f))) fs) reflect v = encodeReflect (type_of (GStruct name fs)) v"
proof (cases "\<exists>n c. name = Some n \<and> gen_code n fs = [c]")
  case False
  have w: "list_all wf_field fs" using wf by simp
  show ?thesis
    using False addDefinition_gen_code [OF w] rest
    by (auto simp: enc_struct_def simp del: type_of.simps split: option.split list.split)
next
  case True
  then obtain n c where name: "name = Some n" and c: "gen_code n fs = [c]" by blast
  have w: "list_all wf_field fs" and d: "distinct (map fname fs)" using wf wf_fields(2) [of fs] by auto
  let ?ms = "map (\<lambda>f. (fname f, encoders (ftype f))) fs"
  define E where "E = (\<lambda>f. case map_of ?ms f of Some (e, r, p) \<Rightarrow> e | None \<Rightarrow> (\<lambda>_. ([], None)))"
  define P where "P = (\<lambda>f. case map_of ?ms f of Some (e, r, p) \<Rightarrow> p | None \<Rightarrow> (\<lambda>_. ([], None)))"
  have look: "E (fname f) = fst (encoders (ftype f))" "P (fname f) = snd (snd (encoders (ftype f)))" if "f \<in> set fs" for f
    using map_of_fields [OF that d, of "\<lambda>f. encoders (ftype f)"] by (simp_all add: E_def P_def case_prod_unfold)
  have run: "enc_struct name fs ?ms reflect v = run_encode c (members (map fname fs) v) E P"
    using addDefinition_gen_code [OF w, of n] c by (simp add: enc_struct_def name E_def P_def o_def)
  have ty: "type_of (GStruct name fs) = (if reflect_union fs then RUnion (tl (map (\<lambda>f. type_of (ftype f)) fs))
      else RStruct (map (\<lambda>f. type_of (ftype f)) fs))"
    by (simp add: wf_fields(1) [OF w])
  have agree: "enc_agree gs vs E" if "set gs \<subseteq> set fs" "distinct (map fname gs)" "length vs = length gs"
      "list_all (\<lambda>(f, x). f x) (zip (map of_type (map (\<lambda>f. type_of (ftype f)) gs)) vs)" for gs vs
    using that of_type_fields [of vs gs] IH look unfolding enc_agree_def by (simp add: subset_iff)
  have struct: "\<exists>vs. v = VList vs \<and> enc_agree fs vs E \<and> (\<forall>i < length fs. of_type (type_of (ftype (fs ! i))) (vs ! i))"
    if "\<not> reflect_union fs"
    using t that agree [of fs] d of_type_fields [of _ fs] unfolding ty by (auto split: rval.splits)
  have RE: "encodeReflect (RStruct (map (\<lambda>f. type_of (ftype f)) gs)) (VList vs) =
      EncodeAll (map (\<lambda>(f, x). f x) (zip (map RE gs) vs))" for gs vs
    by (simp add: o_def)
  have ptr: "\<exists>p. u = VPtr p \<and> (\<forall>x. p = Some x \<longrightarrow> P (fname f) x = encodeReflect (type_of (pointee (ftype f))) x)"
    if f: "f \<in> set fs" "ptr_field f" and u: "of_type (type_of (ftype f)) u" for f u
    using u IH' [OF f] look [OF f(1)] arg_cong [OF ptr_pointee [OF f(2)], of type_of]
    by (auto split: rval.splits option.splits)
  from c show ?thesis
  proof (cases rule: gen_code_cases)
    case empty
    then show ?thesis using struct unfolding run ty by (auto simp: reflect_union_def)
  next
    case (union f gs)
    obtain mode vs where v: "v = VUnion mode vs" "length vs = length gs"
        "list_all (\<lambda>(f, x). f x) (zip (map of_type (map (\<lambda>f. type_of (ftype f)) gs)) vs)"
      using t union(1,2) unfolding ty by (auto split: rval.splits)
    have "enc_agree gs vs E" using v d union(1) by (intro agree) auto
    then have "run_encode c (members (map fname fs) v) E P =
        (if length gs \<le> unat mode then (put_u32 mode, Some (BadUnionMode mode))
         else EncodeAll [eUint32 mode, RE (gs ! unat mode) (vs ! unat mode)])"
      unfolding union(3) unfolding union(1) v(1) using union(4) d unfolding union(1) by (intro union_encode) simp_all
    then show ?thesis unfolding run ty using v(1) union(1,2) by (simp add: o_def)
  next
    case plain
    then obtain vs where v: "v = VList vs" "enc_agree fs vs E" using struct by blast
    from plain_encode [OF v(2) plain(3)] show ?thesis unfolding run ty using v(1) plain(1,2) RE by simp
  next
    case (star f gs)
    obtain vs where v: "v = VList vs" "enc_agree fs vs E" "of_type (type_of (ftype (fs ! 0))) (vs ! 0)"
      using struct star(1,2) by fastforce
    obtain u ws where vs: "vs = u # ws" using v(2) star(2) by (cases vs) (auto simp: enc_agree_def)
    obtain p where p: "u = VPtr p" "\<forall>x. p = Some x \<longrightarrow> P (fname f) x = encodeReflect (type_of (pointee (ftype f))) x"
      using ptr [of f u] star(2,3) v(3) vs by auto
    have "run_encode c (zip (map fname fs) vs) E P = EncodeAll (map (\<lambda>(f, x). f x) (zip (map RE fs) vs))"
      using star_encode [of f gs p ws E "pointee (ftype f)" P n] v(2) p star ptr_pointee [OF star(3)] by (simp add: vs)
    then show ?thesis unfolding run ty using v(1) star(1) RE by simp
  next
    case (last gs f)
    obtain vs where v: "v = VList vs" "enc_agree fs vs E" "of_type (type_of (ftype (fs ! length gs))) (vs ! length gs)"
      using struct last(1,2) by fastforce
    obtain ws u where vs: "vs = ws @ [u]" "length ws = length gs"
      using v(2) last(2) by (cases vs rule: rev_cases) (auto simp: enc_agree_def)
    obtain p where p: "u = VPtr p" "\<forall>x. p = Some x \<longrightarrow> P (fname f) x = encodeReflect (type_of (pointee (ftype f))) x"
      using ptr [of f u] last(2,3) v(3) vs by (auto simp: nth_append)
    have "run_encode c (zip (map fname fs) vs) E P = EncodeAll (map (\<lambda>(f, x). f x) (zip (map RE fs) vs))"
      using last_encode [of gs f ws p E "pointee (ftype f)" P n] v(2) p last ptr_pointee [OF last(3)] by (simp add: vs(1))
    then show ?thesis unfolding run ty using v(1) last(1) RE by simp
  qed
qed

lemma eSlice_map: "(\<And>x. x \<in> set vs \<Longrightarrow> f (g x) = h x) \<Longrightarrow> eSlice f (map g vs) = eSlice h vs"
  unfolding eSlice_def list.map_comp length_map
  by (rule arg_cong [where f = EncodeAll], rule arg_cong2 [where f = Cons], rule refl, rule map_cong) simp_all

lemma known_values:
  "of_type RUint32 v \<Longrightarrow> eUint32 (of_int (int_of v)) = encodeReflect RUint32 v"
  "of_type RString v \<Longrightarrow> eString (string_of v) = encodeReflect RString v"
  by (cases v, simp_all)+

lemma known_slices:
  "list_all (of_type RUint32) vs \<Longrightarrow> eUint32s (map (of_int \<circ> int_of) vs) = eSlice (encodeReflect RUint32) vs"
  "list_all (of_type RString) vs \<Longrightarrow> eStrings (map string_of vs) = eSlice (encodeReflect RString) vs"
  unfolding eUint32s_def eStrings_def list_all_iff
  by (rule eSlice_map, unfold o_apply, rule known_values, simp) (rule eSlice_map, rule known_values, simp)

lemma three: "length vs = 3 \<Longrightarrow> vs = [vs ! 0, vs ! 1, vs ! 2]"
  by (intro nth_equalityI) (auto simp: less_Suc_eq numeral_3_eq_3 numeral_2_eq_2)

lemma known_array:
  "list_all (of_type RUint32) vs \<Longrightarrow> length vs = 3 \<Longrightarrow>
     EncodeAll [enc_int (vs ! 0), enc_int (vs ! 1), enc_int (vs ! 2)] = EncodeAll (map (encodeReflect RUint32) vs)"
  by (subst (4) three) (simp_all add: list_all_length)

lemma encoders_agree:
  shows "wf_type t \<Longrightarrow> (\<forall>v. of_type (type_of t) v \<longrightarrow>
      fst (encoders t) v = encodeReflect (type_of t) v \<and> fst (snd (encoders t)) v = encodeReflect (type_of t) v) \<and>
      (is_ptr t \<longrightarrow> (\<forall>v. of_type (type_of (pointee t)) v \<longrightarrow> snd (snd (encoders t)) v = encodeReflect (type_of (pointee t)) v))"
    and "wf_field f \<Longrightarrow> (\<forall>v. of_type (type_of (ftype f)) v \<longrightarrow>
      fst (encoders (ftype f)) v = RE f v \<and> fst (snd (encoders (ftype f))) v = RE f v) \<and>
      (ptr_field f \<longrightarrow> (\<forall>v. of_type (type_of (pointee (ftype f))) v \<longrightarrow>
         snd (snd (encoders (ftype f))) v = encodeReflect (type_of (pointee (ftype f))) v))"
proof (induction t and f)
  case (GSlice t)
  then show ?case
    by (auto split: rval.split simp: known_slices list_all_iff Let_def intro!: eSlice_map [where g = "\<lambda>x. x", simplified])
next
  case (GArray n t)
  have reflect: "EncodeAll (map (fst (snd (encoders t))) vs) = EncodeAll (map (encodeReflect (type_of t)) vs)"
    if "list_all (of_type (type_of t)) vs" for vs
    using that GArray by (auto simp: list_all_iff intro: arg_cong [where f = EncodeAll])
  show ?case
    using reflect known_array by (auto split: rval.split simp: Let_def)
next
  case (GPtr t)
  then show ?case by (auto split: rval.split option.split simp: eOption_def Let_def)
next
  case (GStruct name fs)
  have w: "list_all wf_field fs" using GStruct.prems by simp
  then have IH: "wf_field f" "f \<in> set fs \<Longrightarrow> wf_field f" if "f \<in> set fs" for f using that by (simp_all add: list_all_iff)
  have reflect: "enc_fields fs (map (\<lambda>f. fst (snd (encoders (ftype f)))) fs) v = encodeReflect (type_of (GStruct name fs)) v"
    if "of_type (type_of (GStruct name fs)) v" for v
    using GStruct.IH IH by (intro struct_reflect [OF w that]) simp
  have "enc_struct name fs (map (\<lambda>f. (fname f, encoders (ftype f))) fs)
      (enc_fields fs (map (\<lambda>f. fst (snd (encoders (ftype f)))) fs)) v = encodeReflect (type_of (GStruct name fs)) v"
    if "of_type (type_of (GStruct name fs)) v" for v
    using GStruct.IH IH by (intro struct_encode [OF GStruct.prems that] reflect [OF that]) simp_all
  then show ?case
    unfolding encoders.simps(11) Let_def wf_fields(4,5) [OF w] using reflect by (simp del: type_of.simps)
qed (auto split: rval.split)

section \<open>Values that fit\<close>

lemma of_type_zero: "of_type t (zero_of t)"
  by (induction t) (auto simp: list_all_length)

lemma codable_of_type: "codable t v \<Longrightarrow> of_type t v"
proof (induction t arbitrary: v)
  case (RStruct ts)
  then show ?case by (auto simp: list_all_length split: rval.splits)
next
  case (RUnion ts)
  obtain mode vs where v: "v = VUnion mode vs" "unat mode < length ts" "length vs = length ts"
      "vs = (map zero_of ts)[unat mode := vs ! unat mode]" "codable (ts ! unat mode) (vs ! unat mode)"
    using RUnion.prems by (cases v) auto
  have "of_type (ts ! i) (vs ! i)" if "i < length ts" for i
  proof (cases "i = unat mode")
    case True
    then show ?thesis using RUnion.IH v(2,5) by simp
  next
    case False
    then have "vs ! i = zero_of (ts ! i)" using that by (subst v(4)) simp
    then show ?thesis by (simp add: of_type_zero)
  qed
  then show ?case using v(1,3) by (simp add: list_all_length)
qed (auto split: rval.splits option.splits simp: list_all_iff)

section \<open>Round trips\<close>

lemma Encode_Decode:
  assumes "wf_type t" and "\<not> is_ptr t" and "codable (type_of t) v"
  shows "snd (Encode t v) = None \<and> Decode t (fst (Encode t v) @ rest) = Inr (v, rest)"
proof -
  have e: "Encode t v = encodeReflect (type_of t) v"
    using encoders_agree(1) [OF assms(1)] codable_of_type [OF assms(3)] by (simp add: Encode_def)
  have r: "recodes (encodeReflect (type_of t)) (decodeReflect (type_of t)) v" by (rule reflect_recodes [OF assms(3)])
  have "same_result (\<lambda>x. x) (decodeReflect (type_of t) b) (Decode t b)" for b
    using decoders_represent(1) [OF assms(1)] by (simp add: represents_def Decode_def)
  from this [of "fst (Encode t v) @ rest"] r show ?thesis
    by (auto simp: e recodes_def dest!: same_result_Inr)
qed

definition fits :: "gtype \<Rightarrow> rval \<Rightarrow> bool" where
  "fits t v \<longleftrightarrow> wf_type t \<and> \<not> is_ptr t \<and> codable (type_of t) v"

lemma Write_then_Read: "fits t v \<Longrightarrow> snd (Encoder_Write t v) = None \<and> Decoder_Read t (fst (Encode t v) @ rest) = Inr (v, fst (Encoder_Write t v))"
  using Encode_Decode [of t v rest] by (simp add: fits_def Decoder_Read_def Encoder_Write_def)

lemma unmarshal_all:
  assumes "list_all2 fits ts vs"
  shows "\<exists>b. EncodeAll (map2 Encode ts vs) = (b, None) \<and> (\<forall>pre rest. unmarshal (pre @ b @ rest) ts (length pre) = (vs, rest, None))"
  using assms
proof (induction rule: list_all2_induct)
  case (Cons t ts v vs)
  then obtain b where b: "EncodeAll (map2 Encode ts vs) = (b, None)"
      "\<And>pre rest. unmarshal (pre @ b @ rest) ts (length pre) = (vs, rest, None)" by blast
  have e: "snd (Encode t v) = None" using Write_then_Read [OF Cons(1)] by (simp add: Encoder_Write_def)
  have "unmarshal (pre @ (fst (Encode t v) @ b) @ rest) (t # ts) (length pre) = (v # vs, rest, None)" for pre rest
    using Write_then_Read [OF Cons(1), of "b @ rest"] b(2) [of "pre @ fst (Encode t v)" rest] by (simp add: Encoder_Write_def)
  moreover have "EncodeAll (map2 Encode (t # ts) (v # vs)) = (fst (Encode t v) @ b, None)" using b(1) e by (simp add: EncodeAll_ok)
  ultimately show ?case by blast
qed simp

section \<open>A message\<close>

text \<open>The arguments of \<^verbatim>\<open>EXCHANGE_ID\<close>: a union, lists, and a pointer at the end.\<close>

definition gtype_Void :: gtype where "gtype_Void = GStruct (Some ''Void'') []"

definition gtype_StateProtectOps4 :: gtype where
  "gtype_StateProtectOps4 = GStruct (Some ''StateProtectOps4'')
     [GField [''MustEnforce''] (GSlice GUint32) [], GField [''MustAllow''] (GSlice GUint32) []]"

definition gtype_SsvSpParams4 :: gtype where
  "gtype_SsvSpParams4 = GStruct (Some ''SsvSpParams4'')
     [GField [''Ops''] gtype_StateProtectOps4 [], GField [''HashAlgs''] (GSlice GString) [],
      GField [''EncrAlgs''] (GSlice GString) [], GField [''Window''] GUint32 [], GField [''NumGssHandles''] GUint32 []]"

definition gtype_StateProtect4 :: gtype where
  "gtype_StateProtect4 = GStruct (Some ''StateProtect4'')
     [GField [''How''] GUint32 [(''xdr'', ''union'')], GField [''Void''] gtype_Void [],
      GField [''MachOps''] gtype_StateProtectOps4 [], GField [''SsvInfo''] gtype_SsvSpParams4 []]"

definition gtype_ClientOwner4 :: gtype where
  "gtype_ClientOwner4 = GStruct (Some ''ClientOwner4'') [GField [''Verifier''] GUint64 [], GField [''OwnerId''] (GSlice GByte) []]"

definition gtype_NfsTime4 :: gtype where
  "gtype_NfsTime4 = GStruct (Some ''NfsTime4'') [GField [''Seconds''] GUint64 [], GField [''NSeconds''] GUint32 []]"

definition gtype_NfsImplId4 :: gtype where
  "gtype_NfsImplId4 = GStruct (Some ''NfsImplId4'')
     [GField [''Domain''] GString [], GField [''Name''] GString [], GField [''Date''] gtype_NfsTime4 []]"

definition gtype_EXCHANGE_ID4args :: gtype where
  "gtype_EXCHANGE_ID4args = GStruct (Some ''EXCHANGE_ID4args'')
     [GField [''ClientOwner''] gtype_ClientOwner4 [], GField [''Flags''] GUint32 [],
      GField [''StateProtect''] gtype_StateProtect4 [], GField [''ClientImplId''] (GPtr gtype_NfsImplId4) []]"

lemmas exchange_types = gtype_Void_def gtype_StateProtectOps4_def gtype_SsvSpParams4_def gtype_StateProtect4_def gtype_ClientOwner4_def
  gtype_NfsTime4_def gtype_NfsImplId4_def gtype_EXCHANGE_ID4args_def

lemma wf_EXCHANGE_ID4args: "wf_type gtype_EXCHANGE_ID4args" "\<not> is_ptr gtype_EXCHANGE_ID4args"
  by (simp_all add: exchange_types reflect_union_def)

definition a_client :: rval where
  "a_client = VList [VList [VInt 11, VBytes [1, 2]], VInt 3,
     VUnion 1 [VList [], VList [VList [VInt 5, VInt 6], VList []],
       VList [VList [VList [], VList []], VList [], VList [], VInt 0, VInt 0]],
     VPtr (Some (VList [VString ''d'', VString ''n'', VList [VInt 7, VInt 8]]))]"

lemma a_client_codable: "codable (type_of gtype_EXCHANGE_ID4args) a_client"
  by (simp add: exchange_types a_client_def reflect_union_def)

section \<open>Properties\<close>

text \<open>C20: The generated file changes nothing: for every type of a message, decoding with the generated methods reads from a
  buffer what decoding by reflection reads - the same value, the same bytes consumed, the same failures - and encoding
  writes the same bytes.\<close>

theorem coders_agree:
  assumes "wf_type t" and "\<not> is_ptr t" and "of_type (type_of t) v"
  shows "on_buf (Decode t b) = on_buf (decodeReflect (type_of t) b) \<and> Encode t v = encodeReflect (type_of t) v"
proof -
  have "same_result (\<lambda>x. x) (decodeReflect (type_of t) b) (Decode t b)"
    using decoders_represent(1) [OF assms(1)] by (simp add: represents_def Decode_def)
  then have "on_buf (decodeReflect (type_of t) b) = (case on_buf (Decode t b) of Inl s \<Rightarrow> Inl s | Inr (x, rest) \<Rightarrow> Inr (x, rest))"
    by (rule same_result_on_buf)
  also have "\<dots> = on_buf (Decode t b)" by (auto split: sum.split)
  finally show ?thesis using encoders_agree(1) [OF assms(1)] assms(3) by (simp add: Encode_def)
qed

theorem coders_agree_witness:
  "on_buf (Decode gtype_EXCHANGE_ID4args [0, 0, 0, 0, 0, 0, 0, 7]) = on_buf (decodeReflect (type_of gtype_EXCHANGE_ID4args) [0, 0, 0, 0, 0, 0, 0, 7]) \<and>
   Encode gtype_EXCHANGE_ID4args a_client = encodeReflect (type_of gtype_EXCHANGE_ID4args) a_client"
  by (rule coders_agree [OF wf_EXCHANGE_ID4args codable_of_type [OF a_client_codable]])

text \<open>C21: What \<^verbatim>\<open>Marshal\<close> writes \<^verbatim>\<open>Unmarshal\<close> reads back, for all types of messages, whether their structs have generated
  methods or not, and values that fit: the same values, and exactly the bytes that follow are left.\<close>

theorem generated_roundtrip:
  assumes "list_all2 fits ts vs"
  shows "\<exists>b. Marshal (map2 Encode ts vs) = Inr b \<and> Unmarshal (b @ rest) ts = (vs, rest, None)"
proof -
  obtain b where b: "EncodeAll (map2 Encode ts vs) = (b, None)"
      "\<And>pre rest. unmarshal (pre @ b @ rest) ts (length pre) = (vs, rest, None)"
    using unmarshal_all [OF assms] by blast
  then show ?thesis using b(2) [of "[]" rest] by (simp add: Marshal_def Unmarshal_def)
qed

theorem generated_roundtrip_witness:
  "\<exists>b. Marshal [Encode gtype_EXCHANGE_ID4args a_client, Encode GInt (VInt 5)] = Inr b \<and>
     Unmarshal (b @ [9]) [gtype_EXCHANGE_ID4args, GInt] = ([a_client, VInt 5], [9], None)"
proof -
  have "list_all2 fits [gtype_EXCHANGE_ID4args, GInt] [a_client, VInt 5]"
    using wf_EXCHANGE_ID4args a_client_codable by (simp add: fits_def)
  from generated_roundtrip [OF this, of "[9]"] show ?thesis by simp
qed

end
