(* ===== verification/OpRules.thy ===== *)
theory OpRules
  imports RunInv
begin

text \<open>
  Rules for properties that hold of every operation. An operation is made of a few moves; what a property says of the state
  before each of them and of the result is given to the locale below, which returns one rule per move.
\<close>

definition results :: "(go_error + u32 \<Rightarrow> 'fs st \<Rightarrow> bool) \<Rightarrow> 'fs reply \<Rightarrow> bool" where
  "results G m \<longleftrightarrow> (\<forall>r st. m = Inr (r, st) \<longrightarrow> G r st)"

text \<open>Changes of the file system, the client table, the buffers and the random source; they do not concern the workers.\<close>

definition environs :: "'fs \<Rightarrow> Clients \<Rightarrow> Pool \<Rightarrow> draws \<Rightarrow> 'fs st \<Rightarrow> 'fs st" where
  "environs fs cs p ds st = st\<lparr>st_w := (st_w st)\<lparr>W_fs := fs, W_clients := cs, W_pool := p, W_draws := ds\<rparr>\<rparr>"

lemma environs_eq:
  "upd_pool f st = environs (W_fs (st_w st)) (W_clients (st_w st)) (f (W_pool (st_w st))) (W_draws (st_w st)) st"
  "upd_clients g st = environs (W_fs (st_w st)) (g (W_clients (st_w st))) (W_pool (st_w st)) (W_draws (st_w st)) st"
  "st\<lparr>st_w := (st_w st)\<lparr>W_fs := fs\<rparr>\<rparr> = environs fs (W_clients (st_w st)) (W_pool (st_w st)) (W_draws (st_w st)) st"
  "st\<lparr>st_w := (st_w st)\<lparr>W_draws := ds\<rparr>\<rparr> = environs (W_fs (st_w st)) (W_clients (st_w st)) (W_pool (st_w st)) ds st"
  "st\<lparr>st_w := (st_w st)\<lparr>W_clients := cs, W_draws := ds\<rparr>\<rparr> = environs (W_fs (st_w st)) cs (W_pool (st_w st)) ds st"
  "st\<lparr>st_w := (st_w st)\<lparr>W_clients := cs, W_pool := p\<rparr>\<rparr> = environs (W_fs (st_w st)) cs p (W_draws (st_w st)) st"
  "st\<lparr>st_w := (st_w st)\<lparr>W_clients := cs, W_pool := p, W_draws := ds\<rparr>\<rparr> = environs (W_fs (st_w st)) cs p ds st"
  by (simp_all add: environs_def upd_pool_def upd_clients_def)

lemma environs_simps [simp]:
  "st_x (environs fs cs p ds st) = st_x st" "W_heap (st_w (environs fs cs p ds st)) = W_heap (st_w st)"
  "W_workers (st_w (environs fs cs p ds st)) = W_workers (st_w st)"
  by (simp_all add: environs_def)

lemma upd_wk_simps:
  "st_x (upd_wk a f st) = st_x st" "W_heap (st_w (upd_wk a f st)) = (W_heap (st_w st))[a := f (wk a st)]"
  "W_workers (st_w (upd_wk a f st)) = W_workers (st_w st)"
  by (simp_all add: upd_wk_def upd_worker_def wk_def)

definition meets :: "('fs st \<Rightarrow> bool) \<Rightarrow> (go_error + u32 \<Rightarrow> 'fs st \<Rightarrow> bool) \<Rightarrow> (nat \<Rightarrow> nat \<Rightarrow> 'fs st \<Rightarrow> 'fs reply) \<Rightarrow> bool" where
  "meets P G h \<longleftrightarrow> (\<forall>inb out st. P st \<longrightarrow> results G (h inb out st))"

lemma results_mono: "results G m \<Longrightarrow> (\<And>r st. G r st \<Longrightarrow> H r st) \<Longrightarrow> results H m"
  by (simp add: results_def)

text \<open>What the life cycle of a worker depends on.\<close>

definition same_life :: "Worker \<Rightarrow> Worker \<Rightarrow> bool" where
  "same_life v w \<longleftrightarrow> Worker_inUse v = Worker_inUse w \<and> Worker_discarded v = Worker_discarded w \<and>
     Worker_pending v = Worker_pending w"

text \<open>
  \<open>I None\<close> holds before every move of an operation that has no worker, \<open>I (Some a)\<close> of one that has worker \<open>a\<close>, and \<open>G\<close>
  likewise of the result. An operation changes the context of its compound only in the state it answers \<^verbatim>\<open>NFS4_OK\<close> from.
\<close>

locale operation_rules =
  fixes m :: "'fs Conn" and I :: "nat option \<Rightarrow> 'fs st \<Rightarrow> bool" and G :: "nat option \<Rightarrow> go_error + u32 \<Rightarrow> 'fs st \<Rightarrow> bool"
  assumes I_environs: "I u st \<Longrightarrow> I u (environs fs cs p ds st)"
    and I_worker: "I u st \<Longrightarrow> Worker_Files (f (wk a st)) = Worker_Files (wk a st) \<Longrightarrow> same_life (f (wk a st)) (wk a st) \<Longrightarrow>
      I u (upd_wk a f st)"
    and I_Discard: "I u st \<Longrightarrow> I u (upd_wk a Worker_Discard st)"
    and I_GetWorker: "I None st \<Longrightarrow> GetWorker m (x_Creds (st_x st)) (x_SessionID (st_x st)) (st_w st) = Inr (a, w) \<Longrightarrow>
      I (Some a) (st\<lparr>st_w := w\<rparr>)"
    and G_done: "I u st \<Longrightarrow> G u r st"
    and G_moved: "I u st \<Longrightarrow> same_call (st_x st) x \<Longrightarrow> (\<forall>s. r = Inr s \<longrightarrow> s = NFS4_OK) \<Longrightarrow> G u r (st\<lparr>st_x := x\<rparr>)"
    and G_environs: "G u r st \<Longrightarrow> G u r (environs fs cs p ds st)"
    and G_close: "G (Some a) r st \<Longrightarrow> G None r (upd_wk a Worker_Close st)"
begin

lemma I_moves:
  "I u st \<Longrightarrow> I u (upd_pool g st)" "I u st \<Longrightarrow> I u (upd_clients h st)" "I u st \<Longrightarrow> I u (st\<lparr>st_w := (st_w st)\<lparr>W_fs := fs\<rparr>\<rparr>)"
  "I u st \<Longrightarrow> I u (st\<lparr>st_w := (st_w st)\<lparr>W_draws := ds\<rparr>\<rparr>)" "I u st \<Longrightarrow> I u (st\<lparr>st_w := (st_w st)\<lparr>W_clients := cs, W_draws := ds\<rparr>\<rparr>)"
  "I u st \<Longrightarrow> I u (st\<lparr>st_w := (st_w st)\<lparr>W_clients := cs, W_pool := p\<rparr>\<rparr>)"
  "I u st \<Longrightarrow> I u (st\<lparr>st_w := (st_w st)\<lparr>W_clients := cs, W_pool := p, W_draws := ds\<rparr>\<rparr>)"
  unfolding environs_eq by (rule I_environs, assumption)+

lemma I_cache:
  "I u st \<Longrightarrow> I u (cache_Invalidate a fh st)" "I u st \<Longrightarrow> I u (cache_Put a fh path fi st)" "I u st \<Longrightarrow> I u (DiscardOnServerFault a e st)"
  "I u st \<Longrightarrow> I u (upd_wk a Worker_Discard st)"
  by (auto simp: cache_Invalidate_def cache_Put_def DiscardOnServerFault_def same_life_def intro: I_worker I_Discard
      split: option.split)

lemma fails: "results (G u) (Inl s)" "I u st \<Longrightarrow> results (G u) (Inr (Inl e, st))"
  by (simp_all add: results_def G_done)

lemma bind: "(\<And>v. c = Inr v \<Longrightarrow> results (G u) (k v)) \<Longrightarrow> results (G u) (go_bind c k)"
  by (cases c) (auto simp: results_def)

text \<open>What is done after the response.\<close>

lemma after: "results (G u) c \<Longrightarrow> (\<And>r st. G u r st \<Longrightarrow> G u r (f st)) \<Longrightarrow> results (G u) (go_bind c (\<lambda>(r, st). Inr (r, f st)))"
  by (cases c) (auto simp: results_def)

lemma closes:
  "results (G (Some a)) c \<Longrightarrow> results (G None) (go_bind c (\<lambda>(r, st). Inr (r, upd_wk a Worker_Close st)))"
  by (cases c) (auto simp: results_def G_close)

lemma after_pool: "results (G u) c \<Longrightarrow> results (G u) (go_bind c (\<lambda>(r, st). Inr (r, upd_pool f st)))"
  by (erule after) (simp add: environs_eq G_environs)

lemma after_fs: "results (G u) c \<Longrightarrow> results (G u) (go_bind c (\<lambda>(r, st). fs_call f (\<lambda>_ st. Inr (r, st)) st))"
  by (cases c) (auto simp: results_def fs_call_def environs_eq G_environs split: prod.splits)

lemma response: "I u st \<Longrightarrow> results (G u) (OperationResponse out op s d st)"
  by (auto simp: results_def OperationResponse_def write_all_def intro: G_done I_moves split: prod.splits)

lemma moved:
  "I u st \<Longrightarrow> same_call (st_x st) x \<Longrightarrow> results (G u) (OperationResponse out op NFS4_OK d (st\<lparr>st_x := x\<rparr>))"
  by (auto simp: results_def OperationResponse_def write_all_def environs_eq split: prod.splits option.splits
      intro!: G_environs G_moved)

lemma moved_handle: "I u st \<Longrightarrow> results (G u) (OperationResponse out op NFS4_OK d (set_CurrentHandle h p st))"
  unfolding set_CurrentHandle_def by (rule moved) (simp_all add: same_call_def)

lemma failed: "I u st \<Longrightarrow> results (G u) (fs_failed out op a e st)"
  unfolding fs_failed_def by (rule response) (rule I_cache)

lemma decoded:
  assumes "I u st"
    and "\<And>v rest st'. on_buf (d (content (buf_at inb st))) = Inr (v, rest) \<Longrightarrow> I u st' \<Longrightarrow> results (G u) (k v st')"
  shows "results (G u) (arg inb d k st)"
proof (cases "on_buf (d (content (buf_at inb st)))")
  case (Inl s)
  then show ?thesis using assms(1) by (auto simp: arg_def intro: fails split: stop.split)
next
  case (Inr p)
  obtain v rest where p: "p = (v, rest)" by force
  show ?thesis using assms(2) [OF Inr [unfolded p]] assms(1) Inr by (simp add: arg_def p I_moves)
qed

lemma arg: "I u st \<Longrightarrow> (\<And>v st. I u st \<Longrightarrow> results (G u) (k v st)) \<Longrightarrow> results (G u) (arg inb d k st)"
  by (erule decoded)

lemma fs_call: "I u st \<Longrightarrow> (\<And>r st. I u st \<Longrightarrow> results (G u) (k r st)) \<Longrightarrow> results (G u) (fs_call f k st)"
  by (simp add: fs_call_def I_moves split: prod.split)

lemma need: "I u st \<Longrightarrow> (\<And>h st. I u st \<Longrightarrow> results (G u) (k h st)) \<Longrightarrow> results (G u) (need_CurrentHandle out op k st)"
  by (auto simp: need_CurrentHandle_def intro: response split: option.split)

lemma deref: "I u st \<Longrightarrow> (\<And>h st. I u st \<Longrightarrow> results (G u) (k h st)) \<Longrightarrow> results (G u) (deref_CurrentHandle k st)"
  by (auto simp: deref_CurrentHandle_def intro: fails split: option.split)

lemma with_FS:
  assumes "I None st" and "\<And>a st. I (Some a) st \<Longrightarrow> results (G (Some a)) (k a st)"
  shows "results (G None) (with_FS m k st)"
  unfolding with_FS_def
proof (rule bind)
  fix v assume v: "GetWorker m (x_Creds (st_x st)) (x_SessionID (st_x st)) (st_w st) = Inr v"
  obtain a w where aw: "v = (a, w)" by force
  have "results (G (Some a)) (k a (st\<lparr>st_w := w\<rparr>))" using v aw by (intro assms(2) I_GetWorker [OF assms(1)]) simp_all
  then show "results (G None) (case v of (a, w) \<Rightarrow>
      go_bind (k a (st\<lparr>st_w := w\<rparr>)) (\<lambda>(r, st'). Inr (r, upd_wk a Worker_Close st')))"
    unfolding aw prod.case by (rule closes)
qed

lemma stat_cached:
  assumes "I u st" and "\<And>fi st. I u st \<Longrightarrow> results (G u) (k fi st)"
  shows "results (G u) (stat_cached m out op a h k st)"
  unfolding stat_cached_def using assms(1)
  by (auto intro!: fs_call failed I_cache assms(2) split: option.split sum.split)

lemma attrs_of: "I u st \<Longrightarrow> (\<And>at st. I u st \<Longrightarrow> results (G u) (k at st)) \<Longrightarrow> results (G u) (attrs_of a h fi e req k st)"
  unfolding attrs_of_def by (auto intro: bind)

lemma tables:
  "I u st \<Longrightarrow> (\<And>r st. I u st \<Longrightarrow> results (G u) (k r st)) \<Longrightarrow> results (G u) (call_Clients_Add c k st)"
  "I u st \<Longrightarrow> (\<And>sid st. I u st \<Longrightarrow> results (G u) (k1 sid st)) \<Longrightarrow> results (G u) (call_BuildSession i c' persist k1 st)"
  "I u st \<Longrightarrow> (\<And>st. I u st \<Longrightarrow> results (G u) (k2 st)) \<Longrightarrow> results (G u) (call_RemoveSession i c' sid k2 st)"
  "I u st \<Longrightarrow> (\<And>st. I u st \<Longrightarrow> results (G u) (k2 st)) \<Longrightarrow> results (G u) (set_step out a needed f k2 st)"
  unfolding call_Clients_Add_def call_BuildSession_def call_RemoveSession_def set_step_def
  by (auto intro!: bind I_moves fs_call failed split: prod.split option.split)

lemma readdir_I:
  "readdir_loop m a dir idxReq offset fis i dc mc st = Inr (es, early, st') \<Longrightarrow> I u st \<Longrightarrow> I u st'"
proof (induction fis arbitrary: i dc mc st es)
  case (Cons fi fis)
  obtain r fs' where v: "vfs_Handle (Conn_V m) (Worker_FS (wk a st)) (Join dir (fi_Name fi)) (W_fs (st_w st)) = (r, fs')"
    by force
  let ?st1 = "st\<lparr>st_w := (st_w st)\<lparr>W_fs := fs'\<rparr>\<rparr>"
  let ?st2 = "case r of Inl _ \<Rightarrow> ?st1 | Inr h \<Rightarrow> cache_Put a h (Join dir (fi_Name fi)) fi ?st1"
  have "I u ?st2" using Cons.prems(2) by (auto intro!: I_moves I_cache split: sum.split)
  then show ?case
    using Cons.prems(1) Cons.IH [of _ _ _ ?st2] by (auto simp: v go_bind_eq_Inr Let_def split: if_splits)
qed simp

lemma I_listers:
  "CloseLister V i (wk a st) (W_fs (st_w st)) = (e, w', fs') \<Longrightarrow> I u st \<Longrightarrow> I u (upd_wk a (\<lambda>_. w') (st\<lparr>st_w := (st_w st)\<lparr>W_fs := fs'\<rparr>\<rparr>))"
  "AddLister l now (wk a st) (W_draws (st_w st)) = Inr (j, w', ds) \<Longrightarrow> I u st \<Longrightarrow> I u (upd_wk a (\<lambda>_. w') (st\<lparr>st_w := (st_w st)\<lparr>W_draws := ds\<rparr>\<rparr>))"
  "GetLister i now (wk a st) = (r, w') \<Longrightarrow> I u st \<Longrightarrow> I u (upd_wk a (\<lambda>_. w') st)"
  by (auto intro!: I_worker I_moves simp: CloseLister_def AddLister_def go_bind_eq_Inr GetLister_def Let_def same_life_def
      split: option.splits if_splits prod.splits)

lemma readdir_batch: "I u st \<Longrightarrow> results (G u) (readdir_batch m out a dir idxReq args verf lister st)"
  unfolding readdir_batch_def Let_def
  by (auto intro!: fs_call response fails bind I_cache dest!: readdir_I
      elim!: I_listers(1) split: prod.split)

lemmas rules = arg fs_call need deref with_FS stat_cached attrs_of tables failed fails response moved_handle readdir_batch
  I_moves I_cache

subsection \<open>The operations\<close>

lemma clients_meet:
  "meets (I None) (G None) SetClientID" "meets (I None) (G None) SetClientIDConfirm" "meets (I None) (G None) ExchangeID"
  "meets (I None) (G None) CreateSession" "meets (I None) (G None) ReclaimComplete" "meets (I None) (G None) DestroySession"
  "meets (I None) (G None) DestroyClientID" "meets (I None) (G None) Renew" "meets (I None) (G None) Secinfo" "meets (I None) (G None) SecinfoNoName"
  unfolding meets_def SetClientID_def SetClientIDConfirm_def ExchangeID_def CreateSession_def ReclaimComplete_def
    DestroySession_def DestroyClientID_def Renew_def Secinfo_def SecinfoNoName_def Let_def
  by (auto intro!: rules split: sum.split option.split prod.split)

lemma handles_meet:
  "meets (I None) (G None) (PutRootFH m)" "meets (I None) (G None) (PutPubFH m)" "meets (I None) (G None) (PutFH m)" "meets (I None) (G None) GetFH"
  "meets (I None) (G None) (Lookup m)" "meets (I None) (G None) (LookupParent m)"
  unfolding meets_def PutRootFH_def PutPubFH_def put_root_def PutFH_def GetFH_def Lookup_def LookupParent_def move_to_def Let_def
  by (auto intro!: rules split: sum.split option.split)

lemma saved_meet: "meets (I None) (G None) SaveFH" "meets (I None) (G None) RestoreFH"
  unfolding meets_def SaveFH_def RestoreFH_def
  by (auto intro!: need moved simp: same_call_def intro: response split: option.split)

lemma tree_meets:
  "meets (I None) (G None) (GetAttr m)" "meets (I None) (G None) (Access m)" "meets (I None) (G None) (ReadDir m)" "meets (I None) (G None) (Create m)"
  "meets (I None) (G None) (Rename m)" "meets (I None) (G None) (Remove m)" "meets (I None) (G None) (Link m)" "meets (I None) (G None) (Readlink m)"
  "meets (I None) (G None) (Verify m)" "meets (I None) (G None) (NVerify m)"
  unfolding meets_def GetAttr_def Access_def ReadDir_def Create_def create_done_def Rename_def Remove_def Link_def Readlink_def
    Verify_def NVerify_def verify_with_def Let_def
  by (auto intro!: rules bind elim!: I_listers split: sum.split option.split prod.split)

lemma xattr_meet:
  "meets (I None) (G None) (SetAttr m)" "meets (I None) (G None) (GetXAttr m)" "meets (I None) (G None) (SetXAttr m)" "meets (I None) (G None) (ListXAttrs m)"
  "meets (I None) (G None) (RemoveXAttr m)"
  unfolding meets_def SetAttr_def setattr_owner_def GetXAttr_def SetXAttr_def ListXAttrs_def RemoveXAttr_def Let_def
  by (auto intro!: rules split: sum.split option.split prod.split)

lemma files_meet:
  "meets (I None) (G None) (OpenDowngrade m)" "meets (I None) (G None) (Write m)" "meets (I None) (G None) (Commit m)"
  unfolding meets_def OpenDowngrade_def Write_def Commit_def Let_def
  by (auto intro!: rules split: option.split prod.split)

lemma Read_meets: "meets (I None) (G None) (Read m)"
  unfolding meets_def Read_def Let_def
  by (auto intro!: rules after_pool bind [of "Buf_Allocate _ _"] split: option.split prod.split)

text \<open>\<^verbatim>\<open>OPEN\<close> and \<^verbatim>\<open>CLOSE\<close> change the files of the worker: what remains to be shown is given by the premises.\<close>

lemma open_file:
  "I u st \<Longrightarrow> (\<And>f st. I u st \<Longrightarrow> results (G u) (k f st)) \<Longrightarrow> results (G u) (open_file m out a path flag mode missing k st)"
  unfolding open_file_def by (auto intro!: rules split: sum.split)

lemma open_register:
  assumes "I u st"
    and "\<And>h i w' cs' ds' st. I u st \<Longrightarrow>
      AddFile \<lparr>File_File = f, File_Handle = h, File_Client = client, File_ClientSeqID = seq\<rparr> (wk a st) (W_clients (st_w st))
        (W_draws (st_w st)) = Inr (i, w', cs', ds') \<Longrightarrow>
      results (G u) (OperationResponse out OP4_OPEN NFS4_OK [enc_OPEN4resok (open_resok i seq 0)]
        (set_CurrentHandle h path (upd_wk a (\<lambda>_. w') (st\<lparr>st_w := (st_w st)\<lparr>W_clients := cs', W_draws := ds'\<rparr>\<rparr>))))"
  shows "results (G u) (open_register m out a cur args client seq path flag f st)"
  unfolding open_register_def Let_def using assms(1)
  by (auto intro!: bind [of "AddFile _ _ _ _"] fs_call after_fs [OF response] I_cache assms(2) split: sum.split)

lemma Open_meets:
  assumes "\<And>a out cur args client seq path flag f st st'. GetFileByClientSeqID client seq (wk a st) = None \<Longrightarrow> I (Some a) st \<Longrightarrow>
    I (Some a) st' \<Longrightarrow> results (G (Some a)) (open_register m out a cur args client seq path flag f st')"
  shows "meets (I None) (G None) (Open m)"
  unfolding meets_def Open_def open_serve_def Let_def
  by (auto intro!: rules bind open_file elim!: assms split: sum.split option.split prod.split)

lemma Close_results:
  assumes "I None st"
    and "\<And>args rest a f w' cs' s d st'. on_buf (dec_CLOSE4args (content (buf_at inb st))) = Inr (args, rest) \<Longrightarrow> I (Some a) st' \<Longrightarrow>
      RemoveFile (FileID (StateId4_Other (CLOSE4args_OpenStateId args))) (wk a st') (W_clients (st_w st')) = (Some f, w', cs') \<Longrightarrow>
      results (G (Some a)) (fs_call (OpenFile_Close (Conn_V m) (File_File f)) (\<lambda>err st. case err of
          Some e \<Rightarrow> OperationResponse out OP4_CLOSE (Err2Status (Some e)) [] st
        | None \<Rightarrow> OperationResponse out OP4_CLOSE NFS4_OK [closed_resok (StateId4_Other (CLOSE4args_OpenStateId args))] st)
          (cache_Invalidate a (File_Handle f) (upd_wk a (\<lambda>_. w') (upd_clients (\<lambda>_. cs') st'))))"
  shows "results (G None) (Close m inb out st)"
  unfolding Close_def Let_def using assms(1)
  by (auto intro!: decoded need with_FS response assms(2) split: option.split prod.split simp del: on_buf_eq_Inr)

lemma handlers_meet:
  assumes "(op, h) \<in> set (handlers m)" and "op \<noteq> OP4_OPEN" and "op \<noteq> OP4_CLOSE"
  shows "meets (I None) (G None) h"
  using assms unfolding handlers_def
  by (auto simp: clients_meet handles_meet saved_meet tree_meets xattr_meet files_meet Read_meets)

lemma doOperation_results:
  assumes "I None st" and "op = OP4_OPEN \<Longrightarrow> results (G None) (Open m inb out st)" and "op = OP4_CLOSE \<Longrightarrow> results (G None) (Close m inb out st)"
  shows "results (G None) (doOperation m inb out op st)"
proof (cases "map_of (handlers m) op")
  case None
  then show ?thesis using assms(1) by (simp add: doOperation_def response)
next
  case (Some h)
  consider "op = OP4_OPEN" | "op = OP4_CLOSE" | "op \<noteq> OP4_OPEN" "op \<noteq> OP4_CLOSE" by blast
  then show ?thesis
  proof cases
    case 3
    then show ?thesis
      using handlers_meet [OF map_of_SomeD [OF Some]] assms(1) Some by (simp add: doOperation_def meets_def)
  qed (use assms(2,3) in \<open>simp_all add: doOperation_def handlers_def\<close>)
qed

end

end
