(* ===== verification/System.thy ===== *)
theory System
  imports RunInv
begin

text \<open>
  What a request and a turn of a background goroutine (worker clean-up, idle time-out, lister and client
  expiry, the clock) do to the shared state, while other requests hold buffers of their own: the invariant that
  ties the components together is kept.
\<close>

section \<open>Background work\<close>

lemma drop_client_bufs:
  assumes wf: "wf_map cs" and c: "mget cs i = Some c" and b: "bufs_ok io cs p"
  shows "bufs_ok io (mdel i cs) (put_bufs (client_bufs c) p)"
proof -
  have m: "mset (table_bufs cs) = mset (client_bufs c @ table_bufs (mdel i cs))"
    using cat_mdel [OF wf c, of client_bufs] by (simp add: table_bufs_def)
  have d: "distinct (client_bufs c @ table_bufs (mdel i cs))"
    using b by (simp add: mset_eq_imp_distinct_iff [OF m, symmetric] bufs_ok_def del: distinct_append)
  moreover have s: "set (table_bufs cs) = set (client_bufs c) \<union> set (table_bufs (mdel i cs))"
    using arg_cong [OF m, of set_mset] by simp
  moreover have "pool_inv (io \<union> set (table_bufs cs) - set (client_bufs c)) (put_bufs (client_bufs c) p)"
    using b d s by (intro put_bufs_pool) (auto simp: bufs_ok_def)
  then have "pool_inv (io \<union> set (table_bufs (mdel i cs))) (put_bufs (client_bufs c) p)"
    by (rule pool_inv_mono) (use b d s in \<open>auto simp: bufs_ok_def\<close>)
  ultimately show ?thesis using b by (auto simp: bufs_ok_def)
qed

lemma drop_clients:
  assumes "clients_inv cs" and "bufs_ok io cs p" and "distinct (map fst gone)"
    and "\<forall>(i, c) \<in> set gone. mget cs i = Some c \<and> \<not> Client_busy c > 0"
  shows "quiet cs (fold (\<lambda>(i, _). mdel i) gone cs) \<and>
    bufs_ok io (fold (\<lambda>(i, _). mdel i) gone cs) (fold (\<lambda>(_, c). put_bufs (client_bufs c)) gone p)"
  using assms
proof (induction gone arbitrary: cs p)
  case (Cons g gone)
  obtain i c where g: "g = (i, c)" by force
  have c: "mget cs i = Some c" "\<not> Client_busy c > 0" using Cons.prems(4) g by simp_all
  have wf: "wf_map cs" using Cons.prems(1) by (simp add: clients_inv_def wf_clients_def)
  have q: "quiet cs (mdel i cs)" by (rule quiet_mdel [OF Cons.prems(1) c])
  have "\<forall>(j, d) \<in> set gone. mget (mdel i cs) j = Some d \<and> \<not> Client_busy d > 0"
    using Cons.prems(3,4) g by (force simp: image_iff)
  with Cons.IH [of "mdel i cs" "put_bufs (client_bufs c) p"] Cons.prems(3) g q
    drop_client_bufs [OF wf c(1) Cons.prems(2)]
  show ?case by (auto simp: quiet_def intro: quiet_trans subset_mset.order_trans)
qed (simp add: quiet_refl)

lemma RemoveExpiredClients_keeps:
  assumes inv: "clients_inv cs" and b: "bufs_ok io cs p"
    and r: "RemoveExpiredClients expiration now cs p = (removed, cs', p')"
  shows "quiet cs cs' \<and> bufs_ok io cs' p'"
proof -
  have wf: "wf_map cs" using inv by (simp add: clients_inv_def wf_clients_def)
  let ?gone = "expired expiration now cs"
  have "distinct (map fst ?gone)"
    using wf by (simp add: expired_filter wf_map_def distinct_map_filter)
  moreover have "\<forall>(i, c) \<in> set ?gone. mget cs i = Some c \<and> \<not> Client_busy c > 0"
    using wf by (auto simp: expired_filter mget_in_set keeps_def)
  ultimately show ?thesis using drop_clients [OF inv b, of ?gone] r by (simp add: RemoveExpiredClients_def Let_def)
qed

text \<open>Closing the files of a worker takes back exactly the marks its files put on their clients.\<close>

lemma close_files_keeps:
  assumes "clients_inv cs" and "\<And>i. busy_of cs i \<ge> int (length (filter (\<lambda>(_, f). File_Client f = i) files))"
  shows "clients_inv (snd (close_files V files (fs, cs))) \<and>
    table_bufs (snd (close_files V files (fs, cs))) = table_bufs cs"
  using assms
proof (induction files arbitrary: fs cs)
  case (Cons kf files)
  obtain k f where kf: "kf = (k, f)" by force
  let ?i = "File_Client f" and ?cs = "modify_client (File_Client f) (Client_Add (- 1)) cs"
  have pos: "busy_of cs ?i \<ge> 1" using Cons.prems(2) [of ?i] kf by simp
  then obtain c where c: "mget cs ?i = Some c" "Client_busy c \<ge> 1"
    by (auto simp: busy_of_def split: option.splits)
  then have "Client_confirmed c" "Client_busy c + - 1 \<ge> 0" using Cons.prems(1) by (fastforce simp: clients_inv_def)+
  note keep = clients_inv_modify [OF Cons.prems(1) c(1) this]
  have "busy_of ?cs i \<ge> int (length (filter (\<lambda>(_, f). File_Client f = i) files))" for i
    using Cons.prems(2) [of i] kf by (simp add: busy_modify [OF c(1)] split: if_splits)
  from Cons.IH [OF keep(1) this, of "snd (OpenFile_Close V (File_File f) fs)"] keep(2)
  show ?case by (simp add: close_files_def kf Client_Done_Add)
qed (simp add: close_files_def)

lemma files_of_le: "a < length ws \<Longrightarrow> files_of i (ws ! a) \<le> open_files i ws"
  using open_files_update [of a ws i "(ws ! a)\<lparr>Worker_Files := []\<rparr>"] by (simp add: files_of_def)

lemma run_cleanup_keeps:
  assumes inv: "world_inv io uses held w" and a: "a < length (W_heap w)"
  shows "world_inv io uses held (run_cleanup m a w)"
proof -
  let ?wk = "W_heap w ! a"
  obtain w' fs' cs' where c: "Worker_cleanup (Conn_V m) ?wk (W_fs w) (W_clients w) = (w', fs', cs')"
    by (metis prod_cases3)
  have le: "busy_of (W_clients w) i \<ge> int (files_of i ?wk)" for i
    using files_of_le [OF a, of i] inv by (simp add: world_inv_def)
  have ci: "clients_inv (W_clients w)" using inv by (simp add: world_inv_def)
  obtain fs2 where cl: "close_files (Conn_V m) (Worker_Files ?wk) (close_listers (Conn_V m) (Worker_Listers ?wk) (W_fs w),
        W_clients w) = (fs2, cs')"
      and w': "Worker_inUse w' = Worker_inUse ?wk" "Worker_Files w' = []"
    using c by (auto simp: Worker_cleanup_def Let_def split: prod.splits)
  have keep: "clients_inv cs'" "table_bufs cs' = table_bufs (W_clients w)"
    using close_files_keeps [OF ci, of "Worker_Files ?wk" "Conn_V m" "close_listers (Conn_V m) (Worker_Listers ?wk) (W_fs w)"]
      le cl by (simp_all add: files_of_def)
  note files = Worker_cleanup_files [OF c]
  have "busy_of cs' i = busy_of (W_clients w) i + int (files_of i w') - int (files_of i ?wk)" for i
    using files [of i] le [of i] by (cases "mget (W_clients w) i") (simp_all add: busy_of_def)
  then have "world_inv io uses held (w\<lparr>W_clients := cs', W_heap := (W_heap w)[a := w']\<rparr>)"
    using w' by (intro world_inv_files [OF inv a _ _ keep]) (simp_all add: wf_map_def)
  then show ?thesis by (simp add: run_cleanup_def c world_inv_def wf_world_def)
qed

lemma wk_safe_autoDiscard: "wk_safe (Worker_autoDiscard mustDiscard now)"
  by (simp add: wk_safe_def Worker_autoDiscard_def Let_def)

lemma cleanupListers_keeps:
  assumes inv: "world_inv io uses held w" and a: "a < length (W_heap w)"
    and c: "cleanupListers V now (W_heap w ! a) (W_fs w) = (w', fs')"
  shows "world_inv io uses held (w\<lparr>W_heap := (W_heap w)[a := w'], W_fs := fs'\<rparr>)"
proof -
  have "Worker_Files w' = Worker_Files (W_heap w ! a)" "Worker_inUse w' = Worker_inUse (W_heap w ! a) + 0"
    using c by (auto simp: cleanupListers_def split: if_splits prod.splits)
  from world_inv_worker [OF inv this a] show ?thesis by simp
qed

section \<open>Buffers of a request\<close>

lemma bufs_ok_mono: "bufs_ok io cs p \<Longrightarrow> io' \<subseteq> io \<Longrightarrow> bufs_ok io' cs p"
  unfolding bufs_ok_def by (auto intro: pool_inv_mono)

lemma bufs_ok_Get:
  assumes "bufs_ok io cs p" and "Pool_Get p = (a, q)"
  shows "bufs_ok (insert a io) cs q \<and> a \<notin> io \<and> fresh_out (Pool_heap q a) \<and> content (Pool_heap q a) = []"
  using Pool_Get_inv [of "io \<union> set (table_bufs cs)" p a q] assms
  by (auto simp: bufs_ok_def fresh_out_def pool_inv_def)

lemma bufs_ok_Put:
  assumes "bufs_ok io cs p" and "a \<in> io"
  shows "bufs_ok (io - {a}) cs (Pool_Put a p)"
proof -
  have "pool_inv (io \<union> set (table_bufs cs) - {a}) (Pool_Put a p)"
    using assms by (intro Pool_Put_inv) (auto simp: bufs_ok_def)
  then show ?thesis using assms by (auto simp: bufs_ok_def intro: pool_inv_mono)
qed

lemma bufs_ok_update:
  "bufs_ok io cs p \<Longrightarrow> a \<in> io \<Longrightarrow> wf_buf (f (Pool_heap p a)) \<Longrightarrow> bufs_ok io cs (Pool_update a f p)"
  by (auto simp: bufs_ok_def intro!: Pool_update_inv)

lemma bufs_ok_wf: "bufs_ok io cs p \<Longrightarrow> a \<in> io \<Longrightarrow> wf_buf (Pool_heap p a)"
  by (simp add: bufs_ok_def pool_inv_def)

lemma ReceiveCall_keeps:
  assumes b: "bufs_ok io cs p" and r: "ReceiveCall s p = Inr (r, s', p')"
  shows "bufs_ok io cs p' \<and> (\<forall>hdr data. r = Inr (hdr, data) \<longrightarrow> data \<notin> io \<and> bufs_ok (insert data io) cs p')"
proof -
  obtain a q where g: "Pool_Get p = (a, q)" by force
  note new = bufs_ok_Get [OF b g]
  have room: "wf_buf (Buf_Commit (length got) (Buf_fill got f))"
    if "Buf_Allocate n (Pool_heap q a) = Inr (t, f)" "length got \<le> length t" for n t f got
  proof -
    have "n \<ge> 0"
      using Buf_Allocate_negative [of n "Pool_heap q a"] that(1) new by (force simp: fresh_out_def wf_buf_def)
    with Buf_Allocate_ok [of "Pool_heap q a" n] that new
    have "f = Buf_Grow (Buf_w (Pool_heap q a) + nat n) (Pool_heap q a)" "length t = nat n"
      by (auto simp: fresh_out_def)
    then show ?thesis using that(2) new by (intro fill_commit) (auto simp: fresh_out_def)
  qed
  have upd: "bufs_ok (insert a io) cs (Pool_update a (\<lambda>_. Buf_Commit (length got) (Buf_fill got f)) q)"
    if "Buf_Allocate n (Pool_heap q a) = Inr (t, f)" "length got \<le> length t" for n t f got
    using room [OF that] new by (intro bufs_ok_update) auto
  consider (same) e where "p' = p" "r = Inl e"
    | (none) n t f e where "Buf_Allocate n (Pool_heap q a) = Inr (t, f)" "r = Inl e"
        "p' = Pool_update a (\<lambda>_. Buf_Commit 0 (Buf_fill [] f)) q"
    | (got) n t f x where "Buf_Allocate n (Pool_heap q a) = Inr (t, f)" "\<forall>hdr data. r = Inr (hdr, data) \<longrightarrow> data = a"
        "p' = Pool_update a (\<lambda>_. Buf_Commit (length (take (length t) x)) (Buf_fill (take (length t) x) f)) q"
    using r by (auto simp: ReceiveCall_def Let_def g go_bind_eq_Inr simp del: length_take
        split: sum.splits if_splits)
  then show ?thesis
  proof cases
    case same
    then show ?thesis using b by simp
  next
    case none
    from upd [OF none(1), of "[]"] have "bufs_ok (insert a io) cs p'" unfolding none(3) by simp
    then show ?thesis using none(2) bufs_ok_mono [of "insert a io" cs p' io] by auto
  next
    case got
    from upd [OF got(1), of "take (length t) x"] have "bufs_ok (insert a io) cs p'" unfolding got(3) by simp
    then show ?thesis using got(2) new bufs_ok_mono [of "insert a io" cs p' io] by auto
  qed
qed

lemma ReceiveCall_other:
  assumes b: "bufs_ok io cs p" and r: "ReceiveCall s p = Inr (r, s', p')" and a: "a \<in> io"
  shows "Pool_heap p' a = Pool_heap p a"
proof -
  obtain new q where g: "Pool_Get p = (new, q)" by force
  have "a \<noteq> new" using bufs_ok_Get [OF b g] a by auto
  then show ?thesis
    using r Pool_Get_other [OF g, of a]
    by (auto simp: ReceiveCall_def Let_def g go_bind_eq_Inr Pool_update_def split: sum.splits if_splits)
qed

section \<open>One request\<close>

text \<open>Between requests nothing is held: no buffer, no worker.\<close>

definition idle :: "'fs World \<Rightarrow> bool" where
  "idle w \<longleftrightarrow> world_inv {} (\<lambda>_. 0) {} w"

definition busy_io :: "nat set \<Rightarrow> 'fs World \<Rightarrow> bool" where
  "busy_io io w \<longleftrightarrow> world_inv io (\<lambda>_. 0) {} w"

lemma busy_io_pool:
  "busy_io io w \<Longrightarrow> bufs_ok io' (W_clients w) p \<Longrightarrow> busy_io io' (w\<lparr>W_pool := p\<rparr>)"
  by (auto simp: busy_io_def world_inv_def wf_world_def)

lemma busy_io_bufs: "busy_io io w \<Longrightarrow> bufs_ok io (W_clients w) (W_pool w)"
  by (simp add: busy_io_def world_inv_def)

lemma busy_io_mono: "busy_io io w \<Longrightarrow> io' \<subseteq> io \<Longrightarrow> busy_io io' w"
  using bufs_ok_mono [of io "W_clients w" "W_pool w" io'] by (auto simp: busy_io_def world_inv_def)

lemma busy_io_update:
  "busy_io io w \<Longrightarrow> a \<in> io \<Longrightarrow> (\<And>b. wf_buf b \<Longrightarrow> wf_buf (f b)) \<Longrightarrow> busy_io io (w_pool (Pool_update a f) w)"
  unfolding w_pool_def by (intro busy_io_pool bufs_ok_update) (auto dest: busy_io_bufs bufs_ok_wf)

lemma busy_io_Put: "busy_io io w \<Longrightarrow> a \<in> io \<Longrightarrow> busy_io (io - {a}) (w_pool (Pool_Put a) w)"
  unfolding w_pool_def by (intro busy_io_pool bufs_ok_Put) (auto dest: busy_io_bufs)

text \<open>The buffers in \<open>io\<close> are what they were.\<close>

definition same_bufs :: "nat set \<Rightarrow> 'fs World \<Rightarrow> 'fs World \<Rightarrow> bool" where
  "same_bufs io w w' \<longleftrightarrow> (\<forall>b \<in> io. Pool_heap (W_pool w') b = Pool_heap (W_pool w) b)"

lemma same_bufs_refl [simp]: "same_bufs io w w"
  by (simp add: same_bufs_def)

lemma same_bufs_pool:
  "a \<notin> io \<Longrightarrow> same_bufs io w (w_pool (Pool_update a f) w)" "a \<notin> io \<Longrightarrow> same_bufs io w (w_pool (Pool_Put a) w)"
  by (auto simp: same_bufs_def w_pool_def Pool_update_def Pool_Put_def)

lemma same_bufs_trans: "same_bufs io w w' \<Longrightarrow> same_bufs io w' w'' \<Longrightarrow> same_bufs io w w''"
  by (simp add: same_bufs_def)

lemma same_bufs_mono: "same_bufs io w w' \<Longrightarrow> io' \<subseteq> io \<Longrightarrow> same_bufs io' w w'"
  by (auto simp: same_bufs_def)

text \<open>What a handler leaves, while other requests hold the buffers \<open>io\<close>: on an error nothing more; else only the
  buffer with the reply, which is none of theirs. Theirs are untouched.\<close>

definition handled :: "nat set \<Rightarrow> (go_error + RPCMsgReply \<times> nat) \<Rightarrow> 'fs World \<Rightarrow> 'fs World \<Rightarrow> bool" where
  "handled io r w w' \<longleftrightarrow> busy_io io w' \<and> same_bufs io w w' \<and>
     (\<forall>reply out. r = Inr (reply, out) \<longrightarrow> out \<notin> io \<and> busy_io (insert out io) w')"

lemma answer_with_io:
  assumes "busy_io io w" and "data \<in> io" and "answer_with reply data vs w = Inr (r, w')"
  shows "busy_io io w' \<and> same_bufs (io - {data}) w w' \<and> (\<forall>x out. r = Inr (x, out) \<longrightarrow> out = data)"
  using busy_io_update [OF assms(1,2), of "Buf_Write (fst (EncodeAll vs))"] assms(3)
    same_bufs_pool(1) [of data "io - {data}" w "Buf_Write (fst (EncodeAll vs))"]
  by (auto simp: answer_with_def split: prod.splits option.splits)

lemma reset_and_answer:
  assumes "busy_io (insert data io) w" and "data \<notin> io"
    and "answer_with reply data vs (w_pool (Pool_update data Buf_Reset) w) = Inr (r, w')"
  shows "handled io r w w'"
proof -
  have "busy_io (insert data io) (w_pool (Pool_update data Buf_Reset) w)" using assms(1) by (intro busy_io_update) simp_all
  note a = answer_with_io [OF this _ assms(3)]
  have "same_bufs io w w'"
    using a assms(2) by (auto intro: same_bufs_trans [OF same_bufs_pool(1)])
  then show ?thesis using a assms(2) by (auto simp: handled_def intro: busy_io_mono)
qed

text \<open>The calls that are not compounds, and those that fail to authenticate.\<close>

lemma Handle_handled:
  assumes b: "busy_io (insert data io) w" and d: "data \<notin> io" and r: "Handle m hdr data w = Inr (r, w')"
    and no: "RPCMsgCall_Vers hdr \<noteq> 4 \<or> RPCMsgCall_Proc hdr \<noteq> PROC4_COMPOUND \<or>
      Authenticate (RPCMsgCall_Cred hdr) (RPCMsgCall_Verf hdr) = Inl e"
  shows "handled io r w w'"
proof -
  consider (void) vs reply where "answer_with reply data vs (w_pool (Pool_update data Buf_Reset) w) = Inr (r, w')"
    | (err) e where "r = Inl e" "w' = w"
    using r no by (auto simp: Handle_def Muxv4_HandleProc_def Muxv4_Void_def MuxMismatch_HandleProc_def Muxv4_Compound_def
        split: if_splits sum.splits auth_error.splits)
  then show ?thesis
  proof cases
    case void
    then show ?thesis by (rule reset_and_answer [OF b d])
  next
    case err
    then show ?thesis using b by (auto simp: handled_def intro: busy_io_mono)
  qed
qed

section \<open>Background goroutines\<close>

text \<open>A turn of one of them: the clean-up of a discarded worker, the idle time-out of a worker, its lister
  collector, the expiry of clients; the clock; and what others do to the file system.\<close>

inductive background_step :: "'fs World \<Rightarrow> 'fs World \<Rightarrow> bool" where
  cleanup: "a < length (W_heap w) \<Longrightarrow> Worker_pending (W_heap w ! a) > 0 \<Longrightarrow> background_step w (run_cleanup m a w)"
| idle_worker: "background_step w (upd_worker a (Worker_autoDiscard mustDiscard (W_now w)) w)"
| listers: "a < length (W_heap w) \<Longrightarrow> cleanupListers V (W_now w) (W_heap w ! a) (W_fs w) = (w', fs') \<Longrightarrow>
    background_step w (w\<lparr>W_heap := (W_heap w)[a := w'], W_fs := fs'\<rparr>)"
| expire: "RemoveExpiredClients ClientExpiration (W_now w) (W_clients w) (W_pool w) = (gone, cs, p) \<Longrightarrow>
    background_step w (w\<lparr>W_clients := cs, W_pool := p\<rparr>)"
| tick: "W_now w \<le> now \<Longrightarrow> background_step w (w\<lparr>W_now := now\<rparr>)"
| others: "background_step w (w\<lparr>W_fs := fs\<rparr>)"

lemma background_keeps:
  assumes i: "busy_io io w" and "background_step w w'"
  shows "busy_io io w'"
  using assms(2)
proof cases
  case (expire gone cs p)
  then show ?thesis
    using i RemoveExpiredClients_keeps [of "W_clients w" io "W_pool w"]
    by (fastforce simp: busy_io_def world_inv_def wf_world_def quiet_def)
next
  case (listers a V w2 fs2)
  then show ?thesis using i cleanupListers_keeps [of io "\<lambda>_. 0" "{}" w a V "W_now w" w2 fs2] by (simp add: busy_io_def)
next
  case (tick now)
  then show ?thesis using i by (simp add: busy_io_def world_inv_def wf_world_def)
qed (use i in \<open>auto simp: busy_io_def intro: run_cleanup_keeps world_inv_safe wk_safe_autoDiscard\<close>)

lemma put_bufs_fold_other:
  "(\<And>c. c \<in> snd ` set gone \<Longrightarrow> b \<notin> set (client_bufs c)) \<Longrightarrow>
     Pool_heap (fold (\<lambda>(_, c). put_bufs (client_bufs c)) gone p) b = Pool_heap p b"
  by (induction gone arbitrary: p) (auto simp: put_bufs_other)

lemma background_same_bufs:
  assumes i: "busy_io io w" and "background_step w w'"
  shows "same_bufs io w w'"
  using assms(2)
proof cases
  case (expire gone cs p)
  have d: "io \<inter> set (table_bufs (W_clients w)) = {}" using busy_io_bufs [OF i] by (auto simp: bufs_ok_def)
  have "set (client_bufs c) \<subseteq> set (table_bufs (W_clients w))"
    if "c \<in> snd ` set (expired ClientExpiration (W_now w) (W_clients w))" for c
    using that by (auto simp: expired_filter table_bufs_def cat_def)
  then show ?thesis
    using expire d put_bufs_fold_other [of "expired ClientExpiration (W_now w) (W_clients w)"]
    by (fastforce simp: same_bufs_def RemoveExpiredClients_def Let_def)
qed (auto simp: same_bufs_def run_cleanup_def upd_worker_def split: prod.splits)

section \<open>Properties\<close>

text \<open>C19: A client is never removed under its open files. While a worker of the server has a file open for a
  client, the client is in the table and confirmed, \<^verbatim>\<open>DESTROY_CLIENTID\<close> is refused, and expiry keeps it however
  long it has been silent.\<close>

theorem busy_client_kept:
  assumes "idle w" and "a < length (W_heap w)" and "mget (Worker_Files (W_heap w ! a)) k = Some f"
    and "RemoveExpiredClients expiration now (W_clients w) (W_pool w) = (removed, cs', p')"
  shows "\<exists>c e. mget (W_clients w) (File_Client f) = Some c \<and> Client_confirmed c \<and>
    Clients_RemoveClient (File_Client f) (W_clients w) = (Some e, W_clients w) \<and>
    mget cs' (File_Client f) = Some c"
proof -
  have i: "world_inv {} (\<lambda>_. 0) {} w" using assms(1) by (simp add: idle_def)
  have "(k, f) \<in> set (Worker_Files (W_heap w ! a))" using map_of_SomeD [OF assms(3)] .
  then have "files_of (File_Client f) (W_heap w ! a) \<ge> 1"
    by (auto simp: files_of_def Suc_le_eq filter_empty_conv simp flip: length_greater_0_conv)
  then have "busy_of (W_clients w) (File_Client f) \<ge> 1"
    using i files_of_le [OF assms(2), of "File_Client f"] by (simp add: world_inv_def)
  then obtain c where c: "mget (W_clients w) (File_Client f) = Some c" "Client_busy c \<ge> 1"
    by (auto simp: busy_of_def split: option.splits)
  have "wf_map (W_clients w)" and "Client_confirmed c"
    using i c by (fastforce simp: world_inv_def clients_inv_def wf_clients_def)+
  moreover have "mget cs' (File_Client f) = Some c"
    using RemoveExpiredClients_get(2) [OF calculation(1) assms(4), of "File_Client f"] c by (simp add: keeps_def)
  ultimately show ?thesis using c by (simp add: Clients_RemoveClient_def)
qed

text \<open>A client of which nothing was heard for an hour, with a file open.\<close>

definition demo_busy :: "bytes World" where
  "demo_busy = demo_world\<lparr>W_clients := [(7, demo_client\<lparr>Client_busy := 1\<rparr>)],
     W_heap := [demo_worker\<lparr>Worker_inUse := 0, Worker_Files := [(9, demo_file)]\<rparr>], W_now := 60 * Minute\<rparr>"

lemma demo_busy_idle: "idle demo_busy"
  by (auto simp: idle_def world_inv_def demo_busy_def demo_world_def wf_world_def wf_map_def busy_of_def open_files_def
      files_of_def demo_file_def clients_inv_def wf_clients_def wf_client_def one_owner_def bufs_ok_def table_bufs_def
      client_bufs_def demo_pool_inv demo_client_def new_Client_def split: if_splits)

theorem busy_client_kept_witness:
  "\<exists>c e removed cs' p'. RemoveExpiredClients ClientExpiration (60 * Minute) (W_clients demo_busy) (W_pool demo_busy) = (removed, cs', p') \<and>
     mget cs' 7 = Some c \<and> Clients_RemoveClient 7 (W_clients demo_busy) = (Some e, W_clients demo_busy)"
proof -
  obtain removed cs' p' where r: "RemoveExpiredClients ClientExpiration (60 * Minute) (W_clients demo_busy) (W_pool demo_busy) = (removed, cs', p')"
    by (metis prod_cases3)
  have f: "mget (Worker_Files (W_heap demo_busy ! 0)) 9 = Some demo_file" "0 < length (W_heap demo_busy)"
      "File_Client demo_file = 7"
    by (simp_all add: demo_busy_def demo_file_def)
  show ?thesis using busy_client_kept [OF demo_busy_idle f(2,1) r] r f(3) by auto
qed

end
