(* ===== verification/Task.thy ===== *)
theory Task
  imports RunInv
begin

text \<open>
  A call in small steps. \<^verbatim>\<open>Run\<close> handles a compound from its first operation to its last; while it does, other
  goroutines handle other calls. Here a call is handled in one step up to its first operation, then in one step
  per operation, and one that completes the reply, so that the calls of the server may interleave between any
  two operations. Uninterrupted, the steps are \<^verbatim>\<open>Handle\<close>.
\<close>

section \<open>The steps of \<^verbatim>\<open>Run\<close>\<close>

text \<open>Where the loop over the operations stands: operations left, operations executed, last status, and the
  buffer of the slot if the reply is to be kept there.\<close>

type_synonym loop_state = "nat \<times> nat \<times> u32 \<times> nat option"

text \<open>\<^verbatim>\<open>RunSequence\<close> up to the loop; \<open>None\<close> if there is no loop to run.\<close>

definition sequence_accept ::
  "nat \<Rightarrow> SEQUENCE4args \<Rightarrow> Slot \<Rightarrow> 'fs st \<Rightarrow> (loop_state option, 'fs) res" where
  "sequence_accept out args slot st =
     (let sid = SEQUENCE4args_SessionID args;
          slot' = Slot_Accept (SEQUENCE4args_SequenceID args) (SEQUENCE4args_CacheThis args) slot;
          st1 = set_slot sid (SEQUENCE4args_SlotID args) slot' st;
          st2 = st1\<lparr>st_x := (st_x st1)\<lparr>x_SessionID := sid, x_Slot := Some slot'\<rparr>\<rparr>;
          n = x_OpsCount (st_x st2)
      in res_bind (WriteHeader out n NFS4_OK st2) (\<lambda>_ st.
         res_bind (OperationResponse out OP4_SEQUENCE NFS4_OK [enc_SEQUENCE4resok (sequence_resok args)] st)
           (\<lambda>s st. Inr (Inr (Some (n - 1, 1, s, if Slot_ContainsData slot' then Slot_Buf slot' else None)), st))))"

definition no_loop :: "(unit, 'fs) res \<Rightarrow> (loop_state option, 'fs) res" where
  "no_loop m = res_bind m (\<lambda>_ st. Inr (Inr None, st))"

definition sequence_start :: "nat \<Rightarrow> nat \<Rightarrow> 'fs st \<Rightarrow> (loop_state option, 'fs) res" where
  "sequence_start inb out st =
     arg inb dec_SEQUENCE4args (\<lambda>args st.
       let sid = SEQUENCE4args_SessionID args;
           fail = (\<lambda>status st. no_loop (WriteHeaderAndSingleOperation out OP4_SEQUENCE status st))
       in case Clients_Get (ClientIDFromSessionID sid) (W_now (st_w st)) (W_clients (st_w st)) of
            (None, cs) \<Rightarrow> fail NFS4ERR_DEADSESSION (upd_clients (\<lambda>_. cs) st)
          | (Some client, cs) \<Rightarrow>
              let st = upd_clients (\<lambda>_. cs) st
              in case GetSlot sid (SEQUENCE4args_SlotID args) client of
                   None \<Rightarrow> fail NFS4ERR_DEADSESSION st
                 | Some slot \<Rightarrow>
                     if Slot_SequenceID slot = SEQUENCE4args_SequenceID args \<and> Slot_ContainsData slot then
                       (case Slot_Buf slot of None \<Rightarrow> Inl Panic | Some b \<Rightarrow> no_loop (copy_buf b out st))
                     else if Slot_SequenceID slot = SEQUENCE4args_SequenceID args \<and> Slot_Buf slot = None
                     then fail NFS4ERR_RETRY_UNCACHED_REP st
                     else if Slot_SequenceID slot \<noteq> SEQUENCE4args_SequenceID args \<and>
                             Slot_SequenceID slot + 1 \<noteq> SEQUENCE4args_SequenceID args
                     then fail NFS4ERR_SEQ_MISORDERED st
                     else sequence_accept out args slot st) st"

definition run_start :: "'fs Conn \<Rightarrow> nat \<Rightarrow> nat \<Rightarrow> 'fs st \<Rightarrow> (loop_state option, 'fs) res" where
  "run_start m inb out st =
     arg inb dUint32 (\<lambda>op st.
       let minor = x_MinorVer (st_x st); n = x_OpsCount (st_x st)
       in if minor > 0 \<and> op \<notin> set AllowedFirstOps41
          then no_loop (WriteHeaderAndSingleOperation out op NFS4ERR_OP_NOT_IN_SESSION st)
          else if minor > 0 \<and> op \<noteq> OP4_SEQUENCE \<and> n > 1
          then no_loop (WriteHeaderAndSingleOperation out op NFS4ERR_NOT_ONLY_OP st)
          else if minor > 0 \<and> op = OP4_SEQUENCE then sequence_start inb out st
          else
            res_bind (WriteHeader out n NFS4_OK st) (\<lambda>_ st.
            res_bind (doOperation m inb out op st) (\<lambda>s st. Inr (Inr (Some (n - 1, 1, s, None)), st)))) st"

text \<open>After the loop: the header is corrected, the reply kept.\<close>

definition run_finish :: "nat \<Rightarrow> nat \<Rightarrow> u32 \<Rightarrow> nat option \<Rightarrow> 'fs st \<Rightarrow> (unit, 'fs) res" where
  "run_finish out opsExecuted lastStatus keep st =
     res_bind (RewriteHeaderIfNeeded out opsExecuted lastStatus st) (\<lambda>_ st.
       case keep of None \<Rightarrow> Inr (Inr (), st) | Some b \<Rightarrow> copy_buf out b st)"

definition run_rest :: "'fs Conn \<Rightarrow> nat \<Rightarrow> nat \<Rightarrow> loop_state option \<Rightarrow> 'fs st \<Rightarrow> (unit, 'fs) res" where
  "run_rest m inb out l st =
     (case l of None \<Rightarrow> Inr (Inr (), st)
      | Some (k, n, s, keep) \<Rightarrow>
          res_bind (run_ops m inb out k n s st) (\<lambda>(opsExecuted, lastStatus) st.
            run_finish out opsExecuted lastStatus keep st))"

lemma res_bind_simps [simp]:
  "res_bind (Inl s) k = Inl s" "res_bind (Inr (Inl e, st)) k = Inr (Inl e, st)" "res_bind (Inr (Inr v, st)) k = k v st"
  by (simp_all add: res_bind_def)

lemma res_bind_ret: "res_bind m (\<lambda>_ st. Inr (Inr (), st)) = m"
  by (auto simp: res_bind_def go_bind_def split: sum.splits prod.splits)

lemma no_loop_rest: "res_bind (no_loop m) (run_rest c inb out) = m"
  by (simp add: no_loop_def res_bind_assoc run_rest_def res_bind_ret)

lemma arg_bind: "res_bind (arg inb d k st) g = arg inb d (\<lambda>v st. res_bind (k v st) g) st"
  by (auto simp: arg_def split: sum.splits stop.splits prod.splits)

lemma sequence_accept_rest:
  "res_bind (sequence_accept out args slot st) (run_rest m inb out) = sequence_body m inb out args slot st"
  by (cases "Slot_Buf slot"; cases "SEQUENCE4args_CacheThis args")
    (simp_all add: sequence_accept_def sequence_body_def Let_def res_bind_assoc run_rest_def run_finish_def [abs_def] case_prod_unfold)

lemma sequence_start_rest: "res_bind (sequence_start inb out st) (run_rest m inb out) = RunSequence m inb out st"
  unfolding sequence_start_def RunSequence_def arg_bind Let_def
  by (intro arg_cong2 [where f = "arg inb dec_SEQUENCE4args"] ext refl)
    (simp add: no_loop_rest sequence_accept_rest split: prod.split option.split)

lemma run_start_rest: "res_bind (run_start m inb out st) (run_rest m inb out) = Run m inb out st"
  unfolding run_start_def Run_def arg_bind Let_def
  by (intro arg_cong2 [where f = "arg inb dUint32"] ext refl)
    (simp add: no_loop_rest sequence_start_rest res_bind_assoc run_rest_def run_finish_def [abs_def] res_bind_ret case_prod_unfold)

section \<open>The steps of a call\<close>

record Task =
  T_hdr :: RPCMsgCall
  T_x :: Compound
  T_in :: nat
  T_out :: nat
  T_left :: nat
  T_count :: nat
  T_last :: u32
  T_keep :: "nat option"

type_synonym handler_result = "go_error + RPCMsgReply \<times> nat"

datatype call_state = Finished handler_result | Running Task

text \<open>The end of \<^verbatim>\<open>Compound\<close>, with the deferred \<^verbatim>\<open>data.Discard()\<close>.\<close>

definition result_of :: "RPCMsgCall \<Rightarrow> nat \<Rightarrow> go_error + unit \<Rightarrow> handler_result" where
  "result_of hdr out r = (case r of Inl e \<Rightarrow> Inl e | Inr () \<Rightarrow> Inr (reply_msg hdr MSG_ACCEPTED, out))"

lemma result_of_simps [simp]:
  "result_of hdr out (Inl e) = Inl e" "result_of hdr out (Inr u) = Inr (reply_msg hdr MSG_ACCEPTED, out)"
  by (simp_all add: result_of_def split: unit.split)

definition call_result :: "RPCMsgCall \<Rightarrow> nat \<Rightarrow> nat \<Rightarrow> go_error + unit \<Rightarrow> 'fs World \<Rightarrow> call_state \<times> 'fs World" where
  "call_result hdr data out r w =
     (Finished (result_of hdr out r), w_pool (Pool_Put data) w)"

definition begin_compound ::
  "'fs Conn \<Rightarrow> RPCMsgCall \<Rightarrow> Auth \<Rightarrow> Creds \<Rightarrow> nat \<Rightarrow> 'fs World \<Rightarrow> (call_state \<times> 'fs World) go" where
  "begin_compound m hdr resp creds data w =
     go_bind (on_buf (dec_compound_args (content (Pool_heap (W_pool w) data)))) (\<lambda>((tag, minorVer, opsCnt), rest).
       let w = w_pool (Pool_update data (\<lambda>b. b\<lparr>Buf_r := Buf_w b - length rest\<rparr>)) w
       in case Pool_Get (W_pool w) of (dataOut, p) \<Rightarrow>
         let w = w\<lparr>W_pool := p\<rparr>
         in if minorVer > 2 then
              go_bind (answer_with (reply_msg hdr MSG_ACCEPTED) dataOut
                [enc_Auth resp, eUint32 ACCEPT_SUCCESS, eUint32 NFS4ERR_MINOR_VERS_MISMATCH, eString tag,
                 eUint32 0] w) (\<lambda>(r, w). Inr (Finished r, w_pool (Pool_Put data) w))
            else
              go_bind (run_start m data dataOut
                         \<lparr>st_x = new_Compound resp minorVer tag (unat opsCnt) creds, st_w = w\<rparr>) (\<lambda>(r, st).
                Inr (case r of
                       Inl e \<Rightarrow> call_result hdr data dataOut (Inl e) (st_w st)
                     | Inr None \<Rightarrow> call_result hdr data dataOut (Inr ()) (st_w st)
                     | Inr (Some (k, n, s, keep)) \<Rightarrow>
                         (Running \<lparr>T_hdr = hdr, T_x = st_x st, T_in = data, T_out = dataOut, T_left = k, T_count = n,
                            T_last = s, T_keep = keep\<rparr>, st_w st))))"

definition begin_call :: "'fs Conn \<Rightarrow> RPCMsgCall \<Rightarrow> nat \<Rightarrow> 'fs World \<Rightarrow> (call_state \<times> 'fs World) go" where
  "begin_call m hdr data w =
     (let whole = go_bind (Handle m hdr data w) (\<lambda>(r, w). Inr (Finished r, w))
      in if RPCMsgCall_Vers hdr = 4 \<and> RPCMsgCall_Proc hdr = PROC4_COMPOUND then
           (case Authenticate (RPCMsgCall_Cred hdr) (RPCMsgCall_Verf hdr) of
              Inl _ \<Rightarrow> whole
            | Inr (resp, creds) \<Rightarrow> begin_compound m hdr resp creds data w)
         else whole)"

text \<open>One operation, or the completion of the reply.\<close>

definition more_ops :: "Task \<Rightarrow> bool" where
  "more_ops T \<longleftrightarrow> T_left T > 0 \<and> T_last T \<notin> set FatalStatuses"

definition task_next :: "'fs Conn \<Rightarrow> Task \<Rightarrow> 'fs World \<Rightarrow> (call_state \<times> 'fs World) go" where
  "task_next m T w =
     (let st = \<lparr>st_x = T_x T, st_w = w\<rparr>
      in if more_ops T then
           go_bind (Operation m (T_in T) (T_out T) st) (\<lambda>(r, st).
             Inr (case r of
                    Inl e \<Rightarrow> call_result (T_hdr T) (T_in T) (T_out T) (Inl e) (st_w st)
                  | Inr s \<Rightarrow> (Running (T\<lparr>T_x := st_x st, T_left := T_left T - 1, T_count := Suc (T_count T), T_last := s\<rparr>),
                              st_w st)))
         else
           go_bind (run_finish (T_out T) (T_count T) (T_last T) (T_keep T) st) (\<lambda>(r, st).
             Inr (call_result (T_hdr T) (T_in T) (T_out T) r (st_w st))))"

text \<open>A call that is not interrupted. \<open>n\<close> bounds the number of steps; a task takes one more than it has operations
  left.\<close>

fun complete_call :: "nat \<Rightarrow> 'fs Conn \<Rightarrow> call_state \<Rightarrow> 'fs World \<Rightarrow> 'fs answer" where
  "complete_call n m (Finished r) w = Inr (r, w)"
| "complete_call 0 m (Running T) w = Inl Hang"
| "complete_call (Suc n) m (Running T) w = go_bind (task_next m T w) (\<lambda>(c, w). complete_call n m c w)"

fun steps_of :: "call_state \<Rightarrow> nat" where
  "steps_of (Finished r) = 0"
| "steps_of (Running T) = Suc (T_left T)"

text \<open>What is left of a call, as the code does it.\<close>

definition rest_of_call :: "'fs Conn \<Rightarrow> Task \<Rightarrow> 'fs World \<Rightarrow> 'fs answer" where
  "rest_of_call m T w =
     go_bind (run_rest m (T_in T) (T_out T) (Some (T_left T, T_count T, T_last T, T_keep T)) \<lparr>st_x = T_x T, st_w = w\<rparr>) (\<lambda>(r, st).
       Inr (result_of (T_hdr T) (T_out T) r, w_pool (Pool_Put (T_in T)) (st_w st)))"

lemma complete_result [simp]:
  "complete_call n m (fst (call_result hdr data out r w)) (snd (call_result hdr data out r w)) =
     Inr (result_of hdr out r, w_pool (Pool_Put data) w)"
  by (simp add: call_result_def)

lemma go_bind_ret [simp]: "go_bind m Inr = m"
  by (cases m) simp_all

lemma st_eta [simp]: "\<lparr>st_x = st_x st, st_w = st_w st\<rparr> = st"
  by (cases st) simp

lemma complete_rest:
  "T_left T = k \<Longrightarrow> complete_call (Suc k) m (Running T) w = rest_of_call m T w"
proof (induction k arbitrary: T w)
  case 0
  then show ?case
    by (simp add: task_next_def more_ops_def rest_of_call_def run_rest_def Let_def go_bind_assoc)
       (simp add: case_prod_unfold)
next
  case (Suc k)
  show ?case
  proof (cases "T_last T \<in> set FatalStatuses")
    case True
    then show ?thesis
      using Suc.prems by (simp add: task_next_def more_ops_def rest_of_call_def run_rest_def Let_def go_bind_assoc)
       (simp add: case_prod_unfold)
  next
    case False
    then have more: "more_ops T" using Suc.prems by (simp add: more_ops_def)
    let ?st = "\<lparr>st_x = T_x T, st_w = w\<rparr>"
    show ?thesis
    proof (cases "Operation m (T_in T) (T_out T) ?st")
      case (Inl e)
      then show ?thesis
        using more Suc.prems False by (simp add: task_next_def rest_of_call_def run_rest_def Let_def)
    next
      case (Inr rst)
      obtain r st where rst: "rst = (r, st)" by force
      show ?thesis
      proof (cases r)
        case (Inl e)
        then show ?thesis using more Suc.prems False Inr rst
          by (simp add: task_next_def rest_of_call_def run_rest_def Let_def case_prod_unfold)
      next
        case (Inr s)
        let ?T = "T\<lparr>T_x := st_x st, T_left := k, T_count := Suc (T_count T), T_last := s\<rparr>"
        have "complete_call (Suc (Suc k)) m (Running T) w = complete_call (Suc k) m (Running ?T) (st_w st)"
          using more Suc.prems \<open>Operation _ _ _ _ = Inr rst\<close> rst Inr by (simp add: task_next_def Let_def)
        also have "\<dots> = rest_of_call m ?T (st_w st)" by (rule Suc.IH) simp
        also have "\<dots> = rest_of_call m T w"
          using False Suc.prems \<open>Operation _ _ _ _ = Inr rst\<close> rst Inr by (simp add: rest_of_call_def run_rest_def)
        finally show ?thesis .
      qed
    qed
  qed
qed

lemma begin_compound_rest:
  "go_bind (begin_compound m hdr resp creds data w) (\<lambda>(c, w). complete_call (steps_of c) m c w) =
   go_bind (compound_body m hdr resp creds data w) (\<lambda>(r, w). Inr (r, w_pool (Pool_Put data) w))"
proof (cases "on_buf (dec_compound_args (content (Pool_heap (W_pool w) data)))")
  case (Inl e)
  then show ?thesis by (simp add: begin_compound_def compound_body_def)
next
  case (Inr v)
  obtain tag minor n rest where v: "v = ((tag, minor, n), rest)" by (metis prod_cases3 surj_pair)
  let ?w = "w_pool (Pool_update data (\<lambda>b. b\<lparr>Buf_r := Buf_w b - length rest\<rparr>)) w"
  obtain out p where g: "Pool_Get (W_pool ?w) = (out, p)" by force
  let ?st = "\<lparr>st_x = new_Compound resp minor tag (unat n) creds, st_w = ?w\<lparr>W_pool := p\<rparr>\<rparr>"
  let ?start = "run_start m data out ?st"
  have run: "Run m data out ?st = res_bind ?start (run_rest m data out)" by (rule run_start_rest [symmetric])
  show ?thesis
  proof (cases "minor > 2")
    case True
    then show ?thesis using Inr v g
      by (simp add: begin_compound_def compound_body_def Let_def go_bind_assoc case_prod_unfold)
  next
    case False
    have body: "compound_body m hdr resp creds data w =
        go_bind (res_bind ?start (run_rest m data out)) (\<lambda>(r, st). Inr (result_of hdr out r, st_w st))"
      using Inr v g False by (simp add: compound_body_def Let_def run [symmetric] result_of_def)
    show ?thesis
    proof (cases ?start)
      case (Inl e)
      then show ?thesis using \<open>on_buf _ = Inr v\<close> v g False
        by (simp add: body) (simp add: begin_compound_def Let_def)
    next
      case (Inr rst)
      obtain r st where rst: "rst = (r, st)" by force
      consider (err) e where "r = Inl e" | (none) "r = Inr None" | (loop) k n s keep where "r = Inr (Some (k, n, s, keep))"
        by (metis option.exhaust prod_cases4 sum.exhaust)
      then show ?thesis
        using \<open>on_buf _ = Inr v\<close> v g False Inr rst
        by cases (simp_all add: body, simp_all add: begin_compound_def Let_def run_rest_def call_result_def
            complete_rest rest_of_call_def go_bind_assoc case_prod_unfold del: complete_call.simps(3))
    qed
  qed
qed

text \<open>Splitting a call into steps changes nothing. For every call, in every state, \<^verbatim>\<open>Handle\<close> gives what its first
  step gives, followed by one step per operation left and one that completes the reply, when nothing comes between
  them; the same result, error, panic and state.\<close>

lemma call_by_steps:
  "Handle m hdr data w = go_bind (begin_call m hdr data w) (\<lambda>(c, w). complete_call (steps_of c) m c w)"
proof -
  have whole: "go_bind (go_bind h (\<lambda>(r, w). Inr (Finished r, w))) (\<lambda>(c, w). complete_call (steps_of c) m c w) = h" for h :: "'a answer"
    by (simp add: go_bind_assoc case_prod_unfold)
  show ?thesis
    using begin_compound_rest [of m hdr _ _ data w]
    by (auto simp: begin_call_def whole Let_def Handle_def Muxv4_HandleProc_def Muxv4_Compound_def
        split: sum.split prod.split)
qed

end
