(* ===== verification/TaskInv.thy ===== *)
theory TaskInv
  imports System Task
begin

text \<open>
  What the steps of a call keep, while other calls hold buffers of their own: the shared state stays in order,
  the buffers of the others are untouched, and the reply grows by one response per operation.
\<close>

section \<open>A call in progress\<close>

text \<open>The reply so far: the header as it was written first, and the responses of the operations executed, none of
  which but the last has a fatal status.\<close>

definition task_reply :: "Task \<Rightarrow> bytes \<Rightarrow> bool" where
  "task_reply T b \<longleftrightarrow> (\<exists>rs. rs \<noteq> [] \<and>
     b = header_bytes (T_x T) (x_OpsCount (T_x T)) NFS4_OK @ body_bytes rs \<and>
     T_count T = length rs \<and> T_last T = status_of (last rs) \<and> T_count T + T_left T = max 1 (x_OpsCount (T_x T)) \<and>
     (\<forall>r \<in> set (butlast rs). status_of r \<notin> set FatalStatuses))"

definition task_ok :: "Task \<Rightarrow> (nat \<Rightarrow> Buf) \<Rightarrow> bool" where
  "task_ok T h \<longleftrightarrow> fresh_out (h (T_out T)) \<and> task_reply T (content (h (T_out T)))"

definition own_bufs :: "nat set \<Rightarrow> nat \<Rightarrow> nat \<Rightarrow> 'fs World \<Rightarrow> bool" where
  "own_bufs io inb out w \<longleftrightarrow> inb \<notin> io \<and> out \<notin> io \<and> inb \<noteq> out \<and> busy_io (insert inb (insert out io)) w"

definition call_ctx :: "nat set \<Rightarrow> nat \<Rightarrow> nat \<Rightarrow> Compound \<Rightarrow> 'fs World \<Rightarrow> ctx" where
  "call_ctx io inb out x w =
     \<lparr>c_in = inb, c_out = out, c_io = insert inb (insert out io), c_uses = (\<lambda>_. 0), c_held = {}, c_x = x,
      c_pre = content (Pool_heap (W_pool w) out),
      c_kept = (\<lambda>b. if b \<in> io then Some (Pool_heap (W_pool w) b) else None)\<rparr>"

lemma call_ctx_simps [simp]:
  "c_in (call_ctx io inb out x w) = inb" "c_out (call_ctx io inb out x w) = out" "c_x (call_ctx io inb out x w) = x"
  "c_pre (call_ctx io inb out x w) = content (Pool_heap (W_pool w) out)"
  by (simp_all add: call_ctx_def)

lemma call_pre:
  assumes "own_bufs io inb out w" and "fresh_out (Pool_heap (W_pool w) out)"
  shows "pre (call_ctx io inb out x w) \<lparr>st_x = x, st_w = w\<rparr>"
  using assms by (auto simp: own_bufs_def pre_def ctx_inv_def call_ctx_def busy_io_def buf_at_def untouched_def split: if_splits)

lemma call_settled:
  assumes "own_bufs io inb out w" and "settled (call_ctx io inb out x w) st"
  shows "own_bufs io inb out (st_w st)" and "same_bufs io w (st_w st)" and "fresh_out (Pool_heap (W_pool (st_w st)) out)"
  using assms by (auto simp: own_bufs_def settled_def busy_io_def same_bufs_def untouched_def buf_at_def call_ctx_def split: if_splits)

section \<open>One operation\<close>

lemma task_operation:
  assumes own: "own_bufs io (T_in T) (T_out T) w" and ok: "task_ok T (Pool_heap (W_pool w))" and more: "more_ops T"
    and op: "Operation m (T_in T) (T_out T) \<lparr>st_x = T_x T, st_w = w\<rparr> = Inr (r, st)"
  shows "own_bufs io (T_in T) (T_out T) (st_w st)" and "same_bufs io w (st_w st)"
    and "r = Inr s \<Longrightarrow> task_ok (T\<lparr>T_x := st_x st, T_left := T_left T - 1, T_count := Suc (T_count T), T_last := s\<rparr>)
      (Pool_heap (W_pool (st_w st)))"
proof -
  let ?C = "call_ctx io (T_in T) (T_out T) (T_x T) w"
  have "pre ?C \<lparr>st_x = T_x T, st_w = w\<rparr>" using own ok by (intro call_pre) (simp_all add: task_ok_def)
  then have post: "post ?C r st" using Operation_answers [of m] op unfolding answers_def good_def by fastforce
  then have ctx: "ctx_inv ?C st" by (simp add: post_def)
  note settled = call_settled [OF own ctx_settled [OF ctx]]
  show "own_bufs io (T_in T) (T_out T) (st_w st)" "same_bufs io w (st_w st)" using settled by simp_all
  assume s: "r = Inr s"
  have x: "same_call (T_x T) (st_x st)" using ctx by (simp add: ctx_inv_def)
  obtain op' d where d: "content (Pool_heap (W_pool (st_w st)) (T_out T)) =
      content (Pool_heap (W_pool w) (T_out T)) @ resp_bytes (op', s, d)"
    using post s by (auto simp: post_def buf_at_def resp_bytes_def)
  obtain rs where rs: "rs \<noteq> []"
      "content (Pool_heap (W_pool w) (T_out T)) = header_bytes (T_x T) (x_OpsCount (T_x T)) NFS4_OK @ body_bytes rs"
      "T_count T = length rs" "T_last T = status_of (last rs)" "T_count T + T_left T = max 1 (x_OpsCount (T_x T))"
      "\<forall>r \<in> set (butlast rs). status_of r \<notin> set FatalStatuses"
    using ok by (auto simp: task_ok_def task_reply_def)
  have "\<forall>r \<in> set rs. status_of r \<notin> set FatalStatuses"
    using rs(1,4,6) more by (metis UnE append_butlast_last_id empty_iff list.set(1) more_ops_def set_ConsD set_append)
  then show "task_ok (T\<lparr>T_x := st_x st, T_left := T_left T - 1, T_count := Suc (T_count T), T_last := s\<rparr>)
      (Pool_heap (W_pool (st_w st)))"
    using settled(3) d rs x more header_same_call [OF x]
    by (auto simp: task_ok_def task_reply_def same_call_def more_ops_def intro!: exI [of _ "rs @ [(op', s, d)]"])
qed


section \<open>The end of the reply\<close>

text \<open>The slot whose buffer is to keep the reply still has it.\<close>

definition keep_ok :: "Task \<Rightarrow> 'fs World \<Rightarrow> bool" where
  "keep_ok T w \<longleftrightarrow> (\<forall>b. T_keep T = Some b \<longrightarrow> b \<in> set (table_bufs (W_clients w)))"

lemma Rewrite_frame:
  "RewriteHeaderIfNeeded out n s st = Inr (r, st') \<Longrightarrow> W_clients (st_w st') = W_clients (st_w st) \<and>
     Pool_bufs (W_pool (st_w st')) = Pool_bufs (W_pool (st_w st))"
  by (auto simp: Rewrite_eq upd_pool_def Pool_update_def split: if_splits)

text \<open>A complete reply: it ran until the first fatal status or the end of the request, and says so.\<close>

definition complete_reply :: "Compound \<Rightarrow> bytes \<Rightarrow> bool" where
  "complete_reply x b \<longleftrightarrow> (\<exists>rs. rs \<noteq> [] \<and> ran_until_fatal (max 1 (x_OpsCount x)) rs \<and> b = reply_bytes x rs)"

lemma task_completes:
  assumes own: "own_bufs io (T_in T) (T_out T) w" and ok: "task_ok T (Pool_heap (W_pool w))" and more: "\<not> more_ops T"
    and keep: "keep_ok T w"
    and run: "run_finish (T_out T) (T_count T) (T_last T) (T_keep T) \<lparr>st_x = T_x T, st_w = w\<rparr> = Inr (r, st)"
  shows "own_bufs io (T_in T) (T_out T) (st_w st)" and "same_bufs io w (st_w st)" and "r = Inr ()"
    and "complete_reply (T_x T) (content (Pool_heap (W_pool (st_w st)) (T_out T)))"
proof -
  let ?C = "call_ctx io (T_in T) (T_out T) (T_x T) w" and ?st = "\<lparr>st_x = T_x T, st_w = w\<rparr>" and ?out = "T_out T"
  have ctx: "ctx_inv ?C ?st" using call_pre [OF own] ok by (auto simp: task_ok_def pre_def)
  obtain rs where rs: "rs \<noteq> []"
      "content (buf_at ?out ?st) = header_bytes (T_x T) (x_OpsCount (T_x T)) NFS4_OK @ body_bytes rs"
      "T_count T = length rs" "T_last T = status_of (last rs)" "T_count T + T_left T = max 1 (x_OpsCount (T_x T))"
      "\<forall>r \<in> set (butlast rs). status_of r \<notin> set FatalStatuses"
    using ok by (auto simp: task_ok_def task_reply_def buf_at_def)
  obtain st1 where st1: "RewriteHeaderIfNeeded ?out (T_count T) (T_last T) ?st = Inr (Inr (), st1)" "ctx_inv ?C st1"
      "content (buf_at ?out st1) = header_bytes (T_x T) (T_count T) (T_last T) @ body_bytes rs"
    using Rewrite_reply [of ?C ?st "x_OpsCount (T_x T)" "body_bytes rs" "T_count T" "T_last T", OF ctx] rs(2)
    unfolding call_ctx_simps by blast
  note frame = Rewrite_frame [OF st1(1)]
  have "ctx_inv ?C st \<and> buf_at ?out st = buf_at ?out st1 \<and> r = Inr ()"
  proof (cases "T_keep T")
    case None
    then show ?thesis using run st1 by (simp add: run_finish_def)
  next
    case (Some b)
    have "b \<in> set (table_bufs (W_clients w))" using keep Some by (simp add: keep_ok_def)
    then have "b \<notin> c_io ?C" "b \<notin> set (Pool_bufs (W_pool (st_w st1)))"
      using ctx frame by (auto simp: ctx_inv_def world_inv_def bufs_ok_def pool_inv_def)
    from copy_from_out [OF st1(2) this] show ?thesis using run st1(1) Some by (simp add: run_finish_def)
  qed
  note end_ = this
  note settled = call_settled [OF own ctx_settled [of ?C st]]
  show "own_bufs io (T_in T) ?out (st_w st)" "same_bufs io w (st_w st)" "r = Inr ()" using settled end_ by simp_all
  have "ran_until_fatal (max 1 (x_OpsCount (T_x T))) rs"
    using rs more by (auto simp: ran_until_fatal_def more_ops_def)
  moreover have "content (Pool_heap (W_pool (st_w st)) ?out) = reply_bytes (T_x T) rs"
    using end_ st1(3) rs(3,4) by (simp add: buf_at_def reply_bytes_def)
  ultimately show "complete_reply (T_x T) (content (Pool_heap (W_pool (st_w st)) ?out))"
    using rs(1) by (auto simp: complete_reply_def)
qed

section \<open>Steps\<close>

text \<open>What a step leaves: the result of a call, or a call in progress.\<close>

definition stepped :: "nat set \<Rightarrow> RPCMsgCall \<Rightarrow> nat \<Rightarrow> call_state \<Rightarrow> 'fs World \<Rightarrow> 'fs World \<Rightarrow> bool" where
  "stepped io hdr data c w w' \<longleftrightarrow>
     (case c of
        Finished r \<Rightarrow> handled io r w w' \<and> (\<forall>reply out. r = Inr (reply, out) \<longrightarrow> RPCMsgReply_Xid reply = RPCMsgCall_Xid hdr)
      | Running T \<Rightarrow> T_hdr T = hdr \<and> T_in T = data \<and> own_bufs io data (T_out T) w' \<and> same_bufs io w w' \<and>
          task_ok T (Pool_heap (W_pool w')) \<and> T_left T < 2 ^ 32)"

lemma stepped_result:
  assumes "own_bufs io data out w'" and "same_bufs io w w'"
  shows "stepped io hdr data (fst (call_result hdr data out r w')) w (snd (call_result hdr data out r w'))"
proof -
  have o: "data \<notin> io" "out \<notin> io" "data \<noteq> out" "busy_io (insert data (insert out io)) w'"
    using assms(1) by (simp_all add: own_bufs_def)
  have "busy_io (insert out io) (w_pool (Pool_Put data) w')"
    using busy_io_Put [OF o(4), of data] o(1,3) by simp
  moreover from this have "busy_io io (w_pool (Pool_Put data) w')" by (rule busy_io_mono) auto
  moreover have "same_bufs io w (w_pool (Pool_Put data) w')"
    using same_bufs_trans [OF assms(2) same_bufs_pool(2) [OF o(1)]] .
  ultimately show ?thesis
    using o(2) by (cases r) (simp_all add: stepped_def call_result_def handled_def reply_msg_def)
qed

lemma task_next_stepped:
  assumes own: "own_bufs io (T_in T) (T_out T) w" and ok: "task_ok T (Pool_heap (W_pool w))" and n: "T_left T < 2 ^ 32"
    and keep: "\<not> more_ops T \<Longrightarrow> keep_ok T w" and run: "task_next m T w = Inr (c, w')"
  shows "stepped io (T_hdr T) (T_in T) c w w'"
proof (cases "more_ops T")
  case True
  obtain r st where op: "Operation m (T_in T) (T_out T) \<lparr>st_x = T_x T, st_w = w\<rparr> = Inr (r, st)"
    using run True by (auto simp: task_next_def go_bind_eq_Inr)
  note after = task_operation [OF own ok True op]
  show ?thesis
  proof (cases r)
    case (Inl e)
    then show ?thesis
      using run True op stepped_result [OF after(1,2), of "T_hdr T" "Inl e"] by (simp add: task_next_def)
  next
    case (Inr s)
    then show ?thesis using run True op after n by (auto simp: task_next_def stepped_def)
  qed
next
  case False
  obtain r st where fin: "run_finish (T_out T) (T_count T) (T_last T) (T_keep T) \<lparr>st_x = T_x T, st_w = w\<rparr> = Inr (r, st)"
    using run False by (auto simp: task_next_def go_bind_eq_Inr)
  note after = task_completes [OF own ok False keep [OF False] fin]
  show ?thesis
    using run False fin stepped_result [OF after(1,2), of "T_hdr T" r] by (simp add: task_next_def)
qed

text \<open>The last step leaves the complete reply.\<close>

lemma task_next_done:
  assumes own: "own_bufs io (T_in T) (T_out T) w" and ok: "task_ok T (Pool_heap (W_pool w))" and more: "\<not> more_ops T"
    and keep: "keep_ok T w" and run: "task_next m T w = Inr (c, w')"
  shows "c = Finished (Inr (reply_msg (T_hdr T) MSG_ACCEPTED, T_out T)) \<and>
    complete_reply (T_x T) (content (Pool_heap (W_pool w') (T_out T)))"
proof -
  obtain r st where fin: "run_finish (T_out T) (T_count T) (T_last T) (T_keep T) \<lparr>st_x = T_x T, st_w = w\<rparr> = Inr (r, st)"
      and c: "(c, w') = call_result (T_hdr T) (T_in T) (T_out T) r (st_w st)"
    using run more by (auto simp: task_next_def go_bind_eq_Inr)
  note after = task_completes [OF own ok more keep fin]
  have "T_in T \<noteq> T_out T" using own by (simp add: own_bufs_def)
  then have "Pool_heap (W_pool w') (T_out T) = Pool_heap (W_pool (st_w st)) (T_out T)"
    using c by (simp add: call_result_def w_pool_def Pool_Put_def)
  then show ?thesis using c after(3,4) by (simp add: call_result_def)
qed

section \<open>The first step\<close>

text \<open>\<open>run_start\<close> leaves the loop with one response written, or a reply that is complete.\<close>

definition started :: "ctx \<Rightarrow> go_error + loop_state option \<Rightarrow> 'fs st \<Rightarrow> bool" where
  "started C r st \<longleftrightarrow> settled C st \<and> (\<forall>k n s keep. r = Inr (Some (k, n, s, keep)) \<longrightarrow>
     n = 1 \<and> k = x_OpsCount (c_x C) - 1 \<and> x_OpsCount (st_x st) = x_OpsCount (c_x C) \<and>
     (\<exists>op d. content (buf_at (c_out C) st) =
       header_bytes (st_x st) (x_OpsCount (c_x C)) NFS4_OK @ resp_bytes (op, s, d)))"

lemma first_response:
  assumes p: "pre C st" and e: "c_pre C = []" and n: "n = x_OpsCount (c_x C)"
    and first: "\<And>C' st. pre C' st \<Longrightarrow> c_in C' = c_in C \<Longrightarrow> c_out C' = c_out C \<Longrightarrow> good C' (f st)"
    and run: "res_bind (WriteHeader (c_out C) n NFS4_OK st) (\<lambda>_ st. res_bind (f st)
      (\<lambda>s st. Inr (Inr (Some (n - 1, 1, s, keep)), st))) = Inr (r, st')"
  shows "started C r st'"
proof -
  have x: "same_call (c_x C) (st_x st)" using p by (simp add: pre_def ctx_inv_def)
  let ?h = "header_bytes (c_x C) n NFS4_OK"
  let ?C1 = "C\<lparr>c_pre := ?h\<rparr>" and ?st1 = "upd_pool (Pool_update (c_out C) (Buf_Write ?h)) st"
  have "pre ?C1 ?st1" using ctx_write [OF pre_ctx [OF p], of ?h] p e by (simp add: pre_def)
  then have g: "good ?C1 (f ?st1)" by (rule first) simp_all
  obtain r1 st2 where f1: "f ?st1 = Inr (r1, st2)" and r: "res_bind (Inr (r1, st2))
      (\<lambda>s st. Inr (Inr (Some (n - 1, 1, s, keep)), st)) = Inr (r, st')"
    using run by (auto simp: WriteHeader_eq header_same_call [OF x] res_bind_def go_bind_eq_Inr)
  have q: "post ?C1 r1 st2" using g f1 by (simp add: good_def)
  then have c: "ctx_inv C st2" by (simp add: post_def)
  have st': "st' = st2" using r by (cases r1) simp_all
  have x2: "same_call (c_x C) (st_x st2)" using c by (simp add: ctx_inv_def)
  show ?thesis
  proof (cases r1)
    case (Inl e)
    then show ?thesis using r ctx_settled [OF c] st' by (auto simp: started_def)
  next
    case (Inr s)
    then obtain op d where "content (buf_at (c_out C) st2) = ?h @ resp_bytes (op, s, d)"
      using q by (auto simp: post_def resp_bytes_def)
    then show ?thesis
      using r Inr ctx_settled [OF c] st' n x2 header_same_call [OF x2] by (auto simp: started_def same_call_def)
  qed
qed

lemma single_started:
  assumes p: "pre C st" and run: "no_loop (WriteHeaderAndSingleOperation (c_out C) op s st) = Inr (r, st')"
  shows "started C r st'"
  using single_reply [OF p, of op s] run by (auto simp: no_loop_def started_def ctx_settled)

lemma accept_started:
  assumes p: "pre C st" and e: "c_pre C = []"
    and c: "mget (W_clients (st_w st)) (ClientIDFromSessionID (SEQUENCE4args_SessionID args)) = Some c"
    and sl: "GetSlot (SEQUENCE4args_SessionID args) (SEQUENCE4args_SlotID args) c = Some slot"
    and run: "sequence_accept (c_out C) args slot st = Inr (r, st')"
  shows "started C r st'"
proof -
  let ?st1 = "accept_slot args slot st"
  let ?C = "C\<lparr>c_x := st_x ?st1\<rparr>"
  note acc = accept_pre [OF p c sl]
  let ?keep = "if Slot_ContainsData (accepted args slot) then Slot_Buf slot else None"
  have "started ?C r st'"
  proof (rule first_response [where f = "sequence_response args (c_out C)" and st = ?st1])
    show "pre ?C ?st1" by (rule acc(1))
    show "res_bind (WriteHeader (c_out ?C) (x_OpsCount (c_x ?C)) NFS4_OK ?st1) (\<lambda>_ st.
        res_bind (sequence_response args (c_out C) st) (\<lambda>s st.
          Inr (Inr (Some (x_OpsCount (c_x ?C) - 1, 1, s, ?keep)), st))) = Inr (r, st')"
      using run by (cases "Slot_Buf slot"; cases "SEQUENCE4args_CacheThis args")
        (simp_all add: sequence_accept_def Let_def accept_slot_def accepted_def)
  qed (use e in \<open>auto intro: good_response\<close>)
  then show ?thesis using acc(2,3) by (auto simp: started_def settled_def)
qed


lemma sequence_started:
  assumes p: "pre C st" and e: "c_pre C = []" and run: "sequence_start (c_in C) (c_out C) st = Inr (r, st')"
  shows "started C r st'"
proof (cases "on_buf (dec_SEQUENCE4args (content (buf_at (c_in C) st)))")
  case (Inl s)
  then have "st' = st" "r \<noteq> Inr x" for x using run by (cases s; auto simp: sequence_start_def arg_def)+
  then show ?thesis using ctx_settled [OF pre_ctx [OF p]] by (simp add: started_def)
next
  case (Inr v)
  obtain args rest where v: "v = (args, rest)" by force
  let ?sid = "SEQUENCE4args_SessionID args"
  define st1 where "st1 = upd_pool (Pool_update (c_in C) (\<lambda>b. b\<lparr>Buf_r := Buf_w b - length rest\<rparr>)) st"
  have p1: "pre C st1" unfolding st1_def by (rule pre_read [OF p])
  obtain g cs where get: "Clients_Get (ClientIDFromSessionID ?sid) (W_now (st_w st1)) (W_clients (st_w st1)) = (g, cs)"
    by force
  let ?st2 = "upd_clients (\<lambda>_. cs) st1"
  have p2: "pre C ?st2" using p1 get by (rule pre_table(1))
  note run1 = run [unfolded sequence_start_def arg_def Inr v, simplified, folded st1_def, simplified, unfolded get Let_def, simplified]
  show ?thesis
  proof (cases g)
    case None
    then show ?thesis using run1 by (intro single_started [OF p2]) auto
  next
    case (Some c)
    have c: "mget (W_clients (st_w ?st2)) (ClientIDFromSessionID ?sid) = Some c"
      using get Some by (auto dest: Clients_Get_Some)
    show ?thesis
    proof (cases "GetSlot ?sid (SEQUENCE4args_SlotID args) c")
      case None
      then show ?thesis using run1 Some by (intro single_started [OF p2]) auto
    next
      case slot: (Some slot)
      note run2 = run1 [unfolded \<open>g = Some c\<close>, simplified, unfolded slot, simplified]
      consider (replay) b where "Slot_Buf slot = Some b" "no_loop (copy_buf b (c_out C) ?st2) = Inr (r, st')"
        | (refused) s where "no_loop (WriteHeaderAndSingleOperation (c_out C) OP4_SEQUENCE s ?st2) = Inr (r, st')"
        | (go) "sequence_accept (c_out C) args slot ?st2 = Inr (r, st')"
        using run2 by (auto split: if_splits option.splits)
      then show ?thesis
      proof cases
        case replay
        show ?thesis
          using copy_to_out [OF p2 slot_buf_owned [OF c slot replay(1)]] replay(2)
          by (auto simp: no_loop_def started_def ctx_settled)
      next
        case refused
        then show ?thesis by (rule single_started [OF p2])
      next
        case go
        then show ?thesis by (rule accept_started [OF p2 e c slot])
      qed
    qed
  qed
qed

lemma run_started:
  assumes p: "pre C st" and e: "c_pre C = []" and run: "run_start m (c_in C) (c_out C) st = Inr (r, st')"
  shows "started C r st'"
proof (cases "on_buf (dUint32 (content (buf_at (c_in C) st)))")
  case (Inl s)
  then have "st' = st" "r \<noteq> Inr x" for x using run by (cases s; auto simp: run_start_def arg_def)+
  then show ?thesis using ctx_settled [OF pre_ctx [OF p]] by (simp add: started_def)
next
  case (Inr v)
  obtain op rest where v: "v = (op, rest)" by force
  define st1 where "st1 = upd_pool (Pool_update (c_in C) (\<lambda>b. b\<lparr>Buf_r := Buf_w b - length rest\<rparr>)) st"
  have p1: "pre C st1" unfolding st1_def by (rule pre_read [OF p])
  have n: "x_OpsCount (st_x st1) = x_OpsCount (c_x C)"
    using p1 by (simp add: pre_def ctx_inv_def same_call_def)
  have x: "st_x st1 = st_x st" by (simp add: st1_def)
  let ?minor = "x_MinorVer (st_x st)" and ?n = "x_OpsCount (st_x st)"
  let ?plain = "res_bind (WriteHeader (c_out C) ?n NFS4_OK st1) (\<lambda>_ st. res_bind
        (doOperation m (c_in C) (c_out C) op st) (\<lambda>s st. Inr (Inr (Some (?n - 1, 1, s, None)), st)))"
  have run1: "(if ?minor > 0 \<and> op \<notin> set AllowedFirstOps41
      then no_loop (WriteHeaderAndSingleOperation (c_out C) op NFS4ERR_OP_NOT_IN_SESSION st1)
      else if ?minor > 0 \<and> op \<noteq> OP4_SEQUENCE \<and> ?n > 1
      then no_loop (WriteHeaderAndSingleOperation (c_out C) op NFS4ERR_NOT_ONLY_OP st1)
      else if ?minor > 0 \<and> op = OP4_SEQUENCE then sequence_start (c_in C) (c_out C) st1 else ?plain) = Inr (r, st')"
    using run unfolding run_start_def arg_def Inr v sum.case prod.case Let_def st1_def [symmetric] x .
  have op: "good C' (doOperation m (c_in C) (c_out C) op st)" if "pre C' st" "c_in C' = c_in C" "c_out C' = c_out C"
    for C' and st :: "'a st"
    using doOperation_good [OF that(1), of m op] that(2,3) by simp
  have plain: "?plain = Inr (r, st') \<Longrightarrow> ?thesis"
    by (rule first_response [OF p1 e _ op]) (simp_all add: n [unfolded x])
  show ?thesis
    using run1 single_started [OF p1] sequence_started [OF p1 e] plain by (metis (no_types, lifting))
qed


lemma started_stepped:
  assumes own: "own_bufs io data out w" and st: "started (call_ctx io data out x w) r st'" and n: "x_OpsCount x < 2 ^ 32"
    and c: "c = (case r of
                   Inl e \<Rightarrow> call_result hdr data out (Inl e) (st_w st')
                 | Inr None \<Rightarrow> call_result hdr data out (Inr ()) (st_w st')
                 | Inr (Some (k, n, s, keep)) \<Rightarrow>
                     (Running \<lparr>T_hdr = hdr, T_x = st_x st', T_in = data, T_out = out, T_left = k, T_count = n,
                        T_last = s, T_keep = keep\<rparr>, st_w st'))"
  shows "stepped io hdr data (fst c) w (snd c)"
proof -
  have settled: "settled (call_ctx io data out x w) st'" using st by (simp add: started_def)
  note s = call_settled [OF own this]
  consider (err) e where "r = Inl e" | (none) "r = Inr None" | (loop) k n s keep where "r = Inr (Some (k, n, s, keep))"
    by (metis option.exhaust prod_cases4 sum.exhaust)
  then show ?thesis
  proof cases
    case loop
    then obtain op d where l: "n = 1" "k = x_OpsCount x - 1" "x_OpsCount (st_x st') = x_OpsCount x"
        "content (Pool_heap (W_pool (st_w st')) out) = header_bytes (st_x st') (x_OpsCount x) NFS4_OK @ resp_bytes (op, s, d)"
      using st by (auto simp: started_def buf_at_def)
    let ?T = "\<lparr>T_hdr = hdr, T_x = st_x st', T_in = data, T_out = out, T_left = k, T_count = n, T_last = s, T_keep = keep\<rparr>"
    have "task_reply ?T (content (Pool_heap (W_pool (st_w st')) out))"
      unfolding task_reply_def using l by (intro exI [of _ "[(op, s, d)]"]) simp
    then show ?thesis using c loop s l(1,2) assms(3) by (simp add: stepped_def task_ok_def)
  qed (simp_all add: c stepped_result [OF s(1,2)])
qed

lemma begin_compound_stepped:
  assumes b: "busy_io (insert data io) w" and d: "data \<notin> io" and r: "begin_compound m hdr resp creds data w = Inr (c, w')"
  shows "stepped io hdr data c w w'"
proof -
  obtain tag minor n rest where dec: "dec_compound_args (content (Pool_heap (W_pool w) data)) = Inr ((tag, minor, n), rest)"
    using r by (auto simp: begin_compound_def go_bind_eq_Inr)
  let ?w1 = "w_pool (Pool_update data (\<lambda>b. b\<lparr>Buf_r := Buf_w b - length rest\<rparr>)) w"
  obtain out p where g: "Pool_Get (W_pool ?w1) = (out, p)" by force
  let ?w2 = "?w1\<lparr>W_pool := p\<rparr>"
  have b1: "busy_io (insert data io) ?w1" using b by (intro busy_io_update) (auto simp: wf_buf_def)
  note new = bufs_ok_Get [OF busy_io_bufs [OF b1] g]
  then have own: "own_bufs io data out ?w2"
    using b1 d by (auto simp: own_bufs_def insert_commute intro: busy_io_pool)
  have same: "same_bufs io w ?w2"
  proof -
    have "same_bufs io w ?w1" using d by (rule same_bufs_pool(1))
    moreover have "same_bufs io ?w1 ?w2" using Pool_Get_other [OF g] own by (fastforce simp: same_bufs_def own_bufs_def)
    ultimately show ?thesis by (rule same_bufs_trans)
  qed
  have after: "stepped io hdr data c ?w2 w'"
  proof (cases "minor > 2")
    case True
    obtain r1 w3 where a: "answer_with (reply_msg hdr MSG_ACCEPTED) out
        [enc_Auth resp, eUint32 ACCEPT_SUCCESS, eUint32 NFS4ERR_MINOR_VERS_MISMATCH, eString tag, eUint32 0] ?w2 = Inr (r1, w3)"
        and c: "c = Finished r1" "w' = w_pool (Pool_Put data) w3"
      using r dec g True by (auto simp: begin_compound_def Let_def go_bind_eq_Inr)
    have "busy_io (insert data (insert out io)) ?w2" using own by (simp add: own_bufs_def)
    note io = answer_with_io [OF this _ a]
    then have "own_bufs io data out w3" "same_bufs io ?w2 w3"
      using own by (auto simp: own_bufs_def intro: same_bufs_mono)
    note s = stepped_result [OF this, of hdr "case r1 of Inl e \<Rightarrow> Inl e | Inr _ \<Rightarrow> Inr ()"]
    have "r1 = result_of hdr out (case r1 of Inl e \<Rightarrow> Inl e | Inr _ \<Rightarrow> Inr ())"
      using answer_with_reply a io by (cases r1) auto
    then show ?thesis using s c by (simp add: call_result_def)
  next
    case False
    let ?x = "new_Compound resp minor tag (unat n) creds"
    obtain r1 st' where run: "run_start m data out \<lparr>st_x = ?x, st_w = ?w2\<rparr> = Inr (r1, st')"
        and c: "(c, w') = (case r1 of
                   Inl e \<Rightarrow> call_result hdr data out (Inl e) (st_w st')
                 | Inr None \<Rightarrow> call_result hdr data out (Inr ()) (st_w st')
                 | Inr (Some (k, n, s, keep)) \<Rightarrow>
                     (Running \<lparr>T_hdr = hdr, T_x = st_x st', T_in = data, T_out = out, T_left = k, T_count = n,
                        T_last = s, T_keep = keep\<rparr>, st_w st'))"
      using r dec g False by (auto simp: begin_compound_def Let_def go_bind_eq_Inr)
    have "pre (call_ctx io data out ?x ?w2) \<lparr>st_x = ?x, st_w = ?w2\<rparr>" using new by (intro call_pre [OF own]) simp
    then have "started (call_ctx io data out ?x ?w2) r1 st'" using run new by (intro run_started) simp_all
    from started_stepped [OF own this _ c] show ?thesis using unsigned_less [of n] by (simp add: new_Compound_def)
  qed
  then show ?thesis
    using same_bufs_trans [OF same] by (auto simp: stepped_def handled_def split: call_state.splits)
qed

lemma begin_call_stepped:
  assumes b: "busy_io (insert data io) w" and d: "data \<notin> io" and r: "begin_call m hdr data w = Inr (c, w')"
  shows "stepped io hdr data c w w'"
proof (cases "\<exists>resp creds. RPCMsgCall_Vers hdr = 4 \<and> RPCMsgCall_Proc hdr = PROC4_COMPOUND \<and>
    Authenticate (RPCMsgCall_Cred hdr) (RPCMsgCall_Verf hdr) = Inr (resp, creds)")
  case True
  then show ?thesis using r begin_compound_stepped [OF b d] by (auto simp: begin_call_def)
next
  case False
  then obtain e where no: "RPCMsgCall_Vers hdr \<noteq> 4 \<or> RPCMsgCall_Proc hdr \<noteq> PROC4_COMPOUND \<or>
      Authenticate (RPCMsgCall_Cred hdr) (RPCMsgCall_Verf hdr) = Inl e"
    by (cases "Authenticate (RPCMsgCall_Cred hdr) (RPCMsgCall_Verf hdr)") auto
  then obtain r1 where h: "Handle m hdr data w = Inr (r1, w')" "c = Finished r1"
    using r by (auto simp: begin_call_def Let_def go_bind_eq_Inr split: if_splits sum.splits)
  then show ?thesis
    using Handle_handled [OF b d h(1) no] Handle_xid [of m hdr data w] by (auto simp: stepped_def)
qed

end
