(* ===== verification/Pipeline.thy ===== *)
theory Pipeline
  imports TaskInv "HOL-Library.Multiset"
begin

text \<open>
  A connection as the server runs it (\<^verbatim>\<open>conn.go\<close>): a goroutine that receives calls, one that forwards them
  and stops when the connection is cancelled, one goroutine per call that handles it, and one that sends
  the replies, with channels of bounded capacity between them. Steps of different goroutines interleave in every
  order, and so do the operations of different compounds: one operation is one step.
\<close>

section \<open>The state of a connection\<close>

type_synonym request = "RPCMsgCall \<times> nat"

text \<open>The receiving goroutine: before its test of the context, blocked in \<^verbatim>\<open>ReceiveCall\<close>, blocked on
  \<^verbatim>\<open>intermediate\<close>, returned (\<^verbatim>\<open>intermediate\<close> closed). The forwarding loop: blocked in its \<^verbatim>\<open>select\<close>, blocked on
  \<^verbatim>\<open>c.Request\<close>, returned (\<^verbatim>\<open>c.Request\<close> closed). A handler: before \<^verbatim>\<open>HandleProc\<close>, between two operations of its
  compound, blocked on \<^verbatim>\<open>c.Response\<close>. The sender: before its test of the queue, blocked on \<^verbatim>\<open>c.Response\<close>, returned.
  Of an answer, \<open>A_result\<close> is the \<^verbatim>\<open>Response\<close>; the rest only records history: the request, what the handler left in
  the buffer of the reply, and the state of its compound when it completed the reply.\<close>

record Answer =
  A_req :: request
  A_result :: handler_result
  A_payload :: bytes
  A_task :: "Task option"

datatype receiver = Checking | Reading | Offering request | ReceiverDone
datatype forwarder = Selecting | Forwarding request | ForwarderDone
datatype job = Handling request | Executing request Task | Answering Answer
datatype sender = Flushing | Waiting | SenderDone

text \<open>\<open>P_received\<close> and \<open>P_done\<close> only record history: the calls received, and the calls whose response the sender
  has taken, each with the record it wrote, if any.\<close>

record Pipe =
  P_in :: bytes
  P_receiver :: receiver
  P_intermediate :: "request list"
  P_forwarder :: forwarder
  P_Request :: "request list"
  P_jobs :: "job list"
  P_mux_done :: bool
  P_Response :: "Answer list"
  P_sender :: sender
  P_cancelled :: bool
  P_err :: "go_error list"
  P_buffered :: bytes
  P_net :: bytes
  P_broken :: bool
  P_received :: "request list"
  P_done :: "(Answer \<times> bytes option) list"

text \<open>\<^verbatim>\<open>HandleConn\<close> and \<^verbatim>\<open>Serve\<close>: the channels are made and the goroutines started.\<close>

definition chan_cap :: nat where "chan_cap = 50"

definition new_pipe :: "bytes \<Rightarrow> Pipe" where
  "new_pipe s = \<lparr>P_in = s, P_receiver = Checking, P_intermediate = [], P_forwarder = Selecting, P_Request = [],
     P_jobs = [], P_mux_done = False, P_Response = [], P_sender = Flushing, P_cancelled = False, P_err = [],
     P_buffered = [], P_net = [], P_broken = False, P_received = [], P_done = []\<rparr>"

section \<open>The goroutines\<close>

text \<open>The goroutine inside \<^verbatim>\<open>ReceiveRequests\<close> that may block. \<open>P_in\<close> is what the peer will have sent when it closes
  the connection.\<close>

inductive receive_step :: "Pipe \<Rightarrow> 'fs World \<Rightarrow> Pipe \<Rightarrow> 'fs World \<Rightarrow> bool" where
  stop: "P_receiver P = Checking \<Longrightarrow> P_cancelled P \<Longrightarrow> receive_step P w (P\<lparr>P_receiver := ReceiverDone\<rparr>) w"
| go_on: "P_receiver P = Checking \<Longrightarrow> \<not> P_cancelled P \<Longrightarrow> receive_step P w (P\<lparr>P_receiver := Reading\<rparr>) w"
| failed: "P_receiver P = Reading \<Longrightarrow> ReceiveCall (P_in P) (W_pool w) = Inr (Inl e, s, p) \<Longrightarrow>
    receive_step P w (P\<lparr>P_receiver := ReceiverDone, P_in := s, P_err := P_err P @ [e]\<rparr>) (w\<lparr>W_pool := p\<rparr>)"
| received: "P_receiver P = Reading \<Longrightarrow> ReceiveCall (P_in P) (W_pool w) = Inr (Inr req, s, p) \<Longrightarrow>
    receive_step P w (P\<lparr>P_receiver := Offering req, P_in := s, P_received := P_received P @ [req]\<rparr>) (w\<lparr>W_pool := p\<rparr>)"
| offered: "P_receiver P = Offering req \<Longrightarrow> length (P_intermediate P) < 1 \<Longrightarrow>
    receive_step P w (P\<lparr>P_receiver := Checking, P_intermediate := P_intermediate P @ [req]\<rparr>) w"

text \<open>The loop of \<^verbatim>\<open>ReceiveRequests\<close>: when both cases of the \<^verbatim>\<open>select\<close> are ready, either may be taken.\<close>

inductive forward_step :: "Pipe \<Rightarrow> Pipe \<Rightarrow> bool" where
  cancelled: "P_forwarder P = Selecting \<Longrightarrow> P_cancelled P \<Longrightarrow> forward_step P (P\<lparr>P_forwarder := ForwarderDone\<rparr>)"
| closed: "P_forwarder P = Selecting \<Longrightarrow> P_intermediate P = [] \<Longrightarrow> P_receiver P = ReceiverDone \<Longrightarrow>
    forward_step P (P\<lparr>P_forwarder := ForwarderDone\<rparr>)"
| taken: "P_forwarder P = Selecting \<Longrightarrow> P_intermediate P = req # rest \<Longrightarrow>
    forward_step P (P\<lparr>P_forwarder := Forwarding req, P_intermediate := rest\<rparr>)"
| forwarded: "P_forwarder P = Forwarding req \<Longrightarrow> length (P_Request P) < chan_cap \<Longrightarrow>
    forward_step P (P\<lparr>P_forwarder := Selecting, P_Request := P_Request P @ [req]\<rparr>)"

text \<open>Between two steps of a compound, other requests on its slot may change the slot it points to.\<close>

definition reslot :: "Task \<Rightarrow> Task \<Rightarrow> bool" where
  "reslot T T' \<longleftrightarrow> T' = T \<or> (\<exists>slot sequenceID cacheThis. x_Slot (T_x T) = Some slot \<and>
     T' = T\<lparr>T_x := (T_x T)\<lparr>x_Slot := Some (Slot_Accept sequenceID cacheThis slot)\<rparr>,
            T_keep := if cacheThis then Slot_Buf slot else None\<rparr>)"

text \<open>The goroutine of a call after a step of the call.\<close>

fun payload_of :: "handler_result \<Rightarrow> 'fs World \<Rightarrow> bytes" where
  "payload_of (Inr (reply, out)) w = content (Pool_heap (W_pool w) out)"
| "payload_of (Inl e) w = []"

fun job_of :: "request \<Rightarrow> Task option \<Rightarrow> call_state \<Rightarrow> 'fs World \<Rightarrow> job" where
  "job_of req t (Running T) w = Executing req T"
| "job_of req t (Finished r) w = Answering \<lparr>A_req = req, A_result = r, A_payload = payload_of r w, A_task = t\<rparr>"

text \<open>\<^verbatim>\<open>RunMux\<close>: a goroutine per request; at the end it waits for all of them and closes \<^verbatim>\<open>c.Response\<close>. A reply to be
  kept is copied to the buffer its slot points to, whether or not the session is still there.\<close>

inductive mux_step :: "'fs Conn \<Rightarrow> Pipe \<Rightarrow> 'fs World \<Rightarrow> Pipe \<Rightarrow> 'fs World \<Rightarrow> bool" for m where
  spawn: "P_Request P = req # rest \<Longrightarrow>
    mux_step m P w (P\<lparr>P_Request := rest, P_jobs := P_jobs P @ [Handling req]\<rparr>) w"
| handle: "P_jobs P = xs @ Handling (hdr, data) # ys \<Longrightarrow> begin_call m hdr data w = Inr (c, w') \<Longrightarrow>
    mux_step m P w (P\<lparr>P_jobs := xs @ job_of (hdr, data) None c w' # ys\<rparr>) w'"
| operation: "P_jobs P = xs @ Executing req T # ys \<Longrightarrow> reslot T T' \<Longrightarrow> more_ops T' \<Longrightarrow>
    task_next m T' w = Inr (c, w') \<Longrightarrow> mux_step m P w (P\<lparr>P_jobs := xs @ job_of req None c w' # ys\<rparr>) w'"
| complete: "P_jobs P = xs @ Executing req T # ys \<Longrightarrow> reslot T T' \<Longrightarrow> \<not> more_ops T' \<Longrightarrow>
    task_next m T' w = Inr (c, w') \<Longrightarrow> mux_step m P w (P\<lparr>P_jobs := xs @ job_of req (Some T') c w' # ys\<rparr>) w'"
| answer: "P_jobs P = xs @ Answering a # ys \<Longrightarrow> length (P_Response P) < chan_cap \<Longrightarrow>
    mux_step m P w (P\<lparr>P_jobs := xs @ ys, P_Response := P_Response P @ [a]\<rparr>) w"
| finish: "P_forwarder P = ForwarderDone \<Longrightarrow> P_Request P = [] \<Longrightarrow> P_jobs P = [] \<Longrightarrow> \<not> P_mux_done P \<Longrightarrow>
    mux_step m P w (P\<lparr>P_mux_done := True\<rparr>) w"

text \<open>\<^verbatim>\<open>SendReplies\<close>. The buffered writer may pass on what it holds at any write, and must at a flush; a failure
  of the connection under it is final. When \<^verbatim>\<open>SendReply\<close> fails, \<^verbatim>\<open>resp.Error\<close>, which is nil, is what is appended
  to the errors of the connection.\<close>

inductive send_step :: "Pipe \<Rightarrow> 'fs World \<Rightarrow> Pipe \<Rightarrow> 'fs World \<Rightarrow> bool" where
  skip_flush: "P_sender P = Flushing \<Longrightarrow> P_Response P \<noteq> [] \<Longrightarrow> send_step P w (P\<lparr>P_sender := Waiting\<rparr>) w"
| flush: "P_sender P = Flushing \<Longrightarrow> P_Response P = [] \<Longrightarrow> \<not> P_broken P \<Longrightarrow>
    send_step P w (P\<lparr>P_sender := Waiting, P_net := P_net P @ P_buffered P, P_buffered := []\<rparr>) w"
| flush_failed: "P_sender P = Flushing \<Longrightarrow> P_Response P = [] \<Longrightarrow>
    send_step P w (P\<lparr>P_sender := Waiting, P_broken := True, P_cancelled := True, P_err := P_err P @ [e]\<rparr>) w"
| closed: "P_sender P = Waiting \<Longrightarrow> P_Response P = [] \<Longrightarrow> P_mux_done P \<Longrightarrow>
    send_step P w (P\<lparr>P_sender := SenderDone\<rparr>) w"
| error: "P_sender P = Waiting \<Longrightarrow> P_Response P = a # rest \<Longrightarrow> A_result a = Inl e \<Longrightarrow>
    send_step P w (P\<lparr>P_sender := Flushing, P_Response := rest, P_cancelled := True, P_err := P_err P @ [e],
      P_done := P_done P @ [(a, None)]\<rparr>) w"
| reply: "P_sender P = Waiting \<Longrightarrow> P_Response P = a # rest \<Longrightarrow> A_result a = Inr (reply, data) \<Longrightarrow>
    SendReply reply data (W_pool w) = Inr (sent, p) \<Longrightarrow> \<not> P_broken P \<Longrightarrow>
    net @ buffered = P_net P @ P_buffered P @ sent \<Longrightarrow>
    send_step P w (P\<lparr>P_sender := Flushing, P_Response := rest, P_net := net, P_buffered := buffered,
      P_done := P_done P @ [(a, Some sent)]\<rparr>) (w\<lparr>W_pool := p\<rparr>)"
| reply_failed: "P_sender P = Waiting \<Longrightarrow> P_Response P = a # rest \<Longrightarrow> A_result a = Inr (reply, data) \<Longrightarrow>
    SendReply reply data (W_pool w) = Inr (sent, p) \<Longrightarrow>
    send_step P w (P\<lparr>P_sender := Flushing, P_Response := rest, P_broken := True, P_cancelled := True,
      P_done := P_done P @ [(a, None)]\<rparr>) (w\<lparr>W_pool := p\<rparr>)"

text \<open>\<^verbatim>\<open>Serve\<close> runs them side by side and returns when the last three have; the context of the server may be
  cancelled at any moment.\<close>

inductive conn_step :: "'fs Conn \<Rightarrow> Pipe \<Rightarrow> 'fs World \<Rightarrow> Pipe \<Rightarrow> 'fs World \<Rightarrow> bool" for m where
  receive: "receive_step P w P' w' \<Longrightarrow> conn_step m P w P' w'"
| forward: "forward_step P P' \<Longrightarrow> conn_step m P w P' w"
| mux: "mux_step m P w P' w' \<Longrightarrow> conn_step m P w P' w'"
| send: "send_step P w P' w' \<Longrightarrow> conn_step m P w P' w'"
| cancel: "\<not> P_cancelled P \<Longrightarrow> conn_step m P w (P\<lparr>P_cancelled := True\<rparr>) w"

definition returned :: "Pipe \<Rightarrow> bool" where
  "returned P \<longleftrightarrow> P_forwarder P = ForwarderDone \<and> P_mux_done P \<and> P_sender P = SenderDone"

section \<open>What a connection holds\<close>

fun receiver_reqs :: "receiver \<Rightarrow> request list" where
  "receiver_reqs (Offering r) = [r]"
| "receiver_reqs _ = []"

fun forwarder_reqs :: "forwarder \<Rightarrow> request list" where
  "forwarder_reqs (Forwarding r) = [r]"
| "forwarder_reqs _ = []"

fun job_req :: "job \<Rightarrow> request" where
  "job_req (Handling r) = r"
| "job_req (Executing r _) = r"
| "job_req (Answering a) = A_req a"

text \<open>The calls not answered yet, by stage.\<close>

definition pending :: "Pipe \<Rightarrow> request list" where
  "pending P = receiver_reqs (P_receiver P) @ P_intermediate P @ forwarder_reqs (P_forwarder P) @ P_Request P @
     map job_req (P_jobs P) @ map A_req (P_Response P)"

text \<open>The buffers in flight: that of the call until it is handled, that of the reply until it is sent; a compound in
  progress has both.\<close>

fun result_bufs :: "handler_result \<Rightarrow> nat list" where
  "result_bufs (Inr (reply, out)) = [out]"
| "result_bufs (Inl e) = []"

fun job_bufs :: "job \<Rightarrow> nat list" where
  "job_bufs (Handling r) = [snd r]"
| "job_bufs (Executing r T) = [T_in T, T_out T]"
| "job_bufs (Answering a) = result_bufs (A_result a)"

definition pipe_bufs :: "Pipe \<Rightarrow> nat list" where
  "pipe_bufs P = map snd (receiver_reqs (P_receiver P) @ P_intermediate P @ forwarder_reqs (P_forwarder P) @ P_Request P) @
     concat (map job_bufs (P_jobs P)) @ concat (map (result_bufs \<circ> A_result) (P_Response P))"

lemma job_of_req [simp]: "job_req (job_of req t c w) = req"
  by (cases c) simp_all

lemma reslot_same:
  "reslot T T' \<Longrightarrow> T_hdr T' = T_hdr T" "reslot T T' \<Longrightarrow> T_in T' = T_in T" "reslot T T' \<Longrightarrow> T_out T' = T_out T"
  "reslot T T' \<Longrightarrow> T_left T' = T_left T"
  by (auto simp: reslot_def)

lemma header_reslot: "header_bytes (x\<lparr>x_Slot := slot\<rparr>) n s = header_bytes x n s"
  by (simp add: header_bytes_def header_def)

lemma reslot_ok: "reslot T T' \<Longrightarrow> task_ok T h \<Longrightarrow> task_ok T' h"
  by (auto simp: reslot_def task_ok_def task_reply_def header_reslot)

section \<open>Every call is answered once\<close>

text \<open>The record of a reply on the wire.\<close>

definition reply_record :: "RPCMsgReply \<Rightarrow> bytes \<Rightarrow> bytes" where
  "reply_record reply payload =
     fst (eUint32 (of_nat (12 + length payload) OR push_bit 31 1)) @ fst (enc_RPCMsgReply reply) @ payload"

text \<open>An answer is for its call, and that of a completed compound is the complete reply.\<close>

definition answer_ok :: "Answer \<Rightarrow> bool" where
  "answer_ok a \<longleftrightarrow> (\<forall>reply out. A_result a = Inr (reply, out) \<longrightarrow> RPCMsgReply_Xid reply = RPCMsgCall_Xid (fst (A_req a))) \<and>
     (\<forall>T. A_task a = Some T \<longrightarrow> T_hdr T = fst (A_req a) \<and> complete_reply (T_x T) (A_payload a))"

fun job_ok :: "job \<Rightarrow> bool" where
  "job_ok (Handling r) \<longleftrightarrow> True"
| "job_ok (Executing req T) \<longleftrightarrow> T_hdr T = fst req \<and> T_in T = snd req \<and> T_left T < 2 ^ 32"
| "job_ok (Answering a) \<longleftrightarrow> answer_ok a"

definition sent_for :: "Answer \<Rightarrow> bytes \<Rightarrow> bool" where
  "sent_for a sent \<longleftrightarrow> answer_ok a \<and> (\<exists>reply out. A_result a = Inr (reply, out) \<and> sent = reply_record reply (A_payload a))"

fun done_ok :: "bool \<Rightarrow> Answer \<times> bytes option \<Rightarrow> bool" where
  "done_ok cancelled (a, Some sent) \<longleftrightarrow> sent_for a sent"
| "done_ok cancelled (a, None) \<longleftrightarrow> cancelled"

text \<open>Nothing is lost or doubled.\<close>

definition accounted :: "Pipe \<Rightarrow> bool" where
  "accounted P \<longleftrightarrow> mset (P_received P) = mset (pending P) + mset (map (A_req \<circ> fst) (P_done P))"

text \<open>Every response and every record is for its call.\<close>

definition matched :: "Pipe \<Rightarrow> bool" where
  "matched P \<longleftrightarrow> list_all job_ok (P_jobs P) \<and> list_all answer_ok (P_Response P) \<and>
     list_all (done_ok (P_cancelled P)) (P_done P)"

text \<open>A goroutine returns only when those before it have, or the connection is cancelled.\<close>

definition closing :: "Pipe \<Rightarrow> bool" where
  "closing P \<longleftrightarrow>
     (P_forwarder P = ForwarderDone \<and> \<not> P_cancelled P \<longrightarrow> P_receiver P = ReceiverDone \<and> P_intermediate P = []) \<and>
     (P_mux_done P \<longrightarrow> P_forwarder P = ForwarderDone \<and> P_Request P = [] \<and> P_jobs P = []) \<and>
     (P_sender P = SenderDone \<longrightarrow> P_mux_done P \<and> P_Response P = [])"

text \<open>What was written is what the sender recorded, and nothing stays in the buffer while the sender waits.\<close>

definition written :: "Pipe \<Rightarrow> bool" where
  "written P \<longleftrightarrow> (P_broken P \<longrightarrow> P_cancelled P) \<and>
     (\<not> P_broken P \<longrightarrow> P_net P @ P_buffered P = concat (List.map_filter snd (P_done P))) \<and>
     (\<not> P_broken P \<longrightarrow> P_buffered P \<noteq> [] \<longrightarrow> P_Response P = [] \<longrightarrow> P_sender P = Flushing)"

definition pipe_inv :: "Pipe \<Rightarrow> bool" where
  "pipe_inv P \<longleftrightarrow> accounted P \<and> matched P \<and> closing P \<and> written P"

lemma map_filter_append [simp]: "List.map_filter f (xs @ ys) = List.map_filter f xs @ List.map_filter f ys"
  by (simp add: List.map_filter_def)

lemma accounted_step: "conn_step m P w P' w' \<Longrightarrow> accounted P \<Longrightarrow> accounted P'"
  by (auto simp: accounted_def pending_def
      elim!: conn_step.cases receive_step.cases forward_step.cases mux_step.cases send_step.cases)

lemma closing_parts:
  "receive_step P w P' w' \<Longrightarrow> closing P \<Longrightarrow> closing P'" "forward_step P P' \<Longrightarrow> closing P \<Longrightarrow> closing P'"
  "mux_step m P w P' w' \<Longrightarrow> closing P \<Longrightarrow> closing P'" "send_step P w P' w' \<Longrightarrow> closing P \<Longrightarrow> closing P'"
  unfolding closing_def by (erule receive_step.cases forward_step.cases mux_step.cases send_step.cases; force)+

lemma closing_step: "conn_step m P w P' w' \<Longrightarrow> closing P \<Longrightarrow> closing P'"
  by (erule conn_step.cases) (auto intro: closing_parts simp: closing_def [of "P_cancelled_update _ _"], auto simp: closing_def)

lemma written_parts:
  "receive_step P w P' w' \<Longrightarrow> written P \<Longrightarrow> written P'" "forward_step P P' \<Longrightarrow> written P \<Longrightarrow> written P'"
  "mux_step m P w P' w' \<Longrightarrow> written P \<Longrightarrow> written P'"
  by (erule receive_step.cases forward_step.cases mux_step.cases; simp add: written_def)+

lemma written_send: "send_step P w P' w' \<Longrightarrow> written P \<Longrightarrow> written P'"
  by (erule send_step.cases) (auto simp: written_def List.map_filter_simps)

lemma written_step: "conn_step m P w P' w' \<Longrightarrow> written P \<Longrightarrow> written P'"
proof (induction rule: conn_step.induct)
  case (cancel P w)
  then show ?case by (simp add: written_def)
qed (erule (1) written_parts written_send)+

section \<open>A connection comes to its end\<close>

text \<open>Work left: a byte not read may still become a call, which takes a step per operation and at most
  eight more.\<close>

definition call_work :: nat where "call_work = 2 ^ 32 + 8"

fun receiver_work :: "receiver \<Rightarrow> nat" where
  "receiver_work Checking = 2"
| "receiver_work Reading = 1"
| "receiver_work (Offering r) = call_work + 6"
| "receiver_work ReceiverDone = 0"

fun forwarder_work :: "forwarder \<Rightarrow> nat" where
  "forwarder_work Selecting = 1"
| "forwarder_work (Forwarding r) = call_work + 3"
| "forwarder_work ForwarderDone = 0"

fun job_work :: "job \<Rightarrow> nat" where
  "job_work (Handling r) = call_work"
| "job_work (Executing r T) = T_left T + 5"
| "job_work (Answering a) = 3"

fun sender_work :: "sender \<Rightarrow> nat" where
  "sender_work Flushing = 2"
| "sender_work Waiting = 1"
| "sender_work SenderDone = 0"

definition work :: "Pipe \<Rightarrow> nat" where
  "work P = (call_work + 6) * length (P_in P) + receiver_work (P_receiver P) + (call_work + 3) * length (P_intermediate P) +
     forwarder_work (P_forwarder P) + (call_work + 1) * length (P_Request P) + sum_list (map job_work (P_jobs P)) +
     (if P_mux_done P then 0 else 1) + 2 * length (P_Response P) + sender_work (P_sender P) +
     (if P_cancelled P then 0 else 1)"

lemma ReceiveCall_error_shortens: "ReceiveCall s p = Inr (Inl e, s', p') \<Longrightarrow> length s' \<le> length s"
proof -
  assume r: "ReceiveCall s p = Inr (Inl e, s', p')"
  show ?thesis
  proof (cases "dUint32 s")
    case (Inr v)
    obtain frag s1 where v: "v = (frag, s1)" by force
    then have s1: "length s1 \<le> length s" using u32c.dec_shortens Inr by blast
    show ?thesis
    proof (cases "dec_RPCMsgCall s1")
      case (Inr v2)
      obtain hdr s2 where v2: "v2 = (hdr, s2)" by force
      then have "length s2 \<le> length s1" using RPCMsgCallC.dec_shortens Inr by blast
      then show ?thesis
        using r s1 \<open>dUint32 s = Inr v\<close> v Inr v2
        by (auto simp: ReceiveCall_def Let_def go_bind_eq_Inr split: if_splits prod.splits)
    qed (use r s1 Inr v in \<open>auto simp: ReceiveCall_def Let_def split: if_splits\<close>)
  qed (use r in \<open>auto simp: ReceiveCall_def\<close>)
qed

text \<open>Where the code itself does not return, because a call panics or reads past the end of its buffer.\<close>

definition stuck :: "'fs Conn \<Rightarrow> Pipe \<Rightarrow> 'fs World \<Rightarrow> bool" where
  "stuck m P w \<longleftrightarrow> (\<exists>e. ReceiveCall (P_in P) (W_pool w) = Inl e) \<or>
     (\<exists>hdr data e. Handling (hdr, data) \<in> set (P_jobs P) \<and> begin_call m hdr data w = Inl e) \<or>
     (\<exists>req T e. Executing req T \<in> set (P_jobs P) \<and> task_next m T w = Inl e) \<or>
     (\<exists>a reply data e. a \<in> set (P_Response P) \<and> A_result a = Inr (reply, data) \<and> SendReply reply data (W_pool w) = Inl e)"

text \<open>Stage by stage, from the sender back to the receiver.\<close>

lemma sender_moves:
  assumes "P_sender P \<noteq> SenderDone" and "P_sender P = Flushing \<or> P_Response P \<noteq> [] \<or> P_mux_done P" and "\<not> stuck m P w"
  shows "\<exists>P' w'. send_step P w P' w'"
proof (cases "P_sender P")
  case Flushing
  then show ?thesis by (cases "P_Response P = []") (blast intro: send_step.flush_failed send_step.skip_flush)+
next
  case Waiting
  show ?thesis
  proof (cases "P_Response P")
    case Nil
    then show ?thesis using Waiting assms(2) by (auto intro: send_step.closed)
  next
    case (Cons a rest)
    show ?thesis
    proof (cases "A_result a")
      case (Inl e)
      then show ?thesis using send_step.error [OF Waiting Cons] by blast
    next
      case (Inr ro)
      obtain reply data where ro: "ro = (reply, data)" by force
      have "SendReply reply data (W_pool w) \<noteq> Inl e" for e using assms(3) Cons Inr ro unfolding stuck_def by auto
      then obtain sent p where "SendReply reply data (W_pool w) = Inr (sent, p)" by (metis sum.exhaust surj_pair)
      then show ?thesis using send_step.reply_failed [OF Waiting Cons] Inr ro by blast
    qed
  qed
qed (use assms(1) in simp)

lemma job_moves:
  assumes "P_jobs P = j # js" and "P_Response P = []" and "\<not> stuck m P w"
  shows "\<exists>P' w'. mux_step m P w P' w'"
proof (cases j)
  case (Handling req)
  obtain hdr data where req: "req = (hdr, data)" by force
  then obtain c w' where "begin_call m hdr data w = Inr (c, w')"
    using assms Handling by (cases "begin_call m hdr data w") (auto simp: stuck_def)
  then show ?thesis using mux_step.handle [of P "[]"] assms(1) Handling req by fastforce
next
  case (Executing req T)
  then have j: "Executing req T \<in> set (P_jobs P)" using assms(1) by simp
  then have "task_next m T w \<noteq> Inl e" for e using assms(3) unfolding stuck_def by blast
  then obtain c w' where "task_next m T w = Inr (c, w')" by (metis sum.exhaust surj_pair)
  moreover have "reslot T T" by (simp add: reslot_def)
  ultimately show ?thesis
    using mux_step.operation [of P "[]" req T js T] mux_step.complete [of P "[]" req T js T] assms(1) Executing by fastforce
next
  case (Answering a)
  then show ?thesis using mux_step.answer [of P "[]"] assms by (fastforce simp: chan_cap_def)
qed

lemma receiver_moves:
  assumes "P_receiver P \<noteq> ReceiverDone" and "P_intermediate P = []" and "\<not> stuck m P w"
  shows "\<exists>P' w'. receive_step P w P' w'"
proof (cases "P_receiver P")
  case Checking
  then show ?thesis by (blast intro: receive_step.stop receive_step.go_on)
next
  case Reading
  obtain r s p where "ReceiveCall (P_in P) (W_pool w) = Inr (r, s, p)"
    using assms(3) by (cases "ReceiveCall (P_in P) (W_pool w)") (auto simp: stuck_def)
  then show ?thesis using Reading by (cases r) (blast intro: receive_step.failed receive_step.received)+
next
  case (Offering req)
  then show ?thesis using receive_step.offered assms(2) by fastforce
qed (use assms(1) in simp)

lemma forwarder_moves:
  assumes "P_forwarder P \<noteq> ForwarderDone" and "P_Request P = []" and "P_intermediate P \<noteq> [] \<or> P_receiver P = ReceiverDone"
  shows "\<exists>P'. forward_step P P'"
proof (cases "P_forwarder P")
  case Selecting
  then show ?thesis
    using assms(3) by (cases "P_intermediate P") (blast intro: forward_step.closed forward_step.taken)+
next
  case (Forwarding req)
  then show ?thesis using forward_step.forwarded assms(2) by (fastforce simp: chan_cap_def)
qed (use assms(1) in simp)

lemma conn_moves:
  assumes inv: "closing P" and "\<not> returned P" and s: "\<not> stuck m P w"
  shows "\<exists>P' w'. conn_step m P w P' w'"
proof (cases "P_sender P = Flushing \<or> P_Response P \<noteq> [] \<or> P_mux_done P")
  case True
  have "P_sender P \<noteq> SenderDone" using inv assms(2) by (auto simp: closing_def returned_def)
  from sender_moves [OF this True s] show ?thesis by (blast intro: conn_step.send)
next
  case False
  show ?thesis
  proof (cases "P_jobs P")
    case (Cons j js)
    then show ?thesis using job_moves [OF Cons _ s] False by (blast intro: conn_step.mux)
  next
    case jobs: Nil
    show ?thesis
    proof (cases "P_Request P")
      case (Cons r rs)
      then show ?thesis by (blast intro: conn_step.mux mux_step.spawn)
    next
      case Nil
      then show ?thesis
        using mux_step.finish [of P m w] jobs False forwarder_moves [of P] receiver_moves [OF _ _ s]
        by (blast intro: conn_step.intros)
    qed
  qed
qed

end
