(* ===== verification/PipeInv.thy ===== *)
theory PipeInv
  imports Pipeline
begin

text \<open>
  What a connection owns: its buffers are its own, hold what its goroutines left in them, and no step of the
  connection touches those of the others.
\<close>

section \<open>Replies kept for a session that is gone\<close>

text \<open>The step of \<open>P\<close> to \<open>P'\<close> completes a compound whose reply is to be kept, and the buffer it is copied to is no longer
  that of a slot: the session was destroyed or its client has expired since the compound began. The code makes this copy all
  the same, to a buffer that may be another call's by now; what is said of the contents of buffers is said of runs
  without such a step.\<close>

definition stale_reply :: "Pipe \<Rightarrow> 'fs World \<Rightarrow> Pipe \<Rightarrow> bool" where
  "stale_reply P w P' \<longleftrightarrow> (\<exists>xs req T ys a T'. P_jobs P = xs @ Executing req T # ys \<and> P_jobs P' = xs @ Answering a # ys \<and>
     A_task a = Some T' \<and> \<not> keep_ok T' w)"

lemma task_next_finished: "\<not> more_ops T \<Longrightarrow> task_next m T w = Inr (c, w') \<Longrightarrow> \<exists>r. c = Finished r"
  by (auto simp: task_next_def Let_def go_bind_eq_Inr call_result_def)

lemma fresh_reply:
  assumes "P_jobs P = xs @ Executing req T # ys" and "\<not> more_ops T'" and "task_next m T' w = Inr (c, w')"
    and "\<not> stale_reply P w (P\<lparr>P_jobs := xs @ job_of req (Some T') c w' # ys\<rparr>)"
  shows "keep_ok T' w"
proof -
  obtain r where "c = Finished r" using task_next_finished [OF assms(2,3)] by blast
  then show ?thesis using assms(1,4) unfolding stale_reply_def by fastforce
qed

section \<open>Ownership\<close>

text \<open>\<open>io\<close> are the buffers of the other connections.\<close>

definition owns :: "nat set \<Rightarrow> Pipe \<Rightarrow> 'fs World \<Rightarrow> bool" where
  "owns io P w \<longleftrightarrow> distinct (pipe_bufs P) \<and> set (pipe_bufs P) \<inter> io = {} \<and> busy_io (set (pipe_bufs P) \<union> io) w"

lemma owns_sub:
  assumes "owns io P w" and "mset (pipe_bufs P') \<subseteq># mset (pipe_bufs P)"
  shows "owns io P' w"
  using assms distinct_sub [OF assms(2)] busy_io_mono [of "set (pipe_bufs P) \<union> io" w "set (pipe_bufs P') \<union> io"]
  by (auto simp: owns_def)

text \<open>Some buffers \<open>bs\<close> are handed on, the others, those of \<open>Q\<close>, stay.\<close>

lemma owns_split:
  assumes "owns io P w" and "mset (pipe_bufs P) = mset (bs @ pipe_bufs Q)"
  shows "distinct bs" and "set bs \<inter> (set (pipe_bufs Q) \<union> io) = {}" and "owns io Q w"
    and "busy_io (set bs \<union> (set (pipe_bufs Q) \<union> io)) w"
proof -
  have d: "distinct (bs @ pipe_bufs Q)" "set (pipe_bufs P) = set bs \<union> set (pipe_bufs Q)"
    using assms(1) mset_eq_imp_distinct_iff [OF assms(2)] mset_eq_setD [OF assms(2)] by (simp_all add: owns_def)
  then show "distinct bs" "set bs \<inter> (set (pipe_bufs Q) \<union> io) = {}" using assms(1) by (auto simp: owns_def)
  show "owns io Q w" using assms(2) by (intro owns_sub [OF assms(1)]) simp
  show "busy_io (set bs \<union> (set (pipe_bufs Q) \<union> io)) w" using assms(1) d(2) by (simp add: owns_def Un_assoc)
qed

lemma owns_join:
  assumes "owns io Q w" and "mset (pipe_bufs P') = mset (bs @ pipe_bufs Q)"
    and "distinct bs" and "set bs \<inter> (set (pipe_bufs Q) \<union> io) = {}" and "busy_io (set bs \<union> (set (pipe_bufs Q) \<union> io)) w'"
  shows "owns io P' w'"
proof -
  have "distinct (pipe_bufs P') \<longleftrightarrow> distinct (bs @ pipe_bufs Q)" "set (pipe_bufs P') = set bs \<union> set (pipe_bufs Q)"
    using mset_eq_imp_distinct_iff [OF assms(2)] mset_eq_setD [OF assms(2)] by simp_all
  then show ?thesis using assms by (auto simp: owns_def Un_assoc)
qed

section \<open>What the buffers hold\<close>

definition payload_ok :: "Answer \<Rightarrow> (nat \<Rightarrow> Buf) \<Rightarrow> bool" where
  "payload_ok a h \<longleftrightarrow> (\<forall>reply out. A_result a = Inr (reply, out) \<longrightarrow> content (h out) = A_payload a)"

fun job_heap :: "job \<Rightarrow> (nat \<Rightarrow> Buf) \<Rightarrow> bool" where
  "job_heap (Handling r) h \<longleftrightarrow> True"
| "job_heap (Executing r T) h \<longleftrightarrow> task_ok T h"
| "job_heap (Answering a) h \<longleftrightarrow> payload_ok a h"

definition intact :: "Pipe \<Rightarrow> (nat \<Rightarrow> Buf) \<Rightarrow> bool" where
  "intact P h \<longleftrightarrow> (\<forall>j \<in> set (P_jobs P). job_heap j h) \<and> (\<forall>a \<in> set (P_Response P). payload_ok a h)"

lemma payload_ok_cong: "payload_ok a h \<Longrightarrow> (\<And>b. b \<in> set (result_bufs (A_result a)) \<Longrightarrow> h' b = h b) \<Longrightarrow> payload_ok a h'"
  by (auto simp: payload_ok_def)

lemma job_heap_cong: "job_heap j h \<Longrightarrow> (\<And>b. b \<in> set (job_bufs j) \<Longrightarrow> h' b = h b) \<Longrightarrow> job_heap j h'"
  by (cases j) (auto simp: task_ok_def intro: payload_ok_cong)

lemma pipe_bufs_parts:
  "j \<in> set (P_jobs P) \<Longrightarrow> set (job_bufs j) \<subseteq> set (pipe_bufs P)"
  "a \<in> set (P_Response P) \<Longrightarrow> set (result_bufs (A_result a)) \<subseteq> set (pipe_bufs P)"
  by (auto simp: pipe_bufs_def)

lemma intact_cong:
  assumes "intact P h" and "\<And>b. b \<in> set (pipe_bufs P) \<Longrightarrow> h' b = h b"
  shows "intact P h'"
  unfolding intact_def
proof (intro conjI ballI)
  fix j assume j: "j \<in> set (P_jobs P)"
  then have "job_heap j h" using assms(1) by (simp add: intact_def)
  then show "job_heap j h'" using pipe_bufs_parts(1) [OF j] assms(2) by (blast intro: job_heap_cong)
next
  fix a assume a: "a \<in> set (P_Response P)"
  then have "payload_ok a h" using assms(1) by (simp add: intact_def)
  then show "payload_ok a h'" using pipe_bufs_parts(2) [OF a] assms(2) by (blast intro: payload_ok_cong)
qed

text \<open>What a step keeps, and what it leaves alone.\<close>

definition conn_ok :: "nat set \<Rightarrow> Pipe \<Rightarrow> 'fs World \<Rightarrow> bool" where
  "conn_ok io P w \<longleftrightarrow> matched P \<and> owns io P w \<and> intact P (Pool_heap (W_pool w))"

lemma done_ok_mono: "list_all (done_ok c) xs \<Longrightarrow> (c \<Longrightarrow> c') \<Longrightarrow> list_all (done_ok c') xs"
  by (induction xs) (auto elim: done_ok.elims)

text \<open>A step that only moves requests.\<close>

lemma conn_ok_sub:
  assumes "conn_ok io P w" and "P_jobs P' = P_jobs P" and "P_Response P' = P_Response P" and "P_done P' = P_done P"
    and "P_cancelled P \<Longrightarrow> P_cancelled P'" and "mset (pipe_bufs P') \<subseteq># mset (pipe_bufs P)"
  shows "conn_ok io P' w"
  using assms(1-4) owns_sub [OF _ assms(6), of io w] done_ok_mono [of "P_cancelled P" "P_done P" "P_cancelled P'", OF _ assms(5)]
  by (simp add: conn_ok_def matched_def intact_def)

lemmas conn_ok_moved = conjI [OF conn_ok_sub same_bufs_refl]

section \<open>Receiving and forwarding\<close>

lemma receive_keeps:
  "receive_step P w P' w' \<Longrightarrow> conn_ok io P w \<Longrightarrow> conn_ok io P' w' \<and> same_bufs io w w'"
proof (induction rule: receive_step.induct)
  case (failed P w e s p)
  let ?io = "set (pipe_bufs P) \<union> io"
  have b: "busy_io ?io w" using failed by (simp add: conn_ok_def owns_def)
  have "busy_io ?io (w\<lparr>W_pool := p\<rparr>)"
    using ReceiveCall_keeps [OF busy_io_bufs [OF b] failed(2)] by (auto intro: busy_io_pool [OF b])
  moreover have "Pool_heap p a = Pool_heap (W_pool w) a" if "a \<in> ?io" for a
    using ReceiveCall_other [OF busy_io_bufs [OF b] failed(2) that] .
  ultimately have "conn_ok io P (w\<lparr>W_pool := p\<rparr>)" "same_bufs io w (w\<lparr>W_pool := p\<rparr>)"
    using failed(3) intact_cong [of P "Pool_heap (W_pool w)" "Pool_heap p"] by (simp_all add: conn_ok_def owns_def same_bufs_def)
  moreover from this(1)
  have "conn_ok io (P\<lparr>P_receiver := ReceiverDone, P_in := s, P_err := P_err P @ [e]\<rparr>) (w\<lparr>W_pool := p\<rparr>)"
    using failed(1) by (elim conn_ok_sub) (simp_all add: pipe_bufs_def)
  ultimately show ?case by blast
next
  case (received P w req s p)
  let ?io = "set (pipe_bufs P) \<union> io" and ?P' = "P\<lparr>P_receiver := Offering req, P_in := s, P_received := P_received P @ [req]\<rparr>"
  have o: "owns io P w" and b: "busy_io ?io w" using received by (simp_all add: conn_ok_def owns_def)
  have "snd req \<notin> ?io \<and> busy_io (insert (snd req) ?io) (w\<lparr>W_pool := p\<rparr>)"
    using ReceiveCall_keeps [OF busy_io_bufs [OF b] received(2)] by (cases req) (auto intro: busy_io_pool [OF b])
  then have "owns io ?P' (w\<lparr>W_pool := p\<rparr>)"
    using received(1) by (intro owns_join [OF o, of _ "[snd req]"]) (auto simp: pipe_bufs_def)
  moreover have h: "Pool_heap p a = Pool_heap (W_pool w) a" if "a \<in> ?io" for a
    using ReceiveCall_other [OF busy_io_bufs [OF b] received(2) that] .
  moreover have "intact P (Pool_heap p)" using received(3) h by (auto simp: conn_ok_def elim: intact_cong)
  moreover have "same_bufs io w (w\<lparr>W_pool := p\<rparr>)" using h by (simp add: same_bufs_def)
  ultimately show ?case using received(3) by (simp add: conn_ok_def matched_def intact_def)
qed (erule conn_ok_moved; simp add: pipe_bufs_def)+

lemma forward_keeps: "forward_step P P' \<Longrightarrow> conn_ok io P w \<Longrightarrow> conn_ok io P' w"
  by (induction rule: forward_step.induct) (erule conn_ok_sub; simp add: pipe_bufs_def)+

section \<open>Sending\<close>

lemma SendReply_eq:
  "SendReply reply data p = Inr (sent, p') \<Longrightarrow> wf_buf (Pool_heap p data) \<Longrightarrow>
     p' = Pool_Put data p \<and> sent = reply_record reply (content (Pool_heap p data))"
  by (auto simp: SendReply_def go_bind_eq_Inr Let_def reply_record_def Buf_Bytes_content)

lemma sent_keeps:
  assumes ok: "conn_ok io P w" and a: "P_Response P = a # rest" "A_result a = Inr (reply, data)"
    and sr: "SendReply reply data (W_pool w) = Inr (sent, p)"
    and P': "P_Response P' = rest" "P_receiver P' = P_receiver P" "P_intermediate P' = P_intermediate P"
      "P_forwarder P' = P_forwarder P" "P_Request P' = P_Request P" "P_jobs P' = P_jobs P"
  shows "owns io P' (w\<lparr>W_pool := p\<rparr>)" and "intact P' (Pool_heap p)" and "same_bufs io w (w\<lparr>W_pool := p\<rparr>)"
    and "sent_for a sent"
proof -
  have o: "owns io P w" using ok by (simp add: conn_ok_def)
  have m: "mset (pipe_bufs P) = mset ([data] @ pipe_bufs P')" using a P' by (simp add: pipe_bufs_def)
  note s = owns_split [OF o m]
  have "wf_buf (Pool_heap (W_pool w) data)" using s(4) busy_io_bufs bufs_ok_wf by fastforce
  note sent = SendReply_eq [OF sr this]
  have put: "w_pool (Pool_Put data) w = w\<lparr>W_pool := p\<rparr>" using sent by (simp add: w_pool_def)
  have "busy_io (set (pipe_bufs P') \<union> io) (w\<lparr>W_pool := p\<rparr>)"
    using busy_io_Put [OF s(4), of data] s(2) put by simp
  then show "owns io P' (w\<lparr>W_pool := p\<rparr>)" using s(3) by (simp add: owns_def)
  have h: "Pool_heap p b = Pool_heap (W_pool w) b" if "b \<noteq> data" for b
    using that sent by (simp add: Pool_Put_def)
  have "intact P' (Pool_heap (W_pool w))" using ok a P' by (simp add: conn_ok_def intact_def)
  then show "intact P' (Pool_heap p)" 
  proof (rule intact_cong)
    fix b assume "b \<in> set (pipe_bufs P')"
    then show "Pool_heap p b = Pool_heap (W_pool w) b" using s(2) by (intro h) auto
  qed
  show "same_bufs io w (w\<lparr>W_pool := p\<rparr>)" using s(2) by (auto simp: same_bufs_def intro!: h)
  have "answer_ok a" "payload_ok a (Pool_heap (W_pool w))" using ok a by (simp_all add: conn_ok_def matched_def intact_def)
  then show "sent_for a sent" using a(2) sent by (simp add: payload_ok_def sent_for_def)
qed

lemma send_keeps: "send_step P w P' w' \<Longrightarrow> conn_ok io P w \<Longrightarrow> conn_ok io P' w' \<and> same_bufs io w w'"
proof (induction rule: send_step.induct)
  case (reply P a rest reply data w sent p net buffered)
  from sent_keeps [OF reply(7,2-4), of "P\<lparr>P_sender := Flushing, P_Response := rest, P_net := net, P_buffered := buffered,
      P_done := P_done P @ [(a, Some sent)]\<rparr>"] reply
  show ?case by (simp add: conn_ok_def matched_def)
next
  case (reply_failed P a rest reply data w sent p)
  from sent_keeps [OF reply_failed(5,2-4), of "P\<lparr>P_sender := Flushing, P_Response := rest, P_broken := True,
      P_cancelled := True, P_done := P_done P @ [(a, None)]\<rparr>"] reply_failed
  show ?case using done_ok_mono [of "P_cancelled P" "P_done P" True] by (simp add: conn_ok_def matched_def)
next
  case (error P a rest e w)
  then have "owns io (P\<lparr>P_sender := Flushing, P_Response := rest, P_cancelled := True, P_err := P_err P @ [e],
      P_done := P_done P @ [(a, None)]\<rparr>) w"
    by (elim conn_ok_def [THEN iffD1, THEN conjunct2, THEN conjunct1, THEN owns_sub]) (simp add: pipe_bufs_def)
  then show ?case
    using error done_ok_mono [of "P_cancelled P" "P_done P" True] by (simp add: conn_ok_def matched_def intact_def)
qed (erule conn_ok_moved; simp add: pipe_bufs_def)+

section \<open>Handling\<close>

text \<open>The buffers a step of a call leaves it with.\<close>

lemma stepped_bufs:
  assumes "stepped io hdr data c w w'"
  shows "distinct (job_bufs (job_of (hdr, data) t c w')) \<and> set (job_bufs (job_of (hdr, data) t c w')) \<inter> io = {} \<and>
    busy_io (set (job_bufs (job_of (hdr, data) t c w')) \<union> io) w'"
proof (cases c)
  case (Running T)
  then show ?thesis using assms by (auto simp: stepped_def own_bufs_def)
next
  case (Finished r)
  then show ?thesis using assms by (cases r) (auto simp: stepped_def handled_def)
qed

text \<open>The job \<open>j\<close> takes a step, \<open>Q\<close> is the connection without it.\<close>

lemma stepped_keeps:
  assumes ok: "conn_ok io P w" and P: "P_jobs P = xs @ j # ys" and Q: "Q = P\<lparr>P_jobs := xs @ ys\<rparr>"
    and s: "stepped (set (pipe_bufs Q) \<union> io) hdr data c w w'"
    and t: "\<And>T r. t = Some T \<Longrightarrow> c = Finished r \<Longrightarrow> T_hdr T = hdr \<and> complete_reply (T_x T) (payload_of r w')"
  shows "conn_ok io (P\<lparr>P_jobs := xs @ job_of (hdr, data) t c w' # ys\<rparr>) w' \<and> same_bufs io w w'"
proof -
  let ?j = "job_of (hdr, data) t c w'" and ?io = "set (pipe_bufs Q) \<union> io"
  let ?P' = "P\<lparr>P_jobs := xs @ ?j # ys\<rparr>" and ?h = "Pool_heap (W_pool w')"
  have o: "owns io Q w"
    using ok P Q by (auto simp: conn_ok_def pipe_bufs_def elim!: owns_sub)
  have "mset (pipe_bufs ?P') = mset (job_bufs ?j @ pipe_bufs Q)" using Q by (simp add: pipe_bufs_def)
  from owns_join [OF o this] stepped_bufs [OF s, of t] have "owns io ?P' w'" by blast
  moreover have same: "same_bufs ?io w w'" using s by (cases c) (simp_all add: stepped_def handled_def)
  moreover have "intact Q (Pool_heap (W_pool w))" using ok P Q by (simp add: conn_ok_def intact_def)
  then have "intact Q ?h" using same by (elim intact_cong) (simp add: same_bufs_def)
  moreover have "job_heap ?j ?h" using s by (cases c) (auto simp: stepped_def payload_ok_def)
  moreover have "job_ok ?j" using s t by (cases c) (auto simp: stepped_def answer_ok_def)
  ultimately show ?thesis
    using ok P Q same_bufs_mono [of ?io w w' io] by (simp add: conn_ok_def matched_def intact_def)
qed

text \<open>A step of a compound in progress.\<close>

lemma executing_keeps:
  assumes ok: "conn_ok io P w" and P: "P_jobs P = xs @ Executing req T # ys" and T': "reslot T T'"
    and keep: "\<not> more_ops T' \<Longrightarrow> keep_ok T' w" and run: "task_next m T' w = Inr (c, w')"
  shows "conn_ok io (P\<lparr>P_jobs := xs @ job_of req (if more_ops T' then None else Some T') c w' # ys\<rparr>) w' \<and> same_bufs io w w'"
proof -
  let ?Q = "P\<lparr>P_jobs := xs @ ys\<rparr>"
  let ?io = "set (pipe_bufs ?Q) \<union> io"
  have o: "owns io P w" using ok by (simp add: conn_ok_def)
  have "mset (pipe_bufs P) = mset ([T_in T, T_out T] @ pipe_bufs ?Q)" using P by (simp add: pipe_bufs_def)
  note split = owns_split [OF o this]
  have own: "own_bufs ?io (T_in T') (T_out T') w" using split reslot_same [OF T'] by (auto simp: own_bufs_def)
  have j: "task_ok T (Pool_heap (W_pool w))" "T_hdr T = fst req" "T_in T = snd req" "T_left T < 2 ^ 32"
    using ok P by (simp_all add: conn_ok_def intact_def matched_def)
  have t: "task_ok T' (Pool_heap (W_pool w))" "T_hdr T' = fst req" "T_in T' = snd req" "T_left T' < 2 ^ 32"
    using reslot_ok [OF T' j(1)] reslot_same [OF T'] j by simp_all
  have s: "stepped ?io (fst req) (snd req) c w w'"
    using task_next_stepped [OF own t(1,4) keep run] t(2,3) by simp
  have "T_hdr U = fst req \<and> complete_reply (T_x U) (payload_of r w')"
    if "(if more_ops T' then None else Some T') = Some U" "c = Finished r" for U r
    using that task_next_done [OF own t(1) _ keep run] t(2) by (auto split: if_splits)
  from stepped_keeps [OF ok P refl s this] show ?thesis by simp
qed

lemma mux_keeps:
  "mux_step m P w P' w' \<Longrightarrow> conn_ok io P w \<Longrightarrow> \<not> stale_reply P w P' \<Longrightarrow> conn_ok io P' w' \<and> same_bufs io w w'"
proof (induction rule: mux_step.induct)
  case (handle P xs hdr data ys w c w')
  let ?Q = "P\<lparr>P_jobs := xs @ ys\<rparr>"
  have o: "owns io P w" using handle(3) by (simp add: conn_ok_def)
  have "mset (pipe_bufs P) = mset ([data] @ pipe_bufs ?Q)" using handle(1) by (simp add: pipe_bufs_def)
  note split = owns_split [OF o this]
  then have "stepped (set (pipe_bufs ?Q) \<union> io) hdr data c w w'"
    using handle(2) by (intro begin_call_stepped) simp_all
  from stepped_keeps [OF handle(3,1) refl this, of None] show ?case by simp
next
  case (operation P xs req T ys T' w c w')
  show ?case using executing_keeps [OF operation(5,1,2) _ operation(4)] operation(3) by simp
next
  case (complete P xs req T ys T' w c w')
  show ?case using executing_keeps [OF complete(5,1,2) _ complete(4)] fresh_reply [OF complete(1,3,4,6)] complete(3) by simp
next
  case (answer P xs a ys w)
  let ?P' = "P\<lparr>P_jobs := xs @ ys, P_Response := P_Response P @ [a]\<rparr>"
  have "owns io ?P' w" using answer by (auto simp: conn_ok_def pipe_bufs_def elim!: owns_sub)
  then show ?case using answer by (auto simp: conn_ok_def matched_def intact_def)
next
  case (spawn P req rest w)
  let ?P' = "P\<lparr>P_Request := rest, P_jobs := P_jobs P @ [Handling req]\<rparr>"
  have "owns io ?P' w" using spawn by (auto simp: conn_ok_def pipe_bufs_def elim!: owns_sub)
  then show ?case using spawn by (auto simp: conn_ok_def matched_def intact_def)
qed (erule conn_ok_moved; simp add: pipe_bufs_def)

lemma conn_keeps:
  "conn_step m P w P' w' \<Longrightarrow> conn_ok io P w \<Longrightarrow> \<not> stale_reply P w P' \<Longrightarrow> conn_ok io P' w' \<and> same_bufs io w w'"
proof (induction rule: conn_step.induct)
  case (cancel P w)
  then have "conn_ok io (P\<lparr>P_cancelled := True\<rparr>) w" by (elim conn_ok_sub) (simp_all add: pipe_bufs_def)
  then show ?case by simp
qed (simp_all add: receive_keeps forward_keeps mux_keeps send_keeps)

text \<open>The invariant of a connection among others.\<close>

definition conn_inv :: "nat set \<Rightarrow> Pipe \<Rightarrow> 'fs World \<Rightarrow> bool" where
  "conn_inv io P w \<longleftrightarrow> pipe_inv P \<and> owns io P w \<and> intact P (Pool_heap (W_pool w))"

lemma conn_inv_step:
  "conn_step m P w P' w' \<Longrightarrow> conn_inv io P w \<Longrightarrow> \<not> stale_reply P w P' \<Longrightarrow> conn_inv io P' w' \<and> same_bufs io w w'"
  using conn_keeps [of m P w P' w' io]
  by (simp add: conn_inv_def conn_ok_def pipe_inv_def accounted_step closing_step written_step)

section \<open>Work\<close>

text \<open>A compound has at most as many operations as its request can announce.\<close>

lemma res_bind_eq: "res_bind r k = Inr (Inr v, st') \<longleftrightarrow> (\<exists>u st. r = Inr (Inr u, st) \<and> k u st = Inr (Inr v, st'))"
proof (cases r)
  case (Inr p)
  then show ?thesis by (cases p, cases "fst p") auto
qed simp

lemma sequence_accept_left:
  "sequence_accept out args slot st = Inr (Inr (Some (k, n, s, keep)), st') \<Longrightarrow> k = x_OpsCount (st_x st) - 1"
  by (auto simp: sequence_accept_def Let_def res_bind_eq set_slot_def upd_clients_def)

lemma no_loop_left: "no_loop r \<noteq> Inr (Inr (Some l), st')"
  by (auto simp: no_loop_def res_bind_eq)

lemma sequence_start_left:
  "sequence_start inb out st = Inr (Inr (Some (k, n, s, keep)), st') \<Longrightarrow> k = x_OpsCount (st_x st) - 1"
  by (auto simp: sequence_start_def arg_def Let_def no_loop_left upd_clients_def upd_pool_def dest!: sequence_accept_left
      split: sum.splits stop.splits prod.splits option.splits if_splits)

lemma run_start_left:
  "run_start m inb out st = Inr (Inr (Some (k, n, s, keep)), st') \<Longrightarrow> k = x_OpsCount (st_x st) - 1"
  by (auto simp: run_start_def arg_def Let_def no_loop_left res_bind_eq upd_pool_def dest!: sequence_start_left
      split: sum.splits stop.splits prod.splits if_splits)

lemma begin_compound_left:
  assumes r: "begin_compound m hdr resp creds data w = Inr (Running T, w')"
  shows "T_left T < 2 ^ 32"
proof -
  obtain tag minor n rest where dec: "dec_compound_args (content (Pool_heap (W_pool w) data)) = Inr ((tag, minor, n), rest)"
    using r by (auto simp: begin_compound_def go_bind_eq_Inr)
  let ?w1 = "w_pool (Pool_update data (\<lambda>b. b\<lparr>Buf_r := Buf_w b - length rest\<rparr>)) w"
  obtain out p where g: "Pool_Get (W_pool ?w1) = (out, p)" by force
  let ?st = "\<lparr>st_x = new_Compound resp minor tag (unat n) creds, st_w = ?w1\<lparr>W_pool := p\<rparr>\<rparr>"
  obtain l st' where run: "run_start m data out ?st = Inr (l, st')"
      and c: "(case l of Inl e \<Rightarrow> call_result hdr data out (Inl e) (st_w st')
               | Inr None \<Rightarrow> call_result hdr data out (Inr ()) (st_w st')
               | Inr (Some (k, n, s, keep)) \<Rightarrow>
                   (Running \<lparr>T_hdr = hdr, T_x = st_x st', T_in = data, T_out = out, T_left = k, T_count = n, T_last = s,
                      T_keep = keep\<rparr>, st_w st')) = (Running T, w')"
    using r dec g by (auto simp: begin_compound_def Let_def go_bind_eq_Inr split: if_splits)
  obtain k n' s keep where l: "l = Inr (Some (k, n', s, keep))" "T_left T = k"
    using c by (auto simp: call_result_def split: sum.splits option.splits)
  have "unat n < 2 ^ 32" using unsigned_less [of n, where 'a = nat] by simp
  then show ?thesis using run_start_left [OF run [unfolded l(1)]] l(2) by (simp add: new_Compound_def)
qed

lemma begin_call_work:
  assumes "begin_call m hdr data w = Inr (c, w')"
  shows "job_work (job_of req t c w') < call_work"
proof (cases c)
  case (Running T)
  then obtain resp creds where "begin_compound m hdr resp creds data w = Inr (Running T, w')"
    using assms by (auto simp: begin_call_def Let_def go_bind_eq_Inr split: if_splits sum.splits)
  then show ?thesis using begin_compound_left Running by (fastforce simp: call_work_def)
qed (simp add: call_work_def)

lemma work_jobs: "P_jobs P = xs @ j # ys \<Longrightarrow> job_work j' < job_work j \<Longrightarrow> work (P\<lparr>P_jobs := xs @ j' # ys\<rparr>) < work P"
  by (simp add: work_def)

lemma task_next_left: "task_next m T w = Inr (Running U, w') \<Longrightarrow> T_left U < T_left T"
  by (auto simp: task_next_def call_result_def more_ops_def go_bind_eq_Inr Let_def split: if_split_asm)
     (auto simp: call_result_def split: sum.split_asm)

lemma task_next_work: "task_next m T w = Inr (c, w') \<Longrightarrow> job_work (job_of req t c w') < T_left T + 5"
  using task_next_left by (cases c) fastforce+

lemma mux_work: "mux_step m P w P' w' \<Longrightarrow> work P' < work P"
proof (induction rule: mux_step.induct)
  case (handle P xs hdr data ys w c w')
  from work_jobs [OF handle(1), of "job_of (hdr, data) None c w'"] begin_call_work [OF handle(2)] show ?case by simp
next
  case (operation P xs req T ys T' w c w')
  then show ?case
    using task_next_work [OF operation(4), of req None] by (intro work_jobs [OF operation(1)]) (simp add: reslot_same(4))
next
  case (complete P xs req T ys T' w c w')
  then show ?case
    using task_next_work [OF complete(4), of req "Some T'"] by (intro work_jobs [OF complete(1)]) (simp add: reslot_same(4))
qed (simp_all add: work_def)

lemma work_decreases: "conn_step m P w P' w' \<Longrightarrow> work P' < work P"
proof (induction rule: conn_step.induct)
  case (receive P w P' w')
  then show ?case
  proof (induction rule: receive_step.induct)
    case (received P w req s p)
    have "Suc (length s) \<le> length (P_in P)" using ReceiveCall_shortens received(2) by (cases req) (force simp: Suc_le_eq)
    then have "(call_work + 6) * Suc (length s) \<le> (call_work + 6) * length (P_in P)" by (rule mult_le_mono2)
    then show ?case using received(1) by (simp add: work_def)
  next
    case (failed P w e s p)
    then have "(call_work + 6) * length s < Suc ((call_work + 6) * length (P_in P))"
      by (intro le_imp_less_Suc mult_le_mono2 ReceiveCall_error_shortens)
    then show ?case using failed(1) by (simp add: work_def)
  qed (simp_all add: work_def)
next
  case (forward P P' w)
  then show ?case by (induction rule: forward_step.induct) (simp_all add: work_def)
next
  case (send P w P' w')
  then show ?case by (induction rule: send_step.induct) (simp_all add: work_def)
next
  case (mux P w P' w')
  then show ?case by (rule mux_work)
qed (simp add: work_def)

end
