(* ===== verification/Service.thy ===== *)
theory Service
  imports PipeInv
begin

text \<open>
  The server (\<^verbatim>\<open>server.go\<close>): any number of connections over the shared state, beside the background goroutines. Every
  order of their steps is covered, down to the single operations of compounds that run at the same time.
\<close>

section \<open>The server\<close>

text \<open>\<^verbatim>\<open>Server.Serve\<close> on an accepted connection: \<open>None\<close> if the peer has no TCP address, else its port.\<close>

datatype accept_action = CloseConn | HandleTrap | HandleConn

definition accept_conn :: "(string \<times> nat) option \<Rightarrow> accept_action" where
  "accept_conn addr = (case addr of None \<Rightarrow> CloseConn
     | Some (ip, port) \<Rightarrow> if port \<ge> 1024 then HandleTrap else HandleConn)"

record 'fs ServerState =
  S_world :: "'fs World"
  S_conns :: "('fs Conn \<times> Pipe) list"

inductive server_step :: "'fs ServerState \<Rightarrow> 'fs ServerState \<Rightarrow> bool" where
  accept: "accept_conn addr = HandleConn \<Longrightarrow> Conn_ip m = map_option fst addr \<Longrightarrow>
    server_step S (S\<lparr>S_conns := S_conns S @ [(m, new_pipe s)]\<rparr>)"
| conn: "i < length (S_conns S) \<Longrightarrow> S_conns S ! i = (m, P) \<Longrightarrow> conn_step m P (S_world S) P' w' \<Longrightarrow>
    server_step S (S\<lparr>S_world := w', S_conns := (S_conns S)[i := (m, P')]\<rparr>)"
| background: "background_step (S_world S) w' \<Longrightarrow> server_step S (S\<lparr>S_world := w'\<rparr>)"

text \<open>The steps that do not copy a reply to the buffer of a session that is gone.\<close>

definition sound_step :: "'fs ServerState \<Rightarrow> 'fs ServerState \<Rightarrow> bool" where
  "sound_step S S' \<longleftrightarrow> server_step S S' \<and>
     (\<forall>i < length (S_conns S). \<not> stale_reply (snd (S_conns S ! i)) (S_world S) (snd (S_conns S' ! i)))"

definition server_start :: "'fs ServerState \<Rightarrow> bool" where
  "server_start S \<longleftrightarrow> S_conns S = [] \<and> W_clients (S_world S) = [] \<and> W_heap (S_world S) = [] \<and>
     W_workers (S_world S) = [] \<and> Pool_bufs (W_pool (S_world S)) = []"

definition conn_bufs :: "('fs Conn \<times> Pipe) list \<Rightarrow> nat list" where
  "conn_bufs cs = concat (map (pipe_bufs \<circ> snd) cs)"

definition server_inv :: "'fs ServerState \<Rightarrow> bool" where
  "server_inv S \<longleftrightarrow> distinct (conn_bufs (S_conns S)) \<and> busy_io (set (conn_bufs (S_conns S))) (S_world S) \<and>
     (\<forall>(m, P) \<in> set (S_conns S). pipe_inv P \<and> intact P (Pool_heap (W_pool (S_world S))))"

lemma conn_bufs_simps [simp]: "conn_bufs [] = []" "conn_bufs (c # cs) = pipe_bufs (snd c) @ conn_bufs cs"
    "conn_bufs (cs @ ds) = conn_bufs cs @ conn_bufs ds"
  by (simp_all add: conn_bufs_def)

lemma new_pipe_inv: "pipe_inv (new_pipe s)" "pipe_bufs (new_pipe s) = []" "intact (new_pipe s) h"
  by (simp_all add: new_pipe_def pipe_inv_def accounted_def pending_def matched_def closing_def written_def
      pipe_bufs_def intact_def List.map_filter_simps)

text \<open>One connection among the others.\<close>

lemma server_inv_split:
  "server_inv \<lparr>S_world = w, S_conns = before @ (m, P) # after\<rparr> \<longleftrightarrow>
     conn_inv (set (conn_bufs (before @ after))) P w \<and> distinct (conn_bufs (before @ after)) \<and>
     (\<forall>(m, Q) \<in> set (before @ after). pipe_inv Q \<and> intact Q (Pool_heap (W_pool w)))"
  by (auto simp: server_inv_def conn_inv_def owns_def Un_ac)

lemma server_conn_inv:
  assumes inv: "server_inv S" and i: "i < length (S_conns S)" "S_conns S ! i = (m, P)" and step: "conn_step m P (S_world S) P' w'"
    and fresh: "\<not> stale_reply P (S_world S) P'"
  shows "server_inv (S\<lparr>S_world := w', S_conns := (S_conns S)[i := (m, P')]\<rparr>)"
proof -
  define before where "before = take i (S_conns S)"
  define after where "after = drop (Suc i) (S_conns S)"
  have split: "S_conns S = before @ (m, P) # after" using id_take_nth_drop [OF i(1)] i(2) by (simp add: before_def after_def)
  have upd: "(S_conns S)[i := (m, P')] = before @ (m, P') # after"
    using i(1) by (simp add: upd_conv_take_nth_drop before_def after_def)
  let ?io = "set (conn_bufs (before @ after))" and ?h = "\<lambda>w. Pool_heap (W_pool w)"
  have S: "S = \<lparr>S_world = S_world S, S_conns = before @ (m, P) # after\<rparr>" using split by simp
  have "server_inv \<lparr>S_world = S_world S, S_conns = before @ (m, P) # after\<rparr>" using inv S by metis
  note before = this [unfolded server_inv_split]
  have c: "conn_inv ?io P' w'" and same: "same_bufs ?io (S_world S) w'"
    using conn_inv_step [OF step _ fresh, of ?io] before by simp_all
  have "intact Q (?h w')" if Q: "(k, Q) \<in> set (before @ after)" for k Q
  proof (rule intact_cong)
    show "intact Q (?h (S_world S))" using before Q by auto
    fix b assume "b \<in> set (pipe_bufs Q)"
    then have "b \<in> ?io" using Q by (force simp: conn_bufs_def)
    then show "?h w' b = ?h (S_world S) b" using same by (simp add: same_bufs_def)
  qed
  then have "server_inv \<lparr>S_world = w', S_conns = before @ (m, P') # after\<rparr>"
    unfolding server_inv_split using c before by (intro conjI ballI) (force, force, force)
  moreover have "S\<lparr>S_world := w', S_conns := (S_conns S)[i := (m, P')]\<rparr> = \<lparr>S_world = w', S_conns = before @ (m, P') # after\<rparr>"
    by (simp add: upd)
  ultimately show ?thesis by simp
qed

lemma server_background_inv:
  assumes "server_inv S" and "background_step (S_world S) w'"
  shows "server_inv (S\<lparr>S_world := w'\<rparr>)"
proof -
  let ?io = "set (conn_bufs (S_conns S))"
  have b: "busy_io ?io (S_world S)" using assms(1) by (simp add: server_inv_def)
  have "intact P (Pool_heap (W_pool w'))" if P: "(m, P) \<in> set (S_conns S)" for m P
  proof (rule intact_cong)
    show "intact P (Pool_heap (W_pool (S_world S)))" using assms(1) P by (auto simp: server_inv_def)
    fix b' assume "b' \<in> set (pipe_bufs P)"
    then have "b' \<in> ?io" using P by (force simp: conn_bufs_def)
    then show "Pool_heap (W_pool w') b' = Pool_heap (W_pool (S_world S)) b'"
      using background_same_bufs [OF b assms(2)] by (simp add: same_bufs_def)
  qed
  then show ?thesis using assms(1) background_keeps [OF b assms(2)] by (auto simp: server_inv_def)
qed

interpretation server: transition_invariant server_start sound_step server_inv
proof unfold_locales
  fix S :: "'fs ServerState" assume "server_start S"
  then show "server_inv S"
    by (simp add: server_start_def server_inv_def busy_io_def world_inv_def clients_inv_def wf_clients_def wf_map_def
        one_owner_def bufs_ok_def table_bufs_def pool_inv_def wf_world_def busy_of_def open_files_def)
next
  fix S S' :: "'fs ServerState" assume i: "server_inv S" and s: "sound_step S S'"
  then have "server_step S S'" by (simp add: sound_step_def)
  then show "server_inv S'"
  proof cases
    case (accept addr m s)
    then show ?thesis using i new_pipe_inv [of s] by (auto simp: server_inv_def)
  next
    case (conn i m P P' w')
    then have "\<not> stale_reply P (S_world S) P'" using s by (auto simp: sound_step_def)
    then show ?thesis using server_conn_inv [OF i] conn by simp
  next
    case (background w')
    then show ?thesis using server_background_inv [OF i] by simp
  qed
qed

text \<open>What holds of the connections whatever becomes of the buffers.\<close>

definition conns_inv :: "'fs ServerState \<Rightarrow> bool" where
  "conns_inv S \<longleftrightarrow> (\<forall>(m, P) \<in> set (S_conns S). accounted P \<and> closing P \<and> written P)"

interpretation conns: transition_invariant server_start server_step conns_inv
proof unfold_locales
  fix S S' :: "'fs ServerState" assume i: "conns_inv S" and "server_step S S'"
  from this(2) show "conns_inv S'"
  proof cases
    case (accept addr m s)
    then show ?thesis using i new_pipe_inv(1) [of s] by (auto simp: conns_inv_def pipe_inv_def)
  next
    case (conn j m P P' w')
    have "(m, P) \<in> set (S_conns S)" using conn(2,3) nth_mem by metis
    then have "accounted P' \<and> closing P' \<and> written P'"
      using i accounted_step [OF conn(4)] closing_step [OF conn(4)] written_step [OF conn(4)] by (auto simp: conns_inv_def)
    then show ?thesis using i conn(1) set_update_subset_insert [of "S_conns S" j "(m, P')"] by (auto simp: conns_inv_def)
  next
    case (background w')
    then show ?thesis using i by (simp add: conns_inv_def)
  qed
qed (simp add: server_start_def conns_inv_def)

lemma sound_reach: "reach server_start sound_step S \<Longrightarrow> reach server_start server_step S"
  by (induction rule: reach.induct) (auto simp: sound_step_def intro: reach.intros)

lemma reached_pipe:
  assumes "reach server_start server_step S" and "(m, P) \<in> set (S_conns S)"
  shows "accounted P" and "closing P" and "written P"
  using conns.holds [OF assms(1)] assms(2) by (auto simp: conns_inv_def)

lemma reached_conn:
  assumes "reach server_start sound_step S" and "(m, P) \<in> set (S_conns S)"
  shows "pipe_inv P" and "intact P (Pool_heap (W_pool (S_world S)))"
  using server.holds [OF assms(1)] assms(2) by (auto simp: server_inv_def)

section \<open>A run\<close>

text \<open>A client that sends a \<^verbatim>\<open>NULL\<close> call and closes the connection.\<close>

definition demo_hdr :: RPCMsgCall where
  "demo_hdr = demo_call\<lparr>RPCMsgCall_Proc := 0\<rparr>"

definition demo_null :: bytes where
  "demo_null = frame 40 @ fst (enc_RPCMsgCall demo_hdr)"

lemma demo_frame_received:
  assumes "ok_RPCMsgCall hdr" and "RPCMsgCall_MsgType hdr = RPC_CALL" and "length (fst (enc_RPCMsgCall hdr)) + length body < 2 ^ 31"
  shows "\<exists>p. ReceiveCall (frame (length (fst (enc_RPCMsgCall hdr)) + length body) @ fst (enc_RPCMsgCall hdr) @ body) demo_pool =
      Inr (Inr (hdr, 0), [], p) \<and> Pool_bufs p = [] \<and> Pool_next p = 1 \<and> wf_buf (Pool_heap p 0) \<and> content (Pool_heap p 0) = body"
proof -
  obtain p1 where g: "Pool_Get demo_pool = (0, p1)" and e: "Pool_bufs p1 = []" "Pool_next p1 = 1"
    by (simp add: Pool_Get_def Pool_New_def demo_pool_def)
  note new = Pool_Get_inv [OF demo_pool_inv g]
  let ?b = "Pool_heap p1 0"
  have wf: "wf_buf ?b" using new by (simp add: pool_inv_def)
  show ?thesis
    using ReceiveCall_frame [OF assms g, of body] e Buf_Allocate_ok [OF wf, of "int (length body)"] new
      fill_commit [of "Buf_Grow (Buf_w ?b + length body) ?b" body] wf
    by (auto simp: Pool_update_def Let_def)
qed

lemma demo_null_received:
  "\<exists>p. ReceiveCall demo_null demo_pool = Inr (Inr (demo_hdr, 0), [], p) \<and> Pool_bufs p = [] \<and> wf_buf (Pool_heap p 0)"
proof -
  have h: "ok_RPCMsgCall demo_hdr" "RPCMsgCall_MsgType demo_hdr = RPC_CALL" "length (fst (enc_RPCMsgCall demo_hdr)) = 40"
    by (simp_all add: demo_hdr_def demo_call_def zero_RPCMsgCall_def ok_RPCMsgCall_def ok_Auth_def zero_Auth_def
        enc_RPCMsgCall_def enc_Auth_def eUint32_def eBytes_def Pad_def)
  show ?thesis using demo_frame_received [OF h(1,2), of "[]"] by (auto simp: demo_null_def h(3))
qed

lemma demo_null_handled:
  "wf_buf (Pool_heap (W_pool w) 0) \<Longrightarrow> \<exists>reply p. begin_call demo_conn demo_hdr 0 w = Inr (Finished (Inr (reply, 0)), w\<lparr>W_pool := p\<rparr>) \<and>
     Pool_bufs p = Pool_bufs (W_pool w) \<and> wf_buf (Pool_heap p 0)"
  by (auto simp: begin_call_def Handle_def Muxv4_HandleProc_def Muxv4_Void_def answer_with_def demo_hdr_def w_pool_def
      demo_call_def zero_RPCMsgCall_def enc_Auth_def eUint32_def eBytes_def Pad_def Pool_update_def)

abbreviation alone :: "Pipe \<Rightarrow> bytes World \<Rightarrow> bool" where
  "alone P w \<equiv> reach server_start sound_step \<lparr>S_world = w, S_conns = [(demo_conn, P)]\<rparr>"

lemma alone_start: "alone (new_pipe s) demo_world"
proof -
  let ?S = "\<lparr>S_world = demo_world, S_conns = []\<rparr> :: bytes ServerState"
  have "reach server_start sound_step ?S"
    by (rule reach_init) (simp add: server_start_def demo_world_def demo_pool_def)
  moreover have "sound_step ?S (?S\<lparr>S_conns := S_conns ?S @ [(demo_conn, new_pipe s)]\<rparr>)"
    unfolding sound_step_def
    by (intro conjI server_step.accept [of "Some (''10.0.0.1'', 800)"]) (simp_all add: accept_conn_def demo_conn_def)
  ultimately have "reach server_start sound_step (?S\<lparr>S_conns := S_conns ?S @ [(demo_conn, new_pipe s)]\<rparr>)" by (rule reach_step)
  then show ?thesis by simp
qed

text \<open>The connection after it has received its only call \<open>q\<close>.\<close>

definition demo_pipe where
  "demo_pipe q rcv mid fwd req jobs fin resp sdr net buf dn = \<lparr>P_in = [], P_receiver = rcv, P_intermediate = mid,
     P_forwarder = fwd, P_Request = req, P_jobs = jobs, P_mux_done = fin, P_Response = resp, P_sender = sdr,
     P_cancelled = False, P_err = (if rcv = ReceiverDone then [GoErr [EOF]] else []), P_buffered = buf, P_net = net,
     P_broken = False, P_received = [q], P_done = dn\<rparr>"

lemmas conn_rules = conn_step.receive conn_step.forward conn_step.mux conn_step.send

lemma alone_via:
  assumes "alone P w" and "conn_step demo_conn P w P' w'" and "P' = Q" and "\<forall>req T. Executing req T \<notin> set (P_jobs P)"
  shows "alone Q w'"
proof -
  let ?S = "\<lparr>S_world = w, S_conns = [(demo_conn, P)]\<rparr>"
  have "server_step ?S \<lparr>S_world = w', S_conns = [(demo_conn, Q)]\<rparr>"
    using server_step.conn [of 0 ?S demo_conn P P' w'] assms(2,3) by simp
  moreover have "\<not> stale_reply P w Q" using assms(4) unfolding stale_reply_def by (metis in_set_conv_decomp)
  ultimately have "sound_step ?S \<lparr>S_world = w', S_conns = [(demo_conn, Q)]\<rparr>" by (simp add: sound_step_def)
  from reach_step [OF assms(1) this] show ?thesis .
qed

lemma demo_call_received:
  assumes "ReceiveCall s demo_pool = Inr (Inr q, [], p)"
  shows "alone (demo_pipe q (Offering q) [] Selecting [] [] False [] Flushing [] [] []) (demo_world\<lparr>W_pool := p\<rparr>)"
proof -
  let ?P = "(new_pipe s)\<lparr>P_receiver := Reading\<rparr>"
  have pool: "W_pool demo_world = demo_pool" by (simp add: demo_world_def)
  have "alone ?P demo_world"
    by (rule alone_via [OF alone_start conn_rules(1) [OF receive_step.go_on]]) (simp_all add: new_pipe_def)
  then show ?thesis
    by (rule alone_via [OF _ conn_rules(1) [OF receive_step.received [of ?P _ q "[]" p]]])
      (simp_all add: assms new_pipe_def pool demo_pipe_def)
qed

lemma demo_call_forwarded:
  assumes a: "alone (demo_pipe q (Offering q) [] Selecting [] [] False [] Flushing [] [] []) w"
  shows "alone (demo_pipe q Checking [] Selecting [] [Handling q] False [] Waiting [] [] []) w"
proof -
  let ?P = "\<lambda>rcv mid fwd req jobs. demo_pipe q rcv mid fwd req jobs False [] Flushing [] [] []"
  have "alone (?P Checking [q] Selecting [] []) w"
    by (rule alone_via [OF a conn_rules(1) [OF receive_step.offered]]) (simp_all add: demo_pipe_def)
  then have "alone (?P Checking [] (Forwarding q) [] []) w"
    by (rule alone_via [OF _ conn_rules(2) [OF forward_step.taken]]) (simp_all add: demo_pipe_def)
  then have "alone (?P Checking [] Selecting [q] []) w"
    by (rule alone_via [OF _ conn_rules(2) [OF forward_step.forwarded]]) (simp_all add: demo_pipe_def chan_cap_def)
  then have "alone (?P Checking [] Selecting [] [Handling q]) w"
    by (rule alone_via [OF _ conn_rules(3) [OF mux_step.spawn]]) (simp_all add: demo_pipe_def)
  then show ?thesis
    by (rule alone_via [OF _ conn_rules(4) [OF send_step.flush]]) (simp_all add: demo_pipe_def)
qed

lemma demo_call_answered:
  assumes a: "alone (demo_pipe (hdr, data) Checking [] Selecting [] [Handling (hdr, data)] False [] Waiting [] [] []) w"
    and h: "begin_call demo_conn hdr data w = Inr (Finished (Inr (reply, out)), w')"
    and sr: "SendReply reply out (W_pool w') = Inr (sent, p)"
  shows "\<exists>a. alone (demo_pipe (hdr, data) Checking [] Selecting [] [] False [] Waiting sent [] [(a, Some sent)]) (w'\<lparr>W_pool := p\<rparr>)"
proof -
  define b where "b = \<lparr>A_req = (hdr, data), A_result = Inr (reply, out), A_payload = payload_of (Inr (reply, out)) w', A_task = None\<rparr>"
  let ?P = "\<lambda>jobs resp sdr net dn. demo_pipe (hdr, data) Checking [] Selecting [] jobs False resp sdr net [] dn"
  have "alone (?P [Answering b] [] Waiting [] []) w'"
    by (rule alone_via [OF a conn_rules(3) [OF mux_step.handle [where xs = "[]" and ys = "[]", OF _ h]]])
      (simp_all add: demo_pipe_def b_def)
  then have "alone (?P [] [b] Waiting [] []) w'"
    by (rule alone_via [OF _ conn_rules(3) [OF mux_step.answer [where xs = "[]" and ys = "[]"]]])
      (simp_all add: demo_pipe_def chan_cap_def)
  then have "alone (?P [] [] Flushing sent [(b, Some sent)]) (w'\<lparr>W_pool := p\<rparr>)"
    by (rule alone_via [OF _ conn_rules(4) [OF send_step.reply [where net = sent and buffered = "[]", OF _ _ _ sr]]])
      (simp_all add: demo_pipe_def b_def)
  then have "alone (?P [] [] Waiting sent [(b, Some sent)]) (w'\<lparr>W_pool := p\<rparr>)"
    by (rule alone_via [OF _ conn_rules(4) [OF send_step.flush]]) (simp_all add: demo_pipe_def)
  then show ?thesis by blast
qed

lemma ReceiveCall_eof: "ReceiveCall [] p = Inr (Inl (GoErr [EOF]), [], p)"
  by (simp add: ReceiveCall_def dUint32_def readN_def dthen_def)

lemma demo_conn_ends:
  assumes a: "alone (demo_pipe q Checking [] Selecting [] [] False [] Waiting net [] dn) w"
  shows "alone (demo_pipe q ReceiverDone [] ForwarderDone [] [] True [] SenderDone net [] dn) w"
proof -
  let ?P = "\<lambda>rcv fwd fin sdr. demo_pipe q rcv [] fwd [] [] fin [] sdr net [] dn"
  have "alone (?P Reading Selecting False Waiting) w"
    by (rule alone_via [OF a conn_rules(1) [OF receive_step.go_on]]) (simp_all add: demo_pipe_def)
  then have "alone (?P ReceiverDone Selecting False Waiting) (w\<lparr>W_pool := W_pool w\<rparr>)"
    by (rule alone_via [OF _ conn_rules(1) [OF receive_step.failed]]) (simp_all add: demo_pipe_def ReceiveCall_eof)
  then have "alone (?P ReceiverDone Selecting False Waiting) w" by simp
  then have "alone (?P ReceiverDone ForwarderDone False Waiting) w"
    by (rule alone_via [OF _ conn_rules(2) [OF forward_step.closed]]) (simp_all add: demo_pipe_def)
  then have "alone (?P ReceiverDone ForwarderDone True Waiting) w"
    by (rule alone_via [OF _ conn_rules(3) [OF mux_step.finish]]) (simp_all add: demo_pipe_def)
  then show ?thesis
    by (rule alone_via [OF _ conn_rules(4) [OF send_step.closed]]) (simp_all add: demo_pipe_def)
qed

lemma demo_run:
  "\<exists>P w. alone P w \<and> returned P \<and> \<not> P_cancelled P \<and> P_received P = [(demo_hdr, 0)] \<and> \<not> P_broken P \<and>
     Pool_bufs (W_pool w) = [0]"
proof -
  obtain p1 where rc: "ReceiveCall demo_null demo_pool = Inr (Inr (demo_hdr, 0), [], p1)"
      and p1: "Pool_bufs p1 = []" "wf_buf (Pool_heap p1 0)"
    using demo_null_received by blast
  let ?w1 = "demo_world\<lparr>W_pool := p1\<rparr>"
  obtain reply p2 where h: "begin_call demo_conn demo_hdr 0 ?w1 = Inr (Finished (Inr (reply, 0)), demo_world\<lparr>W_pool := p2\<rparr>)"
      and p2: "Pool_bufs p2 = []" "wf_buf (Pool_heap p2 0)"
    using demo_null_handled [of ?w1] p1 by auto
  obtain sent where sr: "SendReply reply 0 p2 = Inr (sent, Pool_Put 0 p2)"
    using p2 by (simp add: SendReply_def Buf_Bytes_content Let_def)
  let ?w3 = "demo_world\<lparr>W_pool := Pool_Put 0 p2\<rparr>"
  obtain a where "alone (demo_pipe (demo_hdr, 0) ReceiverDone [] ForwarderDone [] [] True [] SenderDone sent []
      [(a, Some sent)]) ?w3"
    using demo_call_answered [OF demo_call_forwarded [OF demo_call_received [OF rc]] h, of sent] sr demo_conn_ends by fastforce
  then show ?thesis using p2 by (auto simp: demo_pipe_def returned_def Pool_Put_def intro!: exI [of _ ?w3])
qed

text \<open>A client whose compound is being executed: its first operation, which does not exist, has been answered.\<close>

definition demo_ops :: bytes where
  "demo_ops = fst (EncodeAll [eString ''t'', eUint32 0, eUint32 2, eUint32 9999, eUint32 OP4_GETFH])"

definition demo_cred :: Auth where
  "demo_cred = \<lparr>Auth_Flavor = AUTH_FLAVOR_UNIX, Auth_Body = fst (enc_Creds demo_creds)\<rparr>"

definition demo_busy_hdr :: RPCMsgCall where
  "demo_busy_hdr = demo_call\<lparr>RPCMsgCall_Cred := demo_cred\<rparr>"

lemma demo_cred_ok: "ok_Auth demo_cred" "\<exists>resp. Authenticate demo_cred verf = Inr (resp, demo_creds)"
proof -
  have "ok_Creds demo_creds" by (simp add: ok_Creds_def demo_creds_def)
  from CredsC.dec_enc [OF this, of "[]"] show "\<exists>resp. Authenticate demo_cred verf = Inr (resp, demo_creds)"
    by (simp add: Authenticate_def demo_cred_def)
  have "length (fst (enc_Creds demo_creds)) = 32" by code_simp
  then show "ok_Auth demo_cred" by (simp add: ok_Auth_def demo_cred_def)
qed

lemma demo_busy_hdr_ok: "ok_RPCMsgCall demo_busy_hdr" "RPCMsgCall_MsgType demo_busy_hdr = RPC_CALL"
    "RPCMsgCall_Vers demo_busy_hdr = 4" "RPCMsgCall_Proc demo_busy_hdr = PROC4_COMPOUND"
    "\<exists>resp. Authenticate (RPCMsgCall_Cred demo_busy_hdr) (RPCMsgCall_Verf demo_busy_hdr) = Inr (resp, demo_creds)"
  using demo_cred_ok demo_call_ok by (simp_all add: demo_busy_hdr_def ok_RPCMsgCall_def demo_call_def)

lemma demo_ops_decoded:
  "dec_compound_args demo_ops = Inr ((''t'', 0, 2), put_u32 9999 @ put_u32 10)"
  "dUint32 (put_u32 9999 @ put_u32 10) = Inr (9999, put_u32 10)"
  by code_simp+

lemma content_rest:
  "wf_buf b \<Longrightarrow> content b = p @ rest \<Longrightarrow> content (b\<lparr>Buf_r := Buf_w b - length rest\<rparr>) = rest"
proof -
  assume wf: "wf_buf b" and c: "content b = p @ rest"
  then have n: "Buf_w b - Buf_r b = length p + length rest" using length_content [OF wf] by simp
  then have "Buf_w b - length rest = Buf_r b + length p" using wf by (auto simp: wf_buf_def)
  moreover have "take (length rest) (drop (length p) (drop (Buf_r b) (Buf_buf b))) = rest"
    using arg_cong [OF c, of "drop (length p)"] by (simp add: content_def n drop_take)
  moreover have "Buf_w b - (Buf_r b + length p) = length rest" using wf n by (auto simp: wf_buf_def)
  ultimately show ?thesis by (simp add: content_def add.commute)
qed

lemma demo_first_op:
  assumes "x_MinorVer (st_x st) = 0" and "content (buf_at 0 st) = put_u32 9999 @ put_u32 10"
  shows "\<exists>st'. run_start demo_conn 0 1 st = Inr (Inr (Some (x_OpsCount (st_x st) - 1, 1, NFS4ERR_OP_ILLEGAL, None)), st')"
  using assms by (simp add: run_start_def arg_def demo_ops_decoded(2) WriteHeader_eq doOperation_def handlers_def
      NotImplementedOptionalOps_def NotImplementedRequiredOps_def OperationResponse_def write_all_def Let_def)

lemma demo_busy_started:
  assumes b: "Pool_bufs (W_pool w) = []" "Pool_next (W_pool w) = 1" and wf: "wf_buf (Pool_heap (W_pool w) 0)"
    and c: "content (Pool_heap (W_pool w) 0) = demo_ops"
  shows "\<exists>T w'. begin_call demo_conn demo_busy_hdr 0 w = Inr (Running T, w') \<and> T_left T = 1"
proof -
  obtain resp where a: "Authenticate (RPCMsgCall_Cred demo_busy_hdr) (RPCMsgCall_Verf demo_busy_hdr) = Inr (resp, demo_creds)"
    using demo_busy_hdr_ok(5) by blast
  let ?rest = "put_u32 9999 @ put_u32 10"
  let ?w1 = "w_pool (Pool_update 0 (\<lambda>b. b\<lparr>Buf_r := Buf_w b - length ?rest\<rparr>)) w"
  obtain p where g: "Pool_Get (W_pool ?w1) = (1, p)" "Pool_heap p 0 = Pool_heap (W_pool ?w1) 0"
    using b by (simp add: Pool_Get_def Pool_New_def w_pool_def Pool_update_def)
  let ?st = "\<lparr>st_x = new_Compound resp 0 ''t'' 2 demo_creds, st_w = ?w1\<lparr>W_pool := p\<rparr>\<rparr>"
  have "demo_ops = take 16 demo_ops @ ?rest" by code_simp
  then have "content (buf_at 0 ?st) = ?rest"
    using content_rest [OF wf, of "take 16 demo_ops" ?rest] c g(2) by (simp add: buf_at_def w_pool_def Pool_update_def)
  then obtain st' where r: "run_start demo_conn 0 1 ?st = Inr (Inr (Some (1, 1, NFS4ERR_OP_ILLEGAL, None)), st')"
    using demo_first_op [of ?st] by (auto simp: new_Compound_def)
  show ?thesis
    using demo_busy_hdr_ok(3,4) a c g r demo_ops_decoded(1)
    by (simp add: begin_call_def begin_compound_def Let_def)
qed

lemma demo_busy_run:
  "\<exists>P w T. alone P w \<and> P_jobs P = [Executing (demo_busy_hdr, 0) T] \<and> T_left T = 1"
proof -
  have "length (fst (enc_RPCMsgCall demo_busy_hdr)) + length demo_ops = 96" by code_simp
  then have "length (fst (enc_RPCMsgCall demo_busy_hdr)) + length demo_ops < 2 ^ 31" by simp
  from demo_frame_received [OF demo_busy_hdr_ok(1,2) this] obtain s p where
      r: "ReceiveCall s demo_pool = Inr (Inr (demo_busy_hdr, 0), [], p)" "Pool_bufs p = []" "Pool_next p = 1"
      "wf_buf (Pool_heap p 0)" "content (Pool_heap p 0) = demo_ops" by blast
  let ?w = "demo_world\<lparr>W_pool := p\<rparr>" and ?q = "(demo_busy_hdr, 0)"
  obtain T w' where b: "begin_call demo_conn demo_busy_hdr 0 ?w = Inr (Running T, w')" "T_left T = 1"
    using demo_busy_started [of ?w] r(2-) by auto
  have "alone (demo_pipe ?q Checking [] Selecting [] [Executing ?q T] False [] Waiting [] [] []) w'"
    by (rule alone_via [OF demo_call_forwarded [OF demo_call_received [OF r(1)]]
          conn_rules(3) [OF mux_step.handle [where xs = "[]" and ys = "[]", OF _ b(1)]]]) (simp_all add: demo_pipe_def)
  then show ?thesis using b(2) by (auto simp: demo_pipe_def)
qed

section \<open>Properties\<close>

lemma done_records:
  "list_all (done_ok False) xs \<Longrightarrow> \<exists>recs. List.map_filter snd xs = map snd recs \<and> map fst recs = map fst xs \<and>
     (\<forall>(a, sent) \<in> set recs. sent_for a sent)"
proof (induction xs)
  case (Cons x xs)
  then obtain recs a sent where "List.map_filter snd xs = map snd recs" "map fst recs = map fst xs"
      "\<forall>(a, sent) \<in> set recs. sent_for a sent" "x = (a, Some sent)" "sent_for a sent"
    by (cases "(False, x)" rule: done_ok.cases) auto
  then show ?case by (auto simp: List.map_filter_simps intro!: exI [of _ "(a, sent) # recs"])
qed (simp add: List.map_filter_simps)

text \<open>C2: In every state the server can reach, whatever calls arrived on however many connections, in whatever order
  its goroutines took their turns between the operations of their compounds, the count that keeps a client from being
  removed is exactly the number of files it has open, over all workers. (The runs are those in which no reply is copied
  to the buffer of a session destroyed or expired meanwhile.)\<close>

theorem open_files_accounted:
  assumes "reach server_start sound_step S"
  shows "busy_of (W_clients (S_world S)) i = int (open_files i (W_heap (S_world S)))"
  using server.holds [OF assms] by (simp add: server_inv_def busy_io_def world_inv_def)

theorem open_files_accounted_witness:
  "\<exists>P w. alone P w \<and> returned P \<and> P_received P = [(demo_hdr, 0)] \<and>
     busy_of (W_clients w) 7 = int (open_files 7 (W_heap w))"
proof -
  obtain P w where r: "alone P w" "returned P" "P_received P = [(demo_hdr, 0)]" using demo_run by blast
  from r open_files_accounted [OF r(1), of 7] show ?thesis by auto
qed

text \<open>C4: No buffer has two owners. As long as no reply is copied to the buffer of a session that was destroyed or has
  expired meanwhile, at every moment and between any two operations, a buffer belongs to at most one of: a call
  on its way through some connection, a compound in progress, which has two, a reply on its way back, a session slot, the
  pool. What is in the pool is empty, and no worker is held between operations. (A buffer may have no owner: the code drops
  some, on errors and with the client of a \<^verbatim>\<open>DESTROY_CLIENTID\<close>.)\<close>

theorem buffers_owned:
  assumes "reach server_start sound_step S"
  shows "distinct (conn_bufs (S_conns S) @ table_bufs (W_clients (S_world S)) @ Pool_bufs (W_pool (S_world S))) \<and>
    (\<forall>b \<in> set (Pool_bufs (W_pool (S_world S))). content (Pool_heap (W_pool (S_world S)) b) = []) \<and>
    (\<forall>a < length (W_heap (S_world S)). Worker_inUse (W_heap (S_world S) ! a) = 0)"
proof -
  let ?w = "S_world S" and ?io = "set (conn_bufs (S_conns S))"
  have i: "server_inv S" by (rule server.holds [OF assms])
  then have b: "bufs_ok ?io (W_clients ?w) (W_pool ?w)" by (auto simp: server_inv_def dest: busy_io_bufs)
  then have "pool_inv (?io \<union> set (table_bufs (W_clients ?w))) (W_pool ?w)" by (simp add: bufs_ok_def)
  then have "distinct (Pool_bufs (W_pool ?w))" "(?io \<union> set (table_bufs (W_clients ?w))) \<inter> set (Pool_bufs (W_pool ?w)) = {}"
      "\<forall>b \<in> set (Pool_bufs (W_pool ?w)). content (Pool_heap (W_pool ?w) b) = []"
    by (auto simp: pool_inv_def content_def)
  moreover have "distinct (conn_bufs (S_conns S))" "\<forall>a < length (W_heap ?w). Worker_inUse (W_heap ?w ! a) = 0"
    using i by (auto simp: server_inv_def busy_io_def world_inv_def)
  ultimately show ?thesis using b by (auto simp: bufs_ok_def)
qed

theorem buffers_owned_witness:
  "\<exists>P w. alone P w \<and> P_received P = [(demo_hdr, 0)] \<and> Pool_bufs (W_pool w) = [0] \<and> content (Pool_heap (W_pool w) 0) = []"
proof -
  obtain P w where r: "alone P w" "P_received P = [(demo_hdr, 0)]" "Pool_bufs (W_pool w) = [0]" using demo_run by blast
  from r buffers_owned [OF r(1)] show ?thesis by auto
qed

text \<open>C5: Compounds do not disturb each other, as long as no reply is copied to the buffer of a session that was destroyed
  or has expired meanwhile. While a compound is being executed, whatever operations of other calls
  and turns of other goroutines run between its own, its output buffer holds exactly the header first written and one
  response per operation it has executed, in order, of which only the last may have a status that ends the compound; the
  operations left are those the request announced less those executed.\<close>

theorem compounds_isolated:
  assumes "reach server_start sound_step S" and "(m, P) \<in> set (S_conns S)" and "Executing req T \<in> set (P_jobs P)"
  shows "T_hdr T = fst req \<and> T_in T = snd req \<and> (\<exists>rs. rs \<noteq> [] \<and>
    content (Pool_heap (W_pool (S_world S)) (T_out T)) =
      header_bytes (T_x T) (x_OpsCount (T_x T)) NFS4_OK @ body_bytes rs \<and>
    T_count T = length rs \<and> T_last T = status_of (last rs) \<and> T_count T + T_left T = max 1 (x_OpsCount (T_x T)) \<and>
    (\<forall>r \<in> set (butlast rs). status_of r \<notin> set FatalStatuses))"
proof -
  have "job_ok (Executing req T)" "job_heap (Executing req T) (Pool_heap (W_pool (S_world S)))"
    using reached_conn [OF assms(1,2)] assms(3) by (auto simp: pipe_inv_def matched_def intact_def list_all_iff)
  then show ?thesis by (auto simp: task_ok_def task_reply_def)
qed

theorem compounds_isolated_witness:
  "\<exists>P w T rs. alone P w \<and> P_jobs P = [Executing (demo_busy_hdr, 0) T] \<and> T_left T = 1 \<and> length rs = T_count T \<and>
     content (Pool_heap (W_pool w) (T_out T)) = header_bytes (T_x T) (x_OpsCount (T_x T)) NFS4_OK @ body_bytes rs"
proof -
  obtain P w T where r: "alone P w" "P_jobs P = [Executing (demo_busy_hdr, 0) T]" "T_left T = 1" using demo_busy_run by blast
  then obtain rs where "length rs = T_count T"
      "content (Pool_heap (W_pool w) (T_out T)) = header_bytes (T_x T) (x_OpsCount (T_x T)) NFS4_OK @ body_bytes rs"
    using compounds_isolated [OF r(1), of demo_conn P "(demo_busy_hdr, 0)" T] by auto
  then show ?thesis using r by blast
qed

text \<open>C3: When \<^verbatim>\<open>Serve\<close> returns and the connection was not cancelled, every call that was received has been answered
  exactly once, with its own transaction number: the bytes that went to the peer are the records of the replies,
  one per call, in some order. Each record carries what the handler of its call had left in the reply buffer, byte for
  byte, however long it waited to be sent; for a compound that ran to its end this is the complete reply: the
  responses up to the first fatal status or the last operation, and their number and last status in the header. This holds
  of the runs in which no reply is copied to the buffer of a session destroyed or expired meanwhile: such a copy may
  overwrite the reply of another call.\<close>

theorem calls_answered:
  assumes "reach server_start sound_step S" and "(m, P) \<in> set (S_conns S)" and "returned P" and "\<not> P_cancelled P"
  shows "\<exists>recs :: (Answer \<times> bytes) list. P_net P = concat (map snd recs) \<and> mset (map (A_req \<circ> fst) recs) = mset (P_received P) \<and>
    (\<forall>(a, sent) \<in> set recs. \<exists>reply out. A_result a = Inr (reply, out) \<and>
       RPCMsgReply_Xid reply = RPCMsgCall_Xid (fst (A_req a)) \<and> sent = reply_record reply (A_payload a) \<and>
       (\<forall>T. A_task a = Some T \<longrightarrow> complete_reply (T_x T) (A_payload a)))"
proof -
  have inv: "accounted P" "matched P" "closing P" "written P"
    using reached_conn(1) [OF assms(1,2)] by (simp_all add: pipe_inv_def)
  have "pending P = []" using inv(3) assms(3,4) by (auto simp: closing_def returned_def pending_def)
  then have rec: "mset (P_received P) = mset (map (A_req \<circ> fst) (P_done P))" using inv(1) by (simp add: accounted_def)
  have ok: "list_all (done_ok False) (P_done P)" using inv(2) assms(4) by (simp add: matched_def)
  have "P_buffered P = []" "\<not> P_broken P"
    using inv(3,4) assms(3,4) by (auto simp: written_def closing_def returned_def)
  then have net: "P_net P = concat (List.map_filter snd (P_done P))" using inv(4) by (simp add: written_def)
  obtain recs where recs: "List.map_filter snd (P_done P) = map snd recs" "map fst recs = map fst (P_done P)"
      "\<forall>(a, sent) \<in> set recs. sent_for a sent"
    using done_records [OF ok] by blast
  have "map (A_req \<circ> fst) recs = map (A_req \<circ> fst) (P_done P)" using recs(2) by (metis list.map_comp)
  then have "mset (map (A_req \<circ> fst) recs) = mset (P_received P)" using rec by (simp only:)
  then show ?thesis using net recs(1,3) by (intro exI [of _ recs]) (fastforce simp: sent_for_def answer_ok_def)
qed

theorem calls_answered_witness:
  "\<exists>P w reply payload. alone P w \<and> P_net P = reply_record reply payload \<and> RPCMsgReply_Xid reply = RPCMsgCall_Xid demo_hdr"
proof -
  obtain P w where r: "alone P w" "returned P" "\<not> P_cancelled P" "P_received P = [(demo_hdr, 0)]" using demo_run by blast
  then obtain recs :: "(Answer \<times> bytes) list" where recs: "P_net P = concat (map snd recs)" "mset (map (A_req \<circ> fst) recs) = mset [(demo_hdr, 0)]"
      "\<forall>(a, sent) \<in> set recs. \<exists>reply out. A_result a = Inr (reply, out) \<and>
         RPCMsgReply_Xid reply = RPCMsgCall_Xid (fst (A_req a)) \<and> sent = reply_record reply (A_payload a)"
    using calls_answered [OF r(1) _ r(2,3), of demo_conn] by fastforce
  then obtain a sent where "recs = [(a, sent)]" "A_req a = (demo_hdr, 0)" by (cases recs) auto
  then show ?thesis using recs r(1) by auto
qed

text \<open>C29: No reply is left behind in the write buffer: whenever the sender waits for the next response and there is
  none, everything it has written is with the peer, unless the connection is broken; and every call received is
  either answered or still in exactly one stage of the connection.\<close>

theorem replies_flushed:
  assumes "reach server_start server_step S" and "(m, P) \<in> set (S_conns S)"
    and "P_sender P \<noteq> Flushing" and "P_Response P = []" and "\<not> P_broken P"
  shows "P_buffered P = [] \<and> P_net P = concat (List.map_filter snd (P_done P)) \<and>
    mset (P_received P) = mset (pending P) + mset (map (A_req \<circ> fst) (P_done P))"
  using reached_pipe [OF assms(1,2)] assms(3-) by (auto simp: written_def accounted_def)

theorem replies_flushed_witness:
  "\<exists>P w. alone P w \<and> P_received P = [(demo_hdr, 0)] \<and> P_buffered P = []"
proof -
  obtain P w where r: "alone P w" "returned P" "\<not> P_broken P" "P_received P = [(demo_hdr, 0)]" using demo_run by blast
  then have "P_sender P \<noteq> Flushing" "P_Response P = []"
    using reached_conn(1) [OF r(1), of demo_conn P] by (auto simp: returned_def pipe_inv_def closing_def)
  then show ?thesis using replies_flushed [OF sound_reach [OF r(1)], of demo_conn P] r by auto
qed



end
