(* ===== verification/WorkerSteps.thy ===== *)
theory WorkerSteps
  imports OpRules Service
begin

text \<open>
  What the steps of the server do to its workers. Only the operations of compounds and the background touch them; a property of
  the workers that every operation and the background keep is kept by every step of every connection.
\<close>

section \<open>Steps that leave the workers alone\<close>

text \<open>The workers, their table, and their share of the wait group.\<close>

definition staff :: "'fs World \<Rightarrow> Worker list \<times> (bytes \<times> u32, nat) gomap \<times> int" where
  "staff w = (W_heap w, W_workers w, W_wg w)"

definition staff_kept :: "'fs World \<Rightarrow> ('a, 'fs) res \<Rightarrow> bool" where
  "staff_kept w m \<longleftrightarrow> (\<forall>r st. m = Inr (r, st) \<longrightarrow> staff (st_w st) = staff w)"

lemma staff_kept_bind:
  assumes "staff_kept w m" and "\<And>v st. staff (st_w st) = staff w \<Longrightarrow> staff_kept w (k v st)"
  shows "staff_kept w (res_bind m k)"
proof (cases m)
  case (Inr p)
  then show ?thesis using assms by (cases p; cases "fst p") (auto simp: staff_kept_def)
qed (simp add: staff_kept_def)

lemma staff_upd [simp]:
  "staff (st_w (upd_pool f st)) = staff (st_w st)" "staff (st_w (upd_clients g st)) = staff (st_w st)"
  "staff (st_w (set_slot sid i slot st)) = staff (st_w st)" "staff (w_pool f w) = staff w" "staff (w\<lparr>W_pool := p\<rparr>) = staff w"
  "staff (w\<lparr>W_clients := cs\<rparr>) = staff w" "staff (w\<lparr>W_now := t\<rparr>) = staff w" "staff (w\<lparr>W_fs := fs\<rparr>) = staff w"
  by (simp_all add: staff_def upd_pool_def upd_clients_def set_slot_def w_pool_def)

lemma staff_kept_arg:
  assumes "staff (st_w st) = staff w" and "\<And>v st. staff (st_w st) = staff w \<Longrightarrow> staff_kept w (k v st)"
  shows "staff_kept w (arg inb d k st)"
proof (cases "on_buf (d (content (buf_at inb st)))")
  case (Inl s)
  then show ?thesis using assms(1) by (cases s) (simp_all add: arg_def staff_kept_def)
next
  case (Inr p)
  then show ?thesis using assms by (cases p) (simp add: arg_def)
qed

lemma staff_kept_write:
  assumes "staff (st_w st) = staff w"
  shows "staff_kept w (write_all out vs r st)" "staff_kept w (WriteHeader out n s st)" "staff_kept w (OperationResponse out op s d st)"
    "staff_kept w (WriteHeaderAndSingleOperation out op s st)" "staff_kept w (copy_buf a b st)"
    "staff_kept w (RewriteHeaderIfNeeded out n s st)" "staff_kept w (Inr (v, st))" "staff_kept w (Inl stop)"
  using assms
  by (auto simp: staff_kept_def write_all_def WriteHeader_eq OperationResponse_def WriteHeaderAndSingleOperation_def copy_buf_def
      Rewrite_eq go_bind_eq_Inr split: prod.splits if_splits)

lemmas staff_kept_intros = staff_kept_arg staff_kept_write staff_kept_bind

lemma sequence_start_staff: "staff_kept (st_w st) (sequence_start inb out st)"
  unfolding sequence_start_def sequence_accept_def no_loop_def Let_def
  by (auto intro!: staff_kept_intros split: prod.split option.split)

lemma run_finish_staff: "staff_kept (st_w st) (run_finish out n s keep st)"
  unfolding run_finish_def by (auto intro!: staff_kept_intros split: option.split)

lemma answer_staff: "answer_with reply data vs w = Inr (r, w') \<Longrightarrow> staff w' = staff w"
  by (auto simp: answer_with_def split: prod.splits)

lemma Handle_staff:
  assumes "Handle m hdr data w = Inr (r, w')"
    and "\<not> (\<exists>resp creds. RPCMsgCall_Vers hdr = 4 \<and> RPCMsgCall_Proc hdr = PROC4_COMPOUND \<and>
      Authenticate (RPCMsgCall_Cred hdr) (RPCMsgCall_Verf hdr) = Inr (resp, creds))"
  shows "staff w' = staff w"
  using assms by (auto simp: Handle_def Muxv4_HandleProc_def MuxMismatch_HandleProc_def Muxv4_Void_def Muxv4_Compound_def
      dest!: answer_staff split: if_splits sum.splits auth_error.splits)

section \<open>How a call begins\<close>

lemma res_bind_state: "res_bind c (\<lambda>v st. Inr (f v, st)) = Inr (r, st') \<Longrightarrow> \<exists>r1. c = Inr (r1, st')"
  by (cases c) (auto simp: res_bind_def split: sum.splits)

text \<open>\<open>run_start\<close> leaves the workers alone or performs one operation.\<close>

lemma run_start_cases:
  assumes "run_start m inb out st = Inr (r, st')"
  obtains (kept) "staff (st_w st') = staff (st_w st)"
    | (operation) op f r1 where "doOperation m inb out op (upd_pool f st) = Inr (r1, st')"
proof (cases "on_buf (dUint32 (content (buf_at inb st)))")
  case (Inl s)
  then have "st' = st" using assms by (auto simp: run_start_def arg_def split: stop.splits)
  then show ?thesis using kept by simp
next
  case (Inr p)
  obtain op rest where p: "p = (op, rest)" by force
  let ?f = "Pool_update inb (\<lambda>b. b\<lparr>Buf_r := Buf_w b - length rest\<rparr>)"
  show ?thesis
  proof (cases "x_MinorVer (st_x st) > 0 \<and> (op \<notin> set AllowedFirstOps41 \<or> op \<noteq> OP4_SEQUENCE \<and> x_OpsCount (st_x st) > 1 \<or> op = OP4_SEQUENCE)")
    case True
    have "staff_kept (st_w st) (sequence_start inb out (upd_pool ?f st))"
      using sequence_start_staff [of "upd_pool ?f st" inb out] by (simp add: staff_kept_def)
    then have "staff_kept (st_w st) (run_start m inb out st)"
      using True Inr p by (auto simp: run_start_def arg_def Let_def no_loop_def intro!: staff_kept_intros)
    then show ?thesis using assms kept by (simp add: staff_kept_def)
  next
    case False
    then obtain g f where "res_bind (doOperation m inb out op (upd_pool g (upd_pool ?f st))) (\<lambda>s st. Inr (f s, st)) = Inr (r, st')"
      using assms Inr p by (auto simp: run_start_def arg_def Let_def WriteHeader_eq)
    then obtain r1 where "doOperation m inb out op (upd_pool g (upd_pool ?f st)) = Inr (r1, st')" by (auto dest: res_bind_state)
    then have "doOperation m inb out op (upd_pool (\<lambda>p. g (?f p)) st) = Inr (r1, st')" by (simp add: upd_pool_def)
    then show ?thesis by (rule operation)
  qed
qed

text \<open>So does the first step of a compound, with the credentials of the call and no session.\<close>

lemma begin_compound_cases:
  assumes r: "begin_compound m hdr resp creds data w = Inr (c, w')"
  obtains (kept) "staff w' = staff w"
    | (operation) x f out op r1 st' where "x_SessionID x = zero_SessionID" "x_Creds x = creds"
        "doOperation m data out op \<lparr>st_x = x, st_w = w_pool f w\<rparr> = Inr (r1, st')" "staff w' = staff (st_w st')"
proof -
  obtain tag minor n rest where dec: "dec_compound_args (content (Pool_heap (W_pool w) data)) = Inr ((tag, minor, n), rest)"
    using r by (auto simp: begin_compound_def go_bind_eq_Inr)
  let ?w = "w_pool (Pool_update data (\<lambda>b. b\<lparr>Buf_r := Buf_w b - length rest\<rparr>)) w"
  obtain out p where get: "Pool_Get (W_pool ?w) = (out, p)" by force
  let ?st = "\<lparr>st_x = new_Compound resp minor tag (unat n) creds, st_w = ?w\<lparr>W_pool := p\<rparr>\<rparr>"
  show ?thesis
  proof (cases "minor > 2")
    case True
    then have "staff w' = staff w"
      using r dec get by (auto simp: begin_compound_def go_bind_eq_Inr Let_def dest!: answer_staff)
    then show ?thesis by (rule kept)
  next
    case False
    then obtain r1 st where run: "run_start m data out ?st = Inr (r1, st)"
      and "(case r1 of Inl e \<Rightarrow> call_result hdr data out (Inl e) (st_w st)
            | Inr None \<Rightarrow> call_result hdr data out (Inr ()) (st_w st)
            | Inr (Some (k, n, s, keep)) \<Rightarrow> (Running \<lparr>T_hdr = hdr, T_x = st_x st, T_in = data, T_out = out, T_left = k, T_count = n,
                T_last = s, T_keep = keep\<rparr>, st_w st)) = (c, w')"
      using r dec get by (auto simp: begin_compound_def go_bind_eq_Inr Let_def)
    then have w': "staff w' = staff (st_w st)"
      by (auto simp: call_result_def split: sum.splits option.splits prod.splits)
    from run show ?thesis
    proof (cases rule: run_start_cases)
      case kept
      then show ?thesis using w' that(1) by simp
    next
      case (operation op f r2)
      moreover have "upd_pool f ?st = \<lparr>st_x = new_Compound resp minor tag (unat n) creds, st_w = w_pool (\<lambda>_. f p) w\<rparr>"
        by (simp add: upd_pool_def w_pool_def)
      ultimately show ?thesis
        using w' by (intro that(2) [of "new_Compound resp minor tag (unat n) creds" out op "\<lambda>_. f p" r2 st]) (simp_all add: new_Compound_def)
    qed
  qed
qed

lemma begin_call_cases:
  assumes "begin_call m hdr data w = Inr (c, w')"
  obtains (kept) "staff w' = staff w"
    | (operation) resp creds x f out op r1 st' where "Authenticate (RPCMsgCall_Cred hdr) (RPCMsgCall_Verf hdr) = Inr (resp, creds)"
        "x_SessionID x = zero_SessionID" "x_Creds x = creds"
        "doOperation m data out op \<lparr>st_x = x, st_w = w_pool f w\<rparr> = Inr (r1, st')" "staff w' = staff (st_w st')"
proof (cases "\<exists>resp creds. RPCMsgCall_Vers hdr = 4 \<and> RPCMsgCall_Proc hdr = PROC4_COMPOUND \<and>
    Authenticate (RPCMsgCall_Cred hdr) (RPCMsgCall_Verf hdr) = Inr (resp, creds)")
  case True
  then obtain resp creds where a: "Authenticate (RPCMsgCall_Cred hdr) (RPCMsgCall_Verf hdr) = Inr (resp, creds)"
      and "begin_compound m hdr resp creds data w = Inr (c, w')"
    using assms by (auto simp: begin_call_def)
  from this(2) show ?thesis by (cases rule: begin_compound_cases) (use kept operation [OF a] in blast)+
next
  case False
  then obtain r where "Handle m hdr data w = Inr (r, w')"
    using assms by (auto simp: begin_call_def Let_def go_bind_eq_Inr split: if_splits sum.splits)
  then show ?thesis using kept Handle_staff False by blast
qed

text \<open>A later step of a compound.\<close>

lemma task_next_cases:
  assumes "task_next m T w = Inr (c, w')"
  obtains (kept) "staff w' = staff w"
    | (operation) r1 st' where "Operation m (T_in T) (T_out T) \<lparr>st_x = T_x T, st_w = w\<rparr> = Inr (r1, st')" "staff w' = staff (st_w st')"
proof (cases "more_ops T")
  case True
  then obtain r st where o: "Operation m (T_in T) (T_out T) \<lparr>st_x = T_x T, st_w = w\<rparr> = Inr (r, st)"
    and "(case r of Inl e \<Rightarrow> call_result (T_hdr T) (T_in T) (T_out T) (Inl e) (st_w st)
          | Inr s \<Rightarrow> (Running (T\<lparr>T_x := st_x st, T_left := T_left T - 1, T_count := Suc (T_count T), T_last := s\<rparr>), st_w st)) = (c, w')"
    using assms by (auto simp: task_next_def Let_def go_bind_eq_Inr)
  then have "staff w' = staff (st_w st)" by (auto simp: call_result_def split: sum.splits)
  then show ?thesis using o by (rule operation [rotated])
next
  case False
  then have "staff w' = staff w"
    using assms run_finish_staff [of "\<lparr>st_x = T_x T, st_w = w\<rparr>"]
    by (auto simp: task_next_def Let_def go_bind_eq_Inr call_result_def staff_kept_def)
  then show ?thesis by (rule kept)
qed

section \<open>From operations to steps of the server\<close>

locale worker_property =
  fixes J :: "'fs World \<Rightarrow> bool"
  assumes staffed: "J w \<Longrightarrow> staff w' = staff w \<Longrightarrow> J w'"
    and operates: "J (st_w st) \<Longrightarrow> doOperation m inb out op st = Inr (r, st') \<Longrightarrow> J (st_w st')"
    and background: "J w \<Longrightarrow> background_step w w' \<Longrightarrow> J w'"
begin

lemma Operation_keeps:
  assumes "J (st_w st)" and "Operation m inb out st = Inr (r, st')"
  shows "J (st_w st')"
proof (cases "on_buf (dUint32 (content (buf_at inb st)))")
  case (Inl s)
  then show ?thesis using assms by (auto simp: Operation_def arg_def split: stop.splits)
next
  case (Inr p)
  obtain op rest where p: "p = (op, rest)" by force
  let ?st = "upd_pool (Pool_update inb (\<lambda>b. b\<lparr>Buf_r := Buf_w b - length rest\<rparr>)) st"
  have "J (st_w ?st)" by (rule staffed [OF assms(1)]) simp
  moreover have "doOperation m inb out op ?st = Inr (r, st')" using assms(2) Inr p by (simp add: Operation_def arg_def)
  ultimately show ?thesis by (rule operates)
qed

lemma begin_call_keeps:
  assumes J: "J w" and "begin_call m hdr data w = Inr (c, w')"
  shows "J w'"
  using assms(2)
proof (cases rule: begin_call_cases)
  case kept
  then show ?thesis using J by (rule staffed [rotated])
next
  case (operation resp creds x f out op r1 st')
  have "J (w_pool f w)" by (rule staffed [OF J]) simp
  then have "J (st_w st')" using operates [OF _ operation(4)] by simp
  then show ?thesis using operation(5) by (rule staffed)
qed

lemma task_next_keeps:
  assumes J: "J w" and "task_next m T w = Inr (c, w')"
  shows "J w'"
  using assms(2)
proof (cases rule: task_next_cases)
  case kept
  then show ?thesis using J by (rule staffed [rotated])
next
  case (operation r1 st')
  have "J (st_w st')" using Operation_keeps [OF _ operation(1)] J by simp
  then show ?thesis using operation(2) by (rule staffed)
qed

lemma conn_step_keeps:
  assumes J: "J w" and "conn_step m P w P' w'"
  shows "J w'"
  using assms(2)
proof cases
  case receive
  then have "staff w' = staff w" by cases auto
  then show ?thesis using J by (rule staffed [rotated])
next
  case send
  then have "staff w' = staff w" by cases auto
  then show ?thesis using J by (rule staffed [rotated])
next
  case mux
  then show ?thesis
  proof cases
    case (handle xs hdr data ys c)
    then show ?thesis using begin_call_keeps [OF J] by blast
  next
    case (operation xs req T ys T' c)
    then show ?thesis using task_next_keeps [OF J] by blast
  next
    case (complete xs req T ys T' c)
    then show ?thesis using task_next_keeps [OF J] by blast
  qed (use J in simp_all)
qed (use J in simp_all)

lemma server_step_keeps: "server_step S S' \<Longrightarrow> J (S_world S) \<Longrightarrow> J (S_world S')"
  by (erule server_step.cases) (auto intro: conn_step_keeps background)

end

end
