(* ===== verification/WaitGroup.thy ===== *)
theory WaitGroup
  imports WorkerSteps
begin

text \<open>
  The share of the workers in the wait group of the server. \<^verbatim>\<open>GetWorker\<close> adds one for every worker it makes, and the clean-up
  of a worker takes it away: whatever the connections and the background do, the count is that of the workers
  not cleaned up yet.
\<close>

section \<open>What a worker holds\<close>

text \<open>A worker counts until it has been discarded and its clean-up has run; while a call has it, the clean-up waits.\<close>

definition share :: "Worker \<Rightarrow> int" where
  "share v = (if Worker_discarded v \<and> Worker_pending v = 0 \<and> Worker_inUse v = 0 then 0 else 1)"

text \<open>A call has at most the worker \<open>u\<close>; a clean-up is due only of a worker that is discarded and not in use, once; and a
  worker that does not count has no files open.\<close>

definition life_ok :: "nat option \<Rightarrow> nat \<Rightarrow> Worker \<Rightarrow> bool" where
  "life_ok u b v \<longleftrightarrow> Worker_inUse v = (if u = Some b then 1 else 0) \<and> Worker_pending v \<le> 1 \<and>
     (Worker_pending v = 1 \<longrightarrow> Worker_discarded v \<and> Worker_inUse v = 0) \<and> (share v = 0 \<longrightarrow> Worker_Files v = [])"

definition wg_inv :: "nat option \<Rightarrow> 'fs World \<Rightarrow> bool" where
  "wg_inv u w \<longleftrightarrow> wf_world w \<and> (\<forall>a. u = Some a \<longrightarrow> a < length (W_heap w)) \<and>
     (\<forall>b < length (W_heap w). life_ok u b (W_heap w ! b)) \<and> W_wg w = sum_list (map share (W_heap w))"

lemma share_bounds: "0 \<le> share v" "share v \<le> 1"
  by (simp_all add: share_def)

lemma sum_share_update:
  "a < length ws \<Longrightarrow> sum_list (map share (ws[a := v])) = sum_list (map share ws) + share v - share (ws ! a)"
proof (induction ws arbitrary: a)
  case (Cons x ws)
  then show ?case by (cases a) auto
qed simp

lemma wg_inv_staff: "wg_inv u w \<Longrightarrow> staff w' = staff w \<Longrightarrow> wg_inv u w'"
  by (simp add: wg_inv_def staff_def wf_world_def)

text \<open>One worker changes.\<close>

lemma wg_inv_update:
  assumes inv: "wg_inv u w" and a: "a < length (W_heap w)" and v: "life_ok u' a v"
    and u: "\<And>b. b \<noteq> a \<Longrightarrow> u' = Some b \<longleftrightarrow> u = Some b"
    and w': "W_heap w' = (W_heap w)[a := v]" "W_workers w' = W_workers w" "W_wg w' = W_wg w + share v - share (W_heap w ! a)"
  shows "wg_inv u' w'"
proof -
  have "life_ok u' b (W_heap w' ! b)" if "b < length (W_heap w)" for b
  proof (cases "b = a")
    case True
    then show ?thesis using v a w'(1) by simp
  next
    case False
    then have "life_ok u b (W_heap w ! b)" using inv that by (simp add: wg_inv_def)
    then show ?thesis using False u [of b] w'(1) by (auto simp: life_ok_def)
  qed
  moreover have "u' = Some b \<Longrightarrow> b < length (W_heap w)" for b
    using inv a u [of b] by (cases "b = a") (auto simp: wg_inv_def)
  ultimately show ?thesis
    using inv w' sum_share_update [OF a, of v] by (simp add: wg_inv_def wf_world_def)
qed

lemma wg_inv_life: "wg_inv u w \<Longrightarrow> a < length (W_heap w) \<Longrightarrow> life_ok u a (W_heap w ! a)"
  by (simp add: wg_inv_def)

lemma wg_inv_upd:
  assumes "wg_inv u w" and "\<And>v. life_ok u a v \<Longrightarrow> life_ok u' a (f v) \<and> share (f v) = share v"
    and "\<And>b. b \<noteq> a \<Longrightarrow> u' = Some b \<longleftrightarrow> u = Some b" and "a < length (W_heap w)"
  shows "wg_inv u' (upd_worker a f w)"
  using assms(2) [OF wg_inv_life [OF assms(1,4)]]
  by (intro wg_inv_update [OF assms(1,4), of u' "f (W_heap w ! a)"] assms(3)) (simp_all add: upd_worker_def)

lemma upd_worker_beyond: "\<not> a < length (W_heap w) \<Longrightarrow> upd_worker a f w = w"
  by (cases w) (simp add: upd_worker_def list_update_beyond)

lemma life_Discard: "life_ok u a v \<Longrightarrow> life_ok u a (Worker_Discard v) \<and> share (Worker_Discard v) = share v"
  by (auto simp: life_ok_def share_def Worker_Discard_def Let_def split: if_splits)

lemma life_autoDiscard: "life_ok u a v \<Longrightarrow> life_ok u a (Worker_autoDiscard d t v) \<and> share (Worker_autoDiscard d t v) = share v"
  by (auto simp: life_ok_def share_def Worker_autoDiscard_def Let_def split: if_splits)

lemma life_Close: "life_ok (Some a) a v \<Longrightarrow> life_ok None a (Worker_Close v) \<and> share (Worker_Close v) = share v"
  by (auto simp: life_ok_def share_def Worker_Close_def Let_def split: if_splits)

lemma life_Use:
  "Worker_Use t v = (None, v') \<Longrightarrow> life_ok None a v \<Longrightarrow> life_ok (Some a) a v' \<and> share v' = share v"
  by (auto simp: life_ok_def share_def Worker_Use_def split: if_splits)

lemma wg_inv_Discard: "wg_inv u w \<Longrightarrow> wg_inv u (upd_worker a Worker_Discard w)"
  using wg_inv_upd [of u w a u Worker_Discard] life_Discard upd_worker_beyond [of a w] by (cases "a < length (W_heap w)") auto

lemma wg_inv_new_worker:
  assumes "wg_inv None w" and "new_worker m creds sid w = Inr (a, w')"
  shows "wg_inv (Some a) w'"
proof -
  have wf: "wf_world w" using assms(1) by (simp add: wg_inv_def)
  obtain v fs ds where w': "a = length (W_heap w)" "W_heap w' = W_heap w @ [v]" "W_wg w' = W_wg w + 1"
      and v: "Worker_inUse v = 1" "\<not> Worker_discarded v" "Worker_pending v = 0"
    using assms(2) by (auto simp: new_worker_def Worker_New_def go_bind_eq_Inr split: prod.splits)
  have new: "life_ok (Some a) a v" "share v = 1" using v by (simp_all add: life_ok_def share_def)
  have "life_ok (Some a) b (W_heap w' ! b)" if "b < length (W_heap w')" for b
  proof (cases "b = a")
    case False
    then have "life_ok None b (W_heap w ! b)" "W_heap w' ! b = W_heap w ! b"
      using that w' wg_inv_life [OF assms(1)] by (auto simp: nth_append)
    then show ?thesis using False by (simp add: life_ok_def)
  qed (use new w' in simp)
  then show ?thesis using new_worker_spec [OF wf assms(2)] assms(1) w' new(2) by (simp add: wg_inv_def)
qed

lemma wg_inv_GetWorker:
  assumes i: "wg_inv None w" and g: "GetWorker m creds sid w = Inr (a, w')"
  shows "wg_inv (Some a) w'"
proof -
  consider (new) sid' where "new_worker m creds sid' w = Inr (a, w')"
    | (changed) sid' b where "new_worker m creds sid' (upd_worker b Worker_Discard w) = Inr (a, w')"
    | (found) k v where "mget (W_workers w) k = Some a" "w' = upd_worker a (\<lambda>_. v) w" "Worker_Use (W_now w) (W_heap w ! a) = (None, v)"
    using g by (auto simp: GetWorker_def Let_def split: option.splits if_splits prod.splits)
  then show ?thesis
  proof cases
    case new
    then show ?thesis using i by (rule wg_inv_new_worker [rotated])
  next
    case changed
    then show ?thesis using wg_inv_Discard [OF i] by (rule wg_inv_new_worker [rotated])
  next
    case found
    then have a: "a < length (W_heap w)" using i unfolding wg_inv_def wf_world_def by blast
    note l = life_Use [OF found(3) wg_inv_life [OF i a]]
    show ?thesis unfolding found(2)
      by (rule wg_inv_update [OF i a conjunct1 [OF l]]) (simp_all add: upd_worker_def l)
  qed
qed

section \<open>Operations\<close>

lemma upd_wk_world: "st_w (upd_wk a f st) = upd_worker a f (st_w st)"
  by (simp add: upd_wk_def)

lemma staff_environs [simp]: "staff (st_w (environs fs cs p ds st)) = staff (st_w st)"
  by (simp add: environs_def staff_def)

interpretation wg: operation_rules m "\<lambda>u st. wg_inv u (st_w st)" "\<lambda>u _ st. wg_inv u (st_w st)" for m
proof unfold_locales
  fix u st f a assume i: "wg_inv u (st_w (st :: 'a st))"
    and f: "Worker_Files (f (wk a st)) = Worker_Files (wk a st)" "same_life (f (wk a st)) (wk a st)"
  show "wg_inv u (st_w (upd_wk a f st))"
  proof (cases "a < length (W_heap (st_w st))")
    case True
    have s: "share (f (wk a st)) = share (wk a st)" using f(2) by (simp add: share_def same_life_def)
    have "life_ok u a (f (wk a st))" using wg_inv_life [OF i True] f s by (auto simp: life_ok_def same_life_def wk_def)
    then show ?thesis unfolding upd_wk_world
      by (rule wg_inv_update [OF i True]) (simp_all add: upd_worker_def s, simp_all add: wk_def)
  qed (use i in \<open>simp add: upd_wk_world upd_worker_beyond\<close>)
next
  fix a r st assume i: "wg_inv (Some a) (st_w (st :: 'a st))"
  then have "a < length (W_heap (st_w st))" by (simp add: wg_inv_def)
  then show "wg_inv None (st_w (upd_wk a Worker_Close st))"
    unfolding upd_wk_world by (intro wg_inv_upd [OF i]) (auto dest: life_Close)
qed (auto intro: wg_inv_staff wg_inv_GetWorker simp: upd_wk_world wg_inv_Discard)

text \<open>The worker that has a file entered or removed is in use.\<close>

lemma wg_inv_files:
  assumes i: "wg_inv (Some a) (st_w st)" and v: "same_life v (wk a st)"
  shows "wg_inv (Some a) (st_w (upd_wk a (\<lambda>_. v) (environs fs cs p ds st)))"
proof -
  have a: "a < length (W_heap (st_w st))" using i by (simp add: wg_inv_def)
  have l: "life_ok (Some a) a v" "share v = share (W_heap (st_w st) ! a)"
    using wg_inv_life [OF i a] v by (auto simp: life_ok_def share_def same_life_def wk_def)
  show ?thesis
    by (rule wg_inv_update [OF i a l(1)]) (simp_all add: l(2) upd_wk_def upd_worker_def environs_def)
qed

lemma open_register_wg:
  assumes "wg_inv (Some a) (st_w st)"
  shows "results (\<lambda>_ st. wg_inv (Some a) (st_w st)) (open_register m out a cur args client seq path flag f st)"
proof (rule wg.open_register [OF assms])
  fix h i v cs ds and st :: "'a st"
  assume w: "wg_inv (Some a) (st_w st)" and add: "AddFile \<lparr>File_File = f, File_Handle = h, File_Client = client, File_ClientSeqID = seq\<rparr>
      (wk a st) (W_clients (st_w st)) (W_draws (st_w st)) = Inr (i, v, cs, ds)"
  have "same_life v (wk a st)" using files_of_AddFile(6) [OF add] by (simp add: same_life_def)
  from wg_inv_files [OF w this] show "results (\<lambda>_ st. wg_inv (Some a) (st_w st)) (OperationResponse out OP4_OPEN NFS4_OK [enc_OPEN4resok (open_resok i seq 0)]
      (set_CurrentHandle h path (upd_wk a (\<lambda>_. v) (st\<lparr>st_w := (st_w st)\<lparr>W_clients := cs, W_draws := ds\<rparr>\<rparr>))))"
    unfolding environs_eq by (rule wg.moved_handle)
qed

lemma Open_wg: "wg_inv None (st_w st) \<Longrightarrow> results (\<lambda>_ st. wg_inv None (st_w st)) (Open m inb out st)"
  by (rule wg.Open_meets [unfolded meets_def, rule_format]) (rule open_register_wg)

lemma Close_wg:
  assumes "wg_inv None (st_w st)"
  shows "results (\<lambda>_ st. wg_inv None (st_w st)) (Close m inb out st)"
proof (rule wg.Close_results [OF assms])
  fix args a g v cs s d and st' :: "'a st"
  assume w: "wg_inv (Some a) (st_w st')"
    and rm: "RemoveFile (FileID (StateId4_Other (CLOSE4args_OpenStateId args))) (wk a st') (W_clients (st_w st')) = (Some g, v, cs)"
  have "same_life v (wk a st')" using rm by (auto simp: RemoveFile_def same_life_def split: option.splits)
  from wg_inv_files [OF w this] have "wg_inv (Some a) (st_w (upd_wk a (\<lambda>_. v) (upd_clients (\<lambda>_. cs) st')))"
    unfolding environs_eq .
  then show "results (\<lambda>_ st. wg_inv (Some a) (st_w st)) (fs_call (OpenFile_Close (Conn_V m) (File_File g)) (\<lambda>err st. case err of
        Some e \<Rightarrow> OperationResponse out OP4_CLOSE (Err2Status (Some e)) [] st
      | None \<Rightarrow> OperationResponse out OP4_CLOSE NFS4_OK [closed_resok (StateId4_Other (CLOSE4args_OpenStateId args))] st)
        (cache_Invalidate a (File_Handle g) (upd_wk a (\<lambda>_. v) (upd_clients (\<lambda>_. cs) st'))))"
    by (auto intro!: wg.fs_call wg.response wg.I_cache split: option.split)
qed

lemma doOperation_wg: "wg_inv None (st_w st) \<Longrightarrow> doOperation m inb out op st = Inr (r, st') \<Longrightarrow> wg_inv None (st_w st')"
  using wg.doOperation_results [of st op m inb out, OF _ Open_wg Close_wg] by (simp add: results_def)

section \<open>The background\<close>

lemma background_wg:
  assumes i: "wg_inv None w" and "background_step w w'"
  shows "wg_inv None w'"
  using assms(2)
proof cases
  case (cleanup a m)
  obtain v fs cs where c: "Worker_cleanup (Conn_V m) (W_heap w ! a) (W_fs w) (W_clients w) = (v, fs, cs)" by (metis prod_cases3)
  note l = wg_inv_life [OF i cleanup(2)]
  then have v: "life_ok None a v" "share v = 0" "share (W_heap w ! a) = 1"
    using c cleanup(3) by (auto simp: Worker_cleanup_def Let_def life_ok_def share_def split: prod.splits)
  show ?thesis unfolding cleanup(1)
    by (rule wg_inv_update [OF i cleanup(2) v(1)]) (simp_all add: run_cleanup_def c v(2,3))
next
  case (idle_worker a d)
  show ?thesis
  proof (cases "a < length (W_heap w)")
    case True
    then show ?thesis unfolding idle_worker using life_autoDiscard by (intro wg_inv_upd [OF i]) auto
  qed (use i in \<open>simp add: idle_worker upd_worker_beyond\<close>)
next
  case (listers a V v fs)
  have s: "same_life v (W_heap w ! a)" "Worker_Files v = Worker_Files (W_heap w ! a)"
    using listers(3) by (auto simp: cleanupListers_def same_life_def split: if_splits prod.splits)
  then have "life_ok None a v" "share v = share (W_heap w ! a)"
    using wg_inv_life [OF i listers(2)] by (auto simp: life_ok_def share_def same_life_def)
  then show ?thesis unfolding listers(1) by (intro wg_inv_update [OF i listers(2), of None v]) simp_all
qed (auto intro: wg_inv_staff [OF i])

interpretation counted: worker_property "wg_inv None"
  by unfold_locales (fact wg_inv_staff doOperation_wg background_wg)+

lemma share_sum: "0 \<le> sum_list (map share ws)" "sum_list (map share ws) = 0 \<longleftrightarrow> (\<forall>v \<in> set ws. share v = 0)"
proof -
  show *: "0 \<le> sum_list (map share ws)" for ws by (induction ws) (use share_bounds in \<open>auto simp: add_nonneg_nonneg\<close>)
  show "sum_list (map share ws) = 0 \<longleftrightarrow> (\<forall>v \<in> set ws. share v = 0)"
  proof (induction ws)
    case (Cons v ws)
    then show ?case using * [of ws] share_bounds(1) [of v] by auto
  qed simp
qed

lemma W_wg_nonneg: "wg_inv u w \<Longrightarrow> 0 \<le> W_wg w"
  by (simp add: wg_inv_def share_sum)

lemma no_share: "wg_inv u w \<Longrightarrow> W_wg w = 0 \<longleftrightarrow> (\<forall>v \<in> set (W_heap w). share v = 0)"
  by (simp add: wg_inv_def share_sum)

text \<open>When the workers have left the wait group, all of them are discarded and cleaned up.\<close>

lemma workers_gone:
  assumes "wg_inv None w" and "W_wg w = 0"
  shows "\<forall>v \<in> set (W_heap w). Worker_discarded v \<and> Worker_pending v = 0 \<and> Worker_Files v = []"
proof
  fix v assume v: "v \<in> set (W_heap w)"
  then obtain a where "a < length (W_heap w)" "W_heap w ! a = v" by (auto simp: in_set_conv_nth)
  then have "life_ok None a v" using wg_inv_life [OF assms(1)] by blast
  moreover have "share v = 0" using no_share [OF assms(1)] assms(2) v by blast
  ultimately show "Worker_discarded v \<and> Worker_pending v = 0 \<and> Worker_Files v = []"
    by (auto simp: life_ok_def share_def split: if_splits)
qed

lemma background_drained:
  assumes "wg_inv None w" and "W_wg w = 0" and "background_step w w'"
  shows "W_wg w' = 0"
  using assms(3)
proof cases
  case (cleanup a m)
  then show ?thesis using workers_gone [OF assms(1,2)] nth_mem [OF cleanup(2)] by force
qed (use assms(2) in \<open>simp_all add: upd_worker_def\<close>)

section \<open>What is left to clean up\<close>

text \<open>Two turns of the background at most, to discard and to clean up.\<close>

definition worker_work :: "Worker \<Rightarrow> nat" where
  "worker_work v = (if Worker_discarded v then 0 else 1) + (if share v = 0 then 0 else 1)"

definition staff_work :: "'fs World \<Rightarrow> nat" where
  "staff_work w = sum_list (map worker_work (W_heap w))"

lemma sum_work_update:
  "a < length ws \<Longrightarrow> sum_list (map worker_work (ws[a := v])) + worker_work (ws ! a) = sum_list (map worker_work ws) + worker_work v"
proof (induction ws arbitrary: a)
  case (Cons x ws)
  then show ?case by (cases a) auto
qed simp

lemma staff_work_update:
  "a < length (W_heap w) \<Longrightarrow> W_heap w' = (W_heap w)[a := v] \<Longrightarrow>
     staff_work w' + worker_work (W_heap w ! a) = staff_work w + worker_work v"
  by (simp add: staff_work_def sum_work_update)

text \<open>The background never adds to it.\<close>

lemma background_work:
  assumes i: "wg_inv None w" and "background_step w w'"
  shows "staff_work w' \<le> staff_work w"
  using assms(2)
proof cases
  case (cleanup a m)
  obtain v fs cs where c: "Worker_cleanup (Conn_V m) (W_heap w ! a) (W_fs w) (W_clients w) = (v, fs, cs)" by (metis prod_cases3)
  then have "worker_work v \<le> worker_work (W_heap w ! a)"
    by (auto simp: Worker_cleanup_def Let_def worker_work_def share_def split: prod.splits)
  then show ?thesis using staff_work_update [OF cleanup(2), of w' v] cleanup(1) by (simp add: run_cleanup_def c)
next
  case (idle_worker a d)
  let ?v = "Worker_autoDiscard d (W_now w) (W_heap w ! a)"
  have "worker_work ?v \<le> worker_work (W_heap w ! a)"
    by (auto simp: worker_work_def share_def Worker_autoDiscard_def Let_def)
  moreover have "W_heap w' = (W_heap w)[a := ?v]" unfolding idle_worker by (simp add: upd_worker_def)
  ultimately show ?thesis
    using staff_work_update [of a w w' ?v] idle_worker upd_worker_beyond [of a w] by (cases "a < length (W_heap w)") auto
next
  case (listers a V v fs)
  then have "worker_work v = worker_work (W_heap w ! a)"
    by (auto simp: cleanupListers_def worker_work_def share_def split: if_splits prod.splits)
  then show ?thesis using staff_work_update [OF listers(2), of w' v] listers(1) by simp
qed (simp_all add: staff_work_def)

text \<open>And while a worker counts, the background can take something off it, if workers that are not idle yet may be discarded,
  as they are once the context of the server is done.\<close>

lemma background_moves:
  assumes i: "wg_inv None w" and "W_wg w \<noteq> 0"
  shows "\<exists>w'. background_step w w' \<and> staff_work w' < staff_work w"
proof -
  fix m :: "'a Conn"
  obtain a where a: "a < length (W_heap w)" "share (W_heap w ! a) \<noteq> 0"
    using no_share [OF i] assms(2) by (auto simp: in_set_conv_nth)
  note l = wg_inv_life [OF i a(1)]
  show ?thesis
  proof (cases "Worker_discarded (W_heap w ! a)")
    case True
    then have p: "Worker_pending (W_heap w ! a) > 0" using a(2) l by (auto simp: share_def life_ok_def split: if_splits)
    obtain v fs cs where c: "Worker_cleanup (Conn_V m) (W_heap w ! a) (W_fs w) (W_clients w) = (v, fs, cs)" by (metis prod_cases3)
    then have "worker_work v < worker_work (W_heap w ! a)"
      using True p l by (auto simp: Worker_cleanup_def Let_def worker_work_def share_def life_ok_def split: prod.splits)
    then have "staff_work (run_cleanup m a w) < staff_work w"
      using staff_work_update [OF a(1), of "run_cleanup m a w" v] by (simp add: run_cleanup_def c)
    then show ?thesis using background_step.cleanup [OF a(1) p] by blast
  next
    case False
    let ?f = "Worker_autoDiscard True (W_now w)"
    have "worker_work (?f (W_heap w ! a)) < worker_work (W_heap w ! a)"
      using False l by (auto simp: worker_work_def share_def Worker_autoDiscard_def Let_def life_ok_def)
    then have "staff_work (upd_worker a ?f w) < staff_work w"
      using staff_work_update [OF a(1), of "upd_worker a ?f w" "?f (W_heap w ! a)"] by (simp add: upd_worker_def)
    then show ?thesis using background_step.idle_worker by blast
  qed
qed

end
