(* ===== verification/CtxReader.thy ===== *)
theory CtxReader
  imports Prelude
begin

text \<open>
  The reader that gives up when a context ends (\<^verbatim>\<open>context.go\<close>): one call of \<^verbatim>\<open>Read\<close>, with the goroutine it starts. The goroutine
  reads into a buffer of its own, so that what it does after the call has returned does not matter.
\<close>

section \<open>One call of Read\<close>

text \<open>What \<^verbatim>\<open>Read\<close> returns: the number of bytes, and the error.\<close>

type_synonym ioret = "nat \<times> go_error option"

text \<open>The buffer of the caller, the buffer and the channel of the goroutine, whether the goroutine is still in the \<^verbatim>\<open>Read\<close> of
  the reader below, whether the context has ended, and what was returned. \<open>R_delivered\<close> only records history: the bytes the
  reader below left in the buffer it was given, with the number and the error it returned.\<close>

record ctxRead =
  R_buf :: bytes
  R_buf2 :: bytes
  R_c :: "ioret option"
  R_reading :: bool
  R_done :: bool
  R_ret :: "ioret option"
  R_delivered :: "(bytes \<times> ioret) option"

definition new_read :: "bytes \<Rightarrow> ctxRead" where
  "new_read buf = \<lparr>R_buf = buf, R_buf2 = replicate (length buf) 0, R_c = None, R_reading = True, R_done = False, R_ret = None,
     R_delivered = None\<rparr>"

text \<open>\<^verbatim>\<open>ctx.Err()\<close>, which is none of the errors that the server looks for.\<close>

definition ctx_Err :: go_error where "ctx_Err = GoErr []"

text \<open>The reader below may use all of the buffer it is given, but returns a number that fits it.\<close>

inductive ctx_step :: "ctxRead \<Rightarrow> ctxRead \<Rightarrow> bool" where
  ends: "\<not> R_done R \<Longrightarrow> ctx_step R (R\<lparr>R_done := True\<rparr>)"
| delivers: "R_reading R \<Longrightarrow> length b = length (R_buf2 R) \<Longrightarrow> n \<le> length b \<Longrightarrow>
    ctx_step R (R\<lparr>R_buf2 := b, R_c := Some (n, err), R_reading := False, R_delivered := Some (b, n, err)\<rparr>)"
| receives: "R_ret R = None \<Longrightarrow> R_c R = Some ret \<Longrightarrow> ctx_step R (R\<lparr>R_buf := R_buf2 R, R_c := None, R_ret := Some ret\<rparr>)"
| gives_up: "R_ret R = None \<Longrightarrow> R_done R \<Longrightarrow> ctx_step R (R\<lparr>R_ret := Some (0, Some ctx_Err)\<rparr>)"

inductive_simps ctx_step_simps: "ctx_step R R'"

text \<open>What is left to do, the goroutine included.\<close>

definition read_work :: "ctxRead \<Rightarrow> nat" where
  "read_work R = (if R_done R then 0 else 1) + (if R_reading R then 1 else 0) + (if R_ret R = None then 1 else 0)"

lemma read_work_decreases: "ctx_step R R' \<Longrightarrow> read_work R' < read_work R"
  by (induction rule: ctx_step.induct) (simp_all add: read_work_def)

lemma read_moves: "R_ret R = None \<Longrightarrow> R_done R \<Longrightarrow> \<exists>R'. ctx_step R R' \<and> R_ret R' \<noteq> None"
  by (rule exI, rule conjI, rule gives_up) simp_all

section \<open>What is returned\<close>

definition read_inv :: "bytes \<Rightarrow> ctxRead \<Rightarrow> bool" where
  "read_inv buf R \<longleftrightarrow> (R_reading R \<longrightarrow> R_c R = None \<and> R_delivered R = None) \<and> length (R_buf2 R) = length buf \<and>
     (\<forall>ret. R_c R = Some ret \<longrightarrow> R_delivered R = Some (R_buf2 R, ret)) \<and>
     (\<forall>b n err. R_delivered R = Some (b, n, err) \<longrightarrow> n \<le> length buf \<and> length b = length buf) \<and>
     (case R_ret R of
        None \<Rightarrow> R_buf R = buf
      | Some ret \<Rightarrow> R_done R \<and> ret = (0, Some ctx_Err) \<and> R_buf R = buf \<or> R_delivered R = Some (R_buf R, ret))"

interpretation ctx: transition_invariant "\<lambda>R. R = new_read buf" ctx_step "read_inv buf" for buf
proof unfold_locales
  fix R R' assume i: "read_inv buf R" and "ctx_step R R'"
  from this(2) show "read_inv buf R'"
    using i by cases (auto simp: read_inv_def split: option.splits)
qed (simp add: read_inv_def new_read_def)

text \<open>C30: A read through a context returns either what the reader below delivered, its bytes in the buffer of the caller and
  its number and error as they are, or, once the context has ended, nothing, with the caller's buffer as it was and the error of
  the context; in neither case does the goroutine that goes on reading change the buffer after the return. And once the
  context has ended the read can return, whatever the reader below does.\<close>

theorem read_gives_up:
  assumes "reach (\<lambda>R. R = new_read buf) ctx_step R"
  shows "(case R_ret R of
       None \<Rightarrow> R_buf R = buf \<and> (R_done R \<longrightarrow> (\<exists>R'. ctx_step R R' \<and> R_ret R' = Some (0, Some ctx_Err) \<and> R_buf R' = buf))
     | Some (n, err) \<Rightarrow> n \<le> length buf \<and> length (R_buf R) = length buf \<and>
         (R_done R \<and> (n, err) = (0, Some ctx_Err) \<and> R_buf R = buf \<or> R_delivered R = Some (R_buf R, n, err)) \<and>
         (\<forall>R'. ctx_step R R' \<longrightarrow> R_buf R' = R_buf R \<and> R_ret R' = R_ret R))"
proof -
  have i: "read_inv buf R" by (rule ctx.holds [OF assms])
  have "\<exists>R'. ctx_step R R' \<and> R_ret R' = Some (0, Some ctx_Err) \<and> R_buf R' = R_buf R" if "R_ret R = None" "R_done R"
    using gives_up [OF that] by force
  moreover have "R_buf R' = R_buf R \<and> R_ret R' = R_ret R" if "ctx_step R R'" "R_ret R \<noteq> None" for R'
    using that by cases simp_all
  ultimately show ?thesis using i by (auto simp: read_inv_def split: option.splits)
qed

theorem read_gives_up_witness:
  "\<exists>R R'. R_ret R = Some (0, Some ctx_Err) \<and> ctx_step R R' \<and> R_buf2 R' = [9, 9] \<and> R_buf R' = [1, 2]"
proof -
  let ?reach = "reach (\<lambda>R. R = new_read [1, 2]) ctx_step"
  define R where "R = (new_read [1, 2])\<lparr>R_done := True, R_ret := Some (0, Some ctx_Err)\<rparr>"
  have "?reach (new_read [1, 2])" by (rule reach_init) simp
  moreover have "ctx_step (new_read [1, 2]) ((new_read [1, 2])\<lparr>R_done := True\<rparr>)" by (rule ctx_step.ends) (simp add: new_read_def)
  ultimately have "?reach ((new_read [1, 2])\<lparr>R_done := True\<rparr>)" by (rule reach_step)
  moreover have "ctx_step ((new_read [1, 2])\<lparr>R_done := True\<rparr>) R"
    unfolding R_def by (rule ctx_step.gives_up) (simp_all add: new_read_def)
  ultimately have "?reach R" by (rule reach_step)
  note r = read_gives_up [OF this]
  have R: "R_buf2 R = [0, 0]" "R_reading R" "R_ret R = Some (0, Some ctx_Err)" by (simp_all add: R_def new_read_def)
  have "ctx_step R (R\<lparr>R_buf2 := [9, 9], R_c := Some (2, None), R_reading := False, R_delivered := Some ([9, 9], 2, None)\<rparr>)"
    by (rule ctx_step.delivers) (simp_all add: R)
  moreover have "\<forall>R'. ctx_step R R' \<longrightarrow> R_buf R' = R_buf R \<and> R_ret R' = R_ret R" using r R(3) by simp
  moreover have "R_buf R = [1, 2]" by (simp add: R_def new_read_def)
  ultimately show ?thesis using R(3) by (intro exI conjI) (assumption, assumption, simp_all)
qed

end
