(* ===== verification/Serve.thy ===== *)
theory Serve
  imports WaitGroup CtxReader
begin

text \<open>
  The life of the server (\<^verbatim>\<open>server.go\<close>): \<^verbatim>\<open>Server.Serve\<close> accepts connections until its context ends, and returns when the
  goroutines of all of them have. The connections and the shared state are those of \<open>Service\<close>.
\<close>

section \<open>The goroutines\<close>

text \<open>\<^verbatim>\<open>HandleTrap\<close> waits for data from an unprivileged port, and logs what it gets.\<close>

datatype trap_log = Quiet | LogError go_error | LogData nat

fun trap_log_of :: "ioret \<Rightarrow> trap_log" where
  "trap_log_of (n, err) =
     (case err of
        None \<Rightarrow> LogData n
      | Some e \<Rightarrow> if n = 0 \<and> errors_is e EOF then Quiet else LogError e)"

datatype trap = TrapReading ctxRead | TrapDone trap_log

definition new_trap :: trap where
  "new_trap = TrapReading (new_read (replicate 128 0))"

text \<open>The loop of \<^verbatim>\<open>Serve\<close>, the wait for the goroutines, and the return.\<close>

datatype serve_loop = Accepting | Draining | Stopped

text \<open>The connections and what they share, whether the context has ended, whether the listener is open, the share of the
  connections and traps in the wait group, and which of the goroutines of \<^verbatim>\<open>HandleConn\<close> are still running.\<close>

record 'fs Serving =
  V_server :: "'fs ServerState"
  V_cancelled :: bool
  V_listening :: bool
  V_loop :: serve_loop
  V_wg :: nat
  V_running :: "bool list"
  V_traps :: "trap list"

text \<open>The wait group \<^verbatim>\<open>s.wg\<close>: one for each connection and trap and, in \<open>W_wg\<close>, one for each worker.\<close>

definition server_wg :: "'fs Serving \<Rightarrow> int" where
  "server_wg V = int (V_wg V) + W_wg (S_world (V_server V))"

text \<open>\<^verbatim>\<open>New\<close>, and the first steps of \<^verbatim>\<open>Serve\<close>.\<close>

definition serve_start :: "'fs Serving \<Rightarrow> bool" where
  "serve_start V \<longleftrightarrow> server_start (V_server V) \<and> \<not> V_cancelled V \<and> V_listening V \<and> V_loop V = Accepting \<and>
     server_wg V = 0 \<and> V_wg V = 0 \<and> V_running V = [] \<and> V_traps V = []"

text \<open>The context ends, or \<^verbatim>\<open>Close\<close> is called; a goroutine closes the listener after the context has ended; the loop accepts a
  connection, or fails to; the goroutines of the connections and traps run and end; \<^verbatim>\<open>Serve\<close> returns. A connection may
  be cancelled at any time, as in \<open>Service\<close>; a trap when the context has ended.\<close>

inductive serve_step :: "'fs Serving \<Rightarrow> 'fs Serving \<Rightarrow> bool" where
  cancel: "\<not> V_cancelled V \<Longrightarrow> serve_step V (V\<lparr>V_cancelled := True\<rparr>)"
| close: "V_listening V \<Longrightarrow> serve_step V (V\<lparr>V_listening := False\<rparr>)"
| watch: "V_cancelled V \<Longrightarrow> V_listening V \<Longrightarrow> serve_step V (V\<lparr>V_listening := False\<rparr>)"
| failed: "V_loop V = Accepting \<Longrightarrow> \<not> V_cancelled V \<Longrightarrow> serve_step V V"
| stopped: "V_loop V = Accepting \<Longrightarrow> V_cancelled V \<Longrightarrow> serve_step V (V\<lparr>V_loop := Draining\<rparr>)"
| refuse: "V_loop V = Accepting \<Longrightarrow> V_listening V \<Longrightarrow> accept_conn addr = CloseConn \<Longrightarrow> serve_step V V"
| trap: "V_loop V = Accepting \<Longrightarrow> V_listening V \<Longrightarrow> accept_conn addr = HandleTrap \<Longrightarrow>
    serve_step V (V\<lparr>V_wg := V_wg V + 1, V_traps := V_traps V @ [new_trap]\<rparr>)"
| accept: "V_loop V = Accepting \<Longrightarrow> V_listening V \<Longrightarrow> accept_conn addr = HandleConn \<Longrightarrow> Conn_ip m = map_option fst addr \<Longrightarrow>
    serve_step V (V\<lparr>V_wg := V_wg V + 1, V_running := V_running V @ [True],
      V_server := (V_server V)\<lparr>S_conns := S_conns (V_server V) @ [(m, new_pipe s)]\<rparr>\<rparr>)"
| conn: "i < length (S_conns (V_server V)) \<Longrightarrow> S_conns (V_server V) ! i = (m, P) \<Longrightarrow>
    conn_step m P (S_world (V_server V)) P' w' \<Longrightarrow>
    serve_step V (V\<lparr>V_server := (V_server V)\<lparr>S_world := w', S_conns := (S_conns (V_server V))[i := (m, P')]\<rparr>\<rparr>)"
| conn_end: "i < length (S_conns (V_server V)) \<Longrightarrow> V_running V ! i \<Longrightarrow> returned (snd (S_conns (V_server V) ! i)) \<Longrightarrow>
    serve_step V (V\<lparr>V_wg := V_wg V - 1, V_running := (V_running V)[i := False]\<rparr>)"
| trap_read: "i < length (V_traps V) \<Longrightarrow> V_traps V ! i = TrapReading R \<Longrightarrow> ctx_step R R' \<Longrightarrow>
    (R_done R' \<longrightarrow> V_cancelled V) \<Longrightarrow> serve_step V (V\<lparr>V_traps := (V_traps V)[i := TrapReading R']\<rparr>)"
| trap_end: "i < length (V_traps V) \<Longrightarrow> V_traps V ! i = TrapReading R \<Longrightarrow> R_ret R = Some ret \<Longrightarrow>
    serve_step V (V\<lparr>V_wg := V_wg V - 1, V_traps := (V_traps V)[i := TrapDone (trap_log_of ret)]\<rparr>)"
| background: "background_step (S_world (V_server V)) w' \<Longrightarrow>
    serve_step V (V\<lparr>V_server := (V_server V)\<lparr>S_world := w'\<rparr>\<rparr>)"
| drained: "V_loop V = Draining \<Longrightarrow> server_wg V = 0 \<Longrightarrow> serve_step V (V\<lparr>V_loop := Stopped\<rparr>)"

section \<open>The connections are those of the server\<close>

lemma serve_step_server: "serve_step V V' \<Longrightarrow> V_server V' = V_server V \<or> server_step (V_server V) (V_server V')"
proof (induction rule: serve_step.induct)
  case (accept V addr m s)
  then show ?case using server_step.accept by auto
next
  case (conn i V m P P' w')
  from server_step.conn [OF conn] show ?case by simp
next
  case (background V w')
  then show ?case using server_step.background by auto
qed simp_all

lemma served: "reach serve_start serve_step V \<Longrightarrow> reach server_start server_step (V_server V)"
proof (induction rule: reach.induct)
  case (reach_init V)
  then show ?case by (auto simp: serve_start_def intro: reach.reach_init)
next
  case (reach_step V V')
  then show ?case using serve_step_server [OF reach_step(2)] by (auto intro: reach.reach_step)
qed

section \<open>The wait group\<close>

fun trapped :: "trap \<Rightarrow> bool" where
  "trapped (TrapReading _) = True"
| "trapped (TrapDone _) = False"

definition goroutines :: "'fs Serving \<Rightarrow> nat" where
  "goroutines V = length (filter id (V_running V)) + length (filter trapped (V_traps V))"

definition serve_inv :: "'fs Serving \<Rightarrow> bool" where
  "serve_inv V \<longleftrightarrow> length (V_running V) = length (S_conns (V_server V)) \<and> V_wg V = goroutines V \<and>
     (\<forall>i < length (V_running V). \<not> V_running V ! i \<longrightarrow> returned (snd (S_conns (V_server V) ! i))) \<and>
     (V_loop V \<noteq> Accepting \<longrightarrow> V_cancelled V) \<and> (V_loop V = Stopped \<longrightarrow> server_wg V = 0) \<and>
     conns_inv (V_server V) \<and> wg_inv None (S_world (V_server V))"

lemma length_filter_update:
  "i < length xs \<Longrightarrow> P (xs ! i) \<Longrightarrow> \<not> P x \<Longrightarrow> Suc (length (filter P (xs[i := x]))) = length (filter P xs)"
proof (induction xs arbitrary: i)
  case (Cons y xs)
  then show ?case by (cases i) auto
qed simp

lemma length_filter_keep:
  "i < length xs \<Longrightarrow> P (xs ! i) = P x \<Longrightarrow> length (filter P (xs[i := x])) = length (filter P xs)"
proof (induction xs arbitrary: i)
  case (Cons y xs)
  then show ?case by (cases i) auto
qed simp

lemma returned_stays: "conn_step m P w P' w' \<Longrightarrow> returned P \<Longrightarrow> returned P'"
  by (auto simp: returned_def elim!: conn_step.cases receive_step.cases forward_step.cases mux_step.cases send_step.cases)

text \<open>A connection that has returned asks for no worker any more.\<close>

lemma returned_staff: "conn_step m P w P' w' \<Longrightarrow> closing P \<Longrightarrow> returned P \<Longrightarrow> staff w' = staff w"
  by (auto simp: returned_def closing_def elim!: conn_step.cases receive_step.cases forward_step.cases mux_step.cases send_step.cases)

lemma wg_parts:
  assumes "wg_inv None (S_world (V_server V))" and "server_wg V = 0"
  shows "V_wg V = 0" and "W_wg (S_world (V_server V)) = 0"
  using W_wg_nonneg [OF assms(1)] assms(2) by (simp_all add: server_wg_def)

lemma serving_ends:
  assumes "serve_inv V" and "server_wg V = 0"
  shows "(\<forall>(m, P) \<in> set (S_conns (V_server V)). returned P) \<and> (\<forall>t \<in> set (V_traps V). \<not> trapped t) \<and>
    (\<forall>v \<in> set (W_heap (S_world (V_server V))). Worker_discarded v \<and> Worker_pending v = 0 \<and> Worker_Files v = [])"
proof -
  have inv: "wg_inv None (S_world (V_server V))" using assms(1) by (simp add: serve_inv_def)
  note wg = wg_parts [OF inv assms(2)]
  have r: "\<not> V_running V ! i" if "i < length (V_running V)" for i
    using assms(1) wg nth_mem [OF that] by (auto simp: serve_inv_def goroutines_def filter_empty_conv)
  have "returned P" if P: "(m, P) \<in> set (S_conns (V_server V))" for m P
  proof -
    obtain i where "i < length (S_conns (V_server V))" "S_conns (V_server V) ! i = (m, P)"
      using P unfolding in_set_conv_nth by auto
    then show ?thesis using assms(1) r [of i] unfolding serve_inv_def by (metis snd_conv)
  qed
  then show ?thesis using assms(1) wg workers_gone [OF inv wg(2)] by (auto simp: serve_inv_def goroutines_def filter_empty_conv)
qed

text \<open>After the return, nothing is added to the wait group.\<close>

lemma conn_stays_drained:
  assumes i: "serve_inv V" and c: "i < length (S_conns (V_server V))" "S_conns (V_server V) ! i = (m, P)"
      "conn_step m P (S_world (V_server V)) P' w'" and z: "server_wg V = 0"
  shows "int (V_wg V) + W_wg w' = 0"
proof -
  have P: "(m, P) \<in> set (S_conns (V_server V))" using c(1,2) nth_mem by metis
  then have "closing P" "returned P" using i serving_ends [OF i z] by (auto simp: serve_inv_def conns_inv_def)
  from returned_staff [OF c(3) this] show ?thesis using z by (simp add: server_wg_def staff_def)
qed

lemma background_stays_drained:
  assumes "serve_inv V" and "background_step (S_world (V_server V)) w'" and "server_wg V = 0"
  shows "int (V_wg V) + W_wg w' = 0"
proof -
  have i: "wg_inv None (S_world (V_server V))" using assms(1) by (simp add: serve_inv_def)
  show ?thesis using wg_parts [OF i assms(3)] background_drained [OF i _ assms(2)] by simp
qed

lemma serve_step_kept:
  assumes "serve_step V V'" and "serve_inv V"
  shows "conns_inv (V_server V')" and "wg_inv None (S_world (V_server V'))"
  using serve_step_server [OF assms(1)] assms(2) conns.step [of "V_server V" "V_server V'"]
    counted.server_step_keeps [of "V_server V" "V_server V'"] by (auto simp: serve_inv_def)

lemma serve_inv_step:
  assumes step: "serve_step V V'" and i: "serve_inv V"
  shows "serve_inv V'"
  using step
proof cases
  case (conn j m P P' w')
  then show ?thesis
    using i returned_stays [OF conn(4)] conn_stays_drained [OF i conn(2-4)] serve_step_kept [OF step i]
    by (auto simp: serve_inv_def goroutines_def nth_list_update server_wg_def)
next
  case (conn_end j)
  then have "Suc (length (filter id ((V_running V)[j := False]))) = length (filter id (V_running V))"
    using i by (intro length_filter_update) (simp_all add: serve_inv_def)
  then show ?thesis
    using i conn_end serve_step_kept [OF step i] wg_parts(1) [of V]
    by (auto simp: serve_inv_def goroutines_def nth_list_update server_wg_def)
next
  case (trap_end j R ret)
  then have "Suc (length (filter trapped ((V_traps V)[j := TrapDone (trap_log_of ret)]))) = length (filter trapped (V_traps V))"
    by (intro length_filter_update) simp_all
  then show ?thesis
    using i trap_end serve_step_kept [OF step i] wg_parts(1) [of V] by (auto simp: serve_inv_def goroutines_def server_wg_def)
next
  case (trap_read j R R')
  then have "length (filter trapped ((V_traps V)[j := TrapReading R'])) = length (filter trapped (V_traps V))"
    by (intro length_filter_keep) simp_all
  then show ?thesis using i trap_read by (auto simp: serve_inv_def goroutines_def server_wg_def)
next
  case (accept addr m s)
  then show ?thesis
    using i serve_step_kept [OF step i] by (auto simp: serve_inv_def goroutines_def nth_append less_Suc_eq server_wg_def)
next
  case (background w')
  then show ?thesis
    using i serve_step_kept [OF step i] background_stays_drained [OF i background(2)]
    by (auto simp: serve_inv_def goroutines_def server_wg_def)
qed (use i in \<open>auto simp: serve_inv_def goroutines_def new_trap_def server_wg_def\<close>)

interpretation serve: transition_invariant serve_start serve_step serve_inv
proof unfold_locales
  fix V :: "'fs Serving" assume "serve_start V"
  then show "serve_inv V"
    by (simp add: serve_start_def serve_inv_def goroutines_def server_start_def conns_inv_def wg_inv_def server_wg_def wf_world_def wf_map_def)
qed (rule serve_inv_step)

section \<open>Shutting down\<close>














section \<open>A run\<close>

text \<open>A server that is shut down with one connection and one trap open.\<close>

abbreviation serving :: "bytes Serving \<Rightarrow> bool" where
  "serving \<equiv> reach serve_start serve_step"

definition demo_serving :: "bool \<Rightarrow> serve_loop \<Rightarrow> nat \<Rightarrow> bool \<Rightarrow> trap \<Rightarrow> Pipe \<Rightarrow> bytes Serving" where
  "demo_serving open l n b t P = \<lparr>V_server = \<lparr>S_world = demo_world, S_conns = [(demo_conn, P)]\<rparr>, V_cancelled = \<not> open,
     V_listening = open, V_loop = l, V_wg = n, V_running = [b], V_traps = [t]\<rparr>"

lemma serving_via: "serving V \<Longrightarrow> serve_step V V' \<Longrightarrow> V' = W \<Longrightarrow> serving W"
  by (blast intro: reach.reach_step)

lemma serving_conn: "serving (demo_serving c l n b t P) \<Longrightarrow> conn_step demo_conn P demo_world P' demo_world \<Longrightarrow> P' = Q \<Longrightarrow>
    serving (demo_serving c l n b t Q)"
  by (erule serving_via, rule serve_step.conn [of 0]) (simp_all add: demo_serving_def)

lemma serving_start: "serving (demo_serving True Accepting 2 True new_trap (new_pipe []))"
proof -
  have a: "accept_conn (Some (''10.0.0.1'', 700)) = HandleConn" "accept_conn (Some (''10.0.0.1'', 2000)) = HandleTrap"
    by (simp_all add: accept_conn_def)
  have "serving \<lparr>V_server = \<lparr>S_world = demo_world, S_conns = []\<rparr>, V_cancelled = False, V_listening = True, V_loop = Accepting,
      V_wg = 0, V_running = [], V_traps = []\<rparr>"
    by (rule reach.reach_init) (simp add: serve_start_def server_start_def server_wg_def demo_world_def demo_pool_def)
  then have "serving \<lparr>V_server = \<lparr>S_world = demo_world, S_conns = []\<rparr>, V_cancelled = False, V_listening = True, V_loop = Accepting,
      V_wg = 1, V_running = [], V_traps = [new_trap]\<rparr>"
    by (rule serving_via [OF _ serve_step.trap [OF _ _ a(2)]]) simp_all
  then show ?thesis
    by (rule serving_via [OF _ serve_step.accept [OF _ _ a(1), of _ demo_conn "[]"]]) (simp_all add: demo_serving_def demo_conn_def)
qed

lemma serving_cancelled: "serving (demo_serving False Accepting 2 True new_trap (new_pipe []))"
proof -
  let ?V = "demo_serving False Accepting 2 True new_trap (new_pipe [])"
  have "serving (?V\<lparr>V_listening := True\<rparr>)"
    by (rule serving_via [OF serving_start serve_step.cancel]) (simp_all add: demo_serving_def)
  then show ?thesis by (rule serving_via [OF _ serve_step.watch]) (simp_all add: demo_serving_def)
qed

definition ended_pipe :: Pipe where
  "ended_pipe = (new_pipe [])\<lparr>P_cancelled := True, P_forwarder := ForwarderDone, P_mux_done := True, P_sender := SenderDone\<rparr>"

lemma serving_ended: "serving (demo_serving False Draining 2 True new_trap ended_pipe)"
proof -
  let ?S = "\<lambda>P. serving (demo_serving False Draining 2 True new_trap P)" and ?P = "(new_pipe [])\<lparr>P_cancelled := True\<rparr>"
  have "?S (new_pipe [])" by (rule serving_via [OF serving_cancelled serve_step.stopped]) (simp_all add: demo_serving_def)
  then have "?S ?P" by (rule serving_conn [OF _ conn_step.cancel]) (simp_all add: new_pipe_def)
  then have "?S (?P\<lparr>P_forwarder := ForwarderDone\<rparr>)"
    by (rule serving_conn [OF _ conn_step.forward [OF forward_step.cancelled]]) (simp_all add: new_pipe_def)
  then have "?S (?P\<lparr>P_forwarder := ForwarderDone, P_mux_done := True\<rparr>)"
    by (rule serving_conn [OF _ conn_step.mux [OF mux_step.finish]]) (simp_all add: new_pipe_def)
  then have "?S (?P\<lparr>P_forwarder := ForwarderDone, P_mux_done := True, P_sender := Waiting\<rparr>)"
    by (rule serving_conn [OF _ conn_step.send [OF send_step.flush]]) (simp_all add: new_pipe_def)
  then show ?thesis
    by (rule serving_conn [OF _ conn_step.send [OF send_step.closed]]) (simp_all add: new_pipe_def ended_pipe_def)
qed

lemma serving_stopped: "serving (demo_serving False Stopped 0 False (TrapDone (LogError ctx_Err)) ended_pipe)"
proof -
  let ?S = "\<lambda>l n t. serving (demo_serving False l n False t ended_pipe)" and ?R = "(new_read (replicate 128 0))\<lparr>R_done := True\<rparr>"
  have "?S Draining 1 new_trap"
    by (rule serving_via [OF serving_ended serve_step.conn_end [of 0]]) (simp_all add: demo_serving_def ended_pipe_def returned_def)
  then have "?S Draining 1 (TrapReading ?R)"
    by (rule serving_via [OF _ serve_step.trap_read [of 0, OF _ _ ctx_step.ends]])
      (simp_all add: demo_serving_def new_trap_def, simp_all add: new_read_def)
  then have "?S Draining 1 (TrapReading (?R\<lparr>R_ret := Some (0, Some ctx_Err)\<rparr>))"
    by (rule serving_via [OF _ serve_step.trap_read [of 0, OF _ _ ctx_step.gives_up]])
      (simp_all add: demo_serving_def, simp add: new_read_def)
  then have "?S Draining 0 (TrapDone (LogError ctx_Err))"
    by (rule serving_via [OF _ serve_step.trap_end [of 0 _ "?R\<lparr>R_ret := Some (0, Some ctx_Err)\<rparr>" "(0, Some ctx_Err)"]])
      (simp_all add: demo_serving_def, simp_all add: ctx_Err_def)
  then show ?thesis
    by (rule serving_via [OF _ serve_step.drained]) (simp_all add: demo_serving_def server_wg_def demo_world_def)
qed

section \<open>Properties\<close>

text \<open>C7: \<^verbatim>\<open>Serve\<close> returns only after its context has ended, and then nothing is left: every \<^verbatim>\<open>HandleConn\<close> and every
  \<^verbatim>\<open>HandleTrap\<close> it has started has returned, and every worker is discarded and cleaned up, without open files. All that
  holds of the connections of a server and of their shared state holds of the connections it accepts.\<close>

theorem serve_drains:
  assumes "reach serve_start serve_step V"
  shows "reach server_start server_step (V_server V) \<and>
    (V_loop V = Stopped \<longrightarrow> V_cancelled V \<and> (\<forall>(m, P) \<in> set (S_conns (V_server V)). returned P) \<and>
      (\<forall>t \<in> set (V_traps V). \<not> trapped t) \<and>
      (\<forall>v \<in> set (W_heap (S_world (V_server V))). Worker_discarded v \<and> Worker_pending v = 0 \<and> Worker_Files v = []))"
  using served [OF assms] serve.holds [OF assms] serving_ends [of V] by (auto simp: serve_inv_def)

theorem serve_drains_witness:
  "\<exists>V :: bytes Serving. V_loop V = Stopped \<and> length (S_conns (V_server V)) = 1 \<and> length (V_traps V) = 1 \<and>
     (\<forall>(m, P) \<in> set (S_conns (V_server V)). returned P) \<and> (\<forall>t \<in> set (V_traps V). \<not> trapped t)"
  using serve_drains [OF serving_stopped] by (intro exI [of _ "demo_serving False Stopped 0 False (TrapDone (LogError ctx_Err)) ended_pipe"])
    (simp add: demo_serving_def)



end
