(* ===== verification/Failure.thy ===== *)
theory Failure
  imports OpRules
begin

text \<open>
  What an operation that fails leaves behind. Of the context of its compound (the current and the saved file handle, the session
  and its slot) it changes nothing, whichever operation it is and whyever it fails.
\<close>

definition unmoved :: "Compound \<Rightarrow> go_error + u32 \<Rightarrow> 'fs st \<Rightarrow> bool" where
  "unmoved x r st \<longleftrightarrow> (\<forall>s. r = Inr s \<longrightarrow> s = NFS4_OK \<or> st_x st = x)"

lemma st_x_simps [simp]:
  "st_x (environs fs cs p ds st) = st_x st" "st_x (upd_wk a h st) = st_x st" "st_x (st\<lparr>st_w := w\<rparr>) = st_x st"
  "st_x (cache_Invalidate a fh st) = st_x st" "st_x (upd_clients f st) = st_x st"
  by (simp_all add: environs_def upd_wk_def cache_Invalidate_def upd_clients_def)

interpretation ctx: operation_rules m "\<lambda>_ st. st_x st = x" "\<lambda>_. unmoved x" for m x
  by unfold_locales (auto simp: unmoved_def)

lemma open_register_unmoved:
  "st_x st = x \<Longrightarrow> results (unmoved x) (open_register m out a cur args client seq path flag f st)"
  by (rule ctx.open_register)
    (auto simp: results_def unmoved_def OperationResponse_def write_all_def split: option.splits prod.splits)

lemma Open_unmoved: "st_x st = x \<Longrightarrow> results (unmoved x) (Open m inb out st)"
  using ctx.Open_meets [of x m] open_register_unmoved [of _ x m] by (simp add: meets_def)

lemma Close_unmoved: "st_x st = x \<Longrightarrow> results (unmoved x) (Close m inb out st)"
  by (rule ctx.Close_results) (auto intro!: ctx.fs_call ctx.response split: option.split)

lemma Operation_unmoved: "results (unmoved (st_x st)) (Operation m inb out st)"
  unfolding Operation_def by (rule ctx.arg [OF refl]) (rule ctx.doOperation_results, simp_all add: Open_unmoved Close_unmoved)

section \<open>Properties\<close>

text \<open>C15: An operation that fails changes nothing of the context of its compound: the current and the saved file handle, the
  session and the slot are what they were. And, unless its status is one of the fatal ones, the compound goes on with the next
  operation in that context.\<close>

theorem failed_operation:
  assumes "Operation m inb out st = Inr (Inr s, st')" and "s \<noteq> NFS4_OK" and "lastStatus \<notin> set FatalStatuses"
  shows "st_x st' = st_x st \<and>
    run_ops m inb out (Suc k) n lastStatus st =
      (if s \<in> set FatalStatuses \<or> k = 0 then Inr (Inr (Suc n, s), st')
       else res_bind (Operation m inb out st') (\<lambda>s st. run_ops m inb out (k - 1) (n + 2) s st))"
proof
  show "st_x st' = st_x st" using Operation_unmoved [of st m inb out] assms(1,2) by (simp add: results_def unmoved_def)
  show "run_ops m inb out (Suc k) n lastStatus st =
      (if s \<in> set FatalStatuses \<or> k = 0 then Inr (Inr (Suc n, s), st')
       else res_bind (Operation m inb out st') (\<lambda>s st. run_ops m inb out (k - 1) (n + 2) s st))"
    using assms(1,3) by (cases k) (simp_all add: res_bind_def)
qed

text \<open>A \<^verbatim>\<open>GETFH\<close> before any file handle is set.\<close>

definition demo_failing :: "bytes st" where
  "demo_failing =
     \<lparr>st_x = new_Compound zero_Auth 0 ''t'' 2 demo_creds,
      st_w = demo_world
        \<lparr>W_pool := \<lparr>Pool_heap = (\<lambda>_. filled [])(1 := filled (put_u32 10 @ put_u32 10)), Pool_next = 3, Pool_bufs = []\<rparr>\<rparr>\<rparr>"

theorem failed_operation_witness:
  "\<exists>st'. Operation demo_conn 1 2 demo_failing = Inr (Inr NFS4ERR_NOFILEHANDLE, st') \<and> st_x st' = st_x demo_failing \<and>
     run_ops demo_conn 1 2 2 0 NFS4_OK demo_failing =
       res_bind (Operation demo_conn 1 2 st') (\<lambda>s st. run_ops demo_conn 1 2 0 2 s st)"
proof -
  have "(case Operation demo_conn 1 2 demo_failing of Inr (Inr s, st') \<Rightarrow> s = NFS4ERR_NOFILEHANDLE | _ \<Rightarrow> False)" by code_simp
  then obtain st' where o: "Operation demo_conn 1 2 demo_failing = Inr (Inr NFS4ERR_NOFILEHANDLE, st')"
    by (auto split: sum.splits)
  have f: "NFS4_OK \<notin> set FatalStatuses" "NFS4ERR_NOFILEHANDLE \<notin> set FatalStatuses" "NFS4ERR_NOFILEHANDLE \<noteq> NFS4_OK"
    by (simp_all add: FatalStatuses_def)
  show ?thesis
    using failed_operation [OF o f(3,1), of 1 0] f(2) by (intro exI [of _ st'] conjI o) (simp_all add: numeral_2_eq_2 del: run_ops.simps)
qed

end
