(* ===== verification/FileTable.thy ===== *)
theory FileTable
  imports OpRules
begin

text \<open>
  The open files of the server as an abstract table, and what each operation does to it. The table has a row per worker; the row
  an operation may change is that of the worker registered for its session and user.
\<close>

section \<open>The abstract table\<close>

type_synonym file_table = "nat \<Rightarrow> u64 \<Rightarrow> File option"

definition files_in :: "'fs World \<Rightarrow> file_table" where
  "files_in w b i = (if b < length (W_heap w) then GetFile i (W_heap w ! b) else None)"

definition table_of :: "'fs st \<Rightarrow> file_table" where
  "table_of st = files_in (st_w st)"

definition serves :: "'fs Conn \<Rightarrow> 'fs st \<Rightarrow> nat \<Rightarrow> bool" where
  "serves m st b \<longleftrightarrow>
     mget (W_workers (st_w st)) (worker_session m (x_SessionID (st_x st)), Creds_UID (x_Creds (st_x st))) = Some b"

text \<open>A file is entered under an unused number, and only if the row has no file for the same request of the same client; the
  file handle it is entered with is the current one from then on.\<close>

definition enters :: "u64 \<Rightarrow> File \<Rightarrow> nat \<Rightarrow> file_table \<Rightarrow> file_table \<Rightarrow> bool" where
  "enters i f b t t' \<longleftrightarrow> t b i = None \<and> t' = t(b := (t b)(i \<mapsto> f)) \<and>
     (\<forall>j g. t b j = Some g \<longrightarrow> File_Client g \<noteq> File_Client f \<or> File_ClientSeqID g \<noteq> File_ClientSeqID f)"

definition removes :: "u64 \<Rightarrow> nat \<Rightarrow> file_table \<Rightarrow> file_table \<Rightarrow> bool" where
  "removes i b t t' \<longleftrightarrow> t b i \<noteq> None \<and> t' = t(b := (t b)(i := None))"

text \<open>The number of the file a \<^verbatim>\<open>CLOSE\<close> names.\<close>

definition closing :: "nat \<Rightarrow> 'fs st \<Rightarrow> u64 option" where
  "closing inb st =
     (case on_buf (dec_CLOSE4args (content (buf_at inb st))) of
        Inl _ \<Rightarrow> None
      | Inr (args, _) \<Rightarrow> Some (FileID (StateId4_Other (CLOSE4args_OpenStateId args))))"

section \<open>What holds during and after an operation\<close>

text \<open>The worker that serves a call now either served it before or is a new one.\<close>

definition same_server :: "'fs Conn \<Rightarrow> 'fs st \<Rightarrow> 'fs st \<Rightarrow> bool" where
  "same_server m st0 st \<longleftrightarrow> wf_world (st_w st) \<and> same_call (st_x st0) (st_x st) \<and>
     length (W_heap (st_w st0)) \<le> length (W_heap (st_w st)) \<and>
     (\<forall>b. serves m st b \<longrightarrow> serves m st0 b \<or> length (W_heap (st_w st0)) \<le> b)"

definition during :: "'fs Conn \<Rightarrow> 'fs st \<Rightarrow> file_table \<Rightarrow> nat option \<Rightarrow> 'fs st \<Rightarrow> bool" where
  "during m st0 t u st \<longleftrightarrow> same_server m st0 st \<and> table_of st = t \<and> (\<forall>a. u = Some a \<longrightarrow> serves m st a)"

definition files_kept :: "'fs Conn \<Rightarrow> 'fs st \<Rightarrow> file_table \<Rightarrow> go_error + u32 \<Rightarrow> 'fs st \<Rightarrow> bool" where
  "files_kept m st0 t r st \<longleftrightarrow> same_server m st0 st \<and> table_of st = t"

definition file_opened :: "'fs Conn \<Rightarrow> 'fs st \<Rightarrow> file_table \<Rightarrow> go_error + u32 \<Rightarrow> 'fs st \<Rightarrow> bool" where
  "file_opened m st0 t r st \<longleftrightarrow> same_server m st0 st \<and> (table_of st = t \<or>
     (\<exists>i f b h. enters i f b t (table_of st) \<and> serves m st b \<and> x_CurrentHandle (st_x st) = Some h \<and>
        FileHandle_Handle h = File_Handle f \<and> (\<forall>s. r = Inr s \<longrightarrow> s = NFS4_OK)))"

definition file_closed :: "'fs Conn \<Rightarrow> 'fs st \<Rightarrow> u64 option \<Rightarrow> file_table \<Rightarrow> go_error + u32 \<Rightarrow> 'fs st \<Rightarrow> bool" where
  "file_closed m st0 c t r st \<longleftrightarrow> same_server m st0 st \<and> (table_of st = t \<or>
     (\<exists>i b. c = Some i \<and> removes i b t (table_of st) \<and> serves m st b))"

lemma same_server_eq:
  "same_server m st0 (environs fs cs p ds st) = same_server m st0 st" "same_server m st0 (upd_wk a f st) = same_server m st0 st"
  "same_call (st_x st) x \<Longrightarrow> same_server m st0 st \<Longrightarrow> same_server m st0 (st\<lparr>st_x := x\<rparr>)"
  by (auto simp: same_server_def serves_def wf_world_def upd_wk_simps same_call_def)

lemma serves_eq:
  "serves m (environs fs cs p ds st) = serves m st" "serves m (upd_wk a f st) = serves m st"
  "same_call (st_x st) x \<Longrightarrow> serves m (st\<lparr>st_x := x\<rparr>) = serves m st"
  by (auto simp: serves_def upd_wk_simps same_call_def fun_eq_iff)

lemma table_of_upd:
  "table_of (upd_wk a f st) =
     (if a < length (W_heap (st_w st)) then (table_of st)(a := \<lambda>i. GetFile i (f (wk a st))) else table_of st)"
  by (auto simp: table_of_def files_in_def upd_wk_simps fun_eq_iff)

lemma table_of_eq:
  "table_of (environs fs cs p ds st) = table_of st" "table_of (st\<lparr>st_x := x\<rparr>) = table_of st"
  "Worker_Files (f (wk a st)) = Worker_Files (wk a st) \<Longrightarrow> table_of (upd_wk a f st) = table_of st"
proof -
  assume "Worker_Files (f (wk a st)) = Worker_Files (wk a st)"
  then show "table_of (upd_wk a f st) = table_of st"
    unfolding table_of_upd by (auto simp: fun_eq_iff table_of_def files_in_def GetFile_def wk_def)
qed (simp_all add: table_of_def files_in_def fun_eq_iff)

lemma Worker_Close_files [simp]: "Worker_Files (Worker_Close w) = Worker_Files w" 
  by (simp add: Worker_Close_def Let_def)

text \<open>A call gets its registered worker or a new one, without files.\<close>

lemma new_worker_server:
  assumes "wf_world (st_w st)" and "new_worker m (x_Creds (st_x st)) (worker_session m (x_SessionID (st_x st))) (st_w st) = Inr (a, w)"
  shows "same_server m st (st\<lparr>st_w := w\<rparr>) \<and> table_of (st\<lparr>st_w := w\<rparr>) = table_of st \<and> serves m (st\<lparr>st_w := w\<rparr>) a"
  using new_worker_spec [OF assms]
  by (auto simp: same_server_def serves_def table_of_def files_in_def GetFile_def fun_eq_iff less_Suc_eq)

lemma GetWorker_server:
  assumes "wf_world (st_w st)" and g: "GetWorker m (x_Creds (st_x st)) (x_SessionID (st_x st)) (st_w st) = Inr (a, w)"
  shows "same_server m st (st\<lparr>st_w := w\<rparr>) \<and> table_of (st\<lparr>st_w := w\<rparr>) = table_of st \<and> serves m (st\<lparr>st_w := w\<rparr>) a"
proof -
  let ?key = "(worker_session m (x_SessionID (st_x st)), Creds_UID (x_Creds (st_x st)))"
  consider (new) "new_worker m (x_Creds (st_x st)) (fst ?key) (st_w st) = Inr (a, w)"
    | (changed) b where "new_worker m (x_Creds (st_x st)) (fst ?key) (st_w (upd_wk b Worker_Discard st)) = Inr (a, w)"
    | (found) wk' where "mget (W_workers (st_w st)) ?key = Some a" "w = upd_worker a (\<lambda>_. wk') (st_w st)"
        "Worker_Use (W_now (st_w st)) (wk a st) = (None, wk')"
    using g by (auto simp: GetWorker_def Let_def upd_wk_def wk_def split: option.splits if_splits prod.splits)
  then show ?thesis
  proof cases
    case new
    then show ?thesis by (intro new_worker_server assms(1)) simp
  next
    case (changed b)
    have wf: "wf_world (st_w (upd_wk b Worker_Discard st))" using assms(1) by (simp add: wf_world_def upd_wk_simps)
    have eq: "(upd_wk b Worker_Discard st)\<lparr>st_w := w\<rparr> = st\<lparr>st_w := w\<rparr>" by (simp add: upd_wk_def)
    show ?thesis
      using new_worker_server [OF wf, of m a w, unfolded eq] changed
      by (auto simp: upd_wk_simps same_server_def serves_def table_of_eq Worker_Discard_def Let_def)
  next
    case found
    then have "Worker_Files wk' = Worker_Files (wk a st)" by (auto simp: Worker_Use_def split: if_splits)
    then have "table_of (upd_wk a (\<lambda>_. wk') st) = table_of st" by (simp add: table_of_eq)
    then show ?thesis
      using assms(1) found(1,2) by (auto simp: upd_wk_def same_server_def serves_def wf_world_def upd_worker_def)
  qed
qed

lemma same_server_trans: "same_server m st1 st2 \<Longrightarrow> same_server m st2 st3 \<Longrightarrow> same_server m st1 st3"
  unfolding same_server_def same_call_def by (metis le_trans)

lemma during_GetWorker:
  assumes "during m st0 t None st" and "GetWorker m (x_Creds (st_x st)) (x_SessionID (st_x st)) (st_w st) = Inr (a, w)"
  shows "during m st0 t (Some a) (st\<lparr>st_w := w\<rparr>)"
  using GetWorker_server [OF _ assms(2)] assms(1) same_server_trans [of m st0 st "st\<lparr>st_w := w\<rparr>"]
  by (simp add: during_def same_server_def)

lemma during_moves:
  "during m st0 t u st \<Longrightarrow> during m st0 t u (environs fs cs p ds st)"
  "during m st0 t u st \<Longrightarrow> Worker_Files (f (wk a st)) = Worker_Files (wk a st) \<Longrightarrow> during m st0 t u (upd_wk a f st)"
  by (simp_all add: during_def same_server_eq serves_eq table_of_eq)

lemma during_Discard: "during m st0 t u st \<Longrightarrow> during m st0 t u (upd_wk a Worker_Discard st)"
  by (erule during_moves(2)) (simp add: Worker_Discard_def Let_def)

lemmas during_rules = during_moves during_Discard during_GetWorker

interpretation unch: operation_rules m "during m st0 t" "\<lambda>_. files_kept m st0 t" for m st0 t
  by unfold_locales (rule during_rules, assumption+ | simp add: files_kept_def during_def same_server_eq table_of_eq)+

interpretation opn: operation_rules m "during m st0 t" "\<lambda>_. file_opened m st0 t" for m st0 t
  by unfold_locales
    (rule during_rules, assumption+ | auto simp: file_opened_def during_def same_server_eq table_of_eq serves_eq upd_wk_simps)+

interpretation cls: operation_rules m "during m st0 t" "\<lambda>_. file_closed m st0 c t" for m st0 c t
  by unfold_locales
    (rule during_rules, assumption+ | auto simp: file_closed_def during_def same_server_eq table_of_eq serves_eq)+

section \<open>OPEN and CLOSE\<close>

lemma table_of_None: "GetFileByClientSeqID c q (wk a st) = None \<Longrightarrow> table_of st a j = Some g \<Longrightarrow> File_Client g \<noteq> c \<or> File_ClientSeqID g \<noteq> q"
proof -
  have "find_seqid c q fs = None \<Longrightarrow> mget fs j = Some g \<Longrightarrow> File_Client g \<noteq> c \<or> File_ClientSeqID g \<noteq> q" for fs
    by (induction fs rule: find_seqid.induct) (auto split: if_splits)
  then show "GetFileByClientSeqID c q (wk a st) = None \<Longrightarrow> table_of st a j = Some g \<Longrightarrow> ?thesis"
    by (auto simp: table_of_def files_in_def GetFileByClientSeqID_def GetFile_def wk_def split: if_splits)
qed

lemma serves_bound: "during m st0 t (Some a) st \<Longrightarrow> a < length (W_heap (st_w st))"
  by (auto simp: during_def same_server_def serves_def wf_world_def)

lemma AddFile_enters:
  assumes d: "during m st0 t (Some a) st" and new: "\<And>j g. t a j = Some g \<Longrightarrow> File_Client g \<noteq> File_Client f \<or> File_ClientSeqID g \<noteq> File_ClientSeqID f"
    and add: "AddFile f (wk a st) cs ds = Inr (i, w', cs', ds')"
  shows "enters i f a t (table_of (upd_wk a (\<lambda>_. w') st))"
proof -
  have i: "mget (Worker_Files (wk a st)) i = None" "w' = (wk a st)\<lparr>Worker_Files := mput i f (Worker_Files (wk a st))\<rparr>"
    using add by (auto simp: AddFile_def go_bind_eq_Inr dest: fresh_id_unused)
  have t: "t = table_of st" using d by (simp add: during_def)
  show ?thesis
    using i serves_bound [OF d] new unfolding enters_def t
    by (auto simp: table_of_upd fun_eq_iff GetFile_def) (auto simp: table_of_def files_in_def GetFile_def wk_def)
qed

lemma RemoveFile_removes:
  assumes d: "during m st0 t (Some a) st" and "RemoveFile i (wk a st) cs = (Some f, w', cs')"
  shows "removes i a t (table_of (upd_wk a (\<lambda>_. w') st))"
proof -
  have i: "mget (Worker_Files (wk a st)) i = Some f" "Worker_Files w' = mdel i (Worker_Files (wk a st))"
    using assms(2) by (auto simp: RemoveFile_def split: option.splits)
  have t: "t = table_of st" using d by (simp add: during_def)
  show ?thesis
    using i serves_bound [OF d] unfolding removes_def t
    by (auto simp: table_of_upd fun_eq_iff GetFile_def) (auto simp: table_of_def files_in_def GetFile_def wk_def)
qed

lemma wk_environs [simp]: "wk a (environs fs cs p ds st) = wk a st"
  by (simp add: wk_def)

lemma file_opened_enters:
  assumes "during m st0 t (Some a) st" and "enters i f a t (table_of (upd_wk a (\<lambda>_. w') st))"
  shows "results (file_opened m st0 t)
    (OperationResponse out op NFS4_OK d (set_CurrentHandle (File_Handle f) path (upd_wk a (\<lambda>_. w') st)))"
proof -
  let ?x = "(st_x st)\<lparr>x_CurrentHandle := Some \<lparr>FileHandle_Handle = File_Handle f, FileHandle_Path = path\<rparr>\<rparr>"
  have "same_server m st0 (upd_wk a (\<lambda>_. w') st)" "serves m (upd_wk a (\<lambda>_. w') st) a"
    using assms(1) by (simp_all add: during_def same_server_eq serves_eq)
  then have "file_opened m st0 t r (environs fs cs p ds (set_CurrentHandle (File_Handle f) path (upd_wk a (\<lambda>_. w') st)))"
    if "\<forall>s. r = Inr s \<longrightarrow> s = NFS4_OK" for r fs cs p ds
    using assms(2) that same_server_eq(3) [of "upd_wk a (\<lambda>_. w') st" ?x m st0] serves_eq(3) [of "upd_wk a (\<lambda>_. w') st" ?x m]
    unfolding file_opened_def set_CurrentHandle_def
    by (auto simp: same_server_eq serves_eq table_of_eq upd_wk_simps same_call_def)
  then show ?thesis
    by (auto simp: results_def OperationResponse_def write_all_def environs_eq split: prod.splits option.splits)
qed

lemma open_register_opens:
  fixes st0 :: "'fs st"
  assumes "GetFileByClientSeqID client seq (wk a st) = None" and "during m st0 t (Some a) st" and "during m st0 t (Some a) st'"
  shows "results (file_opened m st0 t) (open_register m out a cur args client seq path flag f st')"
proof (rule opn.open_register [OF assms(3)])
  fix h i w' cs' ds' and st :: "'fs st"
  let ?f = "\<lparr>File_File = f, File_Handle = h, File_Client = client, File_ClientSeqID = seq\<rparr>"
  let ?st = "environs (W_fs (st_w st)) cs' (W_pool (st_w st)) ds' st"
  assume d: "during m st0 t (Some a) st" and add: "AddFile ?f (wk a st) (W_clients (st_w st)) (W_draws (st_w st)) = Inr (i, w', cs', ds')"
  have d': "during m st0 t (Some a) ?st" using d by (rule during_moves)
  have new: "t a j = Some g \<Longrightarrow> File_Client g \<noteq> client \<or> File_ClientSeqID g \<noteq> seq" for j g
    using table_of_None [OF assms(1)] assms(2) by (simp add: during_def)
  have "enters i ?f a t (table_of (upd_wk a (\<lambda>_. w') ?st))"
    by (rule AddFile_enters [OF d']) (use new add in simp_all)
  from file_opened_enters [OF d' this] show "results (file_opened m st0 t)
      (OperationResponse out OP4_OPEN NFS4_OK [enc_OPEN4resok (open_resok i seq 0)]
        (set_CurrentHandle h path (upd_wk a (\<lambda>_. w') (st\<lparr>st_w := (st_w st)\<lparr>W_clients := cs', W_draws := ds'\<rparr>\<rparr>))))"
    by (simp add: environs_eq)
qed

lemma Open_opens: "meets (during m st0 t None) (file_opened m st0 t) (Open m)"
  by (rule opn.Open_meets) (rule open_register_opens)

lemma response_during: "during m st0 t u st \<Longrightarrow> results (\<lambda>_. during m st0 t u) (OperationResponse out op s d st)"
  by (auto simp: results_def OperationResponse_def write_all_def environs_eq during_moves split: prod.splits)

lemma Close_closes:
  fixes st0 :: "'fs st"
  assumes "during m st0 t None st"
  shows "results (file_closed m st0 (closing inb st) t) (Close m inb out st)"
proof (rule cls.Close_results [OF assms])
  fix args rest a f w' cs' and st' :: "'fs st"
  let ?i = "FileID (StateId4_Other (CLOSE4args_OpenStateId (args :: CLOSE4args)))"
  let ?t = "table_of (upd_wk a (\<lambda>_. w') (upd_clients (\<lambda>_. cs') st'))"
  assume c: "on_buf (dec_CLOSE4args (content (buf_at inb st))) = Inr (args, rest)" and d: "during m st0 t (Some a) st'"
    and r: "RemoveFile ?i (wk a st') (W_clients (st_w st')) = (Some f, w', cs')"
  have d1: "during m st0 t (Some a) (upd_clients (\<lambda>_. cs') st')" using d by (simp add: environs_eq during_moves)
  have "removes ?i a t ?t"
    by (rule RemoveFile_removes [OF d1, of _ "W_clients (st_w st')" f w' cs']) (use r in \<open>simp add: environs_eq\<close>)
  moreover have "during m st0 ?t (Some a) (cache_Invalidate a (File_Handle f) (upd_wk a (\<lambda>_. w') (upd_clients (\<lambda>_. cs') st')))"
    using d1 by (intro unch.I_cache) (simp add: during_def same_server_eq serves_eq)
  ultimately have *: "results (file_closed m st0 (closing inb st) t) (OperationResponse out op s d (environs fs cs p ds
      (cache_Invalidate a (File_Handle f) (upd_wk a (\<lambda>_. w') (upd_clients (\<lambda>_. cs') st')))))" for op s d fs cs p ds
    by (intro results_mono [OF response_during [where u = "Some a", OF during_moves(1)]]) (auto simp: file_closed_def during_def closing_def c)
  show "results (file_closed m st0 (closing inb st) t) (fs_call (OpenFile_Close (Conn_V m) (File_File f)) (\<lambda>err st.
      case err of Some e \<Rightarrow> OperationResponse out OP4_CLOSE (Err2Status (Some e)) [] st
        | None \<Rightarrow> OperationResponse out OP4_CLOSE NFS4_OK [closed_resok (StateId4_Other (CLOSE4args_OpenStateId args))] st)
          (cache_Invalidate a (File_Handle f) (upd_wk a (\<lambda>_. w') (upd_clients (\<lambda>_. cs') st'))))"
    by (auto simp: fs_call_def environs_eq(3) intro: * split: prod.split option.split)
qed

section \<open>Properties\<close>

definition file_step :: "'fs Conn \<Rightarrow> nat \<Rightarrow> u32 \<Rightarrow> 'fs st \<Rightarrow> go_error + u32 \<Rightarrow> 'fs st \<Rightarrow> bool" where
  "file_step m inb op st r st' \<longleftrightarrow>
     (if op = OP4_OPEN then file_opened m st (table_of st) r st'
      else if op = OP4_CLOSE then file_closed m st (closing inb st) (table_of st) r st'
      else files_kept m st (table_of st) r st')"

lemma doOperation_files:
  assumes "wf_world (st_w st)"
  shows "results (file_step m inb op st) (doOperation m inb out op st)"
proof -
  have d: "during m st (table_of st) None st" using assms by (simp add: during_def same_server_def)
  consider "op = OP4_OPEN" | "op = OP4_CLOSE" | "op \<noteq> OP4_OPEN" "op \<noteq> OP4_CLOSE" by blast
  then show ?thesis
  proof cases
    case 1
    then have "results (file_opened m st (table_of st)) (doOperation m inb out op st)"
      using Open_opens [of m st "table_of st"] d by (intro opn.doOperation_results [OF d]) (simp_all add: meets_def)
    then show ?thesis by (rule results_mono) (simp add: file_step_def 1)
  next
    case 2
    then have "results (file_closed m st (closing inb st) (table_of st)) (doOperation m inb out op st)"
      using Close_closes [OF d] by (intro cls.doOperation_results [OF d]) simp_all
    then show ?thesis by (rule results_mono) (simp add: file_step_def 2)
  next
    case 3
    then have "results (files_kept m st (table_of st)) (doOperation m inb out op st)"
      by (intro unch.doOperation_results [OF d]) simp_all
    then show ?thesis by (rule results_mono) (simp add: file_step_def 3)
  qed
qed

lemma doOperation_others:
  assumes "wf_world (st_w st)" and "doOperation m inb out op st = Inr (r, st')"
  shows "same_server m st st' \<and> (\<forall>b < length (W_heap (st_w st)). serves m st b \<or> table_of st' b = table_of st b)"
proof -
  have "file_step m inb op st r st'" using doOperation_files [OF assms(1)] assms(2) by (simp add: results_def)
  then show ?thesis
    by (auto simp: file_step_def file_opened_def file_closed_def files_kept_def enters_def removes_def same_server_def
        split: if_splits)
qed

lemma Operation_others:
  assumes "wf_world (st_w st)" and "Operation m inb out st = Inr (r, st')"
  shows "same_server m st st' \<and> (\<forall>b < length (W_heap (st_w st)). serves m st b \<or> table_of st' b = table_of st b)"
proof -
  consider "st' = st" | op fs cs p ds where "doOperation m inb out op (environs fs cs p ds st) = Inr (r, st')"
    using assms(2) by (auto simp: Operation_def arg_def environs_eq split: sum.splits stop.splits prod.splits)
  then show ?thesis
  proof cases
    case 1
    then show ?thesis using assms(1) by (simp add: same_server_def)
  next
    case 2
    have "wf_world (st_w (environs fs cs p ds st))" using assms(1) by (simp add: wf_world_def)
    from doOperation_others [OF this 2] show ?thesis by (simp add: same_server_def serves_eq table_of_eq)
  qed
qed

lemma run_ops_others:
  assumes "wf_world (st_w st)" and "run_ops m inb out k n s st = Inr (r, st')"
  shows "same_server m st st' \<and> (\<forall>b < length (W_heap (st_w st)). serves m st b \<or> table_of st' b = table_of st b)"
  using assms
proof (induction k arbitrary: n s st)
  case 0
  then show ?case by (auto simp: same_server_def)
next
  case (Suc k)
  show ?case
  proof (cases "s \<in> set FatalStatuses")
    case True
    then show ?thesis using Suc.prems by (auto simp: same_server_def)
  next
    case False
    then obtain r1 st1 where o: "Operation m inb out st = Inr (r1, st1)" and
      c: "(case r1 of Inl e \<Rightarrow> Inr (Inl e, st1) | Inr s \<Rightarrow> run_ops m inb out k (Suc n) s st1) = Inr (r, st')"
      using Suc.prems(2) by (auto simp: res_bind_def go_bind_eq_Inr)
    have one: "same_server m st st1" "\<forall>b < length (W_heap (st_w st)). serves m st b \<or> table_of st1 b = table_of st b"
      using Operation_others [OF Suc.prems(1) o] by blast+
    show ?thesis
    proof (cases r1)
      case (Inl e)
      then show ?thesis using c one by simp
    next
      case (Inr s1)
      then have two: "same_server m st1 st'" "\<forall>b < length (W_heap (st_w st1)). serves m st1 b \<or> table_of st' b = table_of st1 b"
        using Suc.IH [of st1 "Suc n" s1] c one(1) by (auto simp: same_server_def)
      show ?thesis
      proof (intro conjI allI impI)
        show "same_server m st st'" by (rule same_server_trans [OF one(1) two(1)])
        fix b assume b: "b < length (W_heap (st_w st))"
        then have "b < length (W_heap (st_w st1))" "serves m st1 b \<Longrightarrow> serves m st b" using one(1) by (force simp: same_server_def)+
        then show "serves m st b \<or> table_of st' b = table_of st b" using one(2) two(2) b by metis
      qed
    qed
  qed
qed

text \<open>C12: Every operation implements its step on the table of open files. \<^verbatim>\<open>OPEN\<close> leaves it as it is or enters one file, under
  an unused number, in the row of the worker of its session and user, and only if that row has no file for the same request of
  the same client; the file handle of that file is then the current one. \<^verbatim>\<open>CLOSE\<close> leaves the table as it is or removes the file
  its state identifier names from that row. All other operations leave it as it is, whatever the file system does and whether they
  succeed or fail.\<close>

theorem operation_files:
  assumes "wf_world (st_w st)" and "doOperation m inb out op st = Inr (r, st')"
  shows "file_step m inb op st r st'"
  using doOperation_files [OF assms(1)] assms(2) by (simp add: results_def)

text \<open>C11: A compound never touches the open files of other sessions or users: the row of every worker but the one registered
  for its session and user when it starts is the same when its operations have been executed, however many they are and wherever
  they stop.\<close>

theorem compound_files_isolated:
  assumes "wf_world (st_w st)" and "run_ops m inb out k n s st = Inr (r, st')"
    and "b < length (W_heap (st_w st))" and "\<not> serves m st b"
  shows "table_of st' b = table_of st b"
  using run_ops_others [OF assms(1,2)] assms(3,4) by blast

text \<open>Two sessions of user 1000, each with a file 9 open; the first one sends a \<^verbatim>\<open>CLOSE\<close>.\<close>

definition demo_closing :: "bytes \<Rightarrow> bytes st" where
  "demo_closing code =
     \<lparr>st_x = (new_Compound zero_Auth 1 ''t'' 1 demo_creds)\<lparr>x_SessionID := replicate 16 2,
        x_CurrentHandle := Some \<lparr>FileHandle_Handle = [1], FileHandle_Path = ''/f''\<rparr>\<rparr>,
      st_w = demo_world\<lparr>W_clients := [(7, demo_client\<lparr>Client_busy := 2\<rparr>)],
        W_heap := [demo_worker\<lparr>Worker_Files := [(9, demo_file)]\<rparr>, demo_worker\<lparr>Worker_Files := [(9, demo_file)]\<rparr>],
        W_workers := [((replicate 16 2, 1000), 0), ((replicate 16 3, 1000), 1)],
        W_pool := \<lparr>Pool_heap = (\<lambda>_. filled [])(1 := filled (code @ concat (map put_u32 [1, 1, 0, 9, 2]))),
                   Pool_next = 3, Pool_bufs = []\<rparr>\<rparr>\<rparr>"

lemma demo_closing_wf: "wf_world (st_w (demo_closing code))"
  by (simp add: demo_closing_def demo_world_def wf_world_def wf_map_def)

theorem operation_files_witness:
  "\<exists>r st'. doOperation demo_conn 1 2 OP4_CLOSE (demo_closing []) = Inr (r, st') \<and>
     file_step demo_conn 1 OP4_CLOSE (demo_closing []) r st' \<and> table_of st' 0 9 = None \<and>
     table_of (demo_closing []) 0 9 = Some demo_file"
proof -
  have "(case doOperation demo_conn 1 2 OP4_CLOSE (demo_closing []) of Inr (r, st') \<Rightarrow> table_of st' 0 9 = None | _ \<Rightarrow> False)"
    by code_simp
  then obtain r st' where "doOperation demo_conn 1 2 OP4_CLOSE (demo_closing []) = Inr (r, st')" "table_of st' 0 9 = None"
    by (auto split: sum.splits)
  moreover have "table_of (demo_closing []) 0 9 = Some demo_file" by code_simp
  ultimately show ?thesis using operation_files [OF demo_closing_wf] by blast
qed

theorem compound_files_isolated_witness:
  "\<exists>r st'. run_ops demo_conn 1 2 1 0 NFS4_OK (demo_closing (put_u32 OP4_CLOSE)) = Inr (r, st') \<and> table_of st' 0 9 = None \<and>
     table_of st' 1 = table_of (demo_closing (put_u32 OP4_CLOSE)) 1 \<and> table_of st' 1 9 = Some demo_file"
proof -
  let ?st = "demo_closing (put_u32 OP4_CLOSE)"
  have "(case run_ops demo_conn 1 2 1 0 NFS4_OK ?st of Inr (r, st') \<Rightarrow> table_of st' 0 9 = None | _ \<Rightarrow> False)" by code_simp
  then obtain r st' where r: "run_ops demo_conn 1 2 1 0 NFS4_OK ?st = Inr (r, st')" "table_of st' 0 9 = None"
    by (auto split: sum.splits)
  have f: "table_of ?st 1 9 = Some demo_file" "1 < length (W_heap (st_w ?st))" "\<not> serves demo_conn ?st 1" by code_simp+
  show ?thesis using compound_files_isolated [OF demo_closing_wf r(1) f(2,3)] r f(1) by (intro exI [of _ r] exI [of _ st']) simp
qed

end
