(* ===== verification/DataPath.thy ===== *)
theory DataPath
  imports FileTable System
begin

text \<open>
  What the operations on the current file answer. \<^verbatim>\<open>READ\<close> and \<^verbatim>\<open>WRITE\<close> use the file their state identifier names in the table of open files, if it
  is the current file, and nothing else; the reply holds what the file returned. \<^verbatim>\<open>ACCESS\<close> grants what its mode
  allows.
\<close>

section \<open>The worker of a call\<close>

text \<open>\<^verbatim>\<open>GetWorker\<close> does not look at the buffers.\<close>

lemma new_worker_pool:
  "new_worker m creds sid (w\<lparr>W_pool := p\<rparr>) = go_bind (new_worker m creds sid w) (\<lambda>(a, w'). Inr (a, w'\<lparr>W_pool := p\<rparr>))"
  by (cases w) (simp add: new_worker_def go_bind_assoc case_prod_unfold split: prod.split)

lemma GetWorker_pool:
  "GetWorker m creds sid (w\<lparr>W_pool := p\<rparr>) = go_bind (GetWorker m creds sid w) (\<lambda>(a, w'). Inr (a, w'\<lparr>W_pool := p\<rparr>))"
proof -
  have "upd_worker b f (w\<lparr>W_pool := p\<rparr>) = (upd_worker b f w)\<lparr>W_pool := p\<rparr>" for b f by (simp add: upd_worker_def)
  then show ?thesis by (simp add: GetWorker_def Let_def new_worker_pool split: option.split prod.split)
qed

text \<open>The call gets the worker \<open>a\<close>; getting it leaves the state \<open>w\<close>.\<close>

definition gets_worker :: "'fs Conn \<Rightarrow> 'fs st \<Rightarrow> nat \<Rightarrow> 'fs World \<Rightarrow> bool" where
  "gets_worker m st a w \<longleftrightarrow> GetWorker m (x_Creds (st_x st)) (x_SessionID (st_x st)) (st_w st) = Inr (a, w)"

lemma with_FS_gets:
  assumes "gets_worker m st a w" and "wf_world (st_w st)"
  shows "with_FS m k (upd_pool g st) =
    go_bind (k a (upd_pool g (st\<lparr>st_w := w\<rparr>))) (\<lambda>(r, st'). Inr (r, upd_wk a Worker_Close st'))"
proof -
  have "W_pool w = W_pool (st_w st)" using GetWorker_spec [OF assms(2)] assms(1) by (auto simp: gets_worker_def)
  then show ?thesis using assms(1) by (simp add: with_FS_def upd_pool_def GetWorker_pool gets_worker_def)
qed

text \<open>The file a state identifier stands for: the one the table has, if its handle is the current one.\<close>

definition named_file :: "'fs st \<Rightarrow> nat \<Rightarrow> FileHandle \<Rightarrow> StateId4 \<Rightarrow> File option" where
  "named_file st a h sid =
     (case table_of st a (FileID (StateId4_Other sid)) of
        None \<Rightarrow> None
      | Some f \<Rightarrow> if File_Handle f = FileHandle_Handle h then Some f else None)"

lemma gets_worker_kept:
  assumes "gets_worker m st a w" and "wf_world (st_w st)"
  shows "W_pool w = W_pool (st_w st)" "W_now w = W_now (st_w st)" "buf_at b (st\<lparr>st_w := w\<rparr>) = buf_at b st"
    "current_file a h sid (upd_pool g (st\<lparr>st_w := w\<rparr>)) = named_file st a h sid"
proof -
  have g: "GetWorker m (x_Creds (st_x st)) (x_SessionID (st_x st)) (st_w st) = Inr (a, w)"
    using assms(1) by (simp add: gets_worker_def)
  note spec = GetWorker_spec [OF assms(2) g] and srv = GetWorker_server [OF assms(2) g]
  show "W_pool w = W_pool (st_w st)" "W_now w = W_now (st_w st)" "buf_at b (st\<lparr>st_w := w\<rparr>) = buf_at b st"
    using spec by (simp_all add: buf_at_def)
  have "table_of st a = table_of (st\<lparr>st_w := w\<rparr>) a" using srv by simp
  then show "current_file a h sid (upd_pool g (st\<lparr>st_w := w\<rparr>)) = named_file st a h sid"
    using spec by (auto simp: named_file_def current_file_def table_of_def files_in_def upd_pool_def wk_def GetFile_def
        split: option.splits)
qed

section \<open>The reply\<close>

definition adds_response :: "nat \<Rightarrow> u32 \<Rightarrow> u32 \<Rightarrow> bytes \<Rightarrow> 'fs st \<Rightarrow> 'fs st \<Rightarrow> bool" where
  "adds_response out op s d st st' \<longleftrightarrow> content (buf_at out st') = content (buf_at out st) @ put_u32 op @ put_u32 s @ d"

lemma response_eq:
  "snd (EncodeAll d) = None \<Longrightarrow> OperationResponse out op s d st =
     Inr (Inr s, upd_pool (Pool_update out (Buf_Write (put_u32 op @ put_u32 s @ fst (EncodeAll d)))) st)"
  by (simp add: OperationResponse_def write_all_def EncodeAll_two)

lemma buf_at_pool [simp]:
  "buf_at b (upd_pool (Pool_update a f) st) = (if b = a then f (buf_at a st) else buf_at b st)"
  "b \<noteq> a \<Longrightarrow> buf_at b (upd_pool (Pool_Put a) st) = buf_at b st"
  by (simp_all add: buf_at_def upd_pool_def Pool_update_def Pool_Put_def)

lemma W_fs_simps [simp]:
  "W_fs (st_w (upd_pool f st)) = W_fs (st_w st)" "W_fs (st_w (upd_wk a g st)) = W_fs (st_w st)"
  "W_fs (st_w (cache_Invalidate a h st)) = W_fs (st_w st)"
  by (simp_all add: upd_pool_def upd_wk_def upd_worker_def cache_Invalidate_def)

lemma arg_decoded:
  "d (content (buf_at inb st)) = Inr (v, rest) \<Longrightarrow>
     arg inb d k st = k v (upd_pool (Pool_update inb (\<lambda>b. b\<lparr>Buf_r := Buf_w b - length rest\<rparr>)) st)"
  by (simp add: arg_def)

lemma buf_at_cache [simp]: "buf_at b (cache_Invalidate a h st) = buf_at b st"
  by (simp add: cache_Invalidate_def)

lemma wk_upd_wk: "wk b (upd_wk a f st) = (if b = a \<and> a < length (W_heap (st_w st)) then f (wk a st) else wk b st)"
  by (cases "a < length (W_heap (st_w st))") (auto simp: wk_def upd_wk_simps list_update_beyond)

lemma SessionID_cache [simp]: "Worker_SessionID (wk b (cache_Invalidate a h st)) = Worker_SessionID (wk b st)"
  by (simp add: cache_Invalidate_def wk_upd_wk)

lemma wk_keep [simp]: "wk b (upd_pool f st) = wk b st" "wk b (st\<lparr>st_w := (st_w st)\<lparr>W_fs := fs\<rparr>\<rparr>) = wk b st"
  by (simp_all add: wk_def upd_pool_def)

section \<open>WRITE\<close>

definition write_response :: "nat \<Rightarrow> go_error option \<Rightarrow> u64 \<Rightarrow> u32 \<times> bytes" where
  "write_response n err verf =
     (case err of
        Some e \<Rightarrow> (Err2Status (Some e), [])
      | None \<Rightarrow> (NFS4_OK, put_u32 (of_nat n) @ put_u32 FILE_SYNC4 @ put_u64 verf))"

lemma enc_WRITE4resok_eq:
  "EncodeAll [enc_WRITE4resok \<lparr>WRITE4resok_Count = c, WRITE4resok_Committed = k, WRITE4resok_WriteVerf = v\<rparr>] =
     (put_u32 c @ put_u32 k @ put_u64 v, None)"
  by (simp add: enc_WRITE4resok_def eUint32_def eUint64_def)

text \<open>The response to a write of \<open>f\<close> by worker \<open>a\<close>, from the file system of \<open>w\<close>.\<close>

definition write_reply :: "'fs Conn \<Rightarrow> nat \<Rightarrow> nat \<Rightarrow> WRITE4args \<Rightarrow> File \<Rightarrow> 'fs World \<Rightarrow> 'fs st \<Rightarrow> u32 \<Rightarrow> 'fs st \<Rightarrow> bool" where
  "write_reply m out a args f w st s st' \<longleftrightarrow>
     (\<exists>n err d. OpenFile_WriteAt (Conn_V m) (File_File f) (WRITE4args_Data args) (WRITE4args_Offset args) (W_fs w) =
          ((n, err), W_fs (st_w st')) \<and> write_response n err (Worker_SessionID (W_heap w ! a)) = (s, d) \<and>
        adds_response out OP4_WRITE s d st st')"

text \<open>A response without data; the file system is that of \<open>w\<close>.\<close>

definition refused :: "nat \<Rightarrow> u32 \<Rightarrow> u32 \<Rightarrow> 'fs World \<Rightarrow> 'fs st \<Rightarrow> u32 \<Rightarrow> 'fs st \<Rightarrow> bool" where
  "refused out op status w st s st' \<longleftrightarrow> s = status \<and> W_fs (st_w st') = W_fs w \<and> adds_response out op s [] st st'"

definition write_outcome ::
  "'fs Conn \<Rightarrow> nat \<Rightarrow> nat \<Rightarrow> WRITE4args \<Rightarrow> 'fs World \<Rightarrow> 'fs st \<Rightarrow> u32 \<Rightarrow> 'fs st \<Rightarrow> bool" where
  "write_outcome m out a args w st s st' \<longleftrightarrow>
     (if StateId4_SeqId (WRITE4args_StateId args) > 1 then refused out OP4_WRITE NFS4ERR_BAD_SEQID (st_w st) st s st'
      else case x_CurrentHandle (st_x st) of
        None \<Rightarrow> refused out OP4_WRITE NFS4ERR_NOFILEHANDLE (st_w st) st s st'
      | Some h \<Rightarrow> (case named_file st a h (WRITE4args_StateId args) of
            None \<Rightarrow> refused out OP4_WRITE NFS4ERR_BAD_SEQID w st s st'
          | Some f \<Rightarrow> write_reply m out a args f w st s st'))"

lemma wk_world: "wk a (st\<lparr>st_w := w\<rparr>) = W_heap w ! a"
  by (simp add: wk_def)

lemma Write_outcome:
  assumes g: "gets_worker m st a w" and wf: "wf_world (st_w st)"
    and args: "dec_WRITE4args (content (buf_at inb st)) = Inr (args, rest)"
    and io: "inb \<noteq> out" "fresh_out (buf_at out st)"
  shows "\<exists>s st'. Write m inb out st = Inr (Inr s, st') \<and> write_outcome m out a args w st s st'"
proof -
  have wfb: "wf_buf (buf_at out st)" using io(2) by (simp add: fresh_out_def)
  note eq = Write_def arg_decoded [of dec_WRITE4args, OF args] need_CurrentHandle_def with_FS_gets [OF g wf]
    gets_worker_kept [OF g wf] write_outcome_def refused_def adds_response_def response_eq
  show ?thesis
  proof (cases "StateId4_SeqId (WRITE4args_StateId args) > 1 \<or> x_CurrentHandle (st_x st) = None")
    case True
    then show ?thesis using io(1) wfb by (auto simp: eq)
  next
    case False
    then obtain h where h: "x_CurrentHandle (st_x st) = Some h" "\<not> StateId4_SeqId (WRITE4args_StateId args) > 1" by auto
    show ?thesis
    proof (cases "named_file st a h (WRITE4args_StateId args)")
      case None
      then show ?thesis using io(1) wfb h by (simp add: eq)
    next
      case (Some f)
      obtain n err fs' where wr: "OpenFile_WriteAt (Conn_V m) (File_File f) (WRITE4args_Data args) (WRITE4args_Offset args)
          (W_fs w) = ((n, err), fs')" by (metis prod.exhaust)
      show ?thesis using io(1) wfb Some h
        by (cases err) (simp_all add: eq fs_call_def wr write_response_def enc_WRITE4resok_eq Let_def write_reply_def wk_world)
    qed
  qed
qed

section \<open>READ\<close>

definition read_response :: "bytes \<Rightarrow> go_error option \<Rightarrow> u32 \<times> bytes" where
  "read_response dat err =
     (if (case err of None \<Rightarrow> False | Some e \<Rightarrow> \<not> errors_is e EOF) then (Err2Status err, [])
      else (NFS4_OK, fst (enc_READ4resok \<lparr>READ4resok_Eof = (err \<noteq> None), READ4resok_Data = dat\<rparr>)))"

definition read_reply :: "'fs Conn \<Rightarrow> nat \<Rightarrow> READ4args \<Rightarrow> File \<Rightarrow> 'fs World \<Rightarrow> 'fs st \<Rightarrow> u32 \<Rightarrow> 'fs st \<Rightarrow> bool" where
  "read_reply m out args f w st s st' \<longleftrightarrow>
     (\<exists>dat err d. OpenFile_ReadAt (Conn_V m) (File_File f) (unat (READ4args_Count args)) (READ4args_Offset args) (W_fs w) =
          ((dat, err), W_fs (st_w st')) \<and> read_response dat err = (s, d) \<and> adds_response out OP4_READ s d st st')"

definition read_outcome ::
  "'fs Conn \<Rightarrow> nat \<Rightarrow> nat \<Rightarrow> READ4args \<Rightarrow> 'fs World \<Rightarrow> 'fs st \<Rightarrow> u32 \<Rightarrow> 'fs st \<Rightarrow> bool" where
  "read_outcome m out a args w st s st' \<longleftrightarrow>
     (case x_CurrentHandle (st_x st) of
        None \<Rightarrow> refused out OP4_READ NFS4ERR_NOFILEHANDLE (st_w st) st s st'
      | Some h \<Rightarrow>
          if StateId4_SeqId (READ4args_StateId args) > 1 then refused out OP4_READ NFS4ERR_BAD_SEQID (st_w st) st s st'
          else (case named_file st a h (READ4args_StateId args) of
              None \<Rightarrow> refused out OP4_READ NFS4ERR_BAD_SEQID w st s st'
            | Some f \<Rightarrow> read_reply m out args f w st s st'))"

text \<open>The contract of \<^verbatim>\<open>io.ReaderAt\<close>, for a file and a request.\<close>

definition reader_ok :: "'fs Conn \<Rightarrow> READ4args \<Rightarrow> File \<Rightarrow> 'fs \<Rightarrow> bool" where
  "reader_ok m args f fs \<longleftrightarrow> length (fst (fst (OpenFile_ReadAt (Conn_V m) (File_File f) (unat (READ4args_Count args))
     (READ4args_Offset args) fs))) \<le> unat (READ4args_Count args)"

lemma Pool_Get_reply:
  "pool_inv held p \<Longrightarrow> out \<in> held \<Longrightarrow> Pool_Get p = (b, q) \<Longrightarrow> b \<noteq> out \<and> Pool_heap q out = Pool_heap p out \<and> wf_buf (Pool_heap q b)"
  by (auto simp: Pool_Get_def Pool_New_def pool_inv_def wf_buf_def split: list.splits)

lemma buf_at_pool_set: "b \<noteq> out \<Longrightarrow> buf_at out (upd_pool (\<lambda>_. Pool_update b f q) st) = Pool_heap q out"
  by (simp add: buf_at_def upd_pool_def Pool_update_def)

lemma Read_file:
  assumes g: "gets_worker m st a w" and wf: "wf_world (st_w st)"
    and args: "dec_READ4args (content (buf_at inb st)) = Inr (args, rest)" and q: "\<not> StateId4_SeqId (READ4args_StateId args) > 1"
    and h: "x_CurrentHandle (st_x st) = Some h" and io: "inb \<noteq> out" "fresh_out (buf_at out st)"
    and pool: "pool_inv held (W_pool (st_w st))" "out \<in> held" "inb \<in> held"
    and f: "named_file st a h (READ4args_StateId args) = Some f" "reader_ok m args f (W_fs w)"
  shows "\<exists>s st'. Read m inb out st = Inr (Inr s, st') \<and> read_reply m out args f w st s st'"
proof -
  let ?g = "Pool_update inb (\<lambda>b. b\<lparr>Buf_r := Buf_w b - length rest\<rparr>)"
  let ?st = "upd_pool ?g (st\<lparr>st_w := w\<rparr>)"
  note kept = gets_worker_kept [OF g wf]
  have wfb: "wf_buf (buf_at out st)" using io(2) by (simp add: fresh_out_def)
  obtain b p where get: "Pool_Get (W_pool (st_w ?st)) = (b, p)" by force
  have "pool_inv held (W_pool (st_w ?st))"
    using pool by (auto simp: pool_inv_def upd_pool_def Pool_update_def wf_buf_def kept)
  from Pool_Get_reply [OF this pool(2) get] have b: "b \<noteq> out" "Pool_heap p out = buf_at out st" "wf_buf (Pool_heap p b)"
    using io(1) by (simp_all add: kept buf_at_def upd_pool_def Pool_update_def)
  obtain room where al: "Buf_Allocate (int (unat (READ4args_Count args))) (Pool_heap p b) =
      Inr (room, Buf_Grow (Buf_w (Pool_heap p b) + unat (READ4args_Count args)) (Pool_heap p b))"
    "length room = unat (READ4args_Count args)"
    using Buf_Allocate_ok [OF b(3), of "int (unat (READ4args_Count args))"] by auto
  obtain dat err fs' where r: "OpenFile_ReadAt (Conn_V m) (File_File f) (unat (READ4args_Count args)) (READ4args_Offset args)
      (W_fs w) = ((dat, err), fs')" by (metis prod.exhaust)
  have len: "length dat \<le> unat (READ4args_Count args)" using f(2) r by (simp add: reader_ok_def)
  then have "fits32 dat" using unsigned_less [of "READ4args_Count args", where 'a = nat] by simp
  then have enc: "snd (EncodeAll [enc_READ4resok \<lparr>READ4resok_Eof = e, READ4resok_Data = dat\<rparr>]) = None"
    "fst (EncodeAll [enc_READ4resok \<lparr>READ4resok_Eof = e, READ4resok_Data = dat\<rparr>]) =
       fst (enc_READ4resok \<lparr>READ4resok_Eof = e, READ4resok_Data = dat\<rparr>)" for e
    by (simp_all add: EncodeAll_single ok_READ4resok_def)
  note eq = Read_def arg_decoded [of dec_READ4args, OF args] need_CurrentHandle_def h with_FS_gets [OF g wf] kept
  show ?thesis using q io(1) wfb f(1) b(1,2) len
    by (simp add: eq get [simplified] al(1) [simplified] al(2) fs_call_def r response_eq enc adds_response_def read_response_def
        Let_def read_reply_def buf_at_pool_set)
qed

lemma Read_outcome:
  assumes g: "gets_worker m st a w" and wf: "wf_world (st_w st)"
    and args: "dec_READ4args (content (buf_at inb st)) = Inr (args, rest)" and io: "inb \<noteq> out" "fresh_out (buf_at out st)"
    and pool: "pool_inv held (W_pool (st_w st))" "out \<in> held" "inb \<in> held"
    and reader: "\<And>h f. named_file st a h (READ4args_StateId args) = Some f \<Longrightarrow> reader_ok m args f (W_fs w)"
  shows "\<exists>s st'. Read m inb out st = Inr (Inr s, st') \<and> read_outcome m out a args w st s st'"
proof -
  have wfb: "wf_buf (buf_at out st)" using io(2) by (simp add: fresh_out_def)
  note eq = Read_def arg_decoded [of dec_READ4args, OF args] need_CurrentHandle_def with_FS_gets [OF g wf]
    gets_worker_kept [OF g wf] read_outcome_def refused_def adds_response_def response_eq
  consider (none) "x_CurrentHandle (st_x st) = None"
    | (stale) h where "x_CurrentHandle (st_x st) = Some h" "StateId4_SeqId (READ4args_StateId args) > 1"
    | (named) h where "x_CurrentHandle (st_x st) = Some h" "\<not> StateId4_SeqId (READ4args_StateId args) > 1"
    by (metis option.exhaust)
  then show ?thesis
  proof cases
    case (named h)
    show ?thesis
    proof (cases "named_file st a h (READ4args_StateId args)")
      case None
      then show ?thesis using io(1) wfb named by (simp add: eq)
    next
      case (Some f)
      from Read_file [OF g wf args named(2,1) io pool Some reader [OF Some]] show ?thesis using Some named by (simp add: read_outcome_def)
    qed
  qed (use io(1) wfb in \<open>simp_all add: eq\<close>)
qed

section \<open>ACCESS\<close>

text \<open>What the server takes the file to be: what it remembers of the handle, or what the file system says.\<close>

definition stat_of :: "'fs Conn \<Rightarrow> nat \<Rightarrow> FileHandle \<Rightarrow> 'fs World \<Rightarrow> go_error + FileInfo" where
  "stat_of m a h w =
     (case Cache_Get (W_now w) (FileHandle_Handle h) (Worker_Cache (W_heap w ! a)) of
        Some entry \<Rightarrow> Inr (Entry_FileInfo entry)
      | None \<Rightarrow> fst (vfs_Lstat (Conn_V m) (Worker_FS (W_heap w ! a)) (FileHandle_Path h) (W_fs w)))"

text \<open>The two words of the response, against the mode of the file and the bits asked for.\<close>

definition granted :: "u32 \<Rightarrow> u32 \<Rightarrow> u32 \<Rightarrow> u32 \<Rightarrow> bool" where
  "granted mode req supported acc \<longleftrightarrow> acc AND supported = acc \<and> supported AND req = supported \<and>
     (acc AND ACCESS4_READ \<noteq> 0 \<longleftrightarrow> req AND ACCESS4_READ \<noteq> 0 \<and> bit mode 8) \<and>
     (acc AND ACCESS4_MODIFY \<noteq> 0 \<longleftrightarrow> req AND ACCESS4_MODIFY \<noteq> 0 \<and> bit mode 7) \<and>
     (acc AND ACCESS4_EXECUTE \<noteq> 0 \<longleftrightarrow> req AND ACCESS4_EXECUTE \<noteq> 0 \<and> bit mode 6) \<and>
     (acc AND ACCESS4_LOOKUP \<noteq> 0 \<longleftrightarrow> req AND ACCESS4_LOOKUP \<noteq> 0 \<and> (bit mode 8 \<or> bit mode 6))"

definition access_outcome ::
  "'fs Conn \<Rightarrow> nat \<Rightarrow> nat \<Rightarrow> u32 \<Rightarrow> 'fs World \<Rightarrow> 'fs st \<Rightarrow> u32 \<Rightarrow> 'fs st \<Rightarrow> bool" where
  "access_outcome m out a req w st s st' \<longleftrightarrow>
     (case x_CurrentHandle (st_x st) of
        None \<Rightarrow> refused out OP4_ACCESS NFS4ERR_NOFILEHANDLE (st_w st) st s st'
      | Some h \<Rightarrow> (case stat_of m a h w of
            Inl e \<Rightarrow> s = Err2Status (Some e) \<and> adds_response out OP4_ACCESS s [] st st'
          | Inr fi \<Rightarrow> s = NFS4_OK \<and> (\<exists>supported acc. granted (fi_Mode fi) req supported acc \<and>
              adds_response out OP4_ACCESS s (put_u32 supported @ put_u32 acc) st st')))"

lemma and_swap: "(x AND y) AND z = (x AND z) AND (y :: u32)"
  by (simp add: ac_simps)

lemma access_granted_spec: "granted mode req (access_supported AND req) (access_granted mode AND req)"
proof -
  have "(access_granted mode AND req) AND (access_supported AND req) = access_granted mode AND req" using access_bounds by blast
  moreover have "(access_supported AND req) AND req = access_supported AND req" by (simp add: and.assoc)
  moreover have "access_granted mode AND ACCESS4_READ = (if bit mode 8 then ACCESS4_READ else 0)"
    "access_granted mode AND ACCESS4_MODIFY = (if bit mode 7 then ACCESS4_MODIFY else 0)"
    "access_granted mode AND ACCESS4_EXECUTE = (if bit mode 6 then ACCESS4_EXECUTE else 0)"
    "access_granted mode AND ACCESS4_LOOKUP = (if bit mode 8 \<or> bit mode 6 then ACCESS4_LOOKUP else 0)"
    by (cases "bit mode 8"; cases "bit mode 7"; cases "bit mode 6"; simp add: access_granted_cases)+
  ultimately show ?thesis
    unfolding granted_def and_swap [of "access_granted mode" req] by (auto simp: and.commute)
qed

lemma enc_ACCESS4resok_eq:
  "EncodeAll [enc_ACCESS4resok \<lparr>ACCESS4resok_Supported = x, ACCESS4resok_Access = y\<rparr>] = (put_u32 x @ put_u32 y, None)"
  by (simp add: enc_ACCESS4resok_def eUint32_def)

lemma buf_at_kept [simp]:
  "buf_at b (cache_Put a h path fi st) = buf_at b st" "buf_at b (DiscardOnServerFault a e st) = buf_at b st"
  "buf_at b (st\<lparr>st_w := (st_w st)\<lparr>W_fs := fs\<rparr>\<rparr>) = buf_at b st" "buf_at b (upd_wk a f st) = buf_at b st"
  by (simp_all add: cache_Put_def DiscardOnServerFault_def upd_wk_def upd_worker_def buf_at_def split: option.split)

lemma Access_outcome:
  assumes g: "gets_worker m st a w" and wf: "wf_world (st_w st)"
    and args: "dec_ACCESS4args (content (buf_at inb st)) = Inr (args, rest)" and io: "inb \<noteq> out" "fresh_out (buf_at out st)"
  shows "\<exists>s st'. Access m inb out st = Inr (Inr s, st') \<and> access_outcome m out a (ACCESS4args_Access args) w st s st'"
proof (cases "x_CurrentHandle (st_x st)")
  case None
  then show ?thesis
    using io by (simp add: Access_def arg_decoded [of dec_ACCESS4args, OF args] need_CurrentHandle_def access_outcome_def refused_def
        adds_response_def response_eq fresh_out_def)
next
  case (Some h)
  have wfb: "wf_buf (buf_at out st)" using io(2) by (simp add: fresh_out_def)
  note kept = gets_worker_kept [OF g wf]
  obtain r fs' where l: "vfs_Lstat (Conn_V m) (Worker_FS (W_heap w ! a)) (FileHandle_Path h) (W_fs w) = (r, fs')" by force
  let ?req = "ACCESS4args_Access args"
  have ok: "granted (fi_Mode fi) ?req (access_supported AND ?req) (access_granted (fi_Mode fi) AND ?req)" for fi
    by (rule access_granted_spec)
  note eq = Access_def arg_decoded [of dec_ACCESS4args, OF args] need_CurrentHandle_def Some with_FS_gets [OF g wf]
    stat_cached_def fs_call_def fs_failed_def wk_world stat_of_def kept access_outcome_def adds_response_def response_eq enc_ACCESS4resok_eq
  have now: "W_now (st_w (upd_pool f (st\<lparr>st_w := w\<rparr>))) = W_now w" for f by (simp add: upd_pool_def)
  show ?thesis
  proof (cases "Cache_Get (W_now w) (FileHandle_Handle h) (Worker_Cache (W_heap w ! a))")
    case (Some entry)
    then show ?thesis using ok [of "Entry_FileInfo entry"] io(1) wfb by (auto simp: eq now)
  next
    case None
    then show ?thesis using ok io(1) wfb by (cases r) (auto simp: eq now l)
  qed
qed

section \<open>Properties\<close>

lemma pre_facts:
  assumes "pre C st"
  shows "wf_world (st_w st)" "c_in C \<noteq> c_out C" "fresh_out (buf_at (c_out C) st)" "content (buf_at (c_out C) st) = c_pre C"
    "pool_inv (c_io C) (W_pool (st_w st))" "c_in C \<in> c_io C" "c_out C \<in> c_io C"
  using assms by (auto simp: pre_def ctx_inv_def world_inv_def bufs_ok_def intro: pool_inv_mono)

text \<open>C13: \<^verbatim>\<open>READ\<close> returns, in every state with the invariant of the server, for every request with complete arguments and every call that gets a
  worker, if the file keeps to the
  rules of \<^verbatim>\<open>io.ReaderAt\<close> (no more bytes than it was asked for). Without a current handle the response is
  \<^verbatim>\<open>NFS4ERR_NOFILEHANDLE\<close>. If the sequence number of the state identifier is at most one and it names an open file of the
  worker of the call whose handle is the current one, the file is read at the offset and for the number of bytes of the
  request, and the response has the bytes the file returned and the end of file mark, or the status of its error; what else the
  file system does is what the file did. Otherwise the response is \<^verbatim>\<open>NFS4ERR_BAD_SEQID\<close> and no file is touched.\<close>

theorem read_open_file:
  assumes "pre C st" and "gets_worker m st a w" and "dec_READ4args (content (buf_at (c_in C) st)) = Inr (args, rest)"
    and "\<forall>h f. named_file st a h (READ4args_StateId args) = Some f \<longrightarrow> reader_ok m args f (W_fs w)"
  shows "\<exists>s st'. doOperation m (c_in C) (c_out C) OP4_READ st = Inr (Inr s, st') \<and> read_outcome m (c_out C) a args w st s st'"
  using Read_outcome [OF assms(2) pre_facts(1) [OF assms(1)] assms(3) pre_facts(2,3,5,7,6) [OF assms(1)]] assms(4)
  by (simp add: doOperation_def handlers_def)

text \<open>C14: \<^verbatim>\<open>WRITE\<close> returns, in every state with the invariant of the server, for every request with complete arguments and every call that gets a
  worker. If the sequence number of
  the state identifier is above one the response is \<^verbatim>\<open>NFS4ERR_BAD_SEQID\<close>, else without a current handle it is
  \<^verbatim>\<open>NFS4ERR_NOFILEHANDLE\<close>. If the state identifier names an open file of the worker of the call and its handle
  is the current one, the data of the request is written to that file at the offset of the request, and the response has the number
  of bytes the file took and the verifier of the worker, or the status of the error; what else the file system does is what the file
  did. Otherwise the response is \<^verbatim>\<open>NFS4ERR_BAD_SEQID\<close> and no file is touched.\<close>

theorem write_open_file:
  assumes "pre C st" and "gets_worker m st a w" and "dec_WRITE4args (content (buf_at (c_in C) st)) = Inr (args, rest)"
  shows "\<exists>s st'. doOperation m (c_in C) (c_out C) OP4_WRITE st = Inr (Inr s, st') \<and> write_outcome m (c_out C) a args w st s st'"
  using Write_outcome [OF assms(2) pre_facts(1) [OF assms(1)] assms(3) pre_facts(2,3) [OF assms(1)]]
  by (simp add: doOperation_def handlers_def)

text \<open>C38: \<^verbatim>\<open>ACCESS\<close> returns, in every state with the invariant of the server, for every request with complete arguments and every call that gets a
  worker. Without a current handle the
  response is \<^verbatim>\<open>NFS4ERR_NOFILEHANDLE\<close>, and a file that cannot be looked at gives the status of the error. Else, of the two words
  of the response, the rights granted are among those supported, which are among those asked for; of the rights asked for,
  reading, modifying and executing are granted exactly by the owner's read, write and execute permission of the file, and
  looking up by read or execute permission.\<close>

theorem access_reply:
  assumes "pre C st" and "gets_worker m st a w" and "dec_ACCESS4args (content (buf_at (c_in C) st)) = Inr (args, rest)"
  shows "\<exists>s st'. doOperation m (c_in C) (c_out C) OP4_ACCESS st = Inr (Inr s, st') \<and>
    access_outcome m (c_out C) a (ACCESS4args_Access args) w st s st'"
  using Access_outcome [OF assms(2) pre_facts(1) [OF assms(1)] assms(3) pre_facts(2,3) [OF assms(1)]]
  by (simp add: doOperation_def handlers_def)

text \<open>A session with file 9 open, which is the current file.\<close>

definition demo_io :: "bytes \<Rightarrow> bytes st" where
  "demo_io req =
     \<lparr>st_x = (new_Compound zero_Auth 1 ''t'' 1 demo_creds)\<lparr>x_SessionID := replicate 16 2,
        x_CurrentHandle := Some \<lparr>FileHandle_Handle = [1], FileHandle_Path = ''/f''\<rparr>\<rparr>,
      st_w = demo_busy\<lparr>W_workers := [((replicate 16 2, 1000), 0)],
        W_pool := \<lparr>Pool_heap = (\<lambda>_. filled [])(1 := filled req), Pool_next = 3, Pool_bufs = []\<rparr>\<rparr>\<rparr>"

definition demo_io_ctx :: ctx where
  "demo_io_ctx = \<lparr>c_in = 1, c_out = 2, c_io = {1, 2}, c_uses = (\<lambda>_. 0), c_held = {}, c_x = st_x (demo_io []), c_pre = [],
     c_kept = Map.empty\<rparr>"

lemma demo_io_pre: "pre demo_io_ctx (demo_io req)"
proof -
  have "world_inv {1, 2} (\<lambda>_. 0) {} (st_w (demo_io req))"
    using demo_busy_idle
    by (auto simp: idle_def world_inv_def demo_io_def demo_busy_def demo_world_def wf_world_def wf_map_def bufs_ok_def table_bufs_def
        client_bufs_def pool_inv_def demo_client_def new_Client_def)
  then show ?thesis
    by (simp add: pre_def ctx_inv_def demo_io_ctx_def untouched_def) (simp add: demo_io_def buf_at_def)
qed

lemma demo_ids: "FileID (0, 9, 2) = 9" "worker_session demo_conn (replicate 16 2) = replicate 16 2"
  by code_simp+

text \<open>The world after the call got its worker.\<close>

definition demo_used :: "bytes \<Rightarrow> bytes World" where
  "demo_used req = upd_worker 0 (\<lambda>v. v\<lparr>Worker_inUse := 1, Worker_lastUse := 60 * Minute\<rparr>) (st_w (demo_io req))"

lemma demo_io_file:
  "gets_worker demo_conn (demo_io req) 0 (demo_used req)"
  "x_CurrentHandle (st_x (demo_io req)) = Some \<lparr>FileHandle_Handle = [1], FileHandle_Path = ''/f''\<rparr>"
  "named_file (demo_io req) 0 h \<lparr>StateId4_SeqId = 1, StateId4_Other = (0, 9, 2)\<rparr> = (if FileHandle_Handle h = [1] then Some demo_file else None)"
  "c_in demo_io_ctx = 1" "c_out demo_io_ctx = 2" "content (buf_at 1 (demo_io req)) = req" "content (buf_at 2 (demo_io req)) = []"
  "W_fs (demo_used req) = [104, 105]"
  by (simp_all add: gets_worker_def GetWorker_def Worker_Use_def upd_worker_def demo_used_def demo_io_def demo_busy_def demo_world_def
      Creds_Equal_def demo_worker_def demo_creds_def
      named_file_def table_of_def files_in_def demo_ids GetFile_def demo_file_def demo_io_ctx_def buf_at_def new_Compound_def)

text \<open>Eight bytes from the start of the file, which has two.\<close>

theorem read_open_file_witness:
  "\<exists>st'. doOperation demo_conn 1 2 OP4_READ (demo_io (concat (map put_u32 [1, 0, 9, 2, 0, 0, 8]))) = Inr (Inr NFS4_OK, st') \<and>
     content (buf_at 2 st') = concat (map put_u32 [OP4_READ, NFS4_OK, 1, 2]) @ [104, 105, 0, 0]"
proof -
  let ?req = "concat (map put_u32 [1, 0, 9, 2, 0, 0, 8])"
  let ?args = "\<lparr>READ4args_StateId = \<lparr>StateId4_SeqId = 1, StateId4_Other = (0, 9, 2)\<rparr>, READ4args_Offset = 0, READ4args_Count = 8\<rparr>"
  have d: "dec_READ4args ?req = Inr (?args, [])" by code_simp
  have f: "OpenFile_ReadAt (Conn_V demo_conn) (File_File demo_file) 8 0 [104, 105] = (([104, 105], Some (GoErr [EOF])), [104, 105])"
    by code_simp
  have r: "read_response [104, 105] (Some (GoErr [EOF])) = (NFS4_OK, concat (map put_u32 [1, 2]) @ [104, 105, 0, 0])" by code_simp
  have "reader_ok demo_conn ?args demo_file [104, 105]" by code_simp
  then have "\<forall>h g. named_file (demo_io ?req) 0 h (READ4args_StateId ?args) = Some g \<longrightarrow> reader_ok demo_conn ?args g (W_fs (demo_used ?req))"
    by (simp add: demo_io_file(3,8) del: One_nat_def)
  from read_open_file [OF demo_io_pre demo_io_file(1) _ this] show ?thesis using d f r
    by (auto simp: demo_io_file read_outcome_def read_reply_def adds_response_def simp del: One_nat_def)
qed

text \<open>A file that was opened for reading refuses the two bytes.\<close>

theorem write_open_file_witness:
  "\<exists>st'. doOperation demo_conn 1 2 OP4_WRITE (demo_io (concat (map put_u32 [1, 0, 9, 2, 0, 0, 2, 2]) @ [33, 33, 0, 0])) = Inr (Inr NFS4ERR_PERM, st') \<and>
     W_fs (st_w st') = [104, 105] \<and> content (buf_at 2 st') = concat (map put_u32 [OP4_WRITE, NFS4ERR_PERM])"
proof -
  let ?req = "concat (map put_u32 [1, 0, 9, 2, 0, 0, 2, 2]) @ [33, 33, 0, 0]"
  let ?args = "\<lparr>WRITE4args_StateId = \<lparr>StateId4_SeqId = 1, StateId4_Other = (0, 9, 2)\<rparr>, WRITE4args_Offset = 0, WRITE4args_Stable = 2,
      WRITE4args_Data = [33, 33]\<rparr>"
  have d: "dec_WRITE4args ?req = Inr (?args, [])" by code_simp
  obtain e where f: "OpenFile_WriteAt (Conn_V demo_conn) (File_File demo_file) [33, 33] 0 [104, 105] = ((0, Some e), [104, 105])"
    "Err2Status (Some e) = NFS4ERR_PERM"
    by (auto simp: demo_file_def Err2Status_def)
  show ?thesis
    using write_open_file [OF demo_io_pre demo_io_file(1), of ?req ?args "[]"] d f
    by (auto simp: demo_io_file write_outcome_def write_reply_def write_response_def adds_response_def simp del: One_nat_def)
qed

text \<open>All rights asked for.\<close>

theorem access_reply_witness:
  "\<exists>st' supported acc. doOperation demo_conn 1 2 OP4_ACCESS (demo_io (put_u32 63)) = Inr (Inr NFS4_OK, st') \<and>
     content (buf_at 2 st') = put_u32 OP4_ACCESS @ put_u32 NFS4_OK @ put_u32 supported @ put_u32 acc \<and>
     acc AND ACCESS4_READ \<noteq> 0 \<and> acc AND ACCESS4_MODIFY \<noteq> 0 \<and> acc AND ACCESS4_EXECUTE = 0"
proof -
  have d: "dec_ACCESS4args (put_u32 63) = Inr (\<lparr>ACCESS4args_Access = 63\<rparr>, [])" by code_simp
  have s: "stat_of demo_conn 0 \<lparr>FileHandle_Handle = [1], FileHandle_Path = ''/f''\<rparr> (demo_used (put_u32 63)) = Inr (demo_info ''/f'' [104, 105])"
    by (simp add: stat_of_def Cache_Get_def demo_used_def upd_worker_def demo_io_def demo_busy_def demo_worker_def demo_conn_def demo_vfs_def
        demo_world_def)
  have "bit (fi_Mode (demo_info ''/f'' [104, 105])) 8" "bit (fi_Mode (demo_info ''/f'' [104, 105])) 7"
    "\<not> bit (fi_Mode (demo_info ''/f'' [104, 105])) 6"
    by code_simp+
  then show ?thesis
    using access_reply [OF demo_io_pre demo_io_file(1), of "put_u32 63" "\<lparr>ACCESS4args_Access = 63\<rparr>" "[]"] d s
    by (auto simp: demo_io_file access_outcome_def granted_def adds_response_def simp del: One_nat_def)
qed

end
