(* ===== verification/FileOwner.thy ===== *)
theory FileOwner
  imports FileTable WorkerSteps
begin

text \<open>
  Who may change the open files. Between any two states of the server, whatever else its connections do, the row of a worker in
  the table of open files changes only through an operation of a call of its own session and user or through its clean-up.
\<close>

section \<open>The steps of a call\<close>

definition rows_kept :: "(nat \<Rightarrow> bool) \<Rightarrow> 'fs World \<Rightarrow> 'fs World \<Rightarrow> bool" where
  "rows_kept Q w w' \<longleftrightarrow> (\<forall>b < length (W_heap w). Q b \<or> files_in w' b = files_in w b)"

lemma files_in_heap: "W_heap w' = W_heap w \<Longrightarrow> files_in w' = files_in w"
  by (simp add: files_in_def fun_eq_iff)

lemma rows_kept_heap: "W_heap w' = W_heap w \<Longrightarrow> rows_kept Q w w'"
  by (drule files_in_heap) (simp add: rows_kept_def)

lemma rows_kept_cong: "rows_kept Q w w1 \<Longrightarrow> W_heap w2 = W_heap w1 \<Longrightarrow> rows_kept Q w w2"
  by (drule files_in_heap) (simp add: rows_kept_def)

lemma staff_rows: "staff w1 = staff w2 \<Longrightarrow> W_heap w1 = W_heap w2"
  by (simp add: staff_def)

lemma heap_simps [simp]: "W_heap (w_pool f w) = W_heap w" "W_workers (w_pool f w) = W_workers w" "wf_world (w_pool f w) = wf_world w"
  by (simp_all add: wf_world_def w_pool_def)

lemma files_in_pool [simp]: "files_in (w_pool f w) = files_in w"
  by (rule files_in_heap) simp

text \<open>The worker of a call, by the credentials in its header; it has no session yet.\<close>

definition first_worker :: "'fs Conn \<Rightarrow> RPCMsgCall \<Rightarrow> 'fs World \<Rightarrow> nat \<Rightarrow> bool" where
  "first_worker m hdr w b \<longleftrightarrow>
     (case Authenticate (RPCMsgCall_Cred hdr) (RPCMsgCall_Verf hdr) of
        Inl _ \<Rightarrow> False
      | Inr (resp, creds) \<Rightarrow> mget (W_workers w) (worker_session m zero_SessionID, Creds_UID creds) = Some b)"

lemma begin_call_rows:
  assumes "wf_world w" and "begin_call m hdr data w = Inr (c, w')"
  shows "rows_kept (first_worker m hdr w) w w'"
  using assms(2)
proof (cases rule: begin_call_cases)
  case kept
  then show ?thesis by (intro rows_kept_heap staff_rows)
next
  case (operation resp creds x f out op r1 st')
  let ?st = "\<lparr>st_x = x, st_w = w_pool f w\<rparr>"
  have "serves m ?st = first_worker m hdr w"
    using operation(1-3) by (simp add: serves_def first_worker_def fun_eq_iff)
  then have "rows_kept (first_worker m hdr w) w (st_w st')"
    using doOperation_others [OF _ operation(4)] assms(1) by (simp add: rows_kept_def table_of_def)
  then show ?thesis using staff_rows [OF operation(5)] by (rule rows_kept_cong)
qed

lemma task_next_rows:
  assumes "wf_world w" and "task_next m T w = Inr (c, w')"
  shows "rows_kept (serves m \<lparr>st_x = T_x T, st_w = w\<rparr>) w w'"
  using assms(2)
proof (cases rule: task_next_cases)
  case kept
  then show ?thesis by (intro rows_kept_heap staff_rows)
next
  case (operation r1 st')
  have "rows_kept (serves m \<lparr>st_x = T_x T, st_w = w\<rparr>) w (st_w st')"
    using Operation_others [OF _ operation(1)] assms(1) by (simp add: rows_kept_def table_of_def)
  then show ?thesis using staff_rows [OF operation(2)] by (rule rows_kept_cong)
qed

section \<open>The steps of the server\<close>

fun caller :: "'fs Conn \<Rightarrow> job \<Rightarrow> 'fs World \<Rightarrow> nat \<Rightarrow> bool" where
  "caller m (Handling (hdr, data)) w b = first_worker m hdr w b"
| "caller m (Executing req T) w b = serves m \<lparr>st_x = T_x T, st_w = w\<rparr> b"
| "caller m (Answering a) w b = False"

text \<open>A call among those of its connection takes a step.\<close>

definition job_moves :: "'fs Conn \<Rightarrow> Pipe \<Rightarrow> 'fs World \<Rightarrow> Pipe \<Rightarrow> nat \<Rightarrow> bool" where
  "job_moves m P w P' b \<longleftrightarrow> (\<exists>xs j j' ys. P_jobs P = xs @ j # ys \<and> P_jobs P' = xs @ j' # ys \<and> caller m j w b)"

lemma job_moves_caller: "P_jobs P = xs @ j # ys \<Longrightarrow> caller m j w b \<Longrightarrow> job_moves m P w (P\<lparr>P_jobs := xs @ j' # ys\<rparr>) b"
  unfolding job_moves_def by fastforce

lemma rows_kept_mono: "rows_kept Q w w' \<Longrightarrow> (\<And>b. Q b \<Longrightarrow> R b) \<Longrightarrow> rows_kept R w w'"
  by (auto simp: rows_kept_def)

lemma serves_reslot: "reslot T T' \<Longrightarrow> serves m \<lparr>st_x = T_x T', st_w = w\<rparr> = serves m \<lparr>st_x = T_x T, st_w = w\<rparr>"
  by (auto simp: reslot_def serves_def fun_eq_iff)

lemma mux_rows:
  assumes "mux_step m P w P' w'" and "wf_world w"
  shows "rows_kept (job_moves m P w P') w w'"
  using assms(1)
proof cases
  case (handle xs hdr data ys c)
  have "rows_kept (caller m (Handling (hdr, data)) w) w w'"
    by (rule rows_kept_mono [OF begin_call_rows [OF assms(2) handle(3)]]) simp
  then show ?thesis unfolding handle(1) by (rule rows_kept_mono) (rule job_moves_caller [OF handle(2)])
next
  case (operation xs req T ys T' c)
  have "rows_kept (caller m (Executing req T) w) w w'"
    by (rule rows_kept_mono [OF task_next_rows [OF assms(2) operation(5)]]) (simp add: serves_reslot [OF operation(3)])
  then show ?thesis unfolding operation(1) by (rule rows_kept_mono) (rule job_moves_caller [OF operation(2)])
next
  case (complete xs req T ys T' c)
  have "rows_kept (caller m (Executing req T) w) w w'"
    by (rule rows_kept_mono [OF task_next_rows [OF assms(2) complete(5)]]) (simp add: serves_reslot [OF complete(3)])
  then show ?thesis unfolding complete(1) by (rule rows_kept_mono) (rule job_moves_caller [OF complete(2)])
qed (simp_all add: rows_kept_heap)

lemma conn_rows:
  assumes "conn_step m P w P' w'" and "wf_world w"
  shows "rows_kept (job_moves m P w P') w w'"
  using assms(1)
proof cases
  case receive
  then have "W_heap w' = W_heap w" by cases auto
  then show ?thesis by (rule rows_kept_heap)
next
  case send
  then have "W_heap w' = W_heap w" by cases auto
  then show ?thesis by (rule rows_kept_heap)
next
  case mux
  then show ?thesis using assms(2) by (rule mux_rows)
qed (simp_all add: rows_kept_heap)

lemma files_in_update:
  assumes "W_heap w' = (W_heap w)[a := v]" and "Worker_Files v = Worker_Files (W_heap w ! a)"
  shows "files_in w' = files_in w"
proof (intro ext)
  fix b i show "files_in w' b i = files_in w b i"
    using assms by (cases "b = a") (simp_all add: files_in_def GetFile_def)
qed

lemma background_rows:
  assumes "background_step w w'"
  shows "rows_kept (\<lambda>b. Worker_pending (W_heap w ! b) > 0) w w'"
  using assms
proof cases
  case (cleanup a m)
  have "files_in (run_cleanup m a w) b = files_in w b" if "b \<noteq> a" for b
    using that by (auto simp: files_in_def run_cleanup_def fun_eq_iff split: prod.splits)
  then show ?thesis using cleanup unfolding rows_kept_def by metis
next
  case (idle_worker a mustDiscard)
  have "Worker_Files (Worker_autoDiscard mustDiscard (W_now w) v) = Worker_Files v" for v
    by (simp add: Worker_autoDiscard_def Worker_Discard_def Let_def)
  then have "files_in w' = files_in w" unfolding idle_worker
    by (intro files_in_update [of _ w a "Worker_autoDiscard mustDiscard (W_now w) (W_heap w ! a)"]) (simp_all add: upd_worker_def)
  then show ?thesis by (simp add: rows_kept_def)
next
  case (listers a V v fs')
  then have "Worker_Files v = Worker_Files (W_heap w ! a)" by (auto simp: cleanupListers_def split: if_splits prod.splits)
  then have "files_in w' = files_in w" unfolding listers(1) by (intro files_in_update [of _ w a v]) simp_all
  then show ?thesis by (simp add: rows_kept_def)
qed (simp_all add: rows_kept_heap)

text \<open>The table of workers leads to workers, in every state the server reaches.\<close>

lemma background_wf: "wf_world w \<Longrightarrow> background_step w w' \<Longrightarrow> wf_world w'"
  by (erule background_step.cases) (auto simp: wf_world_def upd_worker_def run_cleanup_def split: prod.splits)

interpretation registered: worker_property wf_world
proof unfold_locales
  fix m inb out op r and st st' :: "'a st"
  assume "wf_world (st_w st)" "doOperation m inb out op st = Inr (r, st')"
  from doOperation_others [OF this] show "wf_world (st_w st')" by (simp add: same_server_def)
next
  fix w w' :: "'a World" assume "wf_world w" "staff w' = staff w"
  then show "wf_world w'" by (simp add: staff_def wf_world_def)
qed (rule background_wf)

lemma workers_registered: "reach server_start server_step S \<Longrightarrow> wf_world (S_world S)"
  by (induction rule: reach.induct) (auto simp: server_start_def wf_world_def [of "S_world _"] wf_map_def dest: registered.server_step_keeps)

section \<open>Properties\<close>

text \<open>C10: Only its owner changes what a worker has open. Whatever step the server takes, on any of its connections or in the
  background, in any state whose table of workers leads to workers, as it does in every state the server reaches: if the open
  files of a worker change, then the step was one of a call for which that worker is registered, by the session and the user of
  the call, or the clean-up of the worker was due.\<close>

theorem files_changed_by_owner:
  assumes "wf_world (S_world S)" and "server_step S S'" and "b < length (W_heap (S_world S))"
    and "files_in (S_world S') b \<noteq> files_in (S_world S) b"
  shows "(\<exists>i m P P'. i < length (S_conns S) \<and> S_conns S ! i = (m, P) \<and> S_conns S' = (S_conns S)[i := (m, P')] \<and>
      job_moves m P (S_world S) P' b) \<or> Worker_pending (W_heap (S_world S) ! b) > 0"
  using assms(2)
proof cases
  case accept
  then show ?thesis using assms(4) by simp
next
  case (conn i m P P' w')
  from conn_rows [OF conn(4) assms(1)] have "job_moves m P (S_world S) P' b" using assms(3,4) conn(1) by (auto simp: rows_kept_def)
  then show ?thesis using conn(1-3) by (intro disjI1 exI [of _ i] exI [of _ m] exI [of _ P] exI [of _ P']) simp
next
  case (background w')
  from background_rows [OF background(2)] show ?thesis using assms(3,4) background(1) by (auto simp: rows_kept_def)
qed

text \<open>A worker that was discarded is cleaned up; its file goes.\<close>

definition demo_leaving :: "bytes ServerState" where
  "demo_leaving = \<lparr>S_world = demo_busy\<lparr>W_heap := map (\<lambda>v. v\<lparr>Worker_discarded := True, Worker_pending := 1\<rparr>) (W_heap demo_busy)\<rparr>,
     S_conns = []\<rparr>"

theorem files_changed_by_owner_witness:
  "\<exists>S'. server_step demo_leaving S' \<and> files_in (S_world demo_leaving) 0 9 = Some demo_file \<and> files_in (S_world S') 0 9 = None \<and>
     Worker_pending (W_heap (S_world demo_leaving) ! 0) > 0"
proof -
  let ?w = "S_world demo_leaving"
  let ?S = "demo_leaving\<lparr>S_world := run_cleanup demo_conn 0 ?w\<rparr>"
  have inv: "wf_world ?w" by (simp add: demo_leaving_def wf_world_def wf_map_def demo_busy_def demo_world_def)
  have f: "0 < length (W_heap ?w)" "files_in ?w 0 9 = Some demo_file" "files_in (S_world ?S) 0 9 = None" by code_simp+
  have "0 < Worker_pending (W_heap ?w ! 0)" by (simp add: demo_leaving_def demo_busy_def)
  then have step: "server_step demo_leaving ?S" by (intro server_step.background background_step.cleanup f(1))
  have "files_in (S_world ?S) 0 \<noteq> files_in ?w 0" using f(2,3) by auto
  from files_changed_by_owner [OF inv step f(1) this] show ?thesis using step f(2,3) by (auto simp: demo_leaving_def)
qed

end
