(* ===== verification/Spec2Isabelle.thy ===== *)
theory Spec2Isabelle
  imports Sequence CoderEq Serve Failure DataPath FileOwner
begin

text \<open>
  Verification of \<^verbatim>\<open>nfs4go\<close>, a server for NFS 4.0 and 4.1 written in Go. The server accepts TCP connections, reads
  remote procedure calls from them, executes the compounds of file operations the calls hold against a virtual
  file system, and answers. It keeps a table of clients with their sessions, one worker per session and user that
  owns the user's open files, and a pool of buffers that calls, replies and session slots share.

  \<^bold>\<open>Parts of the program and their theories\<close>, in the order of their dependencies. A definition has the name
  of the Go function it translates, with the type in front where the name alone would be ambiguous.

  \<^item> \<open>Prelude\<close>: Go integers as words of their width, strings, maps as association lists, errors as sentinel
    lists (\<^verbatim>\<open>errors.Is\<close>), the outcomes of a call (\<open>'a go\<close>: a value, \<open>Panic\<close> or \<open>Hang\<close>), reachability (\<open>reach\<close>) and the
    locale \<open>transition_invariant\<close> by which all state machines below prove their invariants.
  \<^item> \<open>Xdr\<close>: \<^verbatim>\<open>xdr/encoder.go\<close>, \<^verbatim>\<open>xdr/decoder.go\<close>, \<^verbatim>\<open>xdr/pad.go\<close>. A decoder maps bytes to a value and the rest, an encoder a
    value to bytes and an optional error. The locale \<open>xdr_codec\<close> is the contract of a pair of them (what is encoded
    decodes, whatever follows; a decoder reads a prefix only); every message type interprets it.
  \<^item> \<open>Reflect\<close>: the part of the coder that walks Go types, with a round trip over all types. \<open>Generate\<close>:
    \<^verbatim>\<open>xdr/generate/generate.go\<close>, from syntax trees to the text of the generated methods. \<open>Coder\<close>: the type switches of
    \<^verbatim>\<open>Decode\<close> and \<^verbatim>\<open>Encode\<close>, with the generated methods of the structs that have them. \<open>CoderEq\<close>: that these methods
    do what reflection does. A type is a finite tree there: the linked list \<^verbatim>\<open>Entry4\<close> is in \<open>MsgRes\<close> only.
  \<^item> \<open>MsgBase\<close>, \<open>MsgArgs\<close>, \<open>MsgRes\<close>: \<^verbatim>\<open>msg/structs.go\<close>, \<^verbatim>\<open>msg/rpc.go\<close> and their generated coders. \<open>Msg\<close>: operation
    numbers and \<^verbatim>\<open>Err2Status\<close>.
  \<^item> \<open>Bufpool\<close>: \<^verbatim>\<open>bufpool/\<close>. A buffer is its bytes and two positions; the pool is a list of addresses over a heap,
    so that aliasing (two owners of one buffer) can be stated. \<open>pool_inv held p\<close> says who owns what.
  \<^item> \<open>Auth\<close>: \<^verbatim>\<open>auth/authenticate.go\<close>. \<open>Clock\<close>: \<^verbatim>\<open>clock/\<close>. \<open>CtxReader\<close>: \<^verbatim>\<open>context.go\<close>. \<open>Clients\<close>: \<^verbatim>\<open>clients/\<close>, with the
    table as a state machine. \<open>Bitmap\<close>: \<^verbatim>\<open>bitmap4.go\<close>, \<^verbatim>\<open>fileid.go\<close>. \<open>Attrs\<close>: \<^verbatim>\<open>attrs.go\<close>. \<open>Vfs\<close>: the interface to the file system. \<open>Worker\<close>: \<^verbatim>\<open>worker/\<close>.
  \<^item> \<open>Server\<close>: the shared state (\<open>World\<close>: file system, clients, pool, workers, time, random source) and
    \<^verbatim>\<open>GetWorker\<close> of \<^verbatim>\<open>server.go\<close>.
  \<^item> \<open>Compound\<close>, \<open>ClientOps\<close>, \<open>FileOps\<close>, \<open>OpenOps\<close>, \<open>Mux\<close>: \<^verbatim>\<open>mux_v4.go\<close>; the context of a compound, every operation
    handler with all its branches, and \<^verbatim>\<open>Run\<close>, \<^verbatim>\<open>RunSequence\<close>, \<^verbatim>\<open>doOperation\<close> that dispatch to them.
  \<^item> \<open>Rpc\<close>: \<^verbatim>\<open>rpc.go\<close>, \<^verbatim>\<open>mux_wrong.go\<close>, the procedures of \<^verbatim>\<open>mux_v4.go\<close> and \<^verbatim>\<open>ServeLinear\<close>.
  \<^item> \<open>Invariant\<close>, \<open>OpsInv\<close>, \<open>OpenInv\<close>, \<open>RunInv\<close>, \<open>System\<close>: the invariant \<open>world_inv\<close> of the shared state and that every
    operation handler, every compound, every call and every background goroutine keeps it.
  \<^item> \<open>OpRules\<close>: the locale \<open>operation_rules\<close>, one rule per move of an operation and one lemma per handler, for properties that
    hold of all operations. \<open>Failure\<close> instantiates it with the context of the compound, \<open>FileTable\<close> with an abstract table of
    open files, a row per worker. \<open>DataPath\<close>: \<^verbatim>\<open>READ\<close> and \<^verbatim>\<open>WRITE\<close> on that table, and \<^verbatim>\<open>ACCESS\<close>, on every branch. \<open>WorkerSteps\<close>: the
    locale \<open>worker_property\<close>, which takes a property of the workers from the operations to all steps of the server. \<open>WaitGroup\<close> instantiates
    both with the workers' share of the wait group; \<open>FileOwner\<close>: which steps of the whole server change a row.
  \<^item> \<open>Sequence\<close>: the session slots of NFS 4.1 against an abstract slot.
  \<^item> \<open>Task\<close>, \<open>TaskInv\<close>: a call in steps of one operation, which uninterrupted are \<^verbatim>\<open>Handle\<close>, and what each step
    keeps and leaves alone.
  \<^item> \<open>Pipeline\<close>, \<open>PipeInv\<close>: \<^verbatim>\<open>conn.go\<close>; the goroutines of a connection with their channels as a step relation, and its
    invariant. \<open>Service\<close>: any number of connections interleaved over the shared state. \<open>Serve\<close>: \<^verbatim>\<open>Serve\<close>, \<^verbatim>\<open>HandleTrap\<close>
    and \<^verbatim>\<open>Close\<close> of \<^verbatim>\<open>server.go\<close>; the accept loop, the wait group and the shutdown, over the connections of \<open>Service\<close>. The wait group of
    the code is one counter: \<open>server_wg\<close> is the sum of \<open>V_wg\<close>, for the goroutines \<^verbatim>\<open>Serve\<close> starts, and \<open>W_wg\<close>, for the workers
    \<^verbatim>\<open>GetWorker\<close> makes.

  \<^bold>\<open>What is shown.\<close> Codecs: round trips for all messages, attributes and bitmaps, and exactly when encoding panics;
  the generator covers every field of a struct, once, and its output agrees with reflection.
  Client table: who may register, confirm and remove a client; sessions; expiry; well-formedness of every reachable
  table. Workers: isolation between credentials, clean-up exactly once, the file table and the handle cache.
  Compounds: the reply of a compound is a header with the right count and status followed by the responses, in order,
  up to the first fatal status; an operation that fails leaves the context as it was, and if its status is not a fatal one the
  compound goes on. Open files: every operation is a step of the abstract table (\<^verbatim>\<open>OPEN\<close> enters a file, \<^verbatim>\<open>CLOSE\<close> removes one,
  the others keep the table), a compound changes the row of its own session and user only, on the whole server a row changes only through calls of its owner or
  the clean-up of the worker, and \<^verbatim>\<open>READ\<close> and \<^verbatim>\<open>WRITE\<close> reach exactly
  the file the table has for their state identifier. \<^verbatim>\<open>RunSequence\<close> refines an abstract slot that refuses, replays or executes. The whole
  server: in every reachable state, under every interleaving of operations, a client is busy with exactly its open files,
  no buffer has two owners, compounds do not touch each other's replies, every call is answered once, with the bytes
  its handler left, or is in one stage of its connection (all this as long as no reply is copied for a session that is gone, see
  below), channels do not deadlock, a connection ends once its
  peer is done, and \<^verbatim>\<open>Serve\<close> returns after its context has ended, leaving no connection, no worker and no open file behind.

  \<^bold>\<open>Modelling decisions.\<close>
  \<^item> Loops are structural recursions or have a termination proof. The two loops that may not end (the search
    for an unused random identifier, \<^verbatim>\<open>io.ReadFull\<close> on a buffer) yield \<open>Hang\<close>: the search reads from the finite list
    of random draws in the state, and hangs when it is used up; one unused draw is shown to be enough. A
    read past the end of a buffer is shown never to return. Out of range accesses and nil dereferences are
    \<open>Panic\<close>.
  \<^item> The file system, \<^verbatim>\<open>crypto/md5\<close> and the random source are parameters: records of functions over an abstract
    state, of which nothing is assumed but what a theorem says.
  \<^item> An operation of a compound is one step; a call takes one up to its first operation, one per operation, and one
    that completes the reply. The code lets handlers run in parallel and protects tables, workers and pool with locks;
    interleavings inside an operation are not modelled, those between operations are.
  \<^item> A compound holds a pointer to its slot. What other compounds do to the slot meanwhile is covered (\<open>reslot\<close>);
    the session may also be destroyed or expire before the reply is copied to the slot (\<open>\<not> keep_ok\<close>). The code then writes the
    reply into a buffer that is back in the pool, and so does the step relation. Such a step (\<open>stale_reply\<close>) breaks the ownership of buffers:
    what rests on that is stated of the runs without one, those of \<open>sound_step\<close>, and says so (\<open>open_files_accounted\<close>,
    \<open>buffers_owned\<close>, \<open>compounds_isolated\<close>, \<open>calls_answered\<close>). That calls are accounted for and replies flushed, that connections and the server come
    to an end, and who changes the files of a worker hold of all runs of \<open>server_step\<close>.
  \<^item> A connection's input is the finite stream of bytes the peer sends before it closes. Its output is what has been
    written, with the split between buffer and network left open, as the buffered writer may flush at any write.
  \<^item> A read through a context records what the reader below delivered (\<open>R_delivered\<close>), for the statement only. The values of
    attributes are checked against the protocol's types by \<open>wire_ok\<close>, and against the file by \<open>describe\<close>, which are specifications and
    not code.
  \<^item> The order in which Go iterates over a map is the order of an association list, which is arbitrary;
    results that depend on it are not claimed.

  \<^bold>\<open>Not modelled.\<close> \<^verbatim>\<open>Listen\<close>, which opens a socket; logging, and the \<^verbatim>\<open>String\<close>
  methods and \<^verbatim>\<open>bitmapString\<close> it uses; floats in the reflective coder, which no message has (they pass through \<^verbatim>\<open>float64\<close>
  there, and what becomes of a signalling NaN is up to the machine); the constants of the callback program, which the server
  does not have; the parsing of Go source before the generator, and the example command.
\<close>

end
